(* ===== verification/Sigar_Prelude.thy ===== *)
theory Sigar_Prelude
  imports Main "HOL-Library.Word" "HOL-Library.Monad_Syntax" "HOL-Library.Code_Target_Nat"
begin

unbundle bit_operations_syntax

text \<open>
  Shared vocabulary of the development: the integer widths of an LP64 build
  (\<open>include/sigar.h\<close>), the status codes every entry point returns, C strings as character
  lists with the parts of \<open>ctype.h\<close>, \<open>string.h\<close> and \<open>stdlib.h\<close> the sources use, and the
  generic lemmas on lists, options and strings that the component theories rest on.

  A C string is the list of its bytes before the terminating NUL, so a list that models a
  string never contains the NUL byte itself; a pointer into a string is the suffix it
  points at, and a NULL result is \<open>None\<close>. A computation that may be undefined
  behaviour in C (a NULL dereference, an array index out of range) is an \<open>option\<close> whose
  \<open>None\<close> stands for the undefined case.
\<close>

section \<open>Collections of facts\<close>

named_theorems c_string \<open>string.h and ctype.h facts\<close>
named_theorems c_number \<open>facts about number parsing and printing\<close>

section \<open>Types and status codes\<close>

type_synonym uint64 = "64 word"
type_synonym uint32 = "32 word"
type_synonym uint16 = "16 word"
type_synonym status = int
type_synonym 'a ub = "'a option"

abbreviation (input) SIGAR_OK :: status where "SIGAR_OK \<equiv> 0"
abbreviation (input) SIGAR_ENOTIMPL :: status where "SIGAR_ENOTIMPL \<equiv> 20001"
abbreviation (input) SIGAR_START_ERROR :: status where "SIGAR_START_ERROR \<equiv> 20000"
abbreviation (input) SIGAR_OS_START_ERROR :: status where "SIGAR_OS_START_ERROR \<equiv> 40000"
abbreviation (input) ENOENT :: status where "ENOENT \<equiv> 2"
abbreviation (input) ESRCH :: status where "ESRCH \<equiv> 3"
abbreviation (input) ENXIO :: status where "ENXIO \<equiv> 6"
abbreviation (input) ENOMEM :: status where "ENOMEM \<equiv> 12"
abbreviation (input) EINVAL :: status where "EINVAL \<equiv> 22"

text \<open>\<open>SIGAR_FIELD_NOTIMPL\<close> is the literal -1, so in a 64-bit unsigned field it is the
  largest value.\<close>

abbreviation (input) SIGAR_FIELD_NOTIMPL :: uint64 where "SIGAR_FIELD_NOTIMPL \<equiv> - 1"

text \<open>Reading an array cell: out of range is undefined behaviour.\<close>

definition cell :: "'a list \<Rightarrow> nat \<Rightarrow> 'a ub" where
  "cell xs i = (if i < length xs then Some (xs ! i) else None)"

lemma cell_Some_iff: "cell xs i = Some x \<longleftrightarrow> i < length xs \<and> xs ! i = x"
  by (auto simp: cell_def)

lemma cell_None_iff: "cell xs i = None \<longleftrightarrow> length xs \<le> i"
  by (auto simp: cell_def)

lemma cell_Nil [simp]: "cell [] i = None"
  by (simp add: cell_def)

lemma cell_Cons_0 [simp]: "cell (x # xs) 0 = Some x"
  by (simp add: cell_def)

lemma cell_Cons_Suc [simp]: "cell (x # xs) (Suc i) = cell xs i"
  by (simp add: cell_def)

lemma cell_Cons_numeral [simp]: "cell (x # xs) (numeral n) = cell xs (numeral n - 1)"
  by (simp add: cell_def nth_Cons')

lemma find_append:
  "List.find P (xs @ ys) = (case List.find P xs of None \<Rightarrow> List.find P ys | Some x \<Rightarrow> Some x)"
  by (induction xs) auto

section \<open>Characters\<close>

text \<open>\<open>ctype.h\<close> in the C locale, on the unsigned value of the byte.\<close>

definition isspace :: "char \<Rightarrow> bool" where
  "isspace c = (let n = (of_char c :: nat) in n = 32 \<or> (9 \<le> n \<and> n \<le> 13))"

definition isdigit :: "char \<Rightarrow> bool" where
  "isdigit c = (let n = (of_char c :: nat) in 48 \<le> n \<and> n \<le> 57)"

definition isupper :: "char \<Rightarrow> bool" where
  "isupper c = (let n = (of_char c :: nat) in 65 \<le> n \<and> n \<le> 90)"

definition tolower :: "char \<Rightarrow> char" where
  "tolower c = (if isupper c then char_of ((of_char c :: nat) + 32) else c)"

definition digit_char :: "nat \<Rightarrow> char" where
  "digit_char d = char_of (48 + d)"

lemma of_char_digit_char [simp, c_number]: "d < 10 \<Longrightarrow> of_char (digit_char d) = (48 + d :: nat)"
  by (simp add: digit_char_def)

lemma isdigit_digit_char [simp, c_number]: "d < 10 \<Longrightarrow> isdigit (digit_char d)"
  by (simp add: isdigit_def)

lemma isdigit_not_isspace: "isdigit c \<Longrightarrow> \<not> isspace c"
  by (auto simp: isdigit_def isspace_def Let_def)

lemma of_char_lt_256: "(of_char c :: nat) < 256"
  using nat_of_char_less_256 by simp

section \<open>Strings\<close>

fun skip_space :: "string \<Rightarrow> string" where
  "skip_space [] = []"
| "skip_space (c # cs) = (if isspace c then skip_space cs else c # cs)"

fun skip_word :: "string \<Rightarrow> string" where
  "skip_word [] = []"
| "skip_word (c # cs) = (if isspace c then c # cs else skip_word cs)"

text \<open>\<open>strchr\<close>: the suffix from the first occurrence on.\<close>

fun strchr :: "string \<Rightarrow> char \<Rightarrow> string option" where
  "strchr [] x = None"
| "strchr (c # cs) x = (if c = x then Some (c # cs) else strchr cs x)"

text \<open>The idiom \<open>if ((ptr = strchr(s, x))) *ptr++ = 0\<close>: what \<open>s\<close> is afterwards, and the
  rest after the separator.\<close>

fun split_at :: "char \<Rightarrow> string \<Rightarrow> string \<times> string option" where
  "split_at x [] = ([], None)"
| "split_at x (c # cs) =
     (if c = x then ([], Some cs) else (let (a, b) = split_at x cs in (c # a, b)))"

definition strEQ :: "string \<Rightarrow> string \<Rightarrow> bool" where
  "strEQ s t = (s = t)"

definition strnEQ :: "string \<Rightarrow> string \<Rightarrow> nat \<Rightarrow> bool" where
  "strnEQ s t n = (take n s = take n t)"

text \<open>The sign of \<open>strcmp\<close> (bytes compared as unsigned).\<close>

fun strcmp :: "string \<Rightarrow> string \<Rightarrow> int" where
  "strcmp [] [] = 0"
| "strcmp [] (d # ds) = - 1"
| "strcmp (c # cs) [] = 1"
| "strcmp (c # cs) (d # ds) =
     (if (of_char c :: nat) < of_char d then - 1
      else if (of_char d :: nat) < of_char c then 1
      else strcmp cs ds)"

definition strcasecmp :: "string \<Rightarrow> string \<Rightarrow> int" where
  "strcasecmp s t = strcmp (map tolower s) (map tolower t)"

fun is_prefix :: "string \<Rightarrow> string \<Rightarrow> bool" where
  "is_prefix [] t = True"
| "is_prefix (c # cs) [] = False"
| "is_prefix (c # cs) (d # ds) = (c = d \<and> is_prefix cs ds)"

fun strstr :: "string \<Rightarrow> string \<Rightarrow> string option" where
  "strstr [] t = (if t = [] then Some [] else None)"
| "strstr (c # cs) t = (if is_prefix t (c # cs) then Some (c # cs) else strstr cs t)"

text \<open>\<open>SIGAR_STRNCPY\<close> into a buffer of \<open>n\<close> bytes, read back as a string.\<close>

definition sstrcpy :: "nat \<Rightarrow> string \<Rightarrow> string" where
  "sstrcpy n s = take (n - 1) s"

lemma length_skip_space [simp]: "length (skip_space s) \<le> length s"
  by (induction s) auto

lemma length_skip_word [simp]: "length (skip_word s) \<le> length s"
  by (induction s) auto

lemma skip_space_idem [simp]: "skip_space (skip_space s) = skip_space s"
  by (induction s) auto

lemma split_at_append [c_string]:
  "x \<notin> set a \<Longrightarrow> split_at x (a @ x # b) = (a, Some b)"
  by (induction a) auto

lemma split_at_none [c_string]: "x \<notin> set a \<Longrightarrow> split_at x a = (a, None)"
  by (induction a) auto

lemma split_at_fst_notin: "split_at x s = (a, b) \<Longrightarrow> x \<notin> set a"
  by (induction s arbitrary: a b) (auto split: if_splits prod.splits)

lemma split_at_Some: "split_at x s = (a, Some b) \<Longrightarrow> s = a @ x # b"
  by (induction s arbitrary: a b) (auto split: if_splits prod.splits)

lemma split_at_None: "split_at x s = (a, None) \<Longrightarrow> s = a"
  by (induction s arbitrary: a) (auto split: if_splits prod.splits)

lemma split_at_length: "split_at x s = (a, Some b) \<Longrightarrow> length b < length s"
  by (drule split_at_Some) simp

lemma strcmp_eq_0_iff [simp, c_string]: "strcmp s t = 0 \<longleftrightarrow> s = t"
  by (induction s t rule: strcmp.induct) auto

lemma strcmp_antisym: "strcmp t s = - strcmp s t"
  by (induction s t rule: strcmp.induct) auto

lemma strcmp_self [simp]: "strcmp s s = 0"
  by simp

lemma is_prefix_iff [c_string]: "is_prefix s t \<longleftrightarrow> (\<exists>u. t = s @ u)"
  by (induction s t rule: is_prefix.induct) auto

lemma strstr_Some_iff: "(\<exists>p. strstr s t = Some p) \<longleftrightarrow> (\<exists>a b. s = a @ t @ b)"
proof (induction s)
  case Nil
  then show ?case by auto
next
  case (Cons c cs)
  show ?case
  proof (cases "is_prefix t (c # cs)")
    case True
    then obtain u where "c # cs = [] @ t @ u" by (auto simp: is_prefix_iff)
    then have "\<exists>a b. c # cs = a @ t @ b" by blast
    with True show ?thesis by simp
  next
    case False
    then have no: "\<nexists>b. c # cs = t @ b" by (auto simp: is_prefix_iff)
    have "(\<exists>a b. cs = a @ t @ b) \<longleftrightarrow> (\<exists>a b. c # cs = a @ t @ b)"
    proof
      assume "\<exists>a b. cs = a @ t @ b"
      then obtain a b where "cs = a @ t @ b" by blast
      then have "c # cs = (c # a) @ t @ b" by simp
      then show "\<exists>a b. c # cs = a @ t @ b" by blast
    next
      assume "\<exists>a b. c # cs = a @ t @ b"
      then obtain a b where ab: "c # cs = a @ t @ b" by blast
      then have "a \<noteq> []" using no by auto
      then obtain a' where "a = c # a'" using ab by (cases a) auto
      then show "\<exists>a b. cs = a @ t @ b" using ab by auto
    qed
    with False Cons.IH show ?thesis by simp
  qed
qed

section \<open>Numbers\<close>

text \<open>
  \<open>strtoull(s, &end, 10)\<close> with 64-bit \<open>unsigned long\<close>: white space, an optional sign, digits.
  The result is the value, the suffix \<open>end\<close> points at and whether \<open>errno\<close> is set to
  \<open>ERANGE\<close>. With no digits nothing is consumed, so \<open>end = s\<close>.
\<close>

fun scan_digits :: "nat \<Rightarrow> string \<Rightarrow> nat \<times> string" where
  "scan_digits acc [] = (acc, [])"
| "scan_digits acc (c # cs) =
     (if isdigit c then scan_digits (10 * acc + (of_char c - 48)) cs else (acc, c # cs))"

fun scan_sign :: "string \<Rightarrow> bool \<times> string" where
  "scan_sign (c # cs) =
     (if c = CHR ''-'' then (True, cs) else if c = CHR ''+'' then (False, cs)
      else (False, c # cs))"
| "scan_sign [] = (False, [])"

definition starts_digit :: "string \<Rightarrow> bool" where
  "starts_digit s = (case s of [] \<Rightarrow> False | c # cs \<Rightarrow> isdigit c)"

definition strtoull :: "string \<Rightarrow> uint64 \<times> string \<times> bool" where
  "strtoull s =
     (let (neg, t) = scan_sign (skip_space s) in
      if starts_digit t then
        (let (v, r) = scan_digits 0 t in
         if 2 ^ 64 \<le> v then (- 1, r, True)
         else (if neg then - of_nat v else of_nat v, r, False))
      else (0, s, False))"

text \<open>\<open>strtol\<close> saturates at the ends of the signed 64-bit range; \<open>atoi\<close> is its result
  converted to \<open>int\<close>.\<close>

definition strtol :: "string \<Rightarrow> uint64 \<times> string \<times> bool" where
  "strtol s =
     (let (neg, t) = scan_sign (skip_space s) in
      if starts_digit t then
        (let (v, r) = scan_digits 0 t in
         if neg then
           (if 2 ^ 63 < v then (of_int (- (2 ^ 63)), r, True) else (- of_nat v, r, False))
         else
           (if 2 ^ 63 \<le> v then (of_nat (2 ^ 63 - 1), r, True) else (of_nat v, r, False)))
      else (0, s, False))"

definition atoi :: "string \<Rightarrow> uint32" where
  "atoi s = ucast (fst (strtol s))"

text \<open>Decimal digits, as \<open>%u\<close> prints them.\<close>

fun dec_digits :: "nat \<Rightarrow> string" where
  "dec_digits n = (if n < 10 then [digit_char n] else dec_digits (n div 10) @ [digit_char (n mod 10)])"

declare dec_digits.simps [simp del]

definition dec_int :: "int \<Rightarrow> string" where
  "dec_int i = (if i < 0 then CHR ''-'' # dec_digits (nat (- i)) else dec_digits (nat i))"

lemma dec_digits_not_Nil [simp]: "dec_digits n \<noteq> []"
  by (subst dec_digits.simps) simp

lemma dec_digits_isdigit: "c \<in> set (dec_digits n) \<Longrightarrow> isdigit c"
proof (induction n arbitrary: c rule: dec_digits.induct)
  case (1 n)
  then show ?case
    by (cases "n < 10") (auto simp: dec_digits.simps [of n])
qed

lemma scan_digits_append:
  "(\<And>c. c \<in> set s \<Longrightarrow> isdigit c) \<Longrightarrow> scan_digits acc (s @ t) = scan_digits (fst (scan_digits acc s)) t"
  by (induction s arbitrary: acc) auto

lemma scan_digits_all:
  "(\<And>c. c \<in> set s \<Longrightarrow> isdigit c) \<Longrightarrow> scan_digits acc s = (fst (scan_digits acc s), [])"
  by (induction s arbitrary: acc) auto

lemma scan_digits_dec: "fst (scan_digits 0 (dec_digits n)) = n"
proof (induction n rule: dec_digits.induct)
  case (1 n)
  show ?case
  proof (cases "n < 10")
    case True
    then show ?thesis by (simp add: dec_digits.simps [of n])
  next
    case False
    then have "fst (scan_digits 0 (dec_digits (n div 10))) = n div 10" by (rule "1.IH")
    with False show ?thesis
      by (simp add: dec_digits.simps [of n] scan_digits_append dec_digits_isdigit)
  qed
qed

lemma starts_digit_dec [simp]: "starts_digit (dec_digits n @ t)"
proof -
  obtain c cs where e: "dec_digits n = c # cs" by (cases "dec_digits n") auto
  then have "isdigit c" using dec_digits_isdigit [of c n] by simp
  with e show ?thesis by (simp add: starts_digit_def)
qed

lemma dec_digits_no_sign_space:
  "skip_space (dec_digits n @ t) = dec_digits n @ t \<and> scan_sign (dec_digits n @ t) = (False, dec_digits n @ t)"
proof -
  obtain c cs where e: "dec_digits n = c # cs" by (cases "dec_digits n") auto
  then have d: "isdigit c" using dec_digits_isdigit [of c n] by simp
  have "c \<noteq> CHR ''-''" "c \<noteq> CHR ''+''" using d by (auto simp: isdigit_def Let_def)
  with e d isdigit_not_isspace [OF d] show ?thesis by simp
qed

text \<open>Printing a number and reading it back: \<open>strtoull\<close> inverts \<open>dec_digits\<close>.\<close>

lemma strtoull_dec [c_number]:
  assumes "n < 2 ^ 64" and "\<not> starts_digit t"
  shows "strtoull (dec_digits n @ t) = (of_nat n, t, False)"
proof -
  have "scan_digits n t = (n, t)"
    using assms(2) by (cases t) (auto simp: starts_digit_def)
  then have "scan_digits 0 (dec_digits n @ t) = (n, t)"
    by (simp add: scan_digits_append dec_digits_isdigit scan_digits_dec)
  with assms(1) show ?thesis
    by (simp add: strtoull_def dec_digits_no_sign_space)
qed

lemma scan_digits_rest_le: "length (snd (scan_digits a s)) \<le> length s"
  by (induction s arbitrary: a) (auto intro: le_SucI)

lemma scan_sign_le: "length (snd (scan_sign s)) \<le> length s"
  by (cases s) auto

lemma strtoull_rest_le: "strtoull s = (v, r, e) \<Longrightarrow> length r \<le> length s"
proof -
  assume a: "strtoull s = (v, r, e)"
  obtain neg t where nt: "scan_sign (skip_space s) = (neg, t)" by (cases "scan_sign (skip_space s)") auto
  obtain w q where wq: "scan_digits 0 t = (w, q)" by (cases "scan_digits 0 t") auto
  have "length t \<le> length s"
    using scan_sign_le [of "skip_space s"] nt length_skip_space [of s]
    by (metis le_trans snd_conv)
  moreover have "length q \<le> length t" using scan_digits_rest_le [of 0 t] wq by simp
  ultimately show ?thesis using a nt wq by (auto simp: strtoull_def split: if_splits)
qed

end
