(* ===== verification/Sigar_Lists.thy ===== *)
theory Sigar_Lists
  imports Sigar_Prelude
begin

text \<open>
  The growable arrays of \<open>src/sigar.c\<close>: process ids, process arguments, file systems, cpu
  infos, cpus, routes, interfaces, connections, arp entries, logged-in users. Each is a
  struct of \<open>number\<close>, \<open>size\<close> and \<open>data\<close> with a create, a grow and a destroy
  function and a \<open>..._GROW\<close> macro (\<open>include/sigar_private.h\<close>) that callers run before
  they write \<open>data[number++]\<close>.

  \<open>data\<close> is the list of allocated cells; a cell is \<open>None\<close> until it is written.
  Allocation is taken to succeed, as the sources take it. The locale \<open>growable\<close> is the
  contract of such a family: what create, grow and destroy promise. The client side, the
  guarded append and a whole fill loop, is proved once in it.
\<close>

section \<open>The representation\<close>

record 'a clist =
  l_number :: nat
  l_size :: nat
  l_data :: "'a option list"

text \<open>\<open>malloc\<close> of \<open>n\<close> cells; \<open>realloc\<close> keeps the old cells and adds \<open>n\<close> fresh ones.\<close>

definition clist_alloc :: "nat \<Rightarrow> 'a clist" where
  "clist_alloc n = \<lparr>l_number = 0, l_size = n, l_data = replicate n None\<rparr>"

definition clist_realloc :: "nat \<Rightarrow> 'a clist \<Rightarrow> 'a clist" where
  "clist_realloc n l = l\<lparr>l_data := take (l_size l) (l_data l) @ replicate n None,
                        l_size := l_size l + n\<rparr>"

definition clist_release :: "'a clist \<Rightarrow> 'a clist" where
  "clist_release l =
     (if l_size l \<noteq> 0 then l\<lparr>l_data := [], l_number := 0, l_size := 0\<rparr> else l)"

text \<open>The \<open>..._GROW\<close> macros followed by \<open>data[number++] = v\<close>; a write outside the
  allocated cells is undefined.\<close>

definition clist_put :: "('a clist \<Rightarrow> 'a clist) \<Rightarrow> 'a clist \<Rightarrow> 'a \<Rightarrow> 'a clist ub" where
  "clist_put grow l v =
     (let l1 = (if l_size l \<le> l_number l then grow l else l) in
      if l_number l1 < length (l_data l1)
      then Some (l1\<lparr>l_data := (l_data l1)[l_number l1 := Some v], l_number := Suc (l_number l1)\<rparr>)
      else None)"

fun clist_fill :: "('a clist \<Rightarrow> 'a clist) \<Rightarrow> 'a clist \<Rightarrow> 'a list \<Rightarrow> 'a clist ub" where
  "clist_fill grow l [] = Some l"
| "clist_fill grow l (v # vs) =
     (case clist_put grow l v of None \<Rightarrow> None | Some l1 \<Rightarrow> clist_fill grow l1 vs)"

text \<open>Well-formedness and the abstract value: the written cells, in order.\<close>

definition clist_wf :: "'a clist \<Rightarrow> bool" where
  "clist_wf l \<longleftrightarrow> l_number l \<le> l_size l \<and> length (l_data l) = l_size l \<and>
     list_all (\<lambda>c. c \<noteq> None) (take (l_number l) (l_data l))"

definition clist_elems :: "'a clist \<Rightarrow> 'a list" where
  "clist_elems l = map the (take (l_number l) (l_data l))"

lemma length_clist_elems: "clist_wf l \<Longrightarrow> length (clist_elems l) = l_number l"
  by (simp add: clist_wf_def clist_elems_def)

lemma clist_elems_nth:
  "clist_wf l \<Longrightarrow> i < l_number l \<Longrightarrow> cell (l_data l) i = Some (Some (clist_elems l ! i))"
  by (auto simp: clist_wf_def clist_elems_def cell_def list_all_length)

section \<open>The contract\<close>

locale growable =
  fixes chunk :: nat
    and create :: "'a clist"
    and grow :: "'a clist \<Rightarrow> 'a clist"
    and destroy :: "'a clist \<Rightarrow> 'a clist"
  assumes chunk_pos: "0 < chunk"
    and create_wf: "clist_wf create"
    and create_elems: "clist_elems create = []"
    and create_size: "l_size create = chunk"
    and grow_wf: "clist_wf l \<Longrightarrow> clist_wf (grow l)"
    and grow_elems: "clist_wf l \<Longrightarrow> clist_elems (grow l) = clist_elems l"
    and grow_number: "l_number (grow l) = l_number l"
    and grow_size: "l_size (grow l) = l_size l + chunk"
    and destroy_wf: "clist_wf l \<Longrightarrow> clist_wf (destroy l)"
    and destroy_elems: "clist_wf l \<Longrightarrow> clist_elems (destroy l) = []"
    and destroy_size: "l_size (destroy l) = 0"
begin

lemma put_step:
  assumes wf: "clist_wf l" and room: "l_number l < l_size l"
  shows "\<exists>l'. clist_put grow l v = Some l' \<and> clist_wf l' \<and>
           clist_elems l' = clist_elems l @ [v] \<and> l_size l' = l_size l"
  using wf room
  by (auto simp: clist_put_def clist_wf_def clist_elems_def take_Suc_conv_app_nth list_all_iff
      simp del: list_update_append)

lemma put_ok:
  assumes wf: "clist_wf l"
  shows "\<exists>l'. clist_put grow l v = Some l' \<and> clist_wf l' \<and> clist_elems l' = clist_elems l @ [v] \<and>
           l_size l' = (if l_number l < l_size l then l_size l else l_size l + chunk)"
proof (cases "l_number l < l_size l")
  case True
  with put_step [OF wf True] show ?thesis by simp
next
  case False
  have room: "l_number (grow l) < l_size (grow l)"
    using wf chunk_pos by (simp add: grow_number grow_size clist_wf_def)
  have "clist_put grow l v = clist_put grow (grow l) v"
    using False room by (simp add: clist_put_def Let_def)
  with put_step [OF grow_wf [OF wf] room, of v] False wf show ?thesis
    by (simp add: grow_elems grow_size)
qed

lemma fill_ok:
  assumes "clist_wf l"
  shows "\<exists>l'. clist_fill grow l vs = Some l' \<and> clist_wf l' \<and> clist_elems l' = clist_elems l @ vs"
  using assms
proof (induction vs arbitrary: l)
  case Nil
  then show ?case by simp
next
  case (Cons v vs)
  from put_ok [OF Cons.prems, of v] obtain l1 where
    l1: "clist_put grow l v = Some l1" "clist_wf l1" "clist_elems l1 = clist_elems l @ [v]"
    by blast
  from Cons.IH [OF l1(2)] l1 show ?case by fastforce
qed

text \<open>The capacity never runs ahead of the contents by more than one chunk.\<close>

lemma fill_size:
  assumes "clist_wf l" and "l_size l \<le> l_number l + chunk"
    and "clist_fill grow l vs = Some l'"
  shows "l_size l' \<le> l_number l' + chunk"
  using assms
proof (induction vs arbitrary: l)
  case Nil
  then show ?case by simp
next
  case (Cons v vs)
  from put_ok [OF Cons.prems(1), of v] obtain l1 where
    l1: "clist_put grow l v = Some l1" "clist_wf l1" "clist_elems l1 = clist_elems l @ [v]"
      "l_size l1 = (if l_number l < l_size l then l_size l else l_size l + chunk)"
    by blast
  have n: "l_number l1 = Suc (l_number l)"
    using length_clist_elems [OF l1(2)] length_clist_elems [OF Cons.prems(1)] l1(3) by simp
  have "l_number l \<le> l_size l" using Cons.prems(1) by (simp add: clist_wf_def)
  then have "l_size l1 \<le> l_number l1 + chunk" using n l1(4) Cons.prems(2) by (auto split: if_splits)
  with Cons.IH [OF l1(2)] Cons.prems(3) l1(1) show ?case by simp
qed

lemma fill_create:
  "\<exists>l. clist_fill grow create vs = Some l \<and> clist_wf l \<and> clist_elems l = vs \<and>
       l_number l = length vs \<and> length vs \<le> l_size l \<and> l_size l \<le> length vs + chunk"
proof -
  from fill_ok [OF create_wf, of vs] obtain l where
    l: "clist_fill grow create vs = Some l" "clist_wf l" "clist_elems l = vs"
    by (auto simp: create_elems)
  have n: "l_number l = length vs" using length_clist_elems [OF l(2)] l(3) by simp
  have "l_number create = 0"
    using length_clist_elems [OF create_wf] by (simp add: create_elems)
  then have "l_size l \<le> l_number l + chunk"
    using fill_size [OF create_wf _ l(1)] by (simp add: create_size)
  moreover have "l_number l \<le> l_size l" using l(2) by (simp add: clist_wf_def)
  ultimately show ?thesis using l n by auto
qed

text \<open>Destroying what was filled leaves an empty list, and destroying twice is harmless.\<close>

lemma destroy_again: "clist_wf l \<Longrightarrow> clist_elems (destroy (destroy l)) = []"
  using destroy_wf destroy_elems by blast

end

lemma clist_alloc_wf [simp]: "clist_wf (clist_alloc n)"
  by (simp add: clist_wf_def clist_alloc_def)

lemma clist_alloc_elems [simp]: "clist_elems (clist_alloc n) = []"
  by (simp add: clist_elems_def clist_alloc_def)

lemma clist_realloc_wf: "clist_wf l \<Longrightarrow> clist_wf (clist_realloc n l)"
  by (simp add: clist_wf_def clist_realloc_def)

lemma clist_realloc_elems: "clist_wf l \<Longrightarrow> clist_elems (clist_realloc n l) = clist_elems l"
  by (simp add: clist_wf_def clist_elems_def clist_realloc_def)

lemma clist_release_wf: "clist_wf l \<Longrightarrow> clist_wf (clist_release l)"
  by (auto simp: clist_wf_def clist_release_def)

lemma clist_release_elems: "clist_wf l \<Longrightarrow> clist_elems (clist_release l) = []"
  by (auto simp: clist_wf_def clist_elems_def clist_release_def)

lemmas clist_laws = clist_realloc_wf clist_realloc_elems clist_release_wf clist_release_elems

lemma growable_chunk:
  assumes "0 < n"
  shows "growable n (clist_alloc n) (clist_realloc n) clist_release"
  using assms
  by unfold_locales
    (auto simp: clist_laws, auto simp: clist_alloc_def clist_realloc_def clist_release_def)

section \<open>The families of sigar.c\<close>

subsection \<open>Process ids\<close>

abbreviation (input) SIGAR_PROC_LIST_MAX :: nat where "SIGAR_PROC_LIST_MAX \<equiv> 256"

definition sigar_proc_list_create :: "'a clist" where
  "sigar_proc_list_create = clist_alloc SIGAR_PROC_LIST_MAX"

definition sigar_proc_list_grow :: "'a clist \<Rightarrow> 'a clist" where
  "sigar_proc_list_grow l = clist_realloc SIGAR_PROC_LIST_MAX l"

definition sigar_proc_list_destroy :: "'a clist \<Rightarrow> 'a clist" where
  "sigar_proc_list_destroy l = clist_release l"

interpretation proc_list: growable 256 sigar_proc_list_create sigar_proc_list_grow sigar_proc_list_destroy
  using growable_chunk [of 256]
  by (simp add: sigar_proc_list_create_def sigar_proc_list_grow_def [abs_def]
      sigar_proc_list_destroy_def [abs_def])

subsection \<open>Process arguments\<close>

abbreviation (input) SIGAR_PROC_ARGS_MAX :: nat where "SIGAR_PROC_ARGS_MAX \<equiv> 12"

definition sigar_proc_args_create :: "'a clist" where
  "sigar_proc_args_create = clist_alloc SIGAR_PROC_ARGS_MAX"

definition sigar_proc_args_grow :: "'a clist \<Rightarrow> 'a clist" where
  "sigar_proc_args_grow l = clist_realloc SIGAR_PROC_ARGS_MAX l"

text \<open>\<open>sigar_proc_args_destroy\<close> first frees every string it holds: the result lists the cells
  passed to \<open>free\<close>, in order.\<close>

definition clist_release_all :: "'a clist \<Rightarrow> 'a option list \<times> 'a clist" where
  "clist_release_all l =
     (if l_size l \<noteq> 0 then (take (l_number l) (l_data l), clist_release l) else ([], l))"

definition sigar_proc_args_destroy :: "'a clist \<Rightarrow> 'a option list \<times> 'a clist" where
  "sigar_proc_args_destroy l = clist_release_all l"

lemma clist_release_all_snd: "snd (clist_release_all l) = clist_release l"
  by (simp add: clist_release_all_def clist_release_def)

lemma clist_release_all_freed: "clist_wf l \<Longrightarrow> fst (clist_release_all l) = map Some (clist_elems l)"
  by (auto simp: clist_release_all_def clist_wf_def clist_elems_def list_all_iff intro!: map_idI [symmetric])

interpretation proc_args: growable 12 sigar_proc_args_create sigar_proc_args_grow
  "\<lambda>l. snd (sigar_proc_args_destroy l)"
  using growable_chunk [of 12]
  by (simp add: sigar_proc_args_create_def sigar_proc_args_grow_def [abs_def]
      sigar_proc_args_destroy_def [abs_def] clist_release_all_snd)

subsection \<open>File systems, cpus, routes\<close>

definition sigar_file_system_list_create :: "'a clist" where
  "sigar_file_system_list_create = clist_alloc 10"

definition sigar_file_system_list_grow :: "'a clist \<Rightarrow> 'a clist" where
  "sigar_file_system_list_grow l = clist_realloc 10 l"

definition sigar_file_system_list_destroy :: "'a clist \<Rightarrow> 'a clist" where
  "sigar_file_system_list_destroy l = clist_release l"

interpretation fs_list: growable 10 sigar_file_system_list_create sigar_file_system_list_grow
  sigar_file_system_list_destroy
  using growable_chunk [of 10]
  by (simp add: sigar_file_system_list_create_def sigar_file_system_list_grow_def [abs_def]
      sigar_file_system_list_destroy_def [abs_def])

definition sigar_cpu_info_list_create :: "'a clist" where
  "sigar_cpu_info_list_create = clist_alloc 4"

definition sigar_cpu_info_list_grow :: "'a clist \<Rightarrow> 'a clist" where
  "sigar_cpu_info_list_grow l = clist_realloc 4 l"

definition sigar_cpu_info_list_destroy :: "'a clist \<Rightarrow> 'a clist" where
  "sigar_cpu_info_list_destroy l = clist_release l"

interpretation cpu_infos: growable 4 sigar_cpu_info_list_create sigar_cpu_info_list_grow
  sigar_cpu_info_list_destroy
  using growable_chunk [of 4]
  by (simp add: sigar_cpu_info_list_create_def sigar_cpu_info_list_grow_def [abs_def]
      sigar_cpu_info_list_destroy_def [abs_def])

text \<open>The cpu list allocates in steps of \<open>SIGAR_CPU_INFO_MAX\<close> as well.\<close>

definition sigar_cpu_list_create :: "'a clist" where
  "sigar_cpu_list_create = clist_alloc 4"

definition sigar_cpu_list_grow :: "'a clist \<Rightarrow> 'a clist" where
  "sigar_cpu_list_grow l = clist_realloc 4 l"

definition sigar_cpu_list_destroy :: "'a clist \<Rightarrow> 'a clist" where
  "sigar_cpu_list_destroy l = clist_release l"

interpretation cpu_list: growable 4 sigar_cpu_list_create sigar_cpu_list_grow sigar_cpu_list_destroy
  using growable_chunk [of 4]
  by (simp add: sigar_cpu_list_create_def sigar_cpu_list_grow_def [abs_def]
      sigar_cpu_list_destroy_def [abs_def])

definition sigar_net_route_list_create :: "'a clist" where
  "sigar_net_route_list_create = clist_alloc 6"

definition sigar_net_route_list_grow :: "'a clist \<Rightarrow> 'a clist" where
  "sigar_net_route_list_grow l = clist_realloc 6 l"

definition sigar_net_route_list_destroy :: "'a clist \<Rightarrow> 'a clist" where
  "sigar_net_route_list_destroy l = clist_release l"

interpretation route_list: growable 6 sigar_net_route_list_create sigar_net_route_list_grow
  sigar_net_route_list_destroy
  using growable_chunk [of 6]
  by (simp add: sigar_net_route_list_create_def sigar_net_route_list_grow_def [abs_def]
      sigar_net_route_list_destroy_def [abs_def])

subsection \<open>Interfaces, connections, arp entries, users\<close>

definition sigar_net_interface_list_create :: "'a clist" where
  "sigar_net_interface_list_create = clist_alloc 20"

definition sigar_net_interface_list_grow :: "'a clist \<Rightarrow> 'a clist" where
  "sigar_net_interface_list_grow l = clist_realloc 20 l"

definition sigar_net_interface_list_destroy :: "'a clist \<Rightarrow> 'a option list \<times> 'a clist" where
  "sigar_net_interface_list_destroy l = clist_release_all l"

interpretation iflist: growable 20 sigar_net_interface_list_create sigar_net_interface_list_grow
  "\<lambda>l. snd (sigar_net_interface_list_destroy l)"
  using growable_chunk [of 20]
  by (simp add: sigar_net_interface_list_create_def sigar_net_interface_list_grow_def [abs_def]
      sigar_net_interface_list_destroy_def [abs_def] clist_release_all_snd)

definition sigar_net_connection_list_create :: "'a clist" where
  "sigar_net_connection_list_create = clist_alloc 20"

definition sigar_net_connection_list_grow :: "'a clist \<Rightarrow> 'a clist" where
  "sigar_net_connection_list_grow l = clist_realloc 20 l"

definition sigar_net_connection_list_destroy :: "'a clist \<Rightarrow> 'a clist" where
  "sigar_net_connection_list_destroy l = clist_release l"

interpretation connlist: growable 20 sigar_net_connection_list_create sigar_net_connection_list_grow
  sigar_net_connection_list_destroy
  using growable_chunk [of 20]
  by (simp add: sigar_net_connection_list_create_def sigar_net_connection_list_grow_def [abs_def]
      sigar_net_connection_list_destroy_def [abs_def])

definition sigar_arp_list_create :: "'a clist" where
  "sigar_arp_list_create = clist_alloc 12"

definition sigar_arp_list_grow :: "'a clist \<Rightarrow> 'a clist" where
  "sigar_arp_list_grow l = clist_realloc 12 l"

definition sigar_arp_list_destroy :: "'a clist \<Rightarrow> 'a clist" where
  "sigar_arp_list_destroy l = clist_release l"

interpretation arp_list: growable 12 sigar_arp_list_create sigar_arp_list_grow sigar_arp_list_destroy
  using growable_chunk [of 12]
  by (simp add: sigar_arp_list_create_def sigar_arp_list_grow_def [abs_def]
      sigar_arp_list_destroy_def [abs_def])

definition sigar_who_list_create :: "'a clist" where
  "sigar_who_list_create = clist_alloc 12"

definition sigar_who_list_grow :: "'a clist \<Rightarrow> 'a clist" where
  "sigar_who_list_grow l = clist_realloc 12 l"

definition sigar_who_list_destroy :: "'a clist \<Rightarrow> 'a clist" where
  "sigar_who_list_destroy l = clist_release l"

interpretation who_list: growable 12 sigar_who_list_create sigar_who_list_grow sigar_who_list_destroy
  using growable_chunk [of 12]
  by (simp add: sigar_who_list_create_def sigar_who_list_grow_def [abs_def]
      sigar_who_list_destroy_def [abs_def])

end
