(* ===== verification/Sigar_Cache.thy ===== *)
theory Sigar_Cache
  imports Sigar_Prelude "HOL-Library.Multiset"
begin

text \<open>
  The hash table of \<open>src/sigar_cache.c\<close>: values cached under a 64-bit number, in an array of
  singly linked chains that is rehashed when it fills up and, for the caches made with
  \<open>sigar_expired_cache_new\<close>, swept of entries nobody read for a while.

  A chain is the list of its entries from the head on; an entry's \<open>value\<close> pointer is an
  option. The clock is an argument: \<open>sigar_time_now_millis\<close> is called once by the sweep
  and once by the access, so the operations take two times. The abstract value of a table
  is the partial function from keys to entries; the lemmas show that rehashing does not
  change it, that the sweep removes exactly the expired entries, and that find and get are
  lookup and lookup-or-insert on it. The locale \<open>id_cache\<close> is the interface the clients of
  the table rely on.
\<close>

section \<open>Data\<close>

record 'v cache_entry =
  e_id :: uint64
  e_value :: "'v option"
  e_last_access :: uint64

record 'v cache =
  c_entries :: "'v cache_entry list list"
  c_count :: uint32
  c_size :: uint32
  c_expire :: uint64
  c_cleanup :: uint64
  c_last_cleanup :: uint64

section \<open>Operations\<close>

definition sigar_expired_cache_new :: "uint32 \<Rightarrow> uint64 \<Rightarrow> uint64 \<Rightarrow> uint64 \<Rightarrow> 'v cache" where
  "sigar_expired_cache_new sz cleanup_period_millis entry_expire_period now =
     \<lparr>c_entries = replicate (unat sz) [], c_count = 0, c_size = sz,
      c_expire = entry_expire_period, c_cleanup = cleanup_period_millis, c_last_cleanup = now\<rparr>"

definition sigar_cache_new :: "uint32 \<Rightarrow> uint64 \<Rightarrow> 'v cache" where
  "sigar_cache_new sz now =
     sigar_expired_cache_new sz SIGAR_FIELD_NOTIMPL SIGAR_FIELD_NOTIMPL now"

text \<open>\<open>SIGAR_CACHE_IX\<close>: the chain a key hashes to.\<close>

definition cache_ix :: "uint32 \<Rightarrow> uint64 \<Rightarrow> nat" where
  "cache_ix sz key = unat (key mod ucast sz)"

definition rehash_entry :: "uint32 \<Rightarrow> 'v cache_entry \<Rightarrow> 'v cache_entry list list \<Rightarrow> 'v cache_entry list list" where
  "rehash_entry new_size entry new_entries =
     (let hash = cache_ix new_size (e_id entry)
      in new_entries[hash := entry # new_entries ! hash])"

definition sigar_cache_rehash :: "'v cache \<Rightarrow> 'v cache" where
  "sigar_cache_rehash table =
     (let new_size = c_count table * 2 + 1;
          new_entries = fold (fold (rehash_entry new_size)) (c_entries table)
                          (replicate (unat new_size) [])
      in table\<lparr>c_entries := new_entries, c_size := new_size\<rparr>)"

text \<open>One chain of the sweep: what stays linked, and what is freed, both in chain order.\<close>

fun cleanup_chain :: "uint64 \<Rightarrow> uint64 \<Rightarrow> 'v cache_entry list \<Rightarrow> 'v cache_entry list \<times> 'v cache_entry list" where
  "cleanup_chain expire current_time [] = ([], [])"
| "cleanup_chain expire current_time (entry # rest) =
     (let (kept, freed) = cleanup_chain expire current_time rest;
          period_with_no_access = current_time - e_last_access entry
      in if expire < period_with_no_access then (kept, entry # freed) else (entry # kept, freed))"

definition sigar_perform_cleanup_if_necessary :: "'v cache \<Rightarrow> uint64 \<Rightarrow> 'v cache" where
  "sigar_perform_cleanup_if_necessary table current_time =
     (if c_cleanup table = SIGAR_FIELD_NOTIMPL then table
      else if current_time - c_last_cleanup table < c_cleanup table then table
      else
        (let swept = map (cleanup_chain (c_expire table) current_time) (c_entries table);
             freed = concat (map snd swept);
             table1 = table\<lparr>c_last_cleanup := current_time, c_entries := map fst swept,
                            c_count := c_count table - of_nat (length freed)\<rparr>
         in if c_count table1 < c_size table1 div 4 then sigar_cache_rehash table1 else table1))"

text \<open>The loop of find and get over one chain: the entry with the key, its access time
  updated, and the chain with that entry in place.\<close>

fun chain_touch :: "uint64 \<Rightarrow> uint64 \<Rightarrow> 'v cache_entry list \<Rightarrow> ('v cache_entry \<times> 'v cache_entry list) option" where
  "chain_touch key now [] = None"
| "chain_touch key now (entry # rest) =
     (if e_id entry = key
      then (let entry1 = entry\<lparr>e_last_access := now\<rparr> in Some (entry1, entry1 # rest))
      else (case chain_touch key now rest of
              None \<Rightarrow> None
            | Some (found, rest1) \<Rightarrow> Some (found, entry # rest1)))"

definition sigar_cache_find :: "'v cache \<Rightarrow> uint64 \<Rightarrow> uint64 \<Rightarrow> uint64 \<Rightarrow> 'v cache_entry option \<times> 'v cache" where
  "sigar_cache_find table0 key t_cleanup t_access =
     (let table = sigar_perform_cleanup_if_necessary table0 t_cleanup;
          ix = cache_ix (c_size table) key
      in case chain_touch key t_access (c_entries table ! ix) of
           Some (entry, chain) \<Rightarrow>
             (Some entry, table\<lparr>c_entries := (c_entries table)[ix := chain]\<rparr>)
         | None \<Rightarrow> (None, table))"

definition sigar_cache_get :: "'v cache \<Rightarrow> uint64 \<Rightarrow> uint64 \<Rightarrow> uint64 \<Rightarrow> 'v cache_entry \<times> 'v cache" where
  "sigar_cache_get table0 key t_cleanup t_access =
     (let table = sigar_perform_cleanup_if_necessary table0 t_cleanup;
          ix = cache_ix (c_size table) key
      in case chain_touch key t_access (c_entries table ! ix) of
           Some (entry, chain) \<Rightarrow>
             (entry, table\<lparr>c_entries := (c_entries table)[ix := chain]\<rparr>)
         | None \<Rightarrow>
             (let table1 = table\<lparr>c_count := c_count table + 1\<rparr>;
                  table2 = (if c_size table1 < c_count table1 then sigar_cache_rehash table1 else table1);
                  ix2 = cache_ix (c_size table2) key;
                  entry = \<lparr>e_id = key, e_value = None, e_last_access = t_access\<rparr>
              in (entry, table2\<lparr>c_entries := (c_entries table2)[ix2 := c_entries table2 ! ix2 @ [entry]]\<rparr>)))"

text \<open>What a client does with the returned pointer: \<open>entry->value = v\<close>.\<close>

definition cache_set_value :: "'v cache \<Rightarrow> uint64 \<Rightarrow> 'v \<Rightarrow> 'v cache" where
  "cache_set_value table key v =
     table\<lparr>c_entries := map (map (\<lambda>e. if e_id e = key then e\<lparr>e_value := Some v\<rparr> else e)) (c_entries table)\<rparr>"

text \<open>\<open>sigar_cache_destroy\<close> frees every value and every entry: the calls of
  \<open>free_value\<close> and \<open>free\<close>, in order.\<close>

datatype 'v freed = FreeValue 'v | FreeEntry "'v cache_entry"

fun destroy_chain :: "'v cache_entry list \<Rightarrow> 'v freed list" where
  "destroy_chain [] = []"
| "destroy_chain (entry # rest) =
     (case e_value entry of None \<Rightarrow> [] | Some v \<Rightarrow> [FreeValue v]) @ FreeEntry entry # destroy_chain rest"

definition sigar_cache_destroy :: "'v cache \<Rightarrow> 'v freed list" where
  "sigar_cache_destroy table = concat (map destroy_chain (c_entries table))"

section \<open>Invariant and abstraction\<close>

definition cache_all :: "'v cache \<Rightarrow> 'v cache_entry list" where
  "cache_all t = concat (c_entries t)"

definition buckets_ok :: "uint32 \<Rightarrow> 'v cache_entry list list \<Rightarrow> bool" where
  "buckets_ok sz es \<longleftrightarrow>
     length es = unat sz \<and>
     (\<forall>i < length es. \<forall>e \<in> set (es ! i). cache_ix sz (e_id e) = i)"

definition cache_inv :: "'v cache \<Rightarrow> bool" where
  "cache_inv t \<longleftrightarrow>
     0 < c_size t \<and> buckets_ok (c_size t) (c_entries t) \<and>
     distinct (map e_id (cache_all t)) \<and>
     unat (c_count t) = length (cache_all t) \<and>
     c_count t \<le> c_size t \<and> length (cache_all t) < 2 ^ 31"

definition cache_lookup :: "'v cache \<Rightarrow> uint64 \<Rightarrow> 'v cache_entry option" where
  "cache_lookup t k = List.find (\<lambda>e. e_id e = k) (cache_all t)"

definition cleanup_due :: "'v cache \<Rightarrow> uint64 \<Rightarrow> bool" where
  "cleanup_due t now \<longleftrightarrow>
     c_cleanup t \<noteq> SIGAR_FIELD_NOTIMPL \<and> \<not> now - c_last_cleanup t < c_cleanup t"

definition entry_expired :: "'v cache \<Rightarrow> uint64 \<Rightarrow> 'v cache_entry \<Rightarrow> bool" where
  "entry_expired t now e \<longleftrightarrow> c_expire t < now - e_last_access e"

text \<open>What a reader sees at a given time: the table's entries, less the expired ones when a
  sweep is due.\<close>

definition cache_view :: "'v cache \<Rightarrow> uint64 \<Rightarrow> uint64 \<Rightarrow> 'v cache_entry option" where
  "cache_view t now k =
     (case cache_lookup t k of
        None \<Rightarrow> None
      | Some e \<Rightarrow> if cleanup_due t now \<and> entry_expired t now e then None else Some e)"

section \<open>Helper lemmas\<close>

lemma unat_ucast_32_64 [simp]: "unat (ucast (x :: uint32) :: uint64) = unat x"
  by (simp add: unsigned_ucast_eq take_bit_nat_eq_self_iff order_less_trans [OF unsigned_less])

lemma cache_ix_less: "0 < sz \<Longrightarrow> cache_ix sz key < unat sz"
proof -
  assume "0 < sz"
  then have "(0 :: uint64) < ucast sz"
    by (simp add: word_less_nat_alt)
  then have "key mod ucast sz < ucast sz" by (rule word_mod_less_divisor)
  then have "unat (key mod ucast sz) < unat (ucast sz :: uint64)" by (simp add: word_less_nat_alt)
  then show ?thesis by (simp add: cache_ix_def)
qed

lemma find_unique_iff:
  "distinct (map f xs) \<Longrightarrow> (List.find (\<lambda>e. f e = k) xs = Some e) \<longleftrightarrow> e \<in> set xs \<and> f e = k"
  by (induction xs) (auto simp: image_iff)

lemma cache_lookup_iff:
  "distinct (map e_id (cache_all t)) \<Longrightarrow>
     cache_lookup t k = Some e \<longleftrightarrow> e \<in> set (cache_all t) \<and> e_id e = k"
  by (simp add: cache_lookup_def find_unique_iff)

lemma find_concat_bucket:
  assumes "i < length xss" and "\<And>j x. j < length xss \<Longrightarrow> x \<in> set (xss ! j) \<Longrightarrow> P x \<Longrightarrow> j = i"
  shows "List.find P (concat xss) = List.find P (xss ! i)"
  using assms
proof (induction xss arbitrary: i)
  case Nil
  then show ?case by simp
next
  case (Cons xs xss)
  have none: "List.find P ys = None" if "\<And>x. x \<in> set ys \<Longrightarrow> \<not> P x" for ys
    using that by (simp add: find_None_iff)
  show ?case
  proof (cases i)
    case 0
    have "\<not> P x" if "x \<in> set (concat xss)" for x
    proof
      assume "P x"
      from that obtain j where "j < length xss" "x \<in> set (xss ! j)"
        by (auto simp: in_set_conv_nth [of _ xss])
      with Cons.prems(2) [of "Suc j" x] \<open>P x\<close> 0 show False by simp
    qed
    then have "List.find P (concat xss) = None" by (intro none) auto
    then show ?thesis using 0 by (simp add: find_append split: option.split)
  next
    case (Suc i')
    have "\<not> P x" if "x \<in> set xs" for x
      using Cons.prems(2) [of 0 x] that Suc by auto
    moreover have "List.find P (concat xss) = List.find P (xss ! i')"
    proof (rule Cons.IH)
      show "i' < length xss" using Cons.prems(1) Suc by simp
      show "j = i'" if "j < length xss" "x \<in> set (xss ! j)" "P x" for j x
        using Cons.prems(2) [of "Suc j" x] that Suc by simp
    qed
    ultimately show ?thesis using Suc by (simp add: find_append none)
  qed
qed

lemma cache_lookup_bucket:
  assumes "cache_inv t"
  shows "cache_lookup t k = List.find (\<lambda>e. e_id e = k) (c_entries t ! cache_ix (c_size t) k)"
  unfolding cache_lookup_def cache_all_def
proof (rule find_concat_bucket)
  have "length (c_entries t) = unat (c_size t)" using assms by (simp add: cache_inv_def buckets_ok_def)
  then show "cache_ix (c_size t) k < length (c_entries t)"
    using assms cache_ix_less [of "c_size t" k] by (simp add: cache_inv_def)
  fix j e
  assume "j < length (c_entries t)" "e \<in> set (c_entries t ! j)" "e_id e = k"
  then show "j = cache_ix (c_size t) k" using assms by (auto simp: cache_inv_def buckets_ok_def)
qed

lemma buckets_ok_update:
  assumes "buckets_ok sz es" and "i < length es"
    and "\<And>e. e \<in> set chain \<Longrightarrow> cache_ix sz (e_id e) = i"
  shows "buckets_ok sz (es[i := chain])"
  using assms by (auto simp: buckets_ok_def nth_list_update)

lemma mset_concat_update:
  "i < length xss \<Longrightarrow> mset (concat (xss[i := ys])) + mset (xss ! i) = mset (concat xss) + mset ys"
proof (induction xss arbitrary: i)
  case Nil
  then show ?case by simp
next
  case (Cons xs xss)
  show ?case
  proof (cases i)
    case 0
    then show ?thesis by simp
  next
    case (Suc j)
    with Cons.IH [of j] Cons.prems show ?thesis by (simp add: ac_simps)
  qed
qed

subsection \<open>Rehashing\<close>

lemma rehash_entry_ok:
  assumes "0 < sz" and "buckets_ok sz es"
  shows "buckets_ok sz (rehash_entry sz e es) \<and>
         mset (concat (rehash_entry sz e es)) = add_mset e (mset (concat es))"
proof -
  let ?h = "cache_ix sz (e_id e)"
  have h: "?h < length es" using assms cache_ix_less by (simp add: buckets_ok_def)
  have "buckets_ok sz (es[?h := e # es ! ?h])"
    using assms h by (intro buckets_ok_update) (auto simp: buckets_ok_def)
  moreover have "mset (concat (es[?h := e # es ! ?h])) + mset (es ! ?h) =
      add_mset e (mset (concat es)) + mset (es ! ?h)"
    using mset_concat_update [OF h, of "e # es ! ?h"] by simp
  ultimately show ?thesis by (simp add: rehash_entry_def Let_def)
qed

lemma rehash_chain_ok:
  assumes "0 < sz" and "buckets_ok sz es"
  shows "buckets_ok sz (fold (rehash_entry sz) xs es) \<and>
         mset (concat (fold (rehash_entry sz) xs es)) = mset xs + mset (concat es)"
  using assms(2)
proof (induction xs arbitrary: es)
  case Nil
  then show ?case by simp
next
  case (Cons x xs)
  from rehash_entry_ok [OF assms(1) Cons.prems, of x] Cons.IH [of "rehash_entry sz x es"]
  show ?case by simp
qed

lemma rehash_fold_ok:
  assumes "0 < sz" and "buckets_ok sz es"
  shows "buckets_ok sz (fold (fold (rehash_entry sz)) xss es) \<and>
         mset (concat (fold (fold (rehash_entry sz)) xss es)) = mset (concat xss) + mset (concat es)"
  using assms(2)
proof (induction xss arbitrary: es)
  case Nil
  then show ?case by simp
next
  case (Cons xs xss)
  from rehash_chain_ok [OF assms(1) Cons.prems, of xs] Cons.IH [of "fold (rehash_entry sz) xs es"]
  show ?case by (simp add: ac_simps)
qed

lemma new_size_pos: "(0 :: uint32) < c * 2 + 1"
proof -
  have "c * 2 + 1 \<noteq> (0 :: uint32)"
  proof
    assume "c * 2 + 1 = (0 :: uint32)"
    then have "bit (c * 2 + 1) 0 = bit (0 :: uint32) 0" by simp
    then show False by (simp add: bit_0)
  qed
  then show ?thesis by (simp add: word_gt_0)
qed

lemma buckets_ok_empty: "buckets_ok sz (replicate (unat sz) [])"
  by (simp add: buckets_ok_def)

lemma rehash_all_mset:
  "mset (cache_all (sigar_cache_rehash t)) = mset (cache_all t)"
  using rehash_fold_ok [OF new_size_pos buckets_ok_empty, of "c_count t" "c_entries t"]
  by (simp add: sigar_cache_rehash_def cache_all_def Let_def)

lemma rehash_buckets:
  "buckets_ok (c_size (sigar_cache_rehash t)) (c_entries (sigar_cache_rehash t))"
  using rehash_fold_ok [OF new_size_pos buckets_ok_empty, of "c_count t" "c_entries t"]
  by (simp add: sigar_cache_rehash_def Let_def)

lemma rehash_length: "length (cache_all (sigar_cache_rehash t)) = length (cache_all t)"
  using rehash_all_mset [of t] by (metis size_mset)

lemma rehash_fields:
  "c_count (sigar_cache_rehash t) = c_count t" "c_size (sigar_cache_rehash t) = c_count t * 2 + 1"
  "c_expire (sigar_cache_rehash t) = c_expire t" "c_cleanup (sigar_cache_rehash t) = c_cleanup t"
  "c_last_cleanup (sigar_cache_rehash t) = c_last_cleanup t"
  by (simp_all add: sigar_cache_rehash_def Let_def)

lemma distinct_map_mset_eq: "mset xs = mset ys \<Longrightarrow> distinct (map f xs) = distinct (map f ys)"
  by (metis distinct_count_atmost_1 mset_map set_mset_mset)

lemma lookup_mset_cong:
  assumes "mset (cache_all t) = mset (cache_all t')" and "distinct (map e_id (cache_all t))"
  shows "cache_lookup t = cache_lookup t'"
proof (rule ext, rule option.expand)
  fix k
  have s: "set (cache_all t) = set (cache_all t')" using assms(1) by (metis set_mset_mset)
  have d: "distinct (map e_id (cache_all t'))" using assms distinct_map_mset_eq by metis
  have e: "cache_lookup t k = Some x \<longleftrightarrow> cache_lookup t' k = Some x" for x
    using s assms(2) d by (simp add: cache_lookup_iff)
  then show "(cache_lookup t k = None) = (cache_lookup t' k = None)"
    by (metis option.exhaust)
  show "cache_lookup t k \<noteq> None \<Longrightarrow> cache_lookup t' k \<noteq> None \<Longrightarrow>
          the (cache_lookup t k) = the (cache_lookup t' k)"
    using e by (metis option.collapse option.sel)
qed

lemma double_count:
  "unat c < 2 ^ 31 \<Longrightarrow> unat (c * 2 + 1 :: uint32) = 2 * unat c + 1"
  by (simp add: unat_word_ariths)

text \<open>Rehashing re-establishes the invariant: it only needs the entries to be distinct and
  counted, not the old size to fit.\<close>

lemma rehash_inv:
  assumes "distinct (map e_id (cache_all t))" and "unat (c_count t) = length (cache_all t)"
    and "length (cache_all t) < 2 ^ 31"
  shows "cache_inv (sigar_cache_rehash t)"
proof -
  let ?t = "sigar_cache_rehash t"
  have len: "length (cache_all ?t) = length (cache_all t)"
    using rehash_all_mset [of t] by (metis size_mset)
  have "c_count t \<le> c_count t * 2 + 1"
    using assms double_count [of "c_count t"] by (simp add: word_le_nat_alt)
  then show ?thesis
    using assms len rehash_buckets [of t] new_size_pos distinct_map_mset_eq [OF rehash_all_mset, of e_id t]
    by (simp add: cache_inv_def rehash_fields)
qed

lemma rehash_lookup:
  "distinct (map e_id (cache_all t)) \<Longrightarrow> cache_lookup (sigar_cache_rehash t) = cache_lookup t"
  using lookup_mset_cong [OF rehash_all_mset [symmetric], of t] by simp

subsection \<open>The sweep\<close>

lemma cleanup_chain_filter:
  "cleanup_chain x now es =
     (filter (\<lambda>e. \<not> x < now - e_last_access e) es, filter (\<lambda>e. x < now - e_last_access e) es)"
  by (induction es) (auto simp: Let_def)

definition swept_table :: "'v cache \<Rightarrow> uint64 \<Rightarrow> 'v cache" where
  "swept_table t now = t\<lparr>c_last_cleanup := now,
     c_entries := map (filter (\<lambda>e. \<not> entry_expired t now e)) (c_entries t),
     c_count := c_count t - of_nat (length (filter (entry_expired t now) (cache_all t)))\<rparr>"

lemma cleanup_unfold:
  "sigar_perform_cleanup_if_necessary t now =
     (if cleanup_due t now then
        (if c_count (swept_table t now) < c_size t div 4
         then sigar_cache_rehash (swept_table t now) else swept_table t now)
      else t)"
proof -
  have k: "map fst (map (cleanup_chain (c_expire t) now) (c_entries t)) =
      map (filter (\<lambda>e. \<not> entry_expired t now e)) (c_entries t)"
    by (simp add: cleanup_chain_filter entry_expired_def comp_def)
  have f: "concat (map snd (map (cleanup_chain (c_expire t) now) (c_entries t))) =
      filter (entry_expired t now) (cache_all t)"
    by (simp add: cleanup_chain_filter entry_expired_def [abs_def] comp_def cache_all_def filter_concat)
  show ?thesis
    unfolding sigar_perform_cleanup_if_necessary_def cleanup_due_def Let_def k f swept_table_def
    by simp
qed

lemma swept_all: "cache_all (swept_table t now) = filter (\<lambda>e. \<not> entry_expired t now e) (cache_all t)"
  by (simp add: swept_table_def cache_all_def filter_concat)

lemma swept_count:
  assumes "unat (c_count t) = length (cache_all t)"
  shows "unat (c_count (swept_table t now)) = length (cache_all (swept_table t now))"
proof -
  let ?f = "length (filter (entry_expired t now) (cache_all t))"
  have sum: "?f + length (filter (\<lambda>e. \<not> entry_expired t now e) (cache_all t)) = length (cache_all t)"
    by (rule sum_length_filter_compl)
  then have le: "?f \<le> unat (c_count t)" using assms by simp
  then have "unat (of_nat ?f :: uint32) = ?f"
    using unsigned_less [of "c_count t", where ?'a = nat]
    by (simp add: unsigned_of_nat take_bit_nat_eq_self_iff order_le_less_trans)
  with le have "unat (c_count t - of_nat ?f) = unat (c_count t) - ?f"
    by (subst unat_sub) (auto simp: word_le_nat_alt)
  moreover have "c_count (swept_table t now) = c_count t - of_nat ?f" by (simp add: swept_table_def)
  ultimately show ?thesis using sum assms by (simp add: swept_all)
qed

lemma swept_distinct:
  "distinct (map e_id (cache_all t)) \<Longrightarrow> distinct (map e_id (cache_all (swept_table t now)))"
  by (simp add: swept_all distinct_map_filter)

lemma swept_inv:
  assumes "cache_inv t"
  shows "cache_inv (swept_table t now)"
proof -
  have "length (cache_all (swept_table t now)) \<le> length (cache_all t)"
    by (simp add: swept_all)
  moreover have "unat (c_count (swept_table t now)) = length (cache_all (swept_table t now))"
    using assms by (intro swept_count) (simp add: cache_inv_def)
  moreover have "buckets_ok (c_size t) (map (filter (\<lambda>e. \<not> entry_expired t now e)) (c_entries t))"
    using assms by (auto simp: cache_inv_def buckets_ok_def)
  ultimately show ?thesis
    using assms swept_distinct [of t now]
    by (auto simp: cache_inv_def word_le_nat_alt) (simp_all add: swept_table_def)
qed

lemma cleanup_inv:
  assumes "cache_inv t"
  shows "cache_inv (sigar_perform_cleanup_if_necessary t now)"
  using assms swept_inv [OF assms, of now] rehash_inv [of "swept_table t now"]
  by (simp add: cleanup_unfold) (simp add: cache_inv_def)

lemma find_filter_unique:
  "distinct (map f xs) \<Longrightarrow>
     List.find (\<lambda>e. f e = k) (filter P xs) =
       (case List.find (\<lambda>e. f e = k) xs of None \<Rightarrow> None | Some e \<Rightarrow> if P e then Some e else None)"
proof (induction xs)
  case Nil
  then show ?case by simp
next
  case (Cons x xs)
  have "f x = k \<Longrightarrow> List.find (\<lambda>e. f e = k) (filter P xs) = None"
    using Cons.prems by (auto simp: find_None_iff image_iff)
  with Cons show ?case by (auto split: option.split)
qed

lemma cleanup_lookup:
  assumes "cache_inv t"
  shows "cache_lookup (sigar_perform_cleanup_if_necessary t now) k = cache_view t now k"
proof (cases "cleanup_due t now")
  case True
  have "cache_lookup (swept_table t now) k = cache_view t now k"
    using assms True
    by (auto simp: cache_lookup_def swept_all cache_view_def cache_inv_def find_filter_unique
        split: option.split)
  moreover have "cache_lookup (sigar_cache_rehash (swept_table t now)) = cache_lookup (swept_table t now)"
    using assms by (intro rehash_lookup swept_distinct) (simp add: cache_inv_def)
  ultimately show ?thesis using True by (simp add: cleanup_unfold)
next
  case False
  then show ?thesis by (simp add: cleanup_unfold cache_view_def split: option.split)
qed

subsection \<open>Find and get\<close>

lemma concat_update_split:
  assumes "i < length xss"
  obtains A B where "\<And>chain. concat (xss[i := chain]) = A @ chain @ B" "concat xss = A @ xss ! i @ B"
proof
  show "concat (xss[i := chain]) = concat (take i xss) @ chain @ concat (drop (Suc i) xss)" for chain
    using assms by (simp add: upd_conv_take_nth_drop)
  show "concat xss = concat (take i xss) @ xss ! i @ concat (drop (Suc i) xss)"
    using arg_cong [OF id_take_nth_drop [OF assms], of concat] by simp
qed

lemma chain_touch_None: "chain_touch k now es = None \<longleftrightarrow> List.find (\<lambda>e. e_id e = k) es = None"
  by (induction es) (auto simp: Let_def split: option.splits)

lemma chain_touch_Some:
  assumes "chain_touch k now es = Some (e, es')"
  obtains e0 as bs where "List.find (\<lambda>e. e_id e = k) es = Some e0" "e = e0\<lparr>e_last_access := now\<rparr>"
    "es = as @ e0 # bs" "es' = as @ e # bs" "e_id e0 = k"
  using assms
proof (induction es arbitrary: es' thesis)
  case Nil
  then show ?case by simp
next
  case (Cons x xs)
  show ?case
  proof (cases "e_id x = k")
    case True
    with Cons.prems(2) show ?thesis by (intro Cons.prems(1) [of x "[]" xs]) (auto simp: Let_def)
  next
    case False
    with Cons.prems(2) obtain r where r: "chain_touch k now xs = Some (e, r)" "es' = x # r"
      by (auto split: option.splits)
    from r(1) Cons.IH obtain e0 as bs where
      "List.find (\<lambda>e. e_id e = k) xs = Some e0" "e = e0\<lparr>e_last_access := now\<rparr>"
      "xs = as @ e0 # bs" "r = as @ e # bs" "e_id e0 = k" by blast
    with False r(2) show ?thesis by (intro Cons.prems(1) [of e0 "x # as" bs]) auto
  qed
qed

lemma cache_ix_in: "cache_inv t \<Longrightarrow> cache_ix (c_size t) k < length (c_entries t)"
  using cache_ix_less [of "c_size t" k] by (simp add: cache_inv_def buckets_ok_def)

lemma bucket_member:
  "cache_inv t \<Longrightarrow> e \<in> set (c_entries t ! cache_ix (c_size t) k) \<Longrightarrow>
     cache_ix (c_size t) (e_id e) = cache_ix (c_size t) k"
  using cache_ix_in [of t k] by (simp add: cache_inv_def buckets_ok_def)

text \<open>Overwriting one entry of its chain by another one with the same key.\<close>

lemma replace_entry:
  fixes t :: "'v cache"
  assumes inv: "cache_inv t" and ix: "ix = cache_ix (c_size t) k"
    and chain: "c_entries t ! ix = as @ e0 # bs" and keys: "e_id e0 = k" "e_id e1 = k"
  defines "t' \<equiv> t\<lparr>c_entries := (c_entries t)[ix := as @ e1 # bs]\<rparr>"
  shows "cache_inv t'" and "cache_lookup t' = (cache_lookup t)(k \<mapsto> e1)"
proof -
  have ix_in: "ix < length (c_entries t)" using cache_ix_in [OF inv] ix by simp
  from concat_update_split [OF ix_in] obtain A B where
    AB: "\<And>c. concat ((c_entries t)[ix := c]) = A @ c @ B" "concat (c_entries t) = A @ c_entries t ! ix @ B"
    by metis
  have all: "cache_all t = (A @ as) @ e0 # bs @ B" "cache_all t' = (A @ as) @ e1 # bs @ B"
    using AB chain by (simp_all add: cache_all_def t'_def)
  have ids: "map e_id (cache_all t') = map e_id (cache_all t)" using all keys by simp
  then have len: "length (cache_all t') = length (cache_all t)" by (metis length_map)
  have d: "distinct (map e_id (cache_all t))" using inv by (simp add: cache_inv_def)
  have "buckets_ok (c_size t) ((c_entries t)[ix := as @ e1 # bs])"
  proof (rule buckets_ok_update)
    show "buckets_ok (c_size t) (c_entries t)" using inv by (simp add: cache_inv_def)
    show "cache_ix (c_size t) (e_id e) = ix" if "e \<in> set (as @ e1 # bs)" for e
    proof (cases "e = e1")
      case True
      then show ?thesis using keys ix by simp
    next
      case False
      with that chain have "e \<in> set (c_entries t ! ix)" by auto
      with bucket_member [OF inv] ix show ?thesis by simp
    qed
  qed (rule ix_in)
  then show "cache_inv t'" using inv ids len by (simp add: cache_inv_def t'_def)
  show "cache_lookup t' = (cache_lookup t)(k \<mapsto> e1)"
  proof
    fix j
    have "k \<notin> e_id ` set (A @ as)" using d all(1) keys by auto
    then have none: "List.find (\<lambda>e. e_id e = k) (A @ as) = None" by (auto simp: find_None_iff)
    show "cache_lookup t' j = ((cache_lookup t)(k \<mapsto> e1)) j"
      unfolding cache_lookup_def all using none keys
      by (cases "j = k") (simp_all only: find_append, auto split: option.split)
  qed
qed

text \<open>Appending an entry with a new key to its chain.\<close>

lemma append_entry:
  fixes t :: "'v cache"
  assumes size: "0 < c_size t" and buckets: "buckets_ok (c_size t) (c_entries t)"
    and ix: "ix = cache_ix (c_size t) k" and d: "distinct (map e_id (cache_all t))"
    and new: "cache_lookup t k = None" and key: "e_id e = k"
    and count: "unat (c_count t) = Suc (length (cache_all t))" "c_count t \<le> c_size t" "unat (c_count t) < 2 ^ 31"
  defines "t' \<equiv> t\<lparr>c_entries := (c_entries t)[ix := c_entries t ! ix @ [e]]\<rparr>"
  shows "cache_inv t'" and "cache_lookup t' = (cache_lookup t)(k \<mapsto> e)"
proof -
  have ix_in: "ix < length (c_entries t)"
    using cache_ix_less [OF size] buckets ix by (simp add: buckets_ok_def)
  from concat_update_split [OF ix_in] obtain A B where
    AB: "\<And>c. concat ((c_entries t)[ix := c]) = A @ c @ B" "concat (c_entries t) = A @ c_entries t ! ix @ B"
    by metis
  define C where "C = A @ c_entries t ! ix"
  have all: "cache_all t = C @ B" "cache_all t' = C @ e # B"
    using AB by (simp_all add: cache_all_def t'_def C_def)
  have fresh: "k \<notin> e_id ` set (C @ B)"
    using new unfolding cache_lookup_def all find_None_iff by auto
  have d': "distinct (map e_id (cache_all t'))" using d fresh key all by auto
  have "buckets_ok (c_size t) ((c_entries t)[ix := c_entries t ! ix @ [e]])"
    using buckets ix_in key ix by (intro buckets_ok_update) (auto simp: buckets_ok_def)
  then show inv: "cache_inv t'" using size d' count all by (simp add: cache_inv_def t'_def)
  show "cache_lookup t' = (cache_lookup t)(k \<mapsto> e)"
  proof
    fix j
    have none: "List.find (\<lambda>e. e_id e = k) C = None" using fresh by (auto simp: find_None_iff)
    show "cache_lookup t' j = ((cache_lookup t)(k \<mapsto> e)) j"
      unfolding cache_lookup_def all using none key
      by (cases "j = k") (simp_all add: find_append, auto split: option.split)
  qed
qed

lemma find_ok:
  assumes inv: "cache_inv t"
  shows "cache_inv (snd (sigar_cache_find t k a b))"
    and "fst (sigar_cache_find t k a b) = map_option (\<lambda>e. e\<lparr>e_last_access := b\<rparr>) (cache_view t a k)"
    and "cache_lookup (snd (sigar_cache_find t k a b)) =
           (case cache_view t a k of None \<Rightarrow> cache_view t a
            | Some e \<Rightarrow> (cache_view t a)(k \<mapsto> e\<lparr>e_last_access := b\<rparr>))"
proof -
  let ?t = "sigar_perform_cleanup_if_necessary t a"
  let ?ix = "cache_ix (c_size ?t) k"
  have inv': "cache_inv ?t" using inv by (rule cleanup_inv)
  have view: "cache_lookup ?t = cache_view t a" using cleanup_lookup [OF inv] by blast
  then have bucket: "List.find (\<lambda>e. e_id e = k) (c_entries ?t ! ?ix) = cache_view t a k"
    using cache_lookup_bucket [OF inv'] by metis
  have "cache_inv (snd (sigar_cache_find t k a b)) \<and>
    fst (sigar_cache_find t k a b) = map_option (\<lambda>e. e\<lparr>e_last_access := b\<rparr>) (cache_view t a k) \<and>
    cache_lookup (snd (sigar_cache_find t k a b)) =
           (case cache_view t a k of None \<Rightarrow> cache_view t a
            | Some e \<Rightarrow> (cache_view t a)(k \<mapsto> e\<lparr>e_last_access := b\<rparr>))"
  proof (cases "chain_touch k b (c_entries ?t ! ?ix)")
    case None
    then have "cache_view t a k = None" using bucket chain_touch_None by metis
    with None inv' view show ?thesis by (simp add: sigar_cache_find_def Let_def)
  next
    case (Some p)
    obtain e c where p: "p = (e, c)" by (cases p)
    from chain_touch_Some [OF Some [unfolded p]] obtain e0 as bs where
      e0: "cache_view t a k = Some e0" "e = e0\<lparr>e_last_access := b\<rparr>"
      "c_entries ?t ! ?ix = as @ e0 # bs" "c = as @ e # bs" "e_id e0 = k"
      using bucket by metis
    from replace_entry [OF inv' refl e0(3) e0(5), of e] e0 Some p view show ?thesis
      by (simp add: sigar_cache_find_def Let_def)
  qed
  then show "cache_inv (snd (sigar_cache_find t k a b))"
    and "fst (sigar_cache_find t k a b) = map_option (\<lambda>e. e\<lparr>e_last_access := b\<rparr>) (cache_view t a k)"
    and "cache_lookup (snd (sigar_cache_find t k a b)) =
           (case cache_view t a k of None \<Rightarrow> cache_view t a
            | Some e \<Rightarrow> (cache_view t a)(k \<mapsto> e\<lparr>e_last_access := b\<rparr>))"
    by blast+
qed

text \<open>The insertion branch of get, on a table that was searched in vain.\<close>

definition cache_add :: "'v cache \<Rightarrow> uint64 \<Rightarrow> uint64 \<Rightarrow> 'v cache_entry \<times> 'v cache" where
  "cache_add table key now =
     (let table1 = table\<lparr>c_count := c_count table + 1\<rparr>;
          table2 = (if c_size table1 < c_count table1 then sigar_cache_rehash table1 else table1);
          ix2 = cache_ix (c_size table2) key;
          entry = \<lparr>e_id = key, e_value = None, e_last_access = now\<rparr>
      in (entry, table2\<lparr>c_entries := (c_entries table2)[ix2 := c_entries table2 ! ix2 @ [entry]]\<rparr>))"

lemma get_via_find:
  "sigar_cache_get t k a b =
     (case sigar_cache_find t k a b of (Some e, t') \<Rightarrow> (e, t') | (None, t') \<Rightarrow> cache_add t' k b)"
  by (simp add: sigar_cache_get_def sigar_cache_find_def cache_add_def Let_def split: option.splits)

lemma cache_add_ok:
  fixes t :: "'v cache"
  assumes inv: "cache_inv t" and new: "cache_lookup t k = None" and room: "length (cache_all t) < 2 ^ 31 - 1"
  shows "cache_inv (snd (cache_add t k b))"
    and "cache_lookup (snd (cache_add t k b)) = (cache_lookup t)(k \<mapsto> \<lparr>e_id = k, e_value = None, e_last_access = b\<rparr>)"
proof -
  define t1 where "t1 = t\<lparr>c_count := c_count t + 1\<rparr>"
  define t2 where "t2 = (if c_size t1 < c_count t1 then sigar_cache_rehash t1 else t1)"
  let ?e = "\<lparr>e_id = k, e_value = None :: 'v option, e_last_access = b\<rparr>"
  have n: "unat (c_count t) = length (cache_all t)" and d: "distinct (map e_id (cache_all t))"
    using inv by (simp_all add: cache_inv_def)
  have all1: "cache_all t1 = cache_all t" by (simp add: t1_def cache_all_def)
  have c1: "unat (c_count t1) = Suc (length (cache_all t))"
    using n room by (simp add: t1_def unat_word_ariths)
  have all2: "mset (cache_all t2) = mset (cache_all t)"
    using rehash_all_mset [of t1] all1 by (simp add: t2_def)
  then have len2: "length (cache_all t2) = length (cache_all t)" by (metis size_mset)
  have c2: "c_count t2 = c_count t1" by (simp add: t2_def rehash_fields)
  have s2: "0 < c_size t2" and b2: "buckets_ok (c_size t2) (c_entries t2)"
    using inv new_size_pos [of "c_count t1"] rehash_buckets [of t1]
    by (simp_all add: t2_def rehash_fields) (simp_all add: t1_def cache_inv_def)
  have le2: "c_count t2 \<le> c_size t2"
    using c1 room double_count [of "c_count t1"]
    by (auto simp: t2_def rehash_fields word_le_nat_alt not_less)
  have l2: "cache_lookup t2 = cache_lookup t"
    using lookup_mset_cong [OF all2 [symmetric] d] by simp
  have d2: "distinct (map e_id (cache_all t2))" using d distinct_map_mset_eq [OF all2, of e_id] by simp
  have unf: "snd (cache_add t k b) =
      t2\<lparr>c_entries := (c_entries t2)[cache_ix (c_size t2) k := c_entries t2 ! cache_ix (c_size t2) k @ [?e]]\<rparr>"
    by (simp add: cache_add_def Let_def t2_def t1_def)
  have new2: "cache_lookup t2 k = None" using new l2 by simp
  note app = append_entry [OF s2 b2 refl d2 new2, of ?e]
  show "cache_inv (snd (cache_add t k b))"
    unfolding unf by (rule app(1)) (use c1 c2 len2 le2 room in auto)
  show "cache_lookup (snd (cache_add t k b)) = (cache_lookup t)(k \<mapsto> ?e)"
    unfolding unf l2 [symmetric] by (rule app(2)) (use c1 c2 len2 le2 room in auto)
qed

lemma find_length:
  assumes "cache_inv t"
  shows "length (cache_all (snd (sigar_cache_find t k a b))) \<le> length (cache_all t)"
proof -
  let ?t = "sigar_perform_cleanup_if_necessary t a"
  have "length (cache_all ?t) \<le> length (cache_all t)"
    using rehash_length [of "swept_table t a"] by (auto simp: cleanup_unfold swept_all)
  moreover have "c_count (snd (sigar_cache_find t k a b)) = c_count ?t"
    by (simp add: sigar_cache_find_def Let_def split: option.split)
  moreover have "cache_inv (snd (sigar_cache_find t k a b))" "cache_inv ?t"
    using find_ok(1) [OF assms] cleanup_inv [OF assms] by auto
  ultimately show ?thesis by (simp add: cache_inv_def)
qed

definition fresh_or_touched :: "'v cache \<Rightarrow> uint64 \<Rightarrow> uint64 \<Rightarrow> uint64 \<Rightarrow> 'v cache_entry" where
  "fresh_or_touched t k a b =
     (case cache_view t a k of
        None \<Rightarrow> \<lparr>e_id = k, e_value = None, e_last_access = b\<rparr>
      | Some e \<Rightarrow> e\<lparr>e_last_access := b\<rparr>)"

lemma get_ok:
  assumes inv: "cache_inv t" and room: "length (cache_all t) < 2 ^ 31 - 1"
  shows "cache_inv (snd (sigar_cache_get t k a b))"
    and "fst (sigar_cache_get t k a b) = fresh_or_touched t k a b"
    and "cache_lookup (snd (sigar_cache_get t k a b)) = (cache_view t a)(k \<mapsto> fresh_or_touched t k a b)"
proof -
  obtain r t' where f: "sigar_cache_find t k a b = (r, t')" by (cases "sigar_cache_find t k a b")
  note ok = find_ok [OF inv, of k a b, unfolded f, simplified]
  have room': "length (cache_all t') < 2 ^ 31 - 1" using find_length [OF inv, of k a b] f room by simp
  have "cache_inv (snd (sigar_cache_get t k a b)) \<and>
        fst (sigar_cache_get t k a b) = fresh_or_touched t k a b \<and>
        cache_lookup (snd (sigar_cache_get t k a b)) = (cache_view t a)(k \<mapsto> fresh_or_touched t k a b)"
  proof (cases "cache_view t a k")
    case None
    with ok have t': "cache_inv t'" "r = None" "cache_lookup t' = cache_view t a" by auto
    with None cache_add_ok [OF t'(1) _ room', of k b] f show ?thesis
      by (simp add: get_via_find fresh_or_touched_def) (simp add: cache_add_def Let_def)
  next
    case (Some e)
    with ok f show ?thesis by (simp add: get_via_find fresh_or_touched_def)
  qed
  then show "cache_inv (snd (sigar_cache_get t k a b))"
    and "fst (sigar_cache_get t k a b) = fresh_or_touched t k a b"
    and "cache_lookup (snd (sigar_cache_get t k a b)) = (cache_view t a)(k \<mapsto> fresh_or_touched t k a b)"
    by blast+
qed

lemma get_length:
  assumes inv: "cache_inv t" and room: "length (cache_all t) < 2 ^ 31 - 1"
  shows "length (cache_all (snd (sigar_cache_get t k a b))) \<le> Suc (length (cache_all t))"
proof -
  obtain r t' where f: "sigar_cache_find t k a b = (r, t')" by (cases "sigar_cache_find t k a b")
  have t': "cache_inv t'" "length (cache_all t') \<le> length (cache_all t)"
    using find_ok(1) [OF inv, of k a b] find_length [OF inv, of k a b] f by simp_all
  have "c_count (snd (cache_add t' k b)) = c_count t' + 1"
    by (simp add: cache_add_def Let_def rehash_fields)
  then have "unat (c_count (snd (cache_add t' k b))) \<le> Suc (unat (c_count t'))"
    by (simp add: unat_word_ariths)
  then have "unat (c_count (snd (sigar_cache_get t k a b))) \<le> Suc (length (cache_all t'))"
    using t'(1) f by (simp add: get_via_find cache_inv_def split: option.split)
  then show ?thesis using get_ok(1) [OF inv room, of k a b] t'(2) by (simp add: cache_inv_def)
qed

lemma set_value_all:
  "cache_all (cache_set_value t k v) =
     map (\<lambda>e. if e_id e = k then e\<lparr>e_value := Some v\<rparr> else e) (cache_all t)"
  by (simp add: cache_all_def cache_set_value_def map_concat)

lemma set_value_ids: "map e_id (cache_all (cache_set_value t k v)) = map e_id (cache_all t)"
  by (simp add: set_value_all)

lemma set_value_inv: "cache_inv t \<Longrightarrow> cache_inv (cache_set_value t k v)"
  using set_value_ids [of t k v]
  by (auto simp: cache_inv_def buckets_ok_def cache_set_value_def dest: arg_cong [of _ _ length])

lemma set_value_lookup:
  "cache_lookup (cache_set_value t k v) j =
     map_option (\<lambda>e. if j = k then e\<lparr>e_value := Some v\<rparr> else e) (cache_lookup t j)"
proof -
  have "List.find (\<lambda>e. e_id e = j) (map (\<lambda>e. if e_id e = k then e\<lparr>e_value := Some v\<rparr> else e) xs) =
      map_option (\<lambda>e. if j = k then e\<lparr>e_value := Some v\<rparr> else e) (List.find (\<lambda>e. e_id e = j) xs)" for xs
    by (induction xs) auto
  then show ?thesis by (simp add: cache_lookup_def set_value_all)
qed

lemma new_inv: "0 < sz \<Longrightarrow> cache_inv (sigar_expired_cache_new sz c x now)"
  by (simp add: cache_inv_def buckets_ok_def sigar_expired_cache_new_def cache_all_def)

lemma new_lookup: "cache_lookup (sigar_expired_cache_new sz c x now) = Map.empty"
  by (auto simp: cache_lookup_def cache_all_def sigar_expired_cache_new_def find_None_iff)

section \<open>The interface of the clients\<close>

text \<open>
  A client reads the value stored under a key, and when there is none computes it and stores
  it through the returned entry. \<open>stored\<close> is the content, \<open>seen\<close> what an access at a
  given time still finds of it.
\<close>

locale id_cache =
  fixes inv :: "'c \<Rightarrow> bool" and room :: "'c \<Rightarrow> bool"
    and stored :: "'c \<Rightarrow> uint64 \<Rightarrow> 'v option" and seen :: "'c \<Rightarrow> uint64 \<Rightarrow> uint64 \<Rightarrow> 'v option"
    and present :: "'c \<Rightarrow> uint64 \<Rightarrow> bool"
    and get_value :: "'c \<Rightarrow> uint64 \<Rightarrow> uint64 \<Rightarrow> uint64 \<Rightarrow> 'v option \<times> 'c"
    and set_value :: "'c \<Rightarrow> uint64 \<Rightarrow> 'v \<Rightarrow> 'c"
  assumes seen_stored: "seen c a k = Some v \<Longrightarrow> stored c k = Some v"
    and get_inv: "inv c \<Longrightarrow> room c \<Longrightarrow> inv (snd (get_value c k a b))"
    and get_result: "inv c \<Longrightarrow> room c \<Longrightarrow> fst (get_value c k a b) = seen c a k"
    and get_stored: "inv c \<Longrightarrow> room c \<Longrightarrow> stored (snd (get_value c k a b)) = seen c a"
    and get_present: "inv c \<Longrightarrow> room c \<Longrightarrow> present (snd (get_value c k a b)) k"
    and set_inv: "inv c \<Longrightarrow> inv (set_value c k v)"
    and set_stored: "inv c \<Longrightarrow> present c k \<Longrightarrow> stored (set_value c k v) = (stored c)(k \<mapsto> v)"
begin

definition memo :: "(uint64 \<Rightarrow> 'v) \<Rightarrow> 'c \<Rightarrow> uint64 \<Rightarrow> uint64 \<Rightarrow> uint64 \<Rightarrow> 'v \<times> 'c" where
  "memo f c k a b =
     (case get_value c k a b of
        (Some v, c') \<Rightarrow> (v, c')
      | (None, c') \<Rightarrow> (f k, set_value c' k (f k)))"

definition agrees :: "(uint64 \<Rightarrow> 'v) \<Rightarrow> 'c \<Rightarrow> bool" where
  "agrees f c \<longleftrightarrow> (\<forall>k v. stored c k = Some v \<longrightarrow> v = f k)"

lemma memo_ok:
  assumes "inv c" and "room c" and "agrees f c"
  shows "fst (memo f c k a b) = f k" and "inv (snd (memo f c k a b))" and "agrees f (snd (memo f c k a b))"
    and "stored (snd (memo f c k a b)) k = Some (f k)"
proof -
  obtain r c' where g: "get_value c k a b = (r, c')" by (cases "get_value c k a b")
  have c': "inv c'" "stored c' = seen c a" "present c' k" "r = seen c a k"
    using g get_inv [of c k a b] get_stored [of c k a b] get_present [of c k a b]
      get_result [of c k a b] assms by simp_all
  have ag: "v = f j" if "seen c a j = Some v" for j v
    using seen_stored [OF that] assms(3) by (simp add: agrees_def)
  have "fst (memo f c k a b) = f k \<and> inv (snd (memo f c k a b)) \<and> agrees f (snd (memo f c k a b)) \<and>
      stored (snd (memo f c k a b)) k = Some (f k)"
  proof (cases r)
    case None
    with g c' set_inv [of c' k "f k"] set_stored [of c' k "f k"] ag show ?thesis
      by (auto simp: memo_def agrees_def split: if_splits)
  next
    case (Some v)
    with c'(4) have sv: "seen c a k = Some v" by simp
    have "agrees f c'" unfolding agrees_def c'(2) using ag by blast
    moreover have "memo f c k a b = (v, c')" using g Some by (simp add: memo_def)
    ultimately show ?thesis using ag [OF sv] c' sv by simp
  qed
  then show "fst (memo f c k a b) = f k" "inv (snd (memo f c k a b))" "agrees f (snd (memo f c k a b))"
    "stored (snd (memo f c k a b)) k = Some (f k)" by blast+
qed

end

definition cache_stored :: "'v cache \<Rightarrow> uint64 \<Rightarrow> 'v option" where
  "cache_stored t k = Option.bind (cache_lookup t k) e_value"

definition cache_seen :: "'v cache \<Rightarrow> uint64 \<Rightarrow> uint64 \<Rightarrow> 'v option" where
  "cache_seen t now k = Option.bind (cache_view t now k) e_value"

definition cache_room :: "'v cache \<Rightarrow> bool" where
  "cache_room t \<longleftrightarrow> length (cache_all t) < 2 ^ 31 - 1"

text \<open>\<open>entry->value\<close> of the entry \<open>sigar_cache_get\<close> returns.\<close>

definition cache_get_value :: "'v cache \<Rightarrow> uint64 \<Rightarrow> uint64 \<Rightarrow> uint64 \<Rightarrow> 'v option \<times> 'v cache" where
  "cache_get_value t k a b = (let (e, t') = sigar_cache_get t k a b in (e_value e, t'))"

lemma cache_get_value_parts:
  "fst (cache_get_value t k a b) = e_value (fst (sigar_cache_get t k a b))"
  "snd (cache_get_value t k a b) = snd (sigar_cache_get t k a b)"
  by (simp_all add: cache_get_value_def split: prod.split)

interpretation id_table: id_cache cache_inv cache_room cache_stored cache_seen
  "\<lambda>t k. cache_lookup t k \<noteq> None" cache_get_value cache_set_value
proof unfold_locales
  fix c :: "'a cache" and a b k :: uint64 and v :: 'a
  show "cache_stored c k = Some v" if "cache_seen c a k = Some v"
    using that by (auto simp: cache_seen_def cache_stored_def cache_view_def bind_eq_Some_conv split: option.splits if_splits)
  show "cache_inv (cache_set_value c k v)" if "cache_inv c" using that by (rule set_value_inv)
  show "cache_stored (cache_set_value c k v) = (cache_stored c)(k \<mapsto> v)" if "cache_lookup c k \<noteq> None"
    using that by (auto simp: cache_stored_def set_value_lookup fun_eq_iff option.map_ident)
  assume i: "cache_inv c" and "cache_room c"
  then have r: "length (cache_all c) < 2 ^ 31 - 1" by (simp add: cache_room_def)
  note g = get_ok [OF i r, of k a b]
  show "cache_inv (snd (cache_get_value c k a b))" using g by (simp add: cache_get_value_parts)
  show "fst (cache_get_value c k a b) = cache_seen c a k"
    using g by (simp add: cache_get_value_parts cache_seen_def fresh_or_touched_def split: option.split)
  show "cache_stored (snd (cache_get_value c k a b)) = cache_seen c a"
    using g by (auto simp: cache_get_value_parts cache_stored_def cache_seen_def fresh_or_touched_def fun_eq_iff split: option.split)
  show "cache_lookup (snd (cache_get_value c k a b)) k \<noteq> None" using g by (simp add: cache_get_value_parts)
qed

section \<open>Sequences of operations\<close>

text \<open>What the rest of the library does to one table during its life.\<close>

datatype 'v cache_op =
    OpFind uint64 uint64 uint64
  | OpGet uint64 uint64 uint64
  | OpSet uint64 'v

fun cache_run :: "'v cache_op list \<Rightarrow> 'v cache \<Rightarrow> 'v cache" where
  "cache_run [] t = t"
| "cache_run (OpFind k a b # ops) t = cache_run ops (snd (sigar_cache_find t k a b))"
| "cache_run (OpGet k a b # ops) t = cache_run ops (snd (sigar_cache_get t k a b))"
| "cache_run (OpSet k v # ops) t = cache_run ops (cache_set_value t k v)"

lemma cache_run_ok:
  assumes "cache_inv t" and "length (cache_all t) + length ops < 2 ^ 31"
  shows "cache_inv (cache_run ops t) \<and> length (cache_all (cache_run ops t)) \<le> length (cache_all t) + length ops"
  using assms
proof (induction ops t rule: cache_run.induct)
  case (1 t)
  then show ?case by simp
next
  case (2 k a b ops t)
  from find_ok(1) [OF 2(2)] find_length [OF 2(2)] 2(3)
  have "cache_inv (snd (sigar_cache_find t k a b))"
    "length (cache_all (snd (sigar_cache_find t k a b))) \<le> length (cache_all t)" by auto
  with 2(1,3) show ?case by simp
next
  case (3 k a b ops t)
  then have room: "length (cache_all t) < 2 ^ 31 - 1" by simp
  from get_ok(1) [OF 3(2) room] get_length [OF 3(2) room]
  have "cache_inv (snd (sigar_cache_get t k a b))"
    "length (cache_all (snd (sigar_cache_get t k a b))) \<le> Suc (length (cache_all t))" by auto
  with 3(1,3) show ?case by simp
next
  case (4 k v ops t)
  have "length (cache_all (cache_set_value t k v)) = length (cache_all t)" by (simp add: set_value_all)
  with 4(1,3) set_value_inv [OF 4(2), of k v] show ?case by simp
qed

lemma destroy_chain_freed:
  "[e. FreeEntry e \<leftarrow> destroy_chain es] = es"
  "[v. FreeValue v \<leftarrow> destroy_chain es] = List.map_filter e_value es"
  by (induction es) (auto simp: map_filter_simps split: option.split)

section \<open>Properties\<close>

text \<open>C7: \<open>sigar_cache_get\<close> is lookup-or-insert on the table's content at the time of the
  call. Whatever the sweep removed and however often the table was rehashed on the way,
  the entry returned is the one stored under the key, its access time updated, or a new
  one with a NULL value; afterwards the table holds exactly what was visible before plus
  that entry, no chain is out of place and the counter is exact.\<close>

theorem sigar_cache_get_refines:
  assumes "cache_inv t" and "length (cache_all t) < 2 ^ 31 - 1"
  shows "fst (sigar_cache_get t k a b) =
           (case cache_view t a k of
              None \<Rightarrow> \<lparr>e_id = k, e_value = None, e_last_access = b\<rparr>
            | Some e \<Rightarrow> e\<lparr>e_last_access := b\<rparr>)
         \<and> cache_lookup (snd (sigar_cache_get t k a b)) =
             (cache_view t a)(k \<mapsto> fst (sigar_cache_get t k a b))
         \<and> cache_inv (snd (sigar_cache_get t k a b))"
  using get_ok [OF assms] by (simp add: fresh_or_touched_def)

theorem sigar_cache_get_refines_witness:
  "let t = snd (sigar_cache_get (sigar_cache_new 1 0 :: nat cache) 7 0 0) in
     fst (sigar_cache_get t 8 1 2) = \<lparr>e_id = 8, e_value = None, e_last_access = 2\<rparr> \<and>
     c_size (snd (sigar_cache_get t 8 1 2)) = 5"
proof -
  let ?t = "snd (sigar_cache_get (sigar_cache_new 1 0 :: nat cache) 7 0 0)"
  have t: "?t = \<lparr>c_entries = [[\<lparr>e_id = 7, e_value = None, e_last_access = 0\<rparr>]], c_count = 1, c_size = 1,
      c_expire = - 1, c_cleanup = - 1, c_last_cleanup = 0\<rparr>" by code_simp
  have "cache_inv ?t" "length (cache_all ?t) < 2 ^ 31 - 1"
    unfolding t by (simp_all add: cache_inv_def buckets_ok_def cache_all_def cache_ix_def)
  moreover have "cache_view ?t 1 8 = None" "c_size (snd (sigar_cache_get ?t 8 1 2)) = 5" by code_simp+
  ultimately show ?thesis using sigar_cache_get_refines [of ?t 8 1 2] by (simp add: Let_def)
qed



text \<open>C9: every table a program can make keeps the invariant. Starting from a new table with
  at least one chain, after any sequence of finds, gets and value updates, at any clock
  readings (the clock may even run backwards), every entry is in the chain its key hashes
  to, no key occurs twice, \<open>count\<close> is the number of entries and never exceeds \<open>size\<close>.\<close>

theorem cache_run_invariant:
  assumes "0 < sz" and "length ops < 2 ^ 31"
  shows "cache_inv (cache_run ops (sigar_expired_cache_new sz c x now))"
proof -
  have "cache_all (sigar_expired_cache_new sz c x now :: 'a cache) = []"
    by (simp add: cache_all_def sigar_expired_cache_new_def)
  then show ?thesis using cache_run_ok [OF new_inv [OF assms(1)], of c x now ops] assms(2) by simp
qed

theorem cache_run_invariant_witness:
  "cache_inv (cache_run [OpGet 3 0 0, OpSet 3 (5 :: nat), OpGet 4 20 20, OpFind 3 50 50]
      (sigar_expired_cache_new 1 10 15 0))"
  by (rule cache_run_invariant) simp_all

text \<open>the sweep is exact. It happens only when a cleanup period is set and has passed; it
  then drops the entries not read for longer than the expiry period and no other one, and
  leaves \<open>count\<close> equal to the number of survivors.\<close>

theorem cleanup_exact:
  assumes "cache_inv t"
  shows "mset (cache_all (sigar_perform_cleanup_if_necessary t now)) =
           (if cleanup_due t now then filter_mset (\<lambda>e. \<not> entry_expired t now e) (mset (cache_all t))
            else mset (cache_all t))
         \<and> unat (c_count (sigar_perform_cleanup_if_necessary t now)) =
             length (cache_all (sigar_perform_cleanup_if_necessary t now))"
  using cleanup_inv [OF assms, of now] rehash_all_mset [of "swept_table t now"]
  by (auto simp: cleanup_unfold swept_all cache_inv_def)

theorem cleanup_exact_witness:
  "let old = \<lparr>e_id = 7, e_value = None, e_last_access = 0\<rparr>;
       young = \<lparr>e_id = 5, e_value = Some (1 :: nat), e_last_access = 9\<rparr>;
       t = \<lparr>c_entries = [[], [old, young]], c_count = 2, c_size = 2, c_expire = 5, c_cleanup = 10,
            c_last_cleanup = 0\<rparr>
   in mset (cache_all (sigar_perform_cleanup_if_necessary t 12)) = {#young#}"
proof -
  let ?t = "\<lparr>c_entries = [[], [\<lparr>e_id = 7, e_value = None, e_last_access = 0\<rparr>,
      \<lparr>e_id = 5, e_value = Some (1 :: nat), e_last_access = 9\<rparr>]], c_count = 2, c_size = 2, c_expire = 5,
      c_cleanup = 10, c_last_cleanup = 0\<rparr>"
  have "cache_inv ?t"
    by (simp add: cache_inv_def buckets_ok_def cache_all_def cache_ix_def less_Suc_eq)
  from cleanup_exact [OF this, of 12] show ?thesis
    by (simp add: Let_def cleanup_due_def entry_expired_def cache_all_def)
qed


end
