(* ===== verification/Sigar_Double.thy ===== *)
theory Sigar_Double
  imports Sigar_Prelude Complex_Main
begin

text \<open>
  The values of C's \<open>double\<close> the library computes with: rational numbers, the two infinities
  and not-a-number (signed zeros are not told apart: no comparison, sum or quotient with a
  non-zero divisor in the sources distinguishes them). An arithmetic result is rounded by a
  parameter \<open>rnd\<close>, because the accuracy of floating-point operations is
  implementation-defined in C; what a theorem needs of it (monotone, exact at 0 and 1) is
  a hypothesis there. \<open>strtod\<close> reads the forms of C99: decimal and hexadecimal
  numbers, infinities and nans.
\<close>

datatype dbl = Fin rat | PInf | NInf | NaN

type_synonym rounding = "rat \<Rightarrow> rat"

section \<open>Comparisons\<close>

fun dbl_eq :: "dbl \<Rightarrow> dbl \<Rightarrow> bool" where
  "dbl_eq (Fin x) (Fin y) = (x = y)"
| "dbl_eq PInf PInf = True"
| "dbl_eq NInf NInf = True"
| "dbl_eq _ _ = False"

fun dbl_lt :: "dbl \<Rightarrow> dbl \<Rightarrow> bool" where
  "dbl_lt (Fin x) (Fin y) = (x < y)"
| "dbl_lt (Fin x) PInf = True"
| "dbl_lt NInf (Fin y) = True"
| "dbl_lt NInf PInf = True"
| "dbl_lt _ _ = False"

definition dbl_le :: "dbl \<Rightarrow> dbl \<Rightarrow> bool" where
  "dbl_le x y = (dbl_lt x y \<or> dbl_eq x y)"

section \<open>Arithmetic\<close>

fun dbl_neg :: "dbl \<Rightarrow> dbl" where
  "dbl_neg (Fin x) = Fin (- x)"
| "dbl_neg PInf = NInf"
| "dbl_neg NInf = PInf"
| "dbl_neg NaN = NaN"

fun dbl_add :: "rounding \<Rightarrow> dbl \<Rightarrow> dbl \<Rightarrow> dbl" where
  "dbl_add rnd (Fin x) (Fin y) = Fin (rnd (x + y))"
| "dbl_add rnd NaN _ = NaN"
| "dbl_add rnd _ NaN = NaN"
| "dbl_add rnd PInf NInf = NaN"
| "dbl_add rnd NInf PInf = NaN"
| "dbl_add rnd PInf _ = PInf"
| "dbl_add rnd _ PInf = PInf"
| "dbl_add rnd NInf _ = NInf"
| "dbl_add rnd _ NInf = NInf"

text \<open>Quotients of finite values: a zero divisor gives an infinity or, for \<open>0/0\<close>, a nan.\<close>

definition dbl_div_fin :: "rounding \<Rightarrow> rat \<Rightarrow> rat \<Rightarrow> dbl" where
  "dbl_div_fin rnd x y =
     (if y = 0 then (if x = 0 then NaN else if 0 < x then PInf else NInf)
      else Fin (rnd (x / y)))"

text \<open>The cast of an unsigned 64-bit integer.\<close>

definition dbl_of_u64 :: "rounding \<Rightarrow> uint64 \<Rightarrow> rat" where
  "dbl_of_u64 rnd w = rnd (of_nat (unat w))"

section \<open>Reading\<close>

definition hex_val :: "char \<Rightarrow> nat option" where
  "hex_val c =
     (let n = (of_char c :: nat) in
      if 48 \<le> n \<and> n \<le> 57 then Some (n - 48)
      else if 65 \<le> n \<and> n \<le> 70 then Some (n - 55)
      else if 97 \<le> n \<and> n \<le> 102 then Some (n - 87)
      else None)"

definition digit_val :: "nat \<Rightarrow> char \<Rightarrow> nat option" where
  "digit_val base c = (case hex_val c of None \<Rightarrow> None | Some v \<Rightarrow> if v < base then Some v else None)"

text \<open>Digits in a base: how many, the number they denote, the rest.\<close>

fun scan_base :: "nat \<Rightarrow> nat \<Rightarrow> nat \<Rightarrow> string \<Rightarrow> nat \<times> nat \<times> string" where
  "scan_base base n acc [] = (n, acc, [])"
| "scan_base base n acc (c # cs) =
     (case digit_val base c of
        None \<Rightarrow> (n, acc, c # cs)
      | Some v \<Rightarrow> scan_base base (Suc n) (base * acc + v) cs)"

text \<open>An exponent part is consumed only when at least one digit follows its mark.\<close>

definition scan_exp :: "char \<Rightarrow> char \<Rightarrow> string \<Rightarrow> int \<times> string" where
  "scan_exp lo up s =
     (case s of
        [] \<Rightarrow> (0, s)
      | c # cs \<Rightarrow>
          if c = lo \<or> c = up then
            (let (neg, t) = scan_sign cs;
                 (n, v, r) = scan_base 10 0 0 t
             in if n = 0 then (0, s) else (if neg then - int v else int v, r))
          else (0, s))"

definition rat_pow :: "nat \<Rightarrow> int \<Rightarrow> rat" where
  "rat_pow b e = (if 0 \<le> e then of_nat (b ^ nat e) else 1 / of_nat (b ^ nat (- e)))"

text \<open>A mantissa with an optional point and exponent, in base 10 (\<open>e\<close>, powers of 10) or 16
  (\<open>p\<close>, powers of 2); None when there is no digit at all.\<close>

definition scan_number :: "nat \<Rightarrow> nat \<Rightarrow> char \<Rightarrow> char \<Rightarrow> string \<Rightarrow> (rat \<times> string) option" where
  "scan_number base expbase lo up s =
     (let (n1, v1, r1) = scan_base base 0 0 s;
          (n2, v2, r2) = (case r1 of
             [] \<Rightarrow> (0, v1, r1)
           | c # cs \<Rightarrow> if c = CHR ''.'' then scan_base base 0 v1 cs else (0, v1, r1))
      in if n1 + n2 = 0 then None
         else (let (e, r) = scan_exp lo up r2
               in Some (of_nat v2 / of_nat (base ^ n2) * rat_pow expbase e, r)))"

definition strip_icase :: "string \<Rightarrow> string \<Rightarrow> string option" where
  "strip_icase p s =
     (if map tolower (take (length p) s) = p then Some (drop (length p) s) else None)"

text \<open>The optional character sequence in parentheses after \<open>nan\<close>.\<close>

definition nan_char :: "char \<Rightarrow> bool" where
  "nan_char c = (isdigit c \<or> isupper c \<or> c \<in> set ''abcdefghijklmnopqrstuvwxyz_'')"

definition skip_nan_seq :: "string \<Rightarrow> string" where
  "skip_nan_seq s =
     (case s of
        c # cs \<Rightarrow>
          if c = CHR ''('' then
            (case dropWhile nan_char cs of
               d # r \<Rightarrow> if d = CHR '')'' then r else s
             | [] \<Rightarrow> s)
          else s
      | [] \<Rightarrow> s)"

definition strtod_unsigned :: "rounding \<Rightarrow> string \<Rightarrow> (dbl \<times> string) option" where
  "strtod_unsigned rnd s =
     (case Option.bind (strip_icase ''0x'' s) (scan_number 16 2 (CHR ''p'') (CHR ''P'')) of
        Some (v, r) \<Rightarrow> Some (Fin (rnd v), r)
      | None \<Rightarrow>
     (case scan_number 10 10 (CHR ''e'') (CHR ''E'') s of
        Some (v, r) \<Rightarrow> Some (Fin (rnd v), r)
      | None \<Rightarrow>
     (case strip_icase ''infinity'' s of
        Some r \<Rightarrow> Some (PInf, r)
      | None \<Rightarrow>
     (case strip_icase ''inf'' s of
        Some r \<Rightarrow> Some (PInf, r)
      | None \<Rightarrow>
     (case strip_icase ''nan'' s of
        Some r \<Rightarrow> Some (NaN, skip_nan_seq r)
      | None \<Rightarrow> None)))))"

text \<open>\<open>strtod\<close>: the value, the suffix the end pointer points at (the whole string when nothing
  is converted), and whether \<open>errno\<close> becomes \<open>ERANGE\<close>: beyond the range of binary64 the
  result is an infinity or, below it, 0.\<close>

definition dbl_max :: rat where
  "dbl_max = of_nat (2 ^ 1024 - 2 ^ 971)"

definition strtod :: "rounding \<Rightarrow> string \<Rightarrow> dbl \<times> string \<times> bool" where
  "strtod rnd s =
     (let (neg, t) = scan_sign (skip_space s) in
      case strtod_unsigned rnd t of
        None \<Rightarrow> (Fin 0, s, False)
      | Some (v, r) \<Rightarrow>
          (let big = (case v of Fin x \<Rightarrow> dbl_max < x | _ \<Rightarrow> False);
               w = (if big then PInf else v)
           in (if neg then dbl_neg w else w, r, big)))"

section \<open>Facts\<close>

lemma dbl_lt_irrefl [simp]: "\<not> dbl_lt x x"
  by (cases x) auto

lemma dbl_trichotomy: "x \<noteq> NaN \<Longrightarrow> y \<noteq> NaN \<Longrightarrow> dbl_lt x y \<or> dbl_eq x y \<or> dbl_lt y x"
  by (cases x; cases y) auto

lemma dbl_lt_not_eq: "dbl_lt x y \<Longrightarrow> \<not> dbl_eq x y \<and> \<not> dbl_lt y x"
  by (cases x; cases y) auto

lemma dbl_of_u64_mono: "mono rnd \<Longrightarrow> v \<le> w \<Longrightarrow> dbl_of_u64 rnd v \<le> dbl_of_u64 rnd w"
  unfolding dbl_of_u64_def word_le_nat_alt by (erule monoD) (rule of_nat_mono)

lemma rnd_nonneg: "mono (rnd :: rounding) \<Longrightarrow> rnd 0 = 0 \<Longrightarrow> 0 \<le> x \<Longrightarrow> 0 \<le> rnd x"
  using monoD [of rnd 0 x] by simp

lemma rnd_le_one: "mono (rnd :: rounding) \<Longrightarrow> rnd 1 = 1 \<Longrightarrow> x \<le> 1 \<Longrightarrow> rnd x \<le> 1"
  using monoD [of rnd x 1] by simp

text \<open>What the theorems use of rounding: it is monotone, leaves rounded values alone, and 0 and 1
  are representable.\<close>

definition rounding_ok :: "rounding \<Rightarrow> bool" where
  "rounding_ok rnd \<longleftrightarrow> mono rnd \<and> (\<forall>x. rnd (rnd x) = rnd x) \<and> rnd 0 = 0 \<and> rnd 1 = 1"

text \<open>A stronger fact of binary64: integers up to \<open>2^53\<close> are represented exactly.\<close>

definition exact_ints :: "rounding \<Rightarrow> bool" where
  "exact_ints rnd \<longleftrightarrow> (\<forall>i. \<bar>i\<bar> \<le> 2 ^ 53 \<longrightarrow> rnd (of_int i) = of_int i)"

lemma id_rounding: "rounding_ok (\<lambda>x. x)"
  by (simp add: rounding_ok_def mono_def)

lemma id_exact: "exact_ints (\<lambda>x. x)"
  by (simp add: exact_ints_def)

lemma exact_nat: "exact_ints rnd \<Longrightarrow> n \<le> 2 ^ 53 \<Longrightarrow> rnd (of_nat n) = of_nat n"
  unfolding exact_ints_def by (metis abs_of_nat of_int_of_nat_eq of_nat_le_iff of_nat_numeral of_nat_power)

end
