(* ===== verification/Sigar_Util.thy ===== *)
theory Sigar_Util
  imports Sigar_Double
begin

text \<open>
  The helpers of \<open>src/sigar_util.c\<close>.
\<close>

section \<open>Reading files\<close>

text \<open>What the operating system says when a file is opened and read: the open fails, the
  read fails with an error number, or the bytes of the file.\<close>

datatype file_read = OpenFails | ReadFails status | Contents string

text \<open>The C string at the start of a byte buffer.\<close>

definition cstring :: "string \<Rightarrow> string" where
  "cstring bytes = takeWhile (\<lambda>c. c \<noteq> CHR 0x00) bytes"

text \<open>\<open>sigar_file2str\<close>: the status and the string left in the buffer, which the function
  clears first and of which it keeps the last byte 0.\<close>

definition sigar_file2str :: "(string \<Rightarrow> file_read) \<Rightarrow> string \<Rightarrow> nat \<Rightarrow> status \<times> string" where
  "sigar_file2str fs fname buflen =
     (case fs fname of
        OpenFails \<Rightarrow> (ENOENT, [])
      | ReadFails errno \<Rightarrow> (errno, [])
      | Contents bytes \<Rightarrow> (SIGAR_OK, cstring (take (buflen - 1) bytes)))"

section \<open>Case-insensitive search\<close>

text \<open>The inner loop of \<open>sigar_strcasestr\<close>, from the second character of the needle on: it
  succeeds when the needle ends first (or with the haystack).\<close>

fun strcase_rest :: "string \<Rightarrow> string \<Rightarrow> bool" where
  "strcase_rest p1 [] = True"
| "strcase_rest [] (d # ds) = False"
| "strcase_rest (c # cs) (d # ds) = (tolower c = tolower d \<and> strcase_rest cs ds)"

fun strcase_loop :: "string \<Rightarrow> char \<Rightarrow> string \<Rightarrow> string option" where
  "strcase_loop [] d ds = None"
| "strcase_loop (c # cs) d ds =
     (if tolower c \<noteq> tolower d then strcase_loop cs d ds
      else if strcase_rest cs ds then Some (c # cs)
      else strcase_loop cs d ds)"

definition sigar_strcasestr :: "string \<Rightarrow> string \<Rightarrow> string option" where
  "sigar_strcasestr s1 s2 = (case s2 of [] \<Rightarrow> Some s1 | d # ds \<Rightarrow> strcase_loop s1 d ds)"

lemma strcase_rest_prefix: "strcase_rest s t \<longleftrightarrow> is_prefix (map tolower t) (map tolower s)"
  by (induction s t rule: strcase_rest.induct) (auto simp: is_prefix_iff)

lemma strcase_loop_strstr:
  "map_option (map tolower) (strcase_loop s d ds) = strstr (map tolower s) (map tolower (d # ds))"
  by (induction s d ds rule: strcase_loop.induct) (auto simp: strcase_rest_prefix)

lemma strstr_Nil [simp]: "strstr s [] = Some s"
  by (cases s) auto

text \<open>C12: \<open>sigar_strcasestr\<close> is \<open>strstr\<close> up to case: it points at the first place where the
  needle occurs in the haystack when both are put into lower case, and is NULL exactly
  when there is none.\<close>

theorem sigar_strcasestr_strstr:
  "map_option (map tolower) (sigar_strcasestr s1 s2) = strstr (map tolower s1) (map tolower s2)
   \<and> (\<forall>p. sigar_strcasestr s1 s2 = Some p \<longrightarrow> (\<exists>a. s1 = a @ p))"
proof -
  have "strcase_loop s d ds = Some p \<Longrightarrow> \<exists>a. s = a @ p" for s d ds p
  proof (induction s d ds rule: strcase_loop.induct)
    case (2 c cs d ds)
    then show ?case by (auto split: if_splits intro: exI [of _ "c # a" for a])
  qed simp
  then show ?thesis
    by (cases s2) (auto simp: sigar_strcasestr_def strcase_loop_strstr simp del: strstr.simps)
qed

theorem sigar_strcasestr_strstr_witness:
  "sigar_strcasestr ''xWebLogic'' ''WEB'' = Some ''WebLogic'' \<and> (\<exists>a. ''xWebLogic'' = a @ ''WebLogic'')"
proof -
  have "sigar_strcasestr ''xWebLogic'' ''WEB'' = Some ''WebLogic''" by code_simp
  with sigar_strcasestr_strstr [of "''xWebLogic''" "''WEB''"] show ?thesis by blast
qed

end
