(* ===== verification/Ptql_Ops.thy ===== *)
theory Ptql_Ops
  imports Sigar_Util Sigar_Lists
begin

text \<open>
  The data types of \<open>src/sigar_ptql.c\<close> and its tables of comparison operators: 64-bit,
  32-bit, floating-point, string and character comparisons, one definition per C function,
  and the arrays that map an operator code to them. A function of the tables takes the
  branch only to read its case flag, so it takes the flag word here.
\<close>

section \<open>Operator codes and flags\<close>

datatype ptql_op_name =
    PTQL_OP_EQ | PTQL_OP_NE | PTQL_OP_GT | PTQL_OP_GE | PTQL_OP_LT | PTQL_OP_LE
  | PTQL_OP_EW | PTQL_OP_SW | PTQL_OP_RE | PTQL_OP_CT | PTQL_OP_MAX

fun op_ix :: "ptql_op_name \<Rightarrow> nat" where
  "op_ix PTQL_OP_EQ = 0"
| "op_ix PTQL_OP_NE = 1"
| "op_ix PTQL_OP_GT = 2"
| "op_ix PTQL_OP_GE = 3"
| "op_ix PTQL_OP_LT = 4"
| "op_ix PTQL_OP_LE = 5"
| "op_ix PTQL_OP_EW = 6"
| "op_ix PTQL_OP_SW = 7"
| "op_ix PTQL_OP_RE = 8"
| "op_ix PTQL_OP_CT = 9"
| "op_ix PTQL_OP_MAX = 10"

definition PTQL_OP_MAX_NSTR :: ptql_op_name where
  "PTQL_OP_MAX_NSTR = PTQL_OP_LE"

abbreviation (input) PTQL_OP_FLAG_PARENT :: uint32 where "PTQL_OP_FLAG_PARENT \<equiv> 1"
abbreviation (input) PTQL_OP_FLAG_REF :: uint32 where "PTQL_OP_FLAG_REF \<equiv> 2"
abbreviation (input) PTQL_OP_FLAG_GLOB :: uint32 where "PTQL_OP_FLAG_GLOB \<equiv> 4"
abbreviation (input) PTQL_OP_FLAG_PID :: uint32 where "PTQL_OP_FLAG_PID \<equiv> 8"
abbreviation (input) PTQL_OP_FLAG_ICASE :: uint32 where "PTQL_OP_FLAG_ICASE \<equiv> 16"

definition flag_set :: "uint32 \<Rightarrow> uint32 \<Rightarrow> bool" where
  "flag_set flags f = (flags AND f \<noteq> 0)"

definition ptql_op_code_get :: "string \<Rightarrow> ptql_op_name" where
  "ptql_op_code_get op =
     (if strEQ op ''eq'' then PTQL_OP_EQ
      else if strEQ op ''ne'' then PTQL_OP_NE
      else if strEQ op ''gt'' then PTQL_OP_GT
      else if strEQ op ''ge'' then PTQL_OP_GE
      else if strEQ op ''lt'' then PTQL_OP_LT
      else if strEQ op ''le'' then PTQL_OP_LE
      else if strEQ op ''ew'' then PTQL_OP_EW
      else if strEQ op ''sw'' then PTQL_OP_SW
      else if strEQ op ''re'' then PTQL_OP_RE
      else if strEQ op ''ct'' then PTQL_OP_CT
      else PTQL_OP_MAX)"

section \<open>Comparison functions\<close>

definition ptql_op_ui64_eq :: "uint64 \<Rightarrow> uint64 \<Rightarrow> bool" where
  "ptql_op_ui64_eq haystack needle = (haystack = needle)"

definition ptql_op_ui64_ne :: "uint64 \<Rightarrow> uint64 \<Rightarrow> bool" where
  "ptql_op_ui64_ne haystack needle = (haystack \<noteq> needle)"

definition ptql_op_ui64_gt :: "uint64 \<Rightarrow> uint64 \<Rightarrow> bool" where
  "ptql_op_ui64_gt haystack needle = (needle < haystack)"

definition ptql_op_ui64_ge :: "uint64 \<Rightarrow> uint64 \<Rightarrow> bool" where
  "ptql_op_ui64_ge haystack needle = (needle \<le> haystack)"

definition ptql_op_ui64_lt :: "uint64 \<Rightarrow> uint64 \<Rightarrow> bool" where
  "ptql_op_ui64_lt haystack needle = (haystack < needle)"

definition ptql_op_ui64_le :: "uint64 \<Rightarrow> uint64 \<Rightarrow> bool" where
  "ptql_op_ui64_le haystack needle = (haystack \<le> needle)"

definition ptql_op_ui64 :: "(uint64 \<Rightarrow> uint64 \<Rightarrow> bool) list" where
  "ptql_op_ui64 =
     [ptql_op_ui64_eq,
      ptql_op_ui64_ne,
      ptql_op_ui64_gt,
      ptql_op_ui64_ge,
      ptql_op_ui64_lt,
      ptql_op_ui64_le]"

definition ptql_op_ui32_eq :: "uint32 \<Rightarrow> uint32 \<Rightarrow> bool" where
  "ptql_op_ui32_eq haystack needle = (haystack = needle)"

definition ptql_op_ui32_ne :: "uint32 \<Rightarrow> uint32 \<Rightarrow> bool" where
  "ptql_op_ui32_ne haystack needle = (haystack \<noteq> needle)"

definition ptql_op_ui32_gt :: "uint32 \<Rightarrow> uint32 \<Rightarrow> bool" where
  "ptql_op_ui32_gt haystack needle = (needle < haystack)"

definition ptql_op_ui32_ge :: "uint32 \<Rightarrow> uint32 \<Rightarrow> bool" where
  "ptql_op_ui32_ge haystack needle = (needle \<le> haystack)"

definition ptql_op_ui32_lt :: "uint32 \<Rightarrow> uint32 \<Rightarrow> bool" where
  "ptql_op_ui32_lt haystack needle = (haystack < needle)"

definition ptql_op_ui32_le :: "uint32 \<Rightarrow> uint32 \<Rightarrow> bool" where
  "ptql_op_ui32_le haystack needle = (haystack \<le> needle)"

definition ptql_op_ui32 :: "(uint32 \<Rightarrow> uint32 \<Rightarrow> bool) list" where
  "ptql_op_ui32 =
     [ptql_op_ui32_eq,
      ptql_op_ui32_ne,
      ptql_op_ui32_gt,
      ptql_op_ui32_ge,
      ptql_op_ui32_lt,
      ptql_op_ui32_le]"

definition ptql_op_dbl_eq :: "dbl \<Rightarrow> dbl \<Rightarrow> bool" where
  "ptql_op_dbl_eq haystack needle = (dbl_eq haystack needle)"

definition ptql_op_dbl_ne :: "dbl \<Rightarrow> dbl \<Rightarrow> bool" where
  "ptql_op_dbl_ne haystack needle = (\<not> dbl_eq haystack needle)"

definition ptql_op_dbl_gt :: "dbl \<Rightarrow> dbl \<Rightarrow> bool" where
  "ptql_op_dbl_gt haystack needle = (dbl_lt needle haystack)"

definition ptql_op_dbl_ge :: "dbl \<Rightarrow> dbl \<Rightarrow> bool" where
  "ptql_op_dbl_ge haystack needle = (dbl_le needle haystack)"

definition ptql_op_dbl_lt :: "dbl \<Rightarrow> dbl \<Rightarrow> bool" where
  "ptql_op_dbl_lt haystack needle = (dbl_lt haystack needle)"

definition ptql_op_dbl_le :: "dbl \<Rightarrow> dbl \<Rightarrow> bool" where
  "ptql_op_dbl_le haystack needle = (dbl_le haystack needle)"

definition ptql_op_dbl :: "(dbl \<Rightarrow> dbl \<Rightarrow> bool) list" where
  "ptql_op_dbl =
     [ptql_op_dbl_eq,
      ptql_op_dbl_ne,
      ptql_op_dbl_gt,
      ptql_op_dbl_ge,
      ptql_op_dbl_lt,
      ptql_op_dbl_le]"

text \<open>Plain \<open>char\<close> is signed in the build modelled here.\<close>

definition schar :: "char \<Rightarrow> int" where
  "schar c = (let n = (of_char c :: int) in if n < 128 then n else n - 256)"

definition ptql_op_chr_eq :: "char \<Rightarrow> char \<Rightarrow> bool" where
  "ptql_op_chr_eq haystack needle = (haystack = needle)"

definition ptql_op_chr_ne :: "char \<Rightarrow> char \<Rightarrow> bool" where
  "ptql_op_chr_ne haystack needle = (haystack \<noteq> needle)"

definition ptql_op_chr_gt :: "char \<Rightarrow> char \<Rightarrow> bool" where
  "ptql_op_chr_gt haystack needle = (schar needle < schar haystack)"

definition ptql_op_chr_ge :: "char \<Rightarrow> char \<Rightarrow> bool" where
  "ptql_op_chr_ge haystack needle = (schar needle \<le> schar haystack)"

definition ptql_op_chr_lt :: "char \<Rightarrow> char \<Rightarrow> bool" where
  "ptql_op_chr_lt haystack needle = (schar haystack < schar needle)"

definition ptql_op_chr_le :: "char \<Rightarrow> char \<Rightarrow> bool" where
  "ptql_op_chr_le haystack needle = (schar haystack \<le> schar needle)"

definition ptql_op_chr :: "(char \<Rightarrow> char \<Rightarrow> bool) list" where
  "ptql_op_chr =
     [ptql_op_chr_eq,
      ptql_op_chr_ne,
      ptql_op_chr_gt,
      ptql_op_chr_ge,
      ptql_op_chr_lt,
      ptql_op_chr_le]"

text \<open>The string comparisons honour the case flag of the branch.\<close>

definition IS_ICASE :: "uint32 \<Rightarrow> bool" where
  "IS_ICASE op_flags = flag_set op_flags PTQL_OP_FLAG_ICASE"

definition branch_strcmp :: "uint32 \<Rightarrow> string \<Rightarrow> string \<Rightarrow> int" where
  "branch_strcmp fl s1 s2 = (if IS_ICASE fl then strcasecmp s1 s2 else strcmp s1 s2)"

definition branch_strEQ :: "uint32 \<Rightarrow> string \<Rightarrow> string \<Rightarrow> bool" where
  "branch_strEQ fl s1 s2 = (branch_strcmp fl s1 s2 = 0)"

definition branch_strnEQ :: "uint32 \<Rightarrow> string \<Rightarrow> string \<Rightarrow> nat \<Rightarrow> bool" where
  "branch_strnEQ fl s1 s2 n =
     (if IS_ICASE fl then strnEQ (map tolower s1) (map tolower s2) n else strnEQ s1 s2 n)"

definition branch_strstr :: "uint32 \<Rightarrow> string \<Rightarrow> string \<Rightarrow> string option" where
  "branch_strstr fl s1 s2 = (if IS_ICASE fl then sigar_strcasestr s1 s2 else strstr s1 s2)"

definition ptql_op_str_eq :: "uint32 \<Rightarrow> string \<Rightarrow> string \<Rightarrow> bool" where
  "ptql_op_str_eq fl haystack needle = (branch_strEQ fl haystack needle)"

definition ptql_op_str_ne :: "uint32 \<Rightarrow> string \<Rightarrow> string \<Rightarrow> bool" where
  "ptql_op_str_ne fl haystack needle = (\<not> branch_strEQ fl haystack needle)"

definition ptql_op_str_gt :: "uint32 \<Rightarrow> string \<Rightarrow> string \<Rightarrow> bool" where
  "ptql_op_str_gt fl haystack needle = (branch_strcmp fl haystack needle > 0)"

definition ptql_op_str_ge :: "uint32 \<Rightarrow> string \<Rightarrow> string \<Rightarrow> bool" where
  "ptql_op_str_ge fl haystack needle = (branch_strcmp fl haystack needle \<ge> 0)"

definition ptql_op_str_lt :: "uint32 \<Rightarrow> string \<Rightarrow> string \<Rightarrow> bool" where
  "ptql_op_str_lt fl haystack needle = (branch_strcmp fl haystack needle < 0)"

definition ptql_op_str_le :: "uint32 \<Rightarrow> string \<Rightarrow> string \<Rightarrow> bool" where
  "ptql_op_str_le fl haystack needle = (branch_strcmp fl haystack needle \<le> 0)"

definition ptql_op_str_ew :: "uint32 \<Rightarrow> string \<Rightarrow> string \<Rightarrow> bool" where
  "ptql_op_str_ew fl haystack needle =
     (let nlen = int (length needle); hlen = int (length haystack); diff = hlen - nlen
      in if diff < 0 then False
         else branch_strnEQ fl (drop (nat diff) haystack) needle (nat nlen))"

definition ptql_op_str_sw :: "uint32 \<Rightarrow> string \<Rightarrow> string \<Rightarrow> bool" where
  "ptql_op_str_sw fl haystack needle = branch_strnEQ fl haystack needle (length needle)"

text \<open>Without PCRE this function is never reached through \<open>ptql_str_match\<close>; it returns 0.\<close>

definition ptql_op_str_re :: "uint32 \<Rightarrow> string \<Rightarrow> string \<Rightarrow> bool" where
  "ptql_op_str_re fl haystack needle = False"

definition ptql_op_str_ct :: "uint32 \<Rightarrow> string \<Rightarrow> string \<Rightarrow> bool" where
  "ptql_op_str_ct fl haystack needle = (branch_strstr fl haystack needle \<noteq> None)"

definition ptql_op_str :: "(uint32 \<Rightarrow> string \<Rightarrow> string \<Rightarrow> bool) list" where
  "ptql_op_str =
     [ptql_op_str_eq, ptql_op_str_ne, ptql_op_str_gt, ptql_op_str_ge, ptql_op_str_lt, ptql_op_str_le,
      ptql_op_str_ew, ptql_op_str_sw, ptql_op_str_re, ptql_op_str_ct]"

section \<open>What the operators mean\<close>

named_theorems ptql_op_defs \<open>definitions of the comparison functions\<close>

lemmas ptql_op_all_defs [ptql_op_defs] =
  ptql_op_ui64_def ptql_op_ui64_eq_def ptql_op_ui64_ne_def ptql_op_ui64_gt_def
  ptql_op_ui64_ge_def ptql_op_ui64_lt_def ptql_op_ui64_le_def ptql_op_ui32_def
  ptql_op_ui32_eq_def ptql_op_ui32_ne_def ptql_op_ui32_gt_def ptql_op_ui32_ge_def
  ptql_op_ui32_lt_def ptql_op_ui32_le_def ptql_op_dbl_def ptql_op_dbl_eq_def
  ptql_op_dbl_ne_def ptql_op_dbl_gt_def ptql_op_dbl_ge_def ptql_op_dbl_lt_def
  ptql_op_dbl_le_def ptql_op_chr_def ptql_op_chr_eq_def ptql_op_chr_ne_def ptql_op_chr_gt_def
  ptql_op_chr_ge_def ptql_op_chr_lt_def ptql_op_chr_le_def ptql_op_str_def ptql_op_str_eq_def
  ptql_op_str_ne_def ptql_op_str_gt_def ptql_op_str_ge_def ptql_op_str_lt_def
  ptql_op_str_le_def ptql_op_str_ew_def ptql_op_str_sw_def ptql_op_str_re_def
  ptql_op_str_ct_def

lemma length_op_tables [simp]:
  "length ptql_op_ui64 = 6" "length ptql_op_ui32 = 6" "length ptql_op_dbl = 6"
  "length ptql_op_chr = 6" "length ptql_op_str = 10"
  by (simp_all add: ptql_op_ui64_def ptql_op_ui32_def ptql_op_dbl_def ptql_op_chr_def ptql_op_str_def)

lemma op_ix_less: "op \<noteq> PTQL_OP_MAX \<Longrightarrow> op_ix op < 10"
  by (cases op) auto

text \<open>The text of a comparison: haystack and needle, in lower case for an \<open>I\<close> query.\<close>

definition fold_case :: "uint32 \<Rightarrow> string \<Rightarrow> string" where
  "fold_case fl s = (if IS_ICASE fl then map tolower s else s)"

lemma strcmp_fold_case: "branch_strcmp fl s t = strcmp (fold_case fl s) (fold_case fl t)"
  by (simp add: branch_strcmp_def fold_case_def strcasecmp_def)

lemma length_fold_case [simp]: "length (fold_case fl s) = length s"
  by (simp add: fold_case_def)

lemma strnEQ_fold_case: "branch_strnEQ fl s t n = (take n (fold_case fl s) = take n (fold_case fl t))"
  by (simp add: branch_strnEQ_def fold_case_def strnEQ_def)

lemma fold_case_drop: "fold_case fl (drop n s) = drop n (fold_case fl s)"
  by (simp add: fold_case_def drop_map)

lemma str_sw_iff: "ptql_op_str_sw fl h n \<longleftrightarrow> (\<exists>u. fold_case fl h = fold_case fl n @ u)"
  by (auto simp: ptql_op_str_sw_def strnEQ_fold_case)
    (metis append_take_drop_id length_fold_case order_refl take_all)

lemma str_ew_iff: "ptql_op_str_ew fl h n \<longleftrightarrow> (\<exists>u. fold_case fl h = u @ fold_case fl n)"
proof
  assume a: "ptql_op_str_ew fl h n"
  let ?d = "length h - length n"
  from a have "length n \<le> length h" "take (length n) (drop ?d (fold_case fl h)) = fold_case fl n"
    by (auto simp: ptql_op_str_ew_def strnEQ_fold_case fold_case_drop Let_def nat_diff_distrib split: if_splits)
  then have "drop ?d (fold_case fl h) = fold_case fl n" by simp
  then show "\<exists>u. fold_case fl h = u @ fold_case fl n" by (metis append_take_drop_id)
next
  assume "\<exists>u. fold_case fl h = u @ fold_case fl n"
  then obtain u where u: "fold_case fl h = u @ fold_case fl n" by blast
  then have l: "length h = length u + length n" by (metis length_append length_fold_case)
  then show "ptql_op_str_ew fl h n"
    using u by (simp add: ptql_op_str_ew_def strnEQ_fold_case fold_case_drop Let_def)
qed

lemma str_ct_iff: "ptql_op_str_ct fl h n \<longleftrightarrow> (\<exists>a b. fold_case fl h = a @ fold_case fl n @ b)"
proof -
  have "map_option (map tolower) (sigar_strcasestr h n) = strstr (map tolower h) (map tolower n)"
  proof (cases n)
    case Nil
    then show ?thesis by (simp add: sigar_strcasestr_def)
  next
    case (Cons d ds)
    then show ?thesis using strcase_loop_strstr [of h d ds] by (simp add: sigar_strcasestr_def)
  qed
  then have "(sigar_strcasestr h n \<noteq> None) = (\<exists>p. strstr (map tolower h) (map tolower n) = Some p)"
    by (metis map_option_is_None not_None_eq)
  then have "ptql_op_str_ct fl h n = (\<exists>p. strstr (fold_case fl h) (fold_case fl n) = Some p)"
    by (simp add: ptql_op_str_ct_def branch_strstr_def fold_case_def)
  then show ?thesis by (simp only: strstr_Some_iff)
qed

end
