(* ===== verification/Sigar_Types.thy ===== *)
theory Sigar_Types
  imports Sigar_Double
begin

text \<open>
  The structures of \<open>include/sigar.h\<close> that describe one process, as records. A \<open>pid_t\<close>,
  \<open>uid_t\<close> or \<open>int\<close> field is a 32-bit word; a character array is the string it holds.
\<close>

type_synonym pid = uint32

record sigar_proc_time =
  pt_start_time :: uint64
  pt_user :: uint64
  pt_sys :: uint64
  pt_total :: uint64

record sigar_proc_cpu =
  pc_start_time :: uint64
  pc_user :: uint64
  pc_sys :: uint64
  pc_total :: uint64
  pc_last_time :: uint64
  pc_percent :: dbl

record sigar_proc_disk_io =
  pd_bytes_read :: uint64
  pd_bytes_written :: uint64
  pd_bytes_total :: uint64

record sigar_proc_cred_name =
  cn_user :: string
  cn_group :: string

record sigar_proc_mem =
  pm_size :: uint64
  pm_resident :: uint64
  pm_share :: uint64
  pm_minor_faults :: uint64
  pm_major_faults :: uint64
  pm_page_faults :: uint64

record sigar_proc_exe =
  px_name :: string
  px_cwd :: string
  px_root :: string
  px_arch :: string

record sigar_proc_cred =
  cr_uid :: uint32
  cr_gid :: uint32
  cr_euid :: uint32
  cr_egid :: uint32

record sigar_proc_state =
  ps_name :: string
  ps_state :: char
  ps_ppid :: pid
  ps_tty :: uint32
  ps_priority :: uint32
  ps_nice :: uint32
  ps_processor :: uint32
  ps_threads :: uint64
  ps_open_files :: uint64

record sigar_proc_fd =
  pf_total :: uint64

end
