(* ===== verification/Ptql_Parse.thy ===== *)
theory Ptql_Parse
  imports Ptql_Ops Sigar_Types "HOL-Library.Multiset"
begin

text \<open>
  The front half of \<open>src/sigar_ptql.c\<close>: the attribute tables, the parser of one branch
  \<open>Class.Attr.op=value\<close>, the initialisers of the branch kinds, \<open>ptql_branch_add\<close>,
  \<open>sigar_ptql_query_create\<close> and \<open>sigar_ptql_query_destroy\<close>.

  A branch is a record with the fields of \<open>ptql_branch_t\<close>. The union \<open>any_value_t\<close> is a
  datatype tagged with the member last written; a zeroed union reads as 0 or NULL whatever
  the member, and reading a member other than the one written is undefined (\<open>None\<close>). The
  function pointer \<open>match\<close> holds the comparison function itself. A failing call yields its
  message; \<open>ptql_error\<close> puts it, truncated, into the caller's buffer. The result of
  \<open>getenv\<close> and \<open>getpid\<close> and the order \<open>qsort\<close> gives to equal elements are parameters.
\<close>

section \<open>Data\<close>

datatype ptql_value_type =
    PTQL_VALUE_TYPE_UI64 | PTQL_VALUE_TYPE_UI32 | PTQL_VALUE_TYPE_DBL
  | PTQL_VALUE_TYPE_CHR | PTQL_VALUE_TYPE_STR | PTQL_VALUE_TYPE_ANY

fun type_ix :: "ptql_value_type \<Rightarrow> nat" where
  "type_ix PTQL_VALUE_TYPE_UI64 = 0"
| "type_ix PTQL_VALUE_TYPE_UI32 = 1"
| "type_ix PTQL_VALUE_TYPE_DBL = 2"
| "type_ix PTQL_VALUE_TYPE_CHR = 3"
| "type_ix PTQL_VALUE_TYPE_STR = 4"
| "type_ix PTQL_VALUE_TYPE_ANY = 5"

text \<open>What a \<open>sigar_proc_*_get\<close> function fills in, and a member of such a structure.\<close>

datatype proc_data =
    DTime sigar_proc_time | DCpu sigar_proc_cpu | DDiskIO sigar_proc_disk_io
  | DCredName sigar_proc_cred_name | DMem sigar_proc_mem | DExe sigar_proc_exe
  | DCred sigar_proc_cred | DState sigar_proc_state | DFd sigar_proc_fd

datatype datum = U64 uint64 | U32 uint32 | Dbl dbl | Chr char | Str string

datatype ptql_get =
    G_proc_time | G_proc_cpu | G_proc_disk_io | G_proc_cred_name | G_proc_mem | G_proc_exe
  | G_proc_cred | G_proc_state | G_proc_fd
  | G_args_match | G_modules_match | G_env_match | G_pid_match

datatype ptql_init =
    I_args_branch_init | I_branch_init_any | I_branch_init_port | I_branch_init_pid | I_branch_init_service

record ptql_parse_branch =
  p_name :: string
  p_attr :: string
  p_op :: string
  p_value :: string
  p_op_flags :: uint32

record ptql_lookup =
  lk_name :: "string option"
  lk_get :: ptql_get
  lk_offset :: "proc_data \<Rightarrow> datum option"
  lk_data_size :: nat
  lk_type :: ptql_value_type
  lk_init :: "ptql_init option"

datatype any_value =
    AZero | APid pid | AUi64 uint64 | AUi32 uint32 | ADbl dbl | AChr char | AStr string
  | APtr proc_data | AAlloc

datatype ptql_match =
    MNone
  | MUi64 "uint64 \<Rightarrow> uint64 \<Rightarrow> bool"
  | MUi32 "uint32 \<Rightarrow> uint32 \<Rightarrow> bool"
  | MDbl "dbl \<Rightarrow> dbl \<Rightarrow> bool"
  | MChr "char \<Rightarrow> char \<Rightarrow> bool"
  | MStr "uint32 \<Rightarrow> string \<Rightarrow> string \<Rightarrow> bool"

record ptql_branch =
  b_lookup :: "ptql_lookup option"
  b_data :: any_value
  b_data_size :: nat
  b_flags :: nat
  b_op_flags :: uint32
  b_op_name :: ptql_op_name
  b_match :: ptql_match
  b_value :: any_value

record ptql_entry =
  en_name :: string
  en_members :: "ptql_lookup list"

type_synonym ptql_branch_list = "ptql_branch clist"

text \<open>The values of \<open>branch->flags\<close>.\<close>

abbreviation (input) PTQL_PID_PID :: nat where "PTQL_PID_PID \<equiv> 0"
abbreviation (input) PTQL_PID_FILE :: nat where "PTQL_PID_FILE \<equiv> 1"
abbreviation (input) PTQL_PID_SUDO_FILE :: nat where "PTQL_PID_SUDO_FILE \<equiv> 2"
abbreviation (input) PTQL_PID_TCP_PORT :: nat where "PTQL_PID_TCP_PORT \<equiv> 3"
abbreviation (input) PTQL_PID_UDP_PORT :: nat where "PTQL_PID_UDP_PORT \<equiv> 4"
abbreviation (input) PTQL_PID_SERVICE_NAME :: nat where "PTQL_PID_SERVICE_NAME \<equiv> 5"
abbreviation (input) PTQL_PID_SERVICE_DISPLAY :: nat where "PTQL_PID_SERVICE_DISPLAY \<equiv> 6"
abbreviation (input) PTQL_PID_SERVICE_PATH :: nat where "PTQL_PID_SERVICE_PATH \<equiv> 7"
abbreviation (input) PTQL_PID_SERVICE_EXE :: nat where "PTQL_PID_SERVICE_EXE \<equiv> 8"
abbreviation (input) PTQL_PID_SERVICE_PID :: nat where "PTQL_PID_SERVICE_PID \<equiv> 9"

text \<open>What query creation asks of the C library.\<close>

record ptql_libc =
  lc_getenv :: "string \<Rightarrow> string option"
  lc_getpid :: pid
  lc_rnd :: rounding
  lc_qsort :: "(ptql_branch \<Rightarrow> ptql_branch \<Rightarrow> int) \<Rightarrow> ptql_branch list \<Rightarrow> ptql_branch list"

section \<open>The branch list\<close>

abbreviation (input) PTQL_BRANCH_LIST_MAX :: nat where "PTQL_BRANCH_LIST_MAX \<equiv> 3"

definition ptql_branch_list_create :: ptql_branch_list where
  "ptql_branch_list_create = clist_alloc PTQL_BRANCH_LIST_MAX"

definition ptql_branch_list_grow :: "ptql_branch_list \<Rightarrow> ptql_branch_list" where
  "ptql_branch_list_grow branches = clist_realloc PTQL_BRANCH_LIST_MAX branches"

text \<open>\<open>free\<close> of a union member read as a pointer: nothing for NULL, and undefined when the
  union holds anything but a pointer.\<close>

fun free_ptr :: "any_value \<Rightarrow> any_value list ub" where
  "free_ptr AZero = Some []"
| "free_ptr (AStr s) = Some [AStr s]"
| "free_ptr (APtr d) = Some [APtr d]"
| "free_ptr AAlloc = Some [AAlloc]"
| "free_ptr _ = None"

definition branch_free :: "ptql_branch \<Rightarrow> any_value list ub" where
  "branch_free branch = do {
     f1 \<leftarrow> (if b_data_size branch \<noteq> 0 then free_ptr (b_data branch) else Some []);
     f2 \<leftarrow> (case b_lookup branch of
              None \<Rightarrow> Some []
            | Some lookup \<Rightarrow>
                if (lk_type lookup = PTQL_VALUE_TYPE_STR \<or> lk_type lookup = PTQL_VALUE_TYPE_ANY)
                   \<and> \<not> flag_set (b_op_flags branch) PTQL_OP_FLAG_REF
                then free_ptr (b_value branch) else Some []);
     Some (f1 @ f2) }"

fun branches_free :: "ptql_branch list \<Rightarrow> any_value list ub" where
  "branches_free [] = Some []"
| "branches_free (b # bs) = do { f \<leftarrow> branch_free b; fs \<leftarrow> branches_free bs; Some (f @ fs) }"

definition ptql_branch_list_destroy :: "ptql_branch_list \<Rightarrow> (any_value list \<times> ptql_branch_list) ub" where
  "ptql_branch_list_destroy branches =
     (if l_size branches \<noteq> 0 then do {
        freed \<leftarrow> branches_free (clist_elems branches);
        Some (freed, clist_release branches) }
      else Some ([], branches))"

interpretation branch_list: growable 3 ptql_branch_list_create ptql_branch_list_grow clist_release
  using growable_chunk [of 3]
  by (simp add: ptql_branch_list_create_def ptql_branch_list_grow_def [abs_def])

section \<open>Errors\<close>

abbreviation (input) SIGAR_PTQL_MALFORMED_QUERY :: status where "SIGAR_PTQL_MALFORMED_QUERY \<equiv> - 1"
abbreviation (input) SIGAR_PTQL_ERRMSG_SIZE :: nat where "SIGAR_PTQL_ERRMSG_SIZE \<equiv> 1024"

definition ptql_error :: "string option \<Rightarrow> string \<Rightarrow> status \<times> string option" where
  "ptql_error error msg =
     (SIGAR_PTQL_MALFORMED_QUERY,
      (case error of None \<Rightarrow> None | Some _ \<Rightarrow> Some (take (SIGAR_PTQL_ERRMSG_SIZE - 1) msg)))"

definition PTQL_ERRNAN :: "ptql_parse_branch \<Rightarrow> string" where
  "PTQL_ERRNAN parsed = ''Query value '' @ [CHR 0x27] @ p_value parsed @ [CHR 0x27] @ '' is not a number''"

text \<open>\<open>strtonum_failed\<close>: nothing converted, out of range, or something left over.\<close>

definition strtonum_failed :: "string \<Rightarrow> string \<Rightarrow> bool \<Rightarrow> bool" where
  "strtonum_failed src ptr erange = (src = ptr \<or> erange \<or> ptr \<noteq> [])"

section \<open>Attribute tables\<close>

text \<open>A table entry of the \<open>PTQL_LOOKUP_ENTRY\<close> macro: the getter, the member of the structure
  it fills, and the size of that structure on an LP64 system. The final NULL entry of a
  C table is the end of the list.\<close>

definition PTQL_LOOKUP_ENTRY ::
  "string \<Rightarrow> ptql_get \<Rightarrow> (proc_data \<Rightarrow> datum option) \<Rightarrow> nat \<Rightarrow> ptql_value_type \<Rightarrow> ptql_lookup" where
  "PTQL_LOOKUP_ENTRY name get offset sizeof ty =
     \<lparr>lk_name = Some name, lk_get = get, lk_offset = offset, lk_data_size = sizeof, lk_type = ty,
      lk_init = None\<rparr>"

definition PTQL_Time :: "ptql_lookup list" where
  "PTQL_Time =
     [PTQL_LOOKUP_ENTRY ''StartTime'' G_proc_time (\<lambda>d. case d of DTime r \<Rightarrow> Some (U64 (pt_start_time r)) | _ \<Rightarrow> None) 32 PTQL_VALUE_TYPE_UI64,
      PTQL_LOOKUP_ENTRY ''User'' G_proc_time (\<lambda>d. case d of DTime r \<Rightarrow> Some (U64 (pt_user r)) | _ \<Rightarrow> None) 32 PTQL_VALUE_TYPE_UI64,
      PTQL_LOOKUP_ENTRY ''Sys'' G_proc_time (\<lambda>d. case d of DTime r \<Rightarrow> Some (U64 (pt_sys r)) | _ \<Rightarrow> None) 32 PTQL_VALUE_TYPE_UI64,
      PTQL_LOOKUP_ENTRY ''Total'' G_proc_time (\<lambda>d. case d of DTime r \<Rightarrow> Some (U64 (pt_total r)) | _ \<Rightarrow> None) 32 PTQL_VALUE_TYPE_UI64]"

definition PTQL_Cpu :: "ptql_lookup list" where
  "PTQL_Cpu =
     [PTQL_LOOKUP_ENTRY ''StartTime'' G_proc_cpu (\<lambda>d. case d of DCpu r \<Rightarrow> Some (U64 (pc_start_time r)) | _ \<Rightarrow> None) 48 PTQL_VALUE_TYPE_UI64,
      PTQL_LOOKUP_ENTRY ''User'' G_proc_cpu (\<lambda>d. case d of DCpu r \<Rightarrow> Some (U64 (pc_user r)) | _ \<Rightarrow> None) 48 PTQL_VALUE_TYPE_UI64,
      PTQL_LOOKUP_ENTRY ''Sys'' G_proc_cpu (\<lambda>d. case d of DCpu r \<Rightarrow> Some (U64 (pc_sys r)) | _ \<Rightarrow> None) 48 PTQL_VALUE_TYPE_UI64,
      PTQL_LOOKUP_ENTRY ''Total'' G_proc_cpu (\<lambda>d. case d of DCpu r \<Rightarrow> Some (U64 (pc_total r)) | _ \<Rightarrow> None) 48 PTQL_VALUE_TYPE_UI64,
      PTQL_LOOKUP_ENTRY ''Percent'' G_proc_cpu (\<lambda>d. case d of DCpu r \<Rightarrow> Some (Dbl (pc_percent r)) | _ \<Rightarrow> None) 48 PTQL_VALUE_TYPE_DBL]"

definition PTQL_Disk_IO :: "ptql_lookup list" where
  "PTQL_Disk_IO =
     [PTQL_LOOKUP_ENTRY ''BytesRead'' G_proc_disk_io (\<lambda>d. case d of DDiskIO r \<Rightarrow> Some (U64 (pd_bytes_read r)) | _ \<Rightarrow> None) 24 PTQL_VALUE_TYPE_UI64,
      PTQL_LOOKUP_ENTRY ''BytesWritten'' G_proc_disk_io (\<lambda>d. case d of DDiskIO r \<Rightarrow> Some (U64 (pd_bytes_written r)) | _ \<Rightarrow> None) 24 PTQL_VALUE_TYPE_UI64,
      PTQL_LOOKUP_ENTRY ''BytesTotal'' G_proc_disk_io (\<lambda>d. case d of DDiskIO r \<Rightarrow> Some (U64 (pd_bytes_total r)) | _ \<Rightarrow> None) 24 PTQL_VALUE_TYPE_UI64]"

definition PTQL_CredName :: "ptql_lookup list" where
  "PTQL_CredName =
     [PTQL_LOOKUP_ENTRY ''User'' G_proc_cred_name (\<lambda>d. case d of DCredName r \<Rightarrow> Some (Str (cn_user r)) | _ \<Rightarrow> None) 1024 PTQL_VALUE_TYPE_STR,
      PTQL_LOOKUP_ENTRY ''Group'' G_proc_cred_name (\<lambda>d. case d of DCredName r \<Rightarrow> Some (Str (cn_group r)) | _ \<Rightarrow> None) 1024 PTQL_VALUE_TYPE_STR]"

definition PTQL_Mem :: "ptql_lookup list" where
  "PTQL_Mem =
     [PTQL_LOOKUP_ENTRY ''Size'' G_proc_mem (\<lambda>d. case d of DMem r \<Rightarrow> Some (U64 (pm_size r)) | _ \<Rightarrow> None) 48 PTQL_VALUE_TYPE_UI64,
      PTQL_LOOKUP_ENTRY ''Resident'' G_proc_mem (\<lambda>d. case d of DMem r \<Rightarrow> Some (U64 (pm_resident r)) | _ \<Rightarrow> None) 48 PTQL_VALUE_TYPE_UI64,
      PTQL_LOOKUP_ENTRY ''Share'' G_proc_mem (\<lambda>d. case d of DMem r \<Rightarrow> Some (U64 (pm_share r)) | _ \<Rightarrow> None) 48 PTQL_VALUE_TYPE_UI64,
      PTQL_LOOKUP_ENTRY ''MinorFaults'' G_proc_mem (\<lambda>d. case d of DMem r \<Rightarrow> Some (U64 (pm_minor_faults r)) | _ \<Rightarrow> None) 48 PTQL_VALUE_TYPE_UI64,
      PTQL_LOOKUP_ENTRY ''MajorFaults'' G_proc_mem (\<lambda>d. case d of DMem r \<Rightarrow> Some (U64 (pm_major_faults r)) | _ \<Rightarrow> None) 48 PTQL_VALUE_TYPE_UI64,
      PTQL_LOOKUP_ENTRY ''PageFaults'' G_proc_mem (\<lambda>d. case d of DMem r \<Rightarrow> Some (U64 (pm_page_faults r)) | _ \<Rightarrow> None) 48 PTQL_VALUE_TYPE_UI64]"

definition PTQL_Exe :: "ptql_lookup list" where
  "PTQL_Exe =
     [PTQL_LOOKUP_ENTRY ''Name'' G_proc_exe (\<lambda>d. case d of DExe r \<Rightarrow> Some (Str (px_name r)) | _ \<Rightarrow> None) 12304 PTQL_VALUE_TYPE_STR,
      PTQL_LOOKUP_ENTRY ''Cwd'' G_proc_exe (\<lambda>d. case d of DExe r \<Rightarrow> Some (Str (px_cwd r)) | _ \<Rightarrow> None) 12304 PTQL_VALUE_TYPE_STR]"

definition PTQL_Cred :: "ptql_lookup list" where
  "PTQL_Cred =
     [PTQL_LOOKUP_ENTRY ''Uid'' G_proc_cred (\<lambda>d. case d of DCred r \<Rightarrow> Some (U32 (cr_uid r)) | _ \<Rightarrow> None) 16 PTQL_VALUE_TYPE_UI32,
      PTQL_LOOKUP_ENTRY ''Gid'' G_proc_cred (\<lambda>d. case d of DCred r \<Rightarrow> Some (U32 (cr_gid r)) | _ \<Rightarrow> None) 16 PTQL_VALUE_TYPE_UI32,
      PTQL_LOOKUP_ENTRY ''Euid'' G_proc_cred (\<lambda>d. case d of DCred r \<Rightarrow> Some (U32 (cr_euid r)) | _ \<Rightarrow> None) 16 PTQL_VALUE_TYPE_UI32,
      PTQL_LOOKUP_ENTRY ''Egid'' G_proc_cred (\<lambda>d. case d of DCred r \<Rightarrow> Some (U32 (cr_egid r)) | _ \<Rightarrow> None) 16 PTQL_VALUE_TYPE_UI32]"

definition PTQL_State :: "ptql_lookup list" where
  "PTQL_State =
     [PTQL_LOOKUP_ENTRY ''State'' G_proc_state (\<lambda>d. case d of DState r \<Rightarrow> Some (Chr (ps_state r)) | _ \<Rightarrow> None) 168 PTQL_VALUE_TYPE_CHR,
      PTQL_LOOKUP_ENTRY ''Name'' G_proc_state (\<lambda>d. case d of DState r \<Rightarrow> Some (Str (ps_name r)) | _ \<Rightarrow> None) 168 PTQL_VALUE_TYPE_STR,
      PTQL_LOOKUP_ENTRY ''Ppid'' G_proc_state (\<lambda>d. case d of DState r \<Rightarrow> Some (U32 (ps_ppid r)) | _ \<Rightarrow> None) 168 PTQL_VALUE_TYPE_UI32,
      PTQL_LOOKUP_ENTRY ''Tty'' G_proc_state (\<lambda>d. case d of DState r \<Rightarrow> Some (U32 (ps_tty r)) | _ \<Rightarrow> None) 168 PTQL_VALUE_TYPE_UI32,
      PTQL_LOOKUP_ENTRY ''Nice'' G_proc_state (\<lambda>d. case d of DState r \<Rightarrow> Some (U32 (ps_nice r)) | _ \<Rightarrow> None) 168 PTQL_VALUE_TYPE_UI32,
      PTQL_LOOKUP_ENTRY ''Priority'' G_proc_state (\<lambda>d. case d of DState r \<Rightarrow> Some (U32 (ps_priority r)) | _ \<Rightarrow> None) 168 PTQL_VALUE_TYPE_UI32,
      PTQL_LOOKUP_ENTRY ''Threads'' G_proc_state (\<lambda>d. case d of DState r \<Rightarrow> Some (U64 (ps_threads r)) | _ \<Rightarrow> None) 168 PTQL_VALUE_TYPE_UI64,
      PTQL_LOOKUP_ENTRY ''Processor'' G_proc_state (\<lambda>d. case d of DState r \<Rightarrow> Some (U32 (ps_processor r)) | _ \<Rightarrow> None) 168 PTQL_VALUE_TYPE_UI32]"

definition PTQL_Fd :: "ptql_lookup list" where
  "PTQL_Fd =
     [PTQL_LOOKUP_ENTRY ''Total'' G_proc_fd (\<lambda>d. case d of DFd r \<Rightarrow> Some (U64 (pf_total r)) | _ \<Rightarrow> None) 8 PTQL_VALUE_TYPE_UI64]"

text \<open>The tables with a single nameless entry that takes any attribute.\<close>

definition ptql_any_entry :: "ptql_get \<Rightarrow> ptql_init \<Rightarrow> ptql_lookup" where
  "ptql_any_entry get init =
     \<lparr>lk_name = None, lk_get = get, lk_offset = (\<lambda>_. None), lk_data_size = 0,
      lk_type = PTQL_VALUE_TYPE_ANY, lk_init = Some init\<rparr>"

definition PTQL_Args :: "ptql_lookup list" where
  "PTQL_Args = [ptql_any_entry G_args_match I_args_branch_init]"

definition PTQL_Modules :: "ptql_lookup list" where
  "PTQL_Modules = [ptql_any_entry G_modules_match I_args_branch_init]"

definition PTQL_Env :: "ptql_lookup list" where
  "PTQL_Env = [ptql_any_entry G_env_match I_branch_init_any]"

definition PTQL_Port :: "ptql_lookup list" where
  "PTQL_Port = [ptql_any_entry G_pid_match I_branch_init_port]"

definition PTQL_Pid :: "ptql_lookup list" where
  "PTQL_Pid = [ptql_any_entry G_pid_match I_branch_init_pid]"

definition PTQL_Service :: "ptql_lookup list" where
  "PTQL_Service = [ptql_any_entry G_pid_match I_branch_init_service]"

definition ptql_map :: "ptql_entry list" where
  "ptql_map =
     [\<lparr>en_name = ''Time'', en_members = PTQL_Time\<rparr>,
      \<lparr>en_name = ''Cpu'', en_members = PTQL_Cpu\<rparr>,
      \<lparr>en_name = ''CredName'', en_members = PTQL_CredName\<rparr>,
      \<lparr>en_name = ''Mem'', en_members = PTQL_Mem\<rparr>,
      \<lparr>en_name = ''Exe'', en_members = PTQL_Exe\<rparr>,
      \<lparr>en_name = ''Cred'', en_members = PTQL_Cred\<rparr>,
      \<lparr>en_name = ''State'', en_members = PTQL_State\<rparr>,
      \<lparr>en_name = ''Fd'', en_members = PTQL_Fd\<rparr>,
      \<lparr>en_name = ''Args'', en_members = PTQL_Args\<rparr>,
      \<lparr>en_name = ''Modules'', en_members = PTQL_Modules\<rparr>,
      \<lparr>en_name = ''Env'', en_members = PTQL_Env\<rparr>,
      \<lparr>en_name = ''Port'', en_members = PTQL_Port\<rparr>,
      \<lparr>en_name = ''Pid'', en_members = PTQL_Pid\<rparr>,
      \<lparr>en_name = ''Service'', en_members = PTQL_Service\<rparr>,
      \<lparr>en_name = ''Disk_IO'', en_members = PTQL_Disk_IO\<rparr>]"

section \<open>Parsing one branch\<close>

text \<open>The modifiers in front of the operator: the flags they set and the operator.\<close>

fun ptql_modifiers :: "uint32 \<Rightarrow> string \<Rightarrow> string + uint32 \<times> string" where
  "ptql_modifiers flags [] = Inr (flags, [])"
| "ptql_modifiers flags (flag # query) =
     (if isupper flag then
        (if flag = CHR ''P'' then ptql_modifiers (flags OR PTQL_OP_FLAG_PARENT) query
         else if flag = CHR ''I'' then ptql_modifiers (flags OR PTQL_OP_FLAG_ICASE) query
         else Inl (''Unsupported modifier: '' @ [flag]))
      else Inr (flags, flag # query))"

definition missing :: "char \<Rightarrow> string" where
  "missing c = ''Missing '' @ [CHR 0x27, c, CHR 0x27]"

definition ptql_branch_parse :: "string \<Rightarrow> string + ptql_parse_branch" where
  "ptql_branch_parse query =
     (case split_at (CHR ''='') query of
        (_, None) \<Rightarrow> Inl (missing (CHR ''=''))
      | (q1, Some val) \<Rightarrow>
     (case split_at (CHR ''.'') q1 of
        (_, None) \<Rightarrow> Inl (missing (CHR ''.''))
      | (name, Some q2) \<Rightarrow>
     (case split_at (CHR ''.'') q2 of
        (_, None) \<Rightarrow> Inl (missing (CHR ''.''))
      | (attr, Some q3) \<Rightarrow>
          if q3 = [] then Inl ''Missing query''
          else (case ptql_modifiers 0 q3 of
                  Inl msg \<Rightarrow> Inl msg
                | Inr (flags, op) \<Rightarrow>
                    if strEQ attr ''Service''
                    then Inr \<lparr>p_name = attr, p_attr = ''Name'', p_op = op, p_value = val, p_op_flags = flags\<rparr>
                    else Inr \<lparr>p_name = name, p_attr = attr, p_op = op, p_value = val, p_op_flags = flags\<rparr>))))"

section \<open>Branch initialisers\<close>

text \<open>An initialiser returns the branch as it left it and the error message, if any.\<close>

definition ptql_branch_init_any :: "ptql_parse_branch \<Rightarrow> ptql_branch \<Rightarrow> ptql_branch \<times> string option" where
  "ptql_branch_init_any parsed branch =
     (branch\<lparr>b_data := AStr (p_attr parsed), b_data_size := length (p_attr parsed)\<rparr>, None)"

definition ptql_branch_init_service :: "ptql_parse_branch \<Rightarrow> ptql_branch \<Rightarrow> ptql_branch \<times> string option" where
  "ptql_branch_init_service parsed branch0 =
     (let branch = branch0\<lparr>b_op_flags := b_op_flags branch0 OR PTQL_OP_FLAG_PID\<rparr>;
          attr = p_attr parsed
      in if strEQ attr ''Name'' then (branch\<lparr>b_flags := PTQL_PID_SERVICE_NAME\<rparr>, None)
         else if strEQ attr ''DisplayName'' then (branch\<lparr>b_flags := PTQL_PID_SERVICE_DISPLAY\<rparr>, None)
         else if strEQ attr ''Path'' then (branch\<lparr>b_flags := PTQL_PID_SERVICE_PATH\<rparr>, None)
         else if strEQ attr ''Exe'' then (branch\<lparr>b_flags := PTQL_PID_SERVICE_EXE\<rparr>, None)
         else if strEQ attr ''Pid'' then (branch\<lparr>b_flags := PTQL_PID_SERVICE_PID\<rparr>, None)
         else (branch, Some (''Unsupported '' @ p_name parsed @ '' attribute: '' @ attr)))"

definition ptql_branch_init_pid ::
  "ptql_libc \<Rightarrow> ptql_parse_branch \<Rightarrow> ptql_branch \<Rightarrow> ptql_branch \<times> string option" where
  "ptql_branch_init_pid lc parsed branch0 =
     (let branch = branch0\<lparr>b_op_flags := b_op_flags branch0 OR PTQL_OP_FLAG_PID\<rparr>;
          attr = p_attr parsed; val = p_value parsed
      in if strEQ attr ''Pid'' then
           (if strEQ val ''$$''
            then (branch\<lparr>b_flags := PTQL_PID_PID, b_data := APid (lc_getpid lc)\<rparr>, None)
            else (let (v, ptr, erange) = strtoull val;
                      branch1 = branch\<lparr>b_flags := PTQL_PID_PID, b_data := APid (ucast v)\<rparr>
                  in if strtonum_failed val ptr erange then (branch1, Some (PTQL_ERRNAN parsed))
                     else (branch1, None)))
         else if strEQ attr ''PidFile'' \<or> strEQ attr ''SudoPidFile'' then
           (branch\<lparr>b_flags := (if strEQ attr ''SudoPidFile'' then PTQL_PID_SUDO_FILE else PTQL_PID_FILE),
                   b_data := AStr val, b_data_size := length val\<rparr>, None)
         else (branch, Some (''Unsupported '' @ p_name parsed @ '' attribute: '' @ attr)))"

definition ptql_args_branch_init :: "ptql_parse_branch \<Rightarrow> ptql_branch \<Rightarrow> ptql_branch \<times> string option" where
  "ptql_args_branch_init parsed branch =
     (if strEQ (p_attr parsed) ''*''
      then (branch\<lparr>b_op_flags := b_op_flags branch OR PTQL_OP_FLAG_GLOB\<rparr>, None)
      else (let (v, ptr, erange) = strtol (p_attr parsed);
                branch1 = branch\<lparr>b_data := AUi32 (ucast v)\<rparr>
            in if strtonum_failed (p_attr parsed) ptr erange
               then (branch1, Some (p_attr parsed @ '' is not a number''))
               else (branch1, None)))"

definition ptql_branch_init_port :: "ptql_parse_branch \<Rightarrow> ptql_branch \<Rightarrow> ptql_branch \<times> string option" where
  "ptql_branch_init_port parsed branch =
     (if b_op_name branch \<noteq> PTQL_OP_EQ
      then (branch, Some (p_name parsed @ '' requires '' @ [CHR 0x27] @ ''eq'' @ [CHR 0x27] @ '' operator''))
      else if \<not> strEQ (p_attr parsed) ''tcp'' \<and> \<not> strEQ (p_attr parsed) ''udp''
      then (branch, Some (''Unsupported '' @ p_name parsed @ '' protocol: '' @ p_attr parsed))
      else
        (let flags = (if strEQ (p_attr parsed) ''tcp'' then PTQL_PID_TCP_PORT else PTQL_PID_TCP_PORT);
             (v, ptr, erange) = strtoull (p_value parsed);
             branch1 = branch\<lparr>b_flags := flags, b_op_flags := b_op_flags branch OR PTQL_OP_FLAG_PID,
                              b_data := AUi32 (ucast v)\<rparr>
         in if strtonum_failed (p_value parsed) ptr erange then (branch1, Some (PTQL_ERRNAN parsed))
            else (branch1, None)))"

definition ptql_run_init ::
  "ptql_libc \<Rightarrow> ptql_init option \<Rightarrow> ptql_parse_branch \<Rightarrow> ptql_branch \<Rightarrow> ptql_branch \<times> string option" where
  "ptql_run_init lc init parsed branch =
     (case init of
        None \<Rightarrow> (branch, None)
      | Some I_args_branch_init \<Rightarrow> ptql_args_branch_init parsed branch
      | Some I_branch_init_any \<Rightarrow> ptql_branch_init_any parsed branch
      | Some I_branch_init_port \<Rightarrow> ptql_branch_init_port parsed branch
      | Some I_branch_init_pid \<Rightarrow> ptql_branch_init_pid lc parsed branch
      | Some I_branch_init_service \<Rightarrow> ptql_branch_init_service parsed branch)"

section \<open>Adding a branch\<close>

definition find_entry :: "string \<Rightarrow> ptql_entry option" where
  "find_entry name = List.find (\<lambda>en. strEQ (en_name en) name) ptql_map"

text \<open>The member loop stops at the first nameless entry.\<close>

fun find_member :: "string \<Rightarrow> ptql_lookup list \<Rightarrow> ptql_lookup option" where
  "find_member attr [] = None"
| "find_member attr (lk # lks) =
     (case lk_name lk of
        None \<Rightarrow> None
      | Some n \<Rightarrow> if strEQ n attr then Some lk else find_member attr lks)"

definition find_lookup :: "ptql_parse_branch \<Rightarrow> ptql_entry \<Rightarrow> ptql_lookup option ub" where
  "find_lookup parsed entry =
     (case find_member (p_attr parsed) (en_members entry) of
        Some lk \<Rightarrow> Some (Some lk)
      | None \<Rightarrow> do {
          first \<leftarrow> cell (en_members entry) 0;
          Some (if lk_type first = PTQL_VALUE_TYPE_ANY then Some first else None) })"

text \<open>The value of the branch when it is a variable: \<open>$n\<close> refers to an earlier branch,
  \<open>$NAME\<close> to an environment variable. \<open>number\<close> counts this branch too.\<close>

definition ptql_branch_variable ::
  "ptql_libc \<Rightarrow> ptql_parse_branch \<Rightarrow> nat \<Rightarrow> ptql_branch \<Rightarrow> ptql_branch \<times> uint32 \<times> string option" where
  "ptql_branch_variable lc parsed number branch =
     (let var = tl (p_value parsed) in
      if b_op_name branch = PTQL_OP_RE
      then (branch, p_op_flags parsed,
            Some (''Unsupported operator '' @ [CHR 0x27] @ p_op parsed @ [CHR 0x27] @ '' with variable '' @ p_value parsed))
      else if starts_digit var then
        (let flags = b_op_flags branch OR PTQL_OP_FLAG_REF;
             ix = atoi var - 1;
             branch1 = branch\<lparr>b_op_flags := flags, b_value := AUi32 ix\<rparr>
         in if number \<le> unat ix
            then (branch1, flags, Some (''Variable '' @ p_value parsed @ '' out of range ('' @ dec_digits number @ '')''))
            else if unat ix = number - 1
            then (branch1, flags, Some (''Variable '' @ p_value parsed @ '' self reference''))
            else (branch1, flags, None))
      else
        (branch\<lparr>b_value := (case lc_getenv lc var of Some str \<Rightarrow> AStr str | None \<Rightarrow> AZero)\<rparr>,
         p_op_flags parsed, None))"

text \<open>The comparison function for the type of the attribute, and the value converted to it
  unless a variable set it already.\<close>

definition ptql_branch_typed ::
  "ptql_libc \<Rightarrow> ptql_parse_branch \<Rightarrow> ptql_value_type \<Rightarrow> bool \<Rightarrow> ptql_branch \<Rightarrow> (ptql_branch \<times> string option) ub" where
  "ptql_branch_typed lc parsed ty is_set branch =
     (let val = p_value parsed; ix = op_ix (b_op_name branch) in
      case ty of
        PTQL_VALUE_TYPE_UI64 \<Rightarrow> do {
          m \<leftarrow> cell ptql_op_ui64 ix;
          Some (let b = branch\<lparr>b_match := MUi64 m\<rparr> in
            if is_set then (b, None)
            else (let (v, ptr, erange) = strtoull val; b1 = b\<lparr>b_value := AUi64 v\<rparr>
                  in (b1, if strtonum_failed val ptr erange then Some (PTQL_ERRNAN parsed) else None))) }
      | PTQL_VALUE_TYPE_UI32 \<Rightarrow> do {
          m \<leftarrow> cell ptql_op_ui32 ix;
          Some (let b = branch\<lparr>b_match := MUi32 m\<rparr> in
            if is_set then (b, None)
            else (let (v, ptr, erange) = strtoull val; b1 = b\<lparr>b_value := AUi32 (ucast v)\<rparr>
                  in (b1, if strtonum_failed val ptr erange then Some (PTQL_ERRNAN parsed) else None))) }
      | PTQL_VALUE_TYPE_DBL \<Rightarrow> do {
          m \<leftarrow> cell ptql_op_dbl ix;
          Some (let b = branch\<lparr>b_match := MDbl m\<rparr> in
            if is_set then (b, None)
            else (let (v, ptr, erange) = strtod (lc_rnd lc) val; b1 = b\<lparr>b_value := ADbl v\<rparr>
                  in (b1, if strtonum_failed val ptr erange then Some (PTQL_ERRNAN parsed) else None))) }
      | PTQL_VALUE_TYPE_CHR \<Rightarrow> do {
          m \<leftarrow> cell ptql_op_chr ix;
          Some (let b = branch\<lparr>b_match := MChr m\<rparr> in
            if is_set then (b, None)
            else if length val \<noteq> 1 then (b, Some (val @ '' is not a char''))
            else (b\<lparr>b_value := AChr (hd val)\<rparr>, None)) }
      | _ \<Rightarrow> do {
          m \<leftarrow> cell ptql_op_str ix;
          Some (let b = branch\<lparr>b_match := MStr m\<rparr> in
            if is_set then (b, None) else (b\<lparr>b_value := AStr val\<rparr>, None)) })"

definition zero_branch :: ptql_branch where
  "zero_branch = \<lparr>b_lookup = None, b_data = AZero, b_data_size = 0, b_flags = 0, b_op_flags = 0,
     b_op_name = PTQL_OP_EQ, b_match = MNone, b_value = AZero\<rparr>"

text \<open>What \<open>ptql_branch_add\<close> writes into the new cell of the list, whose index is \<open>number - 1\<close>:
  the branch, the flags left in \<open>parsed\<close>, and the error message. \<open>parsed->value\<close> points at a
  string, so its first character is NUL when the value is empty.\<close>

definition ptql_branch_fill ::
  "ptql_libc \<Rightarrow> ptql_parse_branch \<Rightarrow> nat \<Rightarrow> (ptql_branch \<times> uint32 \<times> string option) ub" where
  "ptql_branch_fill lc parsed number =
     (let branch = zero_branch\<lparr>b_op_flags := p_op_flags parsed, b_op_name := ptql_op_code_get (p_op parsed)\<rparr>;
          pflags = p_op_flags parsed
      in if b_op_name branch = PTQL_OP_MAX
         then Some (branch, pflags, Some (''Unsupported operator: '' @ p_op parsed))
         else case find_entry (p_name parsed) of
           None \<Rightarrow> Some (branch, pflags, Some (''Unsupported method: '' @ p_name parsed))
         | Some entry \<Rightarrow> do {
             found \<leftarrow> find_lookup parsed entry;
             case found of
               None \<Rightarrow> Some (branch, pflags, Some (''Unsupported '' @ p_name parsed @ '' attribute: '' @ p_attr parsed))
             | Some lookup \<Rightarrow>
                 (case ptql_run_init lc (lk_init lookup) parsed branch of
                    (branch1, Some msg) \<Rightarrow> Some (branch1, pflags, Some msg)
                  | (branch1, None) \<Rightarrow>
                      (let branch2 = branch1\<lparr>b_lookup := Some lookup\<rparr>;
                           ty = lk_type lookup
                       in if type_ix ty < type_ix PTQL_VALUE_TYPE_STR
                             \<and> op_ix PTQL_OP_MAX_NSTR < op_ix (b_op_name branch2)
                          then Some (branch2, pflags,
                                 Some (''Unsupported operator '' @ [CHR 0x27] @ p_op parsed @ [CHR 0x27] @ '' for ''
                                       @ p_name parsed @ ''.'' @ p_attr parsed))
                          else
                            (let is_set = (p_value parsed \<noteq> [] \<and> hd (p_value parsed) = CHR ''$'') in
                             case (if is_set then ptql_branch_variable lc parsed number branch2
                                   else (branch2, pflags, None)) of
                               (branch3, pflags3, Some msg) \<Rightarrow> Some (branch3, pflags3, Some msg)
                             | (branch3, pflags3, None) \<Rightarrow> do {
                                 (branch4, e) \<leftarrow> ptql_branch_typed lc parsed ty is_set branch3;
                                 Some (branch4, pflags3, e) }))) })"

definition ptql_branch_add ::
  "ptql_libc \<Rightarrow> ptql_parse_branch \<Rightarrow> ptql_branch_list \<Rightarrow> (ptql_branch_list \<times> uint32 \<times> string option) ub" where
  "ptql_branch_add lc parsed branches = do {
     (branch, pflags, e) \<leftarrow> ptql_branch_fill lc parsed (Suc (l_number branches));
     branches1 \<leftarrow> clist_put ptql_branch_list_grow branches branch;
     Some (branches1, pflags, e) }"

section \<open>Creating and destroying a query\<close>

definition ptql_branch_compare :: "ptql_branch \<Rightarrow> ptql_branch \<Rightarrow> int" where
  "ptql_branch_compare b1 b2 =
     (case (b_lookup b1, b_lookup b2) of
        (Some l1, Some l2) \<Rightarrow> int (type_ix (lk_type l1)) - int (type_ix (lk_type l2))
      | _ \<Rightarrow> 0)"

text \<open>The loop over the comma-separated branches: the error message, if any, the list and
  whether some branch is a reference.\<close>

function ptql_create_loop ::
  "ptql_libc \<Rightarrow> string \<Rightarrow> ptql_branch_list \<Rightarrow> bool \<Rightarrow> (string option \<times> ptql_branch_list \<times> bool) ub" where
  "ptql_create_loop lc ptql branches has_ref =
     (case split_at (CHR '','') ptql of (chunk, ptr) \<Rightarrow>
        (case ptql_branch_parse chunk of
           Inl msg \<Rightarrow> Some (Some msg, branches, has_ref)
         | Inr parsed \<Rightarrow>
             (case ptql_branch_add lc parsed branches of
                None \<Rightarrow> None
              | Some (branches1, pflags, Some msg) \<Rightarrow> Some (Some msg, branches1, has_ref)
              | Some (branches1, pflags, None) \<Rightarrow>
                  (let has_ref1 = (has_ref \<or> flag_set pflags PTQL_OP_FLAG_REF) in
                   case ptr of
                     None \<Rightarrow> Some (None, branches1, has_ref1)
                   | Some rest \<Rightarrow>
                       if rest = [] then Some (None, branches1, has_ref1)
                       else ptql_create_loop lc rest branches1 has_ref1))))"
  by pat_completeness auto
termination
  by (relation "measure (\<lambda>(lc, ptql, branches, has_ref). length ptql)") (auto dest: split_at_length [OF sym])

declare ptql_create_loop.simps [simp del]

definition sigar_ptql_query_destroy :: "ptql_branch_list \<Rightarrow> any_value list ub" where
  "sigar_ptql_query_destroy query = map_option fst (ptql_branch_list_destroy query)"

definition clist_sorted_by :: "('a list \<Rightarrow> 'a list) \<Rightarrow> 'a clist \<Rightarrow> 'a clist" where
  "clist_sorted_by f l = l\<lparr>l_data := map Some (f (clist_elems l)) @ drop (l_number l) (l_data l)\<rparr>"

text \<open>The status, the new query (NULL after an error), the error buffer, and what was freed.\<close>

definition sigar_ptql_query_create ::
  "ptql_libc \<Rightarrow> string \<Rightarrow> string option \<Rightarrow> (status \<times> ptql_branch_list option \<times> string option \<times> any_value list) ub" where
  "sigar_ptql_query_create lc ptql error = do {
     (e, branches, has_ref) \<leftarrow> ptql_create_loop lc ptql ptql_branch_list_create False;
     case e of
       Some msg \<Rightarrow> do {
         freed \<leftarrow> sigar_ptql_query_destroy branches;
         (let (status, error1) = ptql_error error msg in Some (status, None, error1, freed)) }
     | None \<Rightarrow>
         (let query = (if \<not> has_ref \<and> 1 < l_number branches
                       then clist_sorted_by (lc_qsort lc ptql_branch_compare) branches else branches)
          in Some (SIGAR_OK, Some query, snd (ptql_error error ''OK''), [])) }"

section \<open>Well-formed tables and branches\<close>

lemma flag_set_or [simp]: "flag_set (a OR b) f \<longleftrightarrow> flag_set a f \<or> flag_set b f"
proof -
  have "(a OR b) AND f = 0 \<longleftrightarrow> a AND f = 0 \<and> b AND f = 0"
    by (simp add: bit.conj_disj_distrib2 or_eq_0_iff)
  then show ?thesis by (auto simp: flag_set_def)
qed

lemma flag_set_consts [simp]:
  "\<not> flag_set 0 f" "\<not> flag_set 1 2" "\<not> flag_set 1 4" "\<not> flag_set 1 8" "\<not> flag_set 16 2" "\<not> flag_set 16 4"
  "\<not> flag_set 16 8" "flag_set 2 2" "\<not> flag_set 4 2" "flag_set 4 4" "\<not> flag_set 4 8" "\<not> flag_set 8 2"
  "\<not> flag_set 8 4" "flag_set 8 8" "\<not> flag_set 2 4" "\<not> flag_set 2 8"
  by (simp_all add: flag_set_def)

text \<open>The structure a getter fills and the type of a member.\<close>

definition get_struct :: "ptql_get \<Rightarrow> proc_data \<Rightarrow> bool" where
  "get_struct get d =
     (case d of
        DTime r \<Rightarrow> get = G_proc_time
      | DCpu r \<Rightarrow> get = G_proc_cpu
      | DDiskIO r \<Rightarrow> get = G_proc_disk_io
      | DCredName r \<Rightarrow> get = G_proc_cred_name
      | DMem r \<Rightarrow> get = G_proc_mem
      | DExe r \<Rightarrow> get = G_proc_exe
      | DCred r \<Rightarrow> get = G_proc_cred
      | DState r \<Rightarrow> get = G_proc_state
      | DFd r \<Rightarrow> get = G_proc_fd)"

fun datum_type :: "datum \<Rightarrow> ptql_value_type" where
  "datum_type (U64 v) = PTQL_VALUE_TYPE_UI64"
| "datum_type (U32 v) = PTQL_VALUE_TYPE_UI32"
| "datum_type (Dbl v) = PTQL_VALUE_TYPE_DBL"
| "datum_type (Chr v) = PTQL_VALUE_TYPE_CHR"
| "datum_type (Str v) = PTQL_VALUE_TYPE_STR"

definition any_lookups :: "ptql_lookup list" where
  "any_lookups = PTQL_Args @ PTQL_Modules @ PTQL_Env @ PTQL_Port @ PTQL_Pid @ PTQL_Service"

definition lookup_ok :: "ptql_lookup \<Rightarrow> bool" where
  "lookup_ok lk \<longleftrightarrow>
     (if lk_type lk = PTQL_VALUE_TYPE_ANY then lk \<in> set any_lookups
      else lk_init lk = None \<and> 0 < lk_data_size lk
           \<and> lk_get lk \<notin> {G_args_match, G_modules_match, G_env_match, G_pid_match}
           \<and> (\<forall>d. get_struct (lk_get lk) d \<longrightarrow> (\<exists>v. lk_offset lk d = Some v \<and> datum_type v = lk_type lk)))"

lemma get_struct_cases:
  "get_struct G_proc_time d \<longleftrightarrow> (\<exists>r. d = DTime r)" "get_struct G_proc_cpu d \<longleftrightarrow> (\<exists>r. d = DCpu r)"
  "get_struct G_proc_disk_io d \<longleftrightarrow> (\<exists>r. d = DDiskIO r)" "get_struct G_proc_cred_name d \<longleftrightarrow> (\<exists>r. d = DCredName r)"
  "get_struct G_proc_mem d \<longleftrightarrow> (\<exists>r. d = DMem r)" "get_struct G_proc_exe d \<longleftrightarrow> (\<exists>r. d = DExe r)"
  "get_struct G_proc_cred d \<longleftrightarrow> (\<exists>r. d = DCred r)" "get_struct G_proc_state d \<longleftrightarrow> (\<exists>r. d = DState r)"
  "get_struct G_proc_fd d \<longleftrightarrow> (\<exists>r. d = DFd r)"
  by (cases d; simp add: get_struct_def)+

lemmas struct_tables = PTQL_Time_def PTQL_Cpu_def PTQL_CredName_def PTQL_Mem_def PTQL_Exe_def PTQL_Cred_def
  PTQL_State_def PTQL_Fd_def PTQL_Disk_IO_def

lemmas any_tables = PTQL_Args_def PTQL_Modules_def PTQL_Env_def PTQL_Port_def PTQL_Pid_def PTQL_Service_def

lemma struct_tables_ok:
  "list_all lookup_ok PTQL_Time" "list_all lookup_ok PTQL_Cpu" "list_all lookup_ok PTQL_CredName"
  "list_all lookup_ok PTQL_Mem" "list_all lookup_ok PTQL_Exe" "list_all lookup_ok PTQL_Cred"
  "list_all lookup_ok PTQL_State" "list_all lookup_ok PTQL_Fd" "list_all lookup_ok PTQL_Disk_IO"
  by (auto simp: struct_tables lookup_ok_def PTQL_LOOKUP_ENTRY_def get_struct_cases)

lemma any_tables_ok:
  "list_all lookup_ok PTQL_Args" "list_all lookup_ok PTQL_Modules" "list_all lookup_ok PTQL_Env"
  "list_all lookup_ok PTQL_Port" "list_all lookup_ok PTQL_Pid" "list_all lookup_ok PTQL_Service"
  by (simp_all add: any_tables lookup_ok_def any_lookups_def ptql_any_entry_def)

lemma ptql_map_ok: "en \<in> set ptql_map \<Longrightarrow> en_members en \<noteq> [] \<and> list_all lookup_ok (en_members en)"
proof -
  have "list_all (\<lambda>en. en_members en \<noteq> [] \<and> list_all lookup_ok (en_members en)) ptql_map"
    unfolding ptql_map_def by (simp add: struct_tables_ok any_tables_ok) (simp add: struct_tables any_tables)
  then show "en \<in> set ptql_map \<Longrightarrow> en_members en \<noteq> [] \<and> list_all lookup_ok (en_members en)"
    by (simp add: list_all_iff)
qed

lemma find_member_in: "find_member attr lks = Some lk \<Longrightarrow> lk \<in> set lks"
  by (induction lks) (auto split: option.splits if_splits)

lemma find_lookup_ok:
  assumes "find_entry name = Some entry"
  shows "\<exists>r. find_lookup parsed entry = Some r \<and> (\<forall>lk. r = Some lk \<longrightarrow> lookup_ok lk)"
proof -
  have "entry \<in> set ptql_map" using assms by (auto simp: find_entry_def find_Some_iff)
  note ok = ptql_map_ok [OF this]
  then obtain a as where m: "en_members entry = a # as" by (cases "en_members entry") auto
  show ?thesis
    using ok find_member_in [of "p_attr parsed" "en_members entry"]
    by (auto simp: find_lookup_def m list_all_iff split: option.split)
qed

text \<open>The shape of the data and the value of a branch after a successful add.\<close>

definition data_shape :: "ptql_lookup \<Rightarrow> ptql_branch \<Rightarrow> bool" where
  "data_shape lk b \<longleftrightarrow>
     (lk_get lk \<noteq> G_pid_match \<longrightarrow> \<not> flag_set (b_op_flags b) PTQL_OP_FLAG_PID) \<and>
     (case lk_get lk of
        G_args_match \<Rightarrow> b_data_size b = 0 \<and> (flag_set (b_op_flags b) PTQL_OP_FLAG_GLOB \<or> (\<exists>w. b_data b = AUi32 w))
      | G_modules_match \<Rightarrow> b_data_size b = 0 \<and> (flag_set (b_op_flags b) PTQL_OP_FLAG_GLOB \<or> (\<exists>w. b_data b = AUi32 w))
      | G_env_match \<Rightarrow> (\<exists>s. b_data b = AStr s \<and> b_data_size b = length s)
      | G_pid_match \<Rightarrow>
          flag_set (b_op_flags b) PTQL_OP_FLAG_PID \<and>
          (if b_flags b = PTQL_PID_FILE \<or> b_flags b = PTQL_PID_SUDO_FILE
           then (\<exists>s. b_data b = AStr s \<and> b_data_size b = length s)
           else b_data_size b = 0 \<and>
             (if b_flags b = PTQL_PID_TCP_PORT \<or> b_flags b = PTQL_PID_UDP_PORT then (\<exists>w. b_data b = AUi32 w)
              else if b_flags b = PTQL_PID_PID then (\<exists>p. b_data b = APid p)
              else b_data b = AZero))
      | _ \<Rightarrow> b_data b = AZero \<and> b_data_size b = 0)"

definition is_ptr :: "any_value \<Rightarrow> bool" where
  "is_ptr v \<longleftrightarrow> free_ptr v \<noteq> None"

definition freeable :: "ptql_branch \<Rightarrow> bool" where
  "freeable b \<longleftrightarrow> branch_free b \<noteq> None"

lemma freeableI:
  assumes "b_data_size b \<noteq> 0 \<Longrightarrow> is_ptr (b_data b)"
    and "\<And>lk. b_lookup b = Some lk \<Longrightarrow> lk_type lk = PTQL_VALUE_TYPE_STR \<or> lk_type lk = PTQL_VALUE_TYPE_ANY \<Longrightarrow>
           \<not> flag_set (b_op_flags b) PTQL_OP_FLAG_REF \<Longrightarrow> is_ptr (b_value b)"
  shows "freeable b"
  using assms
  by (cases "b_data_size b = 0") (auto simp: freeable_def branch_free_def is_ptr_def split: option.splits bind_splits)

text \<open>What every initialiser leaves alone, and what it establishes.\<close>

lemma init_frame:
  assumes "ptql_run_init lc init parsed b = (b1, e)"
  shows "b_op_name b1 = b_op_name b" "b_lookup b1 = b_lookup b" "b_value b1 = b_value b" "b_match b1 = b_match b"
    "flag_set (b_op_flags b1) PTQL_OP_FLAG_REF = flag_set (b_op_flags b) PTQL_OP_FLAG_REF"
  using assms
  by (auto simp: ptql_run_init_def ptql_branch_init_any_def ptql_branch_init_service_def ptql_branch_init_pid_def
      ptql_args_branch_init_def ptql_branch_init_port_def Let_def
      split: option.splits ptql_init.splits if_splits prod.splits)

lemma init_data:
  assumes "ptql_run_init lc init parsed b = (b1, e)" and "b_data b = AZero" and "b_data_size b = 0"
  shows "b_data_size b1 \<noteq> 0 \<longrightarrow> is_ptr (b_data b1)"
  using assms
  by (auto simp: ptql_run_init_def ptql_branch_init_any_def ptql_branch_init_service_def ptql_branch_init_pid_def
      ptql_args_branch_init_def ptql_branch_init_port_def Let_def is_ptr_def
      split: option.splits ptql_init.splits if_splits prod.splits)

lemma init_shape:
  assumes "lookup_ok lk" and "ptql_run_init lc (lk_init lk) parsed b = (b1, None)"
    and "b_data b = AZero" and "b_data_size b = 0" and "b_flags b = 0"
    and "\<not> flag_set (b_op_flags b) PTQL_OP_FLAG_PID"
  shows "data_shape lk b1"
proof (cases "lk_type lk = PTQL_VALUE_TYPE_ANY")
  case True
  then have "lk \<in> set any_lookups" using assms(1) by (simp add: lookup_ok_def)
  with assms show ?thesis
    by (auto simp: any_lookups_def any_tables ptql_any_entry_def data_shape_def ptql_run_init_def
        ptql_branch_init_any_def ptql_branch_init_service_def ptql_branch_init_pid_def
        ptql_args_branch_init_def ptql_branch_init_port_def Let_def split: if_splits prod.splits)
next
  case False
  then show ?thesis using assms by (auto simp: lookup_ok_def ptql_run_init_def data_shape_def split: ptql_get.split)
qed

definition match_typed :: "ptql_value_type \<Rightarrow> ptql_op_name \<Rightarrow> ptql_match \<Rightarrow> bool" where
  "match_typed ty op m \<longleftrightarrow>
     op_ix op < (if type_ix ty < 4 then 6 else 10) \<and>
     m = (case ty of
            PTQL_VALUE_TYPE_UI64 \<Rightarrow> MUi64 (ptql_op_ui64 ! op_ix op)
          | PTQL_VALUE_TYPE_UI32 \<Rightarrow> MUi32 (ptql_op_ui32 ! op_ix op)
          | PTQL_VALUE_TYPE_DBL \<Rightarrow> MDbl (ptql_op_dbl ! op_ix op)
          | PTQL_VALUE_TYPE_CHR \<Rightarrow> MChr (ptql_op_chr ! op_ix op)
          | _ \<Rightarrow> MStr (ptql_op_str ! op_ix op))"

definition plain_value :: "ptql_value_type \<Rightarrow> any_value \<Rightarrow> bool" where
  "plain_value ty v \<longleftrightarrow>
     (case ty of
        PTQL_VALUE_TYPE_UI64 \<Rightarrow> (\<exists>w. v = AUi64 w)
      | PTQL_VALUE_TYPE_UI32 \<Rightarrow> (\<exists>w. v = AUi32 w)
      | PTQL_VALUE_TYPE_DBL \<Rightarrow> (\<exists>x. v = ADbl x)
      | PTQL_VALUE_TYPE_CHR \<Rightarrow> (\<exists>c. v = AChr c)
      | _ \<Rightarrow> (\<exists>s. v = AStr s))"

definition branch_shape :: "nat \<Rightarrow> ptql_branch \<Rightarrow> bool" where
  "branch_shape i b \<longleftrightarrow>
     (\<exists>lk. b_lookup b = Some lk \<and> lookup_ok lk \<and> data_shape lk b
        \<and> match_typed (lk_type lk) (b_op_name b) (b_match b)
        \<and> (if flag_set (b_op_flags b) PTQL_OP_FLAG_REF then \<exists>w. b_value b = AUi32 w \<and> unat w < i
           else plain_value (lk_type lk) (b_value b) \<or> b_value b = AZero \<or> (\<exists>s. b_value b = AStr s)))"

definition plain_branch :: "ptql_branch \<Rightarrow> bool" where
  "plain_branch b \<longleftrightarrow>
     \<not> flag_set (b_op_flags b) PTQL_OP_FLAG_REF
     \<and> (\<forall>lk. b_lookup b = Some lk \<longrightarrow> plain_value (lk_type lk) (b_value b))"

lemma typed_ok:
  assumes "type_ix ty < 4 \<longrightarrow> op_ix (b_op_name b) < 6" and "b_op_name b \<noteq> PTQL_OP_MAX"
  shows "\<exists>b1 e. ptql_branch_typed lc parsed ty is_set b = Some (b1, e)
    \<and> (\<exists>m v. b1 = b\<lparr>b_match := m, b_value := v\<rparr> \<and> match_typed ty (b_op_name b) m
         \<and> (is_set \<longrightarrow> v = b_value b) \<and> (\<not> is_set \<and> e = None \<longrightarrow> plain_value ty v)
         \<and> (\<not> is_set \<and> 4 \<le> type_ix ty \<longrightarrow> is_ptr v))"
proof -
  let ?ix = "op_ix (b_op_name b)"
  have s10: "?ix < 10" using assms(2) by (rule op_ix_less)
  have ex: "\<exists>m v. b\<lparr>b_match := m0, b_value := v0\<rparr> = b\<lparr>b_match := m, b_value := v\<rparr> \<and> P m v" if "P m0 v0" for P m0 v0
    using that by blast
  have same: "b\<lparr>b_match := m\<rparr> = b\<lparr>b_match := m, b_value := b_value b\<rparr>" for m by simp
  have same_ex: "\<exists>v. b\<lparr>b_match := m\<rparr> = b\<lparr>b_match := m, b_value := v\<rparr>" for m
    by (rule exI [of _ "b_value b"]) simp
  show ?thesis
    using assms(1) s10
    by (cases ty)
      (auto simp: ptql_branch_typed_def cell_def Let_def match_typed_def plain_value_def is_ptr_def
        split: prod.split intro!: ex same_ex simp flip: same)
qed

lemma variable_ok:
  assumes "ptql_branch_variable lc parsed n b = (b1, fl, e)" and "\<not> flag_set (b_op_flags b) PTQL_OP_FLAG_REF"
    and "\<not> flag_set (p_op_flags parsed) PTQL_OP_FLAG_REF" and "b_value b = AZero"
  shows "\<exists>f v. b1 = b\<lparr>b_op_flags := b_op_flags b OR f, b_value := v\<rparr> \<and> (f = 0 \<or> f = PTQL_OP_FLAG_REF)
     \<and> (flag_set (b_op_flags b1) PTQL_OP_FLAG_REF \<longrightarrow> (\<exists>w. v = AUi32 w \<and> (e = None \<longrightarrow> unat w < n - 1)))
     \<and> (\<not> flag_set (b_op_flags b1) PTQL_OP_FLAG_REF \<longrightarrow> v = AZero \<or> (\<exists>s. v = AStr s))
     \<and> (e = None \<longrightarrow> flag_set fl PTQL_OP_FLAG_REF = flag_set (b_op_flags b1) PTQL_OP_FLAG_REF)"
proof -
  consider (re) "b_op_name b = PTQL_OP_RE"
    | (ref) "b_op_name b \<noteq> PTQL_OP_RE" "starts_digit (tl (p_value parsed))"
    | (env) "b_op_name b \<noteq> PTQL_OP_RE" "\<not> starts_digit (tl (p_value parsed))" by blast
  then show ?thesis
  proof cases
    case re
    with assms show ?thesis
      by (intro exI [of _ 0] exI [of _ AZero]) (auto simp: ptql_branch_variable_def Let_def)
  next
    case ref
    with assms show ?thesis
      by (intro exI [of _ PTQL_OP_FLAG_REF] exI [of _ "b_value b1"])
        (auto simp: ptql_branch_variable_def Let_def split: if_splits)
  next
    case env
    with assms show ?thesis
      by (intro exI [of _ 0] exI [of _ "b_value b1"])
        (auto simp: ptql_branch_variable_def Let_def split: option.splits)
  qed
qed

lemma data_shape_cong:
  "b_data b1 = b_data b \<Longrightarrow> b_data_size b1 = b_data_size b \<Longrightarrow> b_flags b1 = b_flags b \<Longrightarrow>
   flag_set (b_op_flags b1) PTQL_OP_FLAG_GLOB = flag_set (b_op_flags b) PTQL_OP_FLAG_GLOB \<Longrightarrow>
   flag_set (b_op_flags b1) PTQL_OP_FLAG_PID = flag_set (b_op_flags b) PTQL_OP_FLAG_PID \<Longrightarrow>
   data_shape lk b1 = data_shape lk b"
  by (simp add: data_shape_def split: ptql_get.split)

text \<open>The end of \<open>ptql_branch_add\<close>, once the lookup and the initialiser have succeeded.\<close>

definition fill_value ::
  "ptql_libc \<Rightarrow> ptql_parse_branch \<Rightarrow> nat \<Rightarrow> ptql_lookup \<Rightarrow> ptql_branch \<Rightarrow> (ptql_branch \<times> uint32 \<times> string option) ub" where
  "fill_value lc parsed number lookup branch2 =
     (let is_set = (p_value parsed \<noteq> [] \<and> hd (p_value parsed) = CHR ''$'') in
      case (if is_set then ptql_branch_variable lc parsed number branch2
            else (branch2, p_op_flags parsed, None)) of
        (branch3, pflags3, Some msg) \<Rightarrow> Some (branch3, pflags3, Some msg)
      | (branch3, pflags3, None) \<Rightarrow> do {
          (branch4, e) \<leftarrow> ptql_branch_typed lc parsed (lk_type lookup) is_set branch3;
          Some (branch4, pflags3, e) })"

lemma fill_value_ok:
  assumes lk: "lookup_ok lk" "b_lookup b = Some lk" and data: "data_shape lk b" "b_data_size b \<noteq> 0 \<longrightarrow> is_ptr (b_data b)"
    and op: "b_op_name b \<noteq> PTQL_OP_MAX" "type_ix (lk_type lk) < 4 \<longrightarrow> op_ix (b_op_name b) < 6"
    and zero: "b_value b = AZero" and fl: "\<not> flag_set (b_op_flags b) PTQL_OP_FLAG_REF"
      "\<not> flag_set (p_op_flags parsed) PTQL_OP_FLAG_REF"
  shows "\<exists>b4 pf e. fill_value lc parsed n lk b = Some (b4, pf, e) \<and> freeable b4
     \<and> (e = None \<longrightarrow> branch_shape (n - 1) b4
          \<and> flag_set pf PTQL_OP_FLAG_REF = flag_set (b_op_flags b4) PTQL_OP_FLAG_REF
          \<and> (CHR ''$'' \<notin> set (p_value parsed) \<longrightarrow> plain_branch b4))"
proof (cases "p_value parsed \<noteq> [] \<and> hd (p_value parsed) = CHR ''$''")
  case True
  then have dollar: "CHR ''$'' \<in> set (p_value parsed)" by (metis hd_in_set)
  obtain b3 pf e where v: "ptql_branch_variable lc parsed n b = (b3, pf, e)"
    by (cases "ptql_branch_variable lc parsed n b") auto
  from variable_ok [OF v fl zero] obtain f v3 where
    b3: "b3 = b\<lparr>b_op_flags := b_op_flags b OR f, b_value := v3\<rparr>" "f = 0 \<or> f = PTQL_OP_FLAG_REF"
    and ref: "flag_set (b_op_flags b3) PTQL_OP_FLAG_REF \<longrightarrow> (\<exists>w. v3 = AUi32 w \<and> (e = None \<longrightarrow> unat w < n - 1))"
    and str: "\<not> flag_set (b_op_flags b3) PTQL_OP_FLAG_REF \<longrightarrow> v3 = AZero \<or> (\<exists>s. v3 = AStr s)"
    and pf: "e = None \<longrightarrow> flag_set pf PTQL_OP_FLAG_REF = flag_set (b_op_flags b3) PTQL_OP_FLAG_REF"
    by blast
  have ptr: "\<not> flag_set (b_op_flags b3) PTQL_OP_FLAG_REF \<Longrightarrow> is_ptr v3" using str by (auto simp: is_ptr_def)
  have shape: "data_shape lk b3"
    using data(1) b3 by (subst data_shape_cong [of _ b]) auto
  show ?thesis
  proof (cases e)
    case (Some msg)
    have "freeable b3" using b3 data(2) ptr by (intro freeableI) auto
    with Some True v show ?thesis by (simp add: fill_value_def)
  next
    case None
    have "type_ix (lk_type lk) < 4 \<longrightarrow> op_ix (b_op_name b3) < 6" "b_op_name b3 \<noteq> PTQL_OP_MAX"
      using op b3 by simp_all
    from typed_ok [OF this, of lc parsed True] obtain b4 m e4 where
      t: "ptql_branch_typed lc parsed (lk_type lk) True b3 = Some (b4, e4)"
        "b4 = b3\<lparr>b_match := m\<rparr>" "match_typed (lk_type lk) (b_op_name b3) m" by auto
    have "freeable b4" using b3 t(2) data(2) ptr by (intro freeableI) auto
    moreover have "branch_shape (n - 1) b4"
      unfolding branch_shape_def
    proof (intro exI [of _ lk] conjI)
      show "data_shape lk b4" using shape t(2) by (subst data_shape_cong [of _ b3]) auto
    qed (use b3 t lk ref str None in auto)
    ultimately show ?thesis using True v None t dollar pf by (simp add: fill_value_def)
  qed
next
  case False
  from typed_ok [OF op(2) op(1), of lc parsed False] obtain b4 m w e where
    t: "ptql_branch_typed lc parsed (lk_type lk) False b = Some (b4, e)"
      "b4 = b\<lparr>b_match := m, b_value := w\<rparr>" "match_typed (lk_type lk) (b_op_name b) m"
      "e = None \<longrightarrow> plain_value (lk_type lk) w" "4 \<le> type_ix (lk_type lk) \<longrightarrow> is_ptr w" by auto
  have "freeable b4" using t data(2) lk by (intro freeableI) auto
  moreover have "branch_shape (n - 1) b4" if "e = None"
    unfolding branch_shape_def
  proof (intro exI [of _ lk] conjI)
    show "data_shape lk b4" using data(1) t(2) by (subst data_shape_cong [of _ b]) auto
  qed (use t lk fl that in auto)
  moreover have "plain_branch b4" if "e = None" using that t lk fl by (simp add: plain_branch_def)
  ultimately show ?thesis using False t fl by (auto simp: fill_value_def)
qed

lemma fill_unfold:
  "ptql_branch_fill lc parsed number =
     (let branch = zero_branch\<lparr>b_op_flags := p_op_flags parsed, b_op_name := ptql_op_code_get (p_op parsed)\<rparr>;
          pflags = p_op_flags parsed
      in if b_op_name branch = PTQL_OP_MAX
         then Some (branch, pflags, Some (''Unsupported operator: '' @ p_op parsed))
         else case find_entry (p_name parsed) of
           None \<Rightarrow> Some (branch, pflags, Some (''Unsupported method: '' @ p_name parsed))
         | Some entry \<Rightarrow> do {
             found \<leftarrow> find_lookup parsed entry;
             case found of
               None \<Rightarrow> Some (branch, pflags, Some (''Unsupported '' @ p_name parsed @ '' attribute: '' @ p_attr parsed))
             | Some lookup \<Rightarrow>
                 (case ptql_run_init lc (lk_init lookup) parsed branch of
                    (branch1, Some msg) \<Rightarrow> Some (branch1, pflags, Some msg)
                  | (branch1, None) \<Rightarrow>
                      (let branch2 = branch1\<lparr>b_lookup := Some lookup\<rparr>
                       in if type_ix (lk_type lookup) < 4 \<and> 5 < op_ix (b_op_name branch2)
                          then Some (branch2, pflags,
                                 Some (''Unsupported operator '' @ [CHR 0x27] @ p_op parsed @ [CHR 0x27] @ '' for ''
                                       @ p_name parsed @ ''.'' @ p_attr parsed))
                          else fill_value lc parsed number lookup branch2)) })"
  by (simp only: ptql_branch_fill_def fill_value_def Let_def PTQL_OP_MAX_NSTR_def op_ix.simps type_ix.simps)

definition parsed_ok :: "ptql_parse_branch \<Rightarrow> bool" where
  "parsed_ok parsed \<longleftrightarrow> \<not> flag_set (p_op_flags parsed) PTQL_OP_FLAG_REF
     \<and> \<not> flag_set (p_op_flags parsed) PTQL_OP_FLAG_GLOB \<and> \<not> flag_set (p_op_flags parsed) PTQL_OP_FLAG_PID"

lemma branch_fill_ok:
  assumes "parsed_ok parsed"
  shows "\<exists>b pf e. ptql_branch_fill lc parsed n = Some (b, pf, e) \<and> freeable b
     \<and> (e = None \<longrightarrow> branch_shape (n - 1) b
          \<and> flag_set pf PTQL_OP_FLAG_REF = flag_set (b_op_flags b) PTQL_OP_FLAG_REF
          \<and> (CHR ''$'' \<notin> set (p_value parsed) \<longrightarrow> plain_branch b))"
proof -
  define b0 where "b0 = zero_branch\<lparr>b_op_flags := p_op_flags parsed, b_op_name := ptql_op_code_get (p_op parsed)\<rparr>"
  have b0: "b_lookup b0 = None" "b_data b0 = AZero" "b_data_size b0 = 0" "b_flags b0 = 0" "b_value b0 = AZero"
    "b_op_flags b0 = p_op_flags parsed"
    by (simp_all add: b0_def zero_branch_def)
  have free0: "freeable b0" using b0 by (intro freeableI) auto
  note unf = fill_unfold [of lc parsed n, folded b0_def, unfolded Let_def, folded b0_def]
  consider (early) msg where "ptql_branch_fill lc parsed n = Some (b0, p_op_flags parsed, Some msg)"
    | (look) lk where "b_op_name b0 \<noteq> PTQL_OP_MAX" "lookup_ok lk" "ptql_branch_fill lc parsed n =
        (case ptql_run_init lc (lk_init lk) parsed b0 of
           (b1, Some msg) \<Rightarrow> Some (b1, p_op_flags parsed, Some msg)
         | (b1, None) \<Rightarrow>
             if type_ix (lk_type lk) < 4 \<and> 5 < op_ix (b_op_name (b1\<lparr>b_lookup := Some lk\<rparr>))
             then Some (b1\<lparr>b_lookup := Some lk\<rparr>, p_op_flags parsed,
                        Some (''Unsupported operator '' @ [CHR 0x27] @ p_op parsed @ [CHR 0x27] @ '' for ''
                              @ p_name parsed @ ''.'' @ p_attr parsed))
             else fill_value lc parsed n lk (b1\<lparr>b_lookup := Some lk\<rparr>))"
  proof (cases "find_entry (p_name parsed)")
    case None
    then have "\<exists>msg. ptql_branch_fill lc parsed n = Some (b0, p_op_flags parsed, Some msg)" by (simp add: unf)
    then show thesis using that(1) by blast
  next
    case (Some entry)
    with find_lookup_ok obtain r where r: "find_lookup parsed entry = Some r" "\<forall>lk. r = Some lk \<longrightarrow> lookup_ok lk"
      by blast
    show thesis
    proof (cases "b_op_name b0 = PTQL_OP_MAX \<or> r = None")
      case True
      then have "\<exists>msg. ptql_branch_fill lc parsed n = Some (b0, p_op_flags parsed, Some msg)"
        using Some r by (auto simp: unf)
      then show thesis using that(1) by blast
    next
      case False
      then obtain lk where lk: "r = Some lk" "b_op_name b0 \<noteq> PTQL_OP_MAX" by auto
      show thesis
      proof (rule that(2) [OF lk(2)])
        show "lookup_ok lk" using lk r by simp
      qed (simp only: unf Some r lk if_False option.case Option.bind.simps)
    qed
  qed
  then show ?thesis
  proof cases
    case early
    with free0 show ?thesis by simp
  next
    case (look lk)
    obtain b1 e1 where init: "ptql_run_init lc (lk_init lk) parsed b0 = (b1, e1)"
      by (cases "ptql_run_init lc (lk_init lk) parsed b0")
    note fr = init_frame [OF init]
    have d1: "b_data_size b1 \<noteq> 0 \<longrightarrow> is_ptr (b_data b1)" using init_data [OF init b0(2,3)] .
    let ?b2 = "b1\<lparr>b_lookup := Some lk\<rparr>"
    have free1: "freeable b1" using d1 fr b0 by (intro freeableI) auto
    have free2: "freeable ?b2" using d1 fr b0 by (intro freeableI) (auto simp: is_ptr_def)
    show ?thesis
    proof (cases e1)
      case (Some msg)
      with look init free1 show ?thesis by simp
    next
      case None
      have "data_shape lk b1" using init_shape [OF look(2) init [unfolded None] b0(2,3,4)] b0(6) assms by (simp add: parsed_ok_def)
      then have ds: "data_shape lk ?b2" by (subst data_shape_cong [of _ b1]) auto
      show ?thesis
      proof (cases "type_ix (lk_type lk) < 4 \<and> 5 < op_ix (b_op_name ?b2)")
        case True
        with look init None free2 show ?thesis by simp
      next
        case False
        have "\<exists>b4 pf e. fill_value lc parsed n lk ?b2 = Some (b4, pf, e) \<and> freeable b4
          \<and> (e = None \<longrightarrow> branch_shape (n - 1) b4
          \<and> flag_set pf PTQL_OP_FLAG_REF = flag_set (b_op_flags b4) PTQL_OP_FLAG_REF
          \<and> (CHR ''$'' \<notin> set (p_value parsed) \<longrightarrow> plain_branch b4))"
          using False ds d1 look(1,2) fr b0 assms by (intro fill_value_ok) (auto simp: parsed_ok_def)
        moreover have "ptql_branch_fill lc parsed n = fill_value lc parsed n lk ?b2"
          by (simp only: look(3) init None prod.case option.case False if_False)
        ultimately show ?thesis by simp
      qed
    qed
  qed
qed

lemma modifiers_flags:
  "ptql_modifiers fl q = Inr (fl', op) \<Longrightarrow> \<not> flag_set fl f \<Longrightarrow> \<not> flag_set 1 f \<Longrightarrow> \<not> flag_set 16 f \<Longrightarrow> \<not> flag_set fl' f"
  by (induction fl q rule: ptql_modifiers.induct) (auto split: if_splits)

lemma parse_ok:
  assumes "ptql_branch_parse q = Inr parsed"
  shows "parsed_ok parsed" and "set (p_value parsed) \<subseteq> set q"
proof -
  obtain q1 w name q2 attr q3 fl op where
    s: "split_at (CHR ''='') q = (q1, Some w)" "split_at (CHR ''.'') q1 = (name, Some q2)"
      "split_at (CHR ''.'') q2 = (attr, Some q3)" "ptql_modifiers 0 q3 = Inr (fl, op)"
      "p_value parsed = w" "p_op_flags parsed = fl"
    using assms by (auto simp: ptql_branch_parse_def split: prod.splits option.splits sum.splits if_splits)
  show "set (p_value parsed) \<subseteq> set q" using split_at_Some [OF s(1)] s(5) by auto
  show "parsed_ok parsed" using modifiers_flags [OF s(4)] s(6) by (simp add: parsed_ok_def)
qed

section \<open>Query creation\<close>

definition query_shape :: "ptql_branch list \<Rightarrow> bool" where
  "query_shape bs \<longleftrightarrow> (\<forall>i < length bs. branch_shape i (bs ! i))"

definition has_refs :: "ptql_branch list \<Rightarrow> bool" where
  "has_refs bs = list_ex (\<lambda>b. flag_set (b_op_flags b) PTQL_OP_FLAG_REF) bs"

lemma add_ok:
  assumes "parsed_ok parsed" and "clist_wf l"
  shows "\<exists>l1 pf e b. ptql_branch_add lc parsed l = Some (l1, pf, e) \<and> clist_wf l1
     \<and> clist_elems l1 = clist_elems l @ [b] \<and> freeable b
     \<and> (e = None \<longrightarrow> branch_shape (l_number l) b
          \<and> flag_set pf PTQL_OP_FLAG_REF = flag_set (b_op_flags b) PTQL_OP_FLAG_REF
          \<and> (CHR ''$'' \<notin> set (p_value parsed) \<longrightarrow> plain_branch b))"
proof -
  from branch_fill_ok [OF assms(1), of lc "Suc (l_number l)"] obtain b pf e where
    f: "ptql_branch_fill lc parsed (Suc (l_number l)) = Some (b, pf, e)" "freeable b"
      "e = None \<longrightarrow> branch_shape (l_number l) b
          \<and> flag_set pf PTQL_OP_FLAG_REF = flag_set (b_op_flags b) PTQL_OP_FLAG_REF
          \<and> (CHR ''$'' \<notin> set (p_value parsed) \<longrightarrow> plain_branch b)" by auto
  from branch_list.put_ok [OF assms(2), of b] obtain l1 where
    "clist_put ptql_branch_list_grow l b = Some l1" "clist_wf l1" "clist_elems l1 = clist_elems l @ [b]" by blast
  with f show ?thesis by (simp add: ptql_branch_add_def)
qed

lemma query_shape_snoc: "query_shape (bs @ [b]) \<longleftrightarrow> query_shape bs \<and> branch_shape (length bs) b"
  by (auto simp: query_shape_def nth_append less_Suc_eq)

lemma create_loop_ok:
  assumes "clist_wf l" and "list_all freeable (clist_elems l)" and "query_shape (clist_elems l)"
    and "r = has_refs (clist_elems l)"
  shows "\<exists>e l1 r1. ptql_create_loop lc q l r = Some (e, l1, r1) \<and> clist_wf l1 \<and> list_all freeable (clist_elems l1)
     \<and> (e = None \<longrightarrow> query_shape (clist_elems l1) \<and> r1 = has_refs (clist_elems l1) \<and> clist_elems l1 \<noteq> []
          \<and> (CHR ''$'' \<notin> set q \<and> list_all plain_branch (clist_elems l) \<longrightarrow> list_all plain_branch (clist_elems l1)))"
  using assms
proof (induction lc q l r rule: ptql_create_loop.induct)
  case (1 lc q l r)
  obtain chunk ptr where sp: "split_at (CHR '','') q = (chunk, ptr)" by (cases "split_at (CHR '','') q")
  have sub: "set chunk \<subseteq> set q \<and> (\<forall>rest. ptr = Some rest \<longrightarrow> set rest \<subseteq> set q)"
    using sp split_at_None [of _ q chunk] split_at_Some [of _ q chunk] by (cases ptr) force+
  note unf = ptql_create_loop.simps [of lc q l r, unfolded sp, simplified]
  show ?case
  proof (cases "ptql_branch_parse chunk")
    case (Inl msg)
    then show ?thesis using "1.prems"(1-3) by (simp add: unf)
  next
    case (Inr parsed)
    note pok = parse_ok [OF Inr]
    from add_ok [OF pok(1) "1.prems"(1), of lc] obtain l1 pf e b where
      add: "ptql_branch_add lc parsed l = Some (l1, pf, e)" "clist_wf l1" "clist_elems l1 = clist_elems l @ [b]" "freeable b"
      and ok: "e = None \<longrightarrow> branch_shape (l_number l) b
          \<and> flag_set pf PTQL_OP_FLAG_REF = flag_set (b_op_flags b) PTQL_OP_FLAG_REF
          \<and> (CHR ''$'' \<notin> set (p_value parsed) \<longrightarrow> plain_branch b)" by auto
    have free: "list_all freeable (clist_elems l1)" using add "1.prems"(2) by simp
    show ?thesis
    proof (cases e)
      case (Some msg)
      then show ?thesis using add free Inr by (simp add: unf)
    next
      case None
      let ?r = "r \<or> flag_set pf PTQL_OP_FLAG_REF"
      have shape: "query_shape (clist_elems l1)"
        using add(3) ok None "1.prems"(1,3) length_clist_elems [of l] by (simp add: query_shape_snoc)
      have refs: "?r = has_refs (clist_elems l1)" using add(3) ok None "1.prems"(4) by (simp add: has_refs_def)
      have plain: "CHR ''$'' \<notin> set q \<and> list_all plain_branch (clist_elems l) \<longrightarrow> list_all plain_branch (clist_elems l1)"
        using ok None add(3) pok(2) sub by auto
      show ?thesis
      proof (cases "\<exists>rest. ptr = Some rest \<and> rest \<noteq> []")
        case False
        then have "ptql_create_loop lc q l r = Some (None, l1, ?r)"
          using Inr add None by (auto simp: unf Let_def split: option.split)
        with add free shape refs plain show ?thesis by simp
      next
        case True
        then obtain rest where rest: "ptr = Some rest" "rest \<noteq> []" by blast
        have step: "ptql_create_loop lc q l r = ptql_create_loop lc rest l1 ?r"
          using Inr add None rest by (simp add: unf Let_def)
        from "1.IH" [OF sp [symmetric] Inr add(1) refl refl None refl rest add(2) free shape refs]
        obtain e' l2 r2 where ih: "ptql_create_loop lc rest l1 ?r = Some (e', l2, r2)" "clist_wf l2"
          "list_all freeable (clist_elems l2)"
          "e' = None \<longrightarrow> query_shape (clist_elems l2) \<and> r2 = has_refs (clist_elems l2) \<and> clist_elems l2 \<noteq> []
             \<and> (CHR ''$'' \<notin> set rest \<and> list_all plain_branch (clist_elems l1) \<longrightarrow> list_all plain_branch (clist_elems l2))"
          by auto
        have "CHR ''$'' \<notin> set q \<Longrightarrow> CHR ''$'' \<notin> set rest" using sub rest by auto
        with ih plain show ?thesis unfolding step by blast
      qed
    qed
  qed
qed

text \<open>The clist of a sorted query.\<close>

lemma sorted_by_wf:
  assumes "clist_wf l" and "length (f (clist_elems l)) = length (clist_elems l)"
  shows "clist_wf (clist_sorted_by f l)" and "clist_elems (clist_sorted_by f l) = f (clist_elems l)"
  using assms length_clist_elems [OF assms(1)]
  by (auto simp: clist_sorted_by_def clist_wf_def clist_elems_def list_all_iff comp_def)

lemma branches_free_ok: "list_all freeable bs \<Longrightarrow> branches_free bs \<noteq> None"
  by (induction bs) (auto simp: freeable_def)

lemma destroy_ok:
  assumes "clist_wf l" and "list_all freeable (clist_elems l)"
  shows "\<exists>freed. sigar_ptql_query_destroy l = Some freed"
  using branches_free_ok [OF assms(2)] by (auto simp: sigar_ptql_query_destroy_def ptql_branch_list_destroy_def)

text \<open>What C guarantees of \<open>qsort\<close>: a permutation, sorted for the comparison. The order of equal
  elements is unspecified.\<close>

definition qsort_spec :: "ptql_libc \<Rightarrow> bool" where
  "qsort_spec lc \<longleftrightarrow>
     (\<forall>bs. mset (lc_qsort lc ptql_branch_compare bs) = mset bs
         \<and> sorted_wrt (\<lambda>a b. ptql_branch_compare a b \<le> 0) (lc_qsort lc ptql_branch_compare bs))"

lemma create_loop_start:
  "\<exists>e l r. ptql_create_loop lc q ptql_branch_list_create False = Some (e, l, r) \<and> clist_wf l
     \<and> list_all freeable (clist_elems l)
     \<and> (e = None \<longrightarrow> query_shape (clist_elems l) \<and> r = has_refs (clist_elems l) \<and> clist_elems l \<noteq> []
          \<and> (CHR ''$'' \<notin> set q \<longrightarrow> list_all plain_branch (clist_elems l)))"
  using create_loop_ok [of ptql_branch_list_create False lc q] branch_list.create_wf branch_list.create_elems
  by (simp add: query_shape_def has_refs_def)

lemma shape_no_ref:
  "branch_shape i b \<Longrightarrow> \<not> flag_set (b_op_flags b) PTQL_OP_FLAG_REF \<Longrightarrow> branch_shape j b"
  by (auto simp: branch_shape_def)

lemma query_shape_perm:
  assumes "query_shape bs" and "\<not> has_refs bs" and "mset bs' = mset bs"
  shows "query_shape bs'"
  unfolding query_shape_def
proof (intro allI impI)
  fix i assume "i < length bs'"
  then have "bs' ! i \<in> set bs" using assms(3) by (metis nth_mem set_mset_mset)
  then obtain j where "j < length bs" "bs' ! i = bs ! j" by (auto simp: in_set_conv_nth)
  then show "branch_shape i (bs' ! i)"
    using assms(1,2) shape_no_ref by (auto simp: query_shape_def has_refs_def list_ex_iff) 
qed

lemma create_typed:
  assumes "qsort_spec lc" and "sigar_ptql_query_create lc ptql error = Some (SIGAR_OK, Some query, err, freed)"
  shows "clist_wf query \<and> clist_elems query \<noteq> [] \<and> query_shape (clist_elems query)
     \<and> (CHR ''$'' \<notin> set ptql \<longrightarrow> list_all plain_branch (clist_elems query))
     \<and> (\<not> has_refs (clist_elems query) \<longrightarrow> sorted_wrt (\<lambda>a b. ptql_branch_compare a b \<le> 0) (clist_elems query))"
proof -
  from create_loop_start [of lc ptql] obtain e l r where
    loop: "ptql_create_loop lc ptql ptql_branch_list_create False = Some (e, l, r)" "clist_wf l"
      "e = None \<longrightarrow> query_shape (clist_elems l) \<and> r = has_refs (clist_elems l) \<and> clist_elems l \<noteq> []
          \<and> (CHR ''$'' \<notin> set ptql \<longrightarrow> list_all plain_branch (clist_elems l))" by auto
  have e: "e = None"
    using assms(2) loop(1) by (cases e) (auto simp: sigar_ptql_query_create_def ptql_error_def Let_def split: bind_splits)
  have q: "query = (if \<not> r \<and> 1 < l_number l then clist_sorted_by (lc_qsort lc ptql_branch_compare) l else l)"
    using assms(2) loop(1) e by (simp add: sigar_ptql_query_create_def Let_def)
  let ?f = "lc_qsort lc ptql_branch_compare"
  have perm: "mset (?f (clist_elems l)) = mset (clist_elems l)"
    and srt: "sorted_wrt (\<lambda>a b. ptql_branch_compare a b \<le> 0) (?f (clist_elems l))"
    using assms(1) by (auto simp: qsort_spec_def)
  have len: "length (?f (clist_elems l)) = length (clist_elems l)" using perm by (metis size_mset)
  have set: "set (?f (clist_elems l)) = set (clist_elems l)" using perm by (metis set_mset_mset)
  show ?thesis
  proof (cases "\<not> r \<and> 1 < l_number l")
    case True
    have "query_shape (?f (clist_elems l))" using query_shape_perm [OF _ _ perm] loop(3) e True by simp
    with True q sorted_by_wf [where f = ?f, OF loop(2) len] loop(3) e srt set len show ?thesis
      by (auto simp: list_all_iff)
  next
    case False
    have "length (clist_elems l) \<le> 1" if "\<not> r" using that False length_clist_elems [OF loop(2)] by simp
    then have "\<not> r \<longrightarrow> sorted_wrt (\<lambda>a b. ptql_branch_compare a b \<le> 0) (clist_elems l)"
      by (cases "clist_elems l") auto
    with False q loop e show ?thesis by auto
  qed
qed

section \<open>Properties\<close>



text \<open>A C library for the examples: no environment, pid 1, a stable sort.\<close>

definition branch_key :: "ptql_branch \<Rightarrow> nat" where
  "branch_key b = (case b_lookup b of None \<Rightarrow> 0 | Some lk \<Rightarrow> type_ix (lk_type lk))"

definition sample_libc :: ptql_libc where
  "sample_libc = \<lparr>lc_getenv = (\<lambda>_. None), lc_getpid = 1, lc_rnd = (\<lambda>x. x), lc_qsort = (\<lambda>_. sort_key branch_key)\<rparr>"

lemma sample_qsort: "qsort_spec sample_libc"
proof -
  have "sorted_wrt (\<lambda>a b. branch_key a \<le> branch_key b) (sort_key branch_key bs)" for bs
    using sorted_sort_key [of branch_key bs] by (simp add: sorted_map)
  moreover have "branch_key a \<le> branch_key b \<Longrightarrow> ptql_branch_compare a b \<le> 0" for a b
    by (auto simp: branch_key_def ptql_branch_compare_def split: option.splits)
  ultimately have "sorted_wrt (\<lambda>a b. ptql_branch_compare a b \<le> 0) (sort_key branch_key bs)" for bs
    by (rule sorted_wrt_mono_rel [rotated]) simp
  then show ?thesis by (simp add: qsort_spec_def sample_libc_def)
qed


definition print_branch :: "ptql_parse_branch \<Rightarrow> string" where
  "print_branch p = p_name p @ ''.'' @ p_attr p @ ''.''
     @ (if flag_set (p_op_flags p) PTQL_OP_FLAG_PARENT then ''P'' else [])
     @ (if flag_set (p_op_flags p) PTQL_OP_FLAG_ICASE then ''I'' else [])
     @ p_op p @ ''='' @ p_value p"

text \<open>C11: a branch that is written out parses back to its parts. The class and the
  attribute must be free of dots and equal signs and the operator of equal signs and upper-case
  letters; the value may contain anything. (The attribute \<open>Service\<close> is renamed.)\<close>

theorem ptql_branch_parse_print:
  assumes "CHR ''.'' \<notin> set (p_name p)" "CHR ''='' \<notin> set (p_name p)" "CHR ''.'' \<notin> set (p_attr p)"
    "CHR ''='' \<notin> set (p_attr p)" "p_attr p \<noteq> ''Service''" "p_op p \<noteq> []" "\<not> isupper (hd (p_op p))" "CHR ''='' \<notin> set (p_op p)"
    and "p_op_flags p \<in> {0, PTQL_OP_FLAG_PARENT, PTQL_OP_FLAG_ICASE, PTQL_OP_FLAG_PARENT OR PTQL_OP_FLAG_ICASE}"
  shows "ptql_branch_parse (print_branch p) = Inr p"
proof -
  let ?fl = "(if flag_set (p_op_flags p) PTQL_OP_FLAG_PARENT then ''P'' else [])
     @ (if flag_set (p_op_flags p) PTQL_OP_FLAG_ICASE then ''I'' else [])"
  let ?h = "p_name p @ CHR ''.'' # p_attr p @ CHR ''.'' # ?fl @ p_op p"
  have eq: "split_at (CHR ''='') (print_branch p) = (?h, Some (p_value p))"
    using assms split_at_append [of "CHR ''=''" ?h "p_value p"] by (simp add: print_branch_def)
  obtain o1 os where o1: "p_op p = o1 # os" using assms(6) by (cases "p_op p") auto
  have noflags: "ptql_modifiers f (p_op p) = Inr (f, p_op p)" for f using assms(7) o1 by simp
  have up: "isupper (CHR ''P'')" "isupper (CHR ''I'')" by code_simp+
  have mods: "ptql_modifiers 0 (?fl @ p_op p) = Inr (p_op_flags p, p_op p)"
    using assms(9) up noflags by (auto simp: flag_set_def)
  have ne: "?fl @ p_op p \<noteq> []" using assms(6) by simp
  have dot1: "split_at (CHR ''.'') ?h = (p_name p, Some (p_attr p @ CHR ''.'' # ?fl @ p_op p))"
    using assms(1) by (rule split_at_append)
  have dot2: "split_at (CHR ''.'') (p_attr p @ CHR ''.'' # ?fl @ p_op p) = (p_attr p, Some (?fl @ p_op p))"
    using assms(3) by (rule split_at_append)
  show ?thesis
    unfolding ptql_branch_parse_def eq prod.case option.case dot1 dot2 mods sum.case strEQ_def
    using ne assms(5) by simp
qed

theorem ptql_branch_parse_print_witness:
  "ptql_branch_parse ''State.Name.Ict=$HOME=x.y'' =
     Inr \<lparr>p_name = ''State'', p_attr = ''Name'', p_op = ''ct'', p_value = ''$HOME=x.y'', p_op_flags = PTQL_OP_FLAG_ICASE\<rparr>"
proof -
  let ?p = "\<lparr>p_name = ''State'', p_attr = ''Name'', p_op = ''ct'', p_value = ''$HOME=x.y'', p_op_flags = PTQL_OP_FLAG_ICASE\<rparr>"
  have "print_branch ?p = ''State.Name.Ict=$HOME=x.y''" by (simp add: print_branch_def flag_set_def)
  moreover have "\<not> isupper (CHR ''c'')" by code_simp
  ultimately show ?thesis using ptql_branch_parse_print [of ?p] by simp
qed

end
