(* ===== verification/Ptql_Match.thy ===== *)
theory Ptql_Match
  imports Ptql_Parse
begin

text \<open>
  The back half of \<open>src/sigar_ptql.c\<close>: matching one process against a query, the
  pre-selection of processes by \<open>Pid\<close>, \<open>Port\<close> and \<open>Service\<close> branches, and the two searches
  \<open>sigar_ptql_query_find_process\<close> and \<open>sigar_ptql_query_find\<close>.

  The platform back end is the record \<open>ptql_os\<close>, a parameter: what the \<open>sigar_proc_*_get\<close>
  functions return for each process, the process list, the files. It is a snapshot: the
  processes do not change while one query runs. A query is the list of its branches, which
  matching updates (a branch keeps the structure it last read).
\<close>

section \<open>The platform\<close>

record ptql_os =
  os_get :: "ptql_get \<Rightarrow> pid \<Rightarrow> status + proc_data"
  os_proc_list :: "status + pid list"
  os_proc_args :: "pid \<Rightarrow> status + string list"
  os_proc_modules :: "pid \<Rightarrow> status + string list"
  os_proc_env :: "pid \<Rightarrow> status + (string \<times> string) list"
  os_proc_port :: "nat \<Rightarrow> uint64 \<Rightarrow> status + pid"
  os_file :: "string \<Rightarrow> file_read"
  os_stat :: "string \<Rightarrow> status + int"
  os_popen :: "string \<Rightarrow> status + string"
  os_re_impl :: "(string \<Rightarrow> string \<Rightarrow> bool) option"

abbreviation (input) SIGAR_NETCONN_TCP :: nat where "SIGAR_NETCONN_TCP \<equiv> 0x10"
abbreviation (input) SIGAR_NETCONN_UDP :: nat where "SIGAR_NETCONN_UDP \<equiv> 0x20"
abbreviation (input) SIGAR_PATH_MAX :: nat where "SIGAR_PATH_MAX \<equiv> 4096"

section \<open>Reading unions and structures\<close>

text \<open>The union as a string pointer: a zeroed union is NULL, also after its low half was
  written with 0.\<close>

fun val_str :: "any_value \<Rightarrow> string option ub" where
  "val_str AZero = Some None"
| "val_str (AStr s) = Some (Some s)"
| "val_str (AUi32 w) = (if w = 0 then Some None else None)"
| "val_str _ = None"

fun val_ui64 :: "any_value \<Rightarrow> uint64 ub" where
  "val_ui64 AZero = Some 0"
| "val_ui64 (AUi64 v) = Some v"
| "val_ui64 _ = None"

fun val_ui32 :: "any_value \<Rightarrow> uint32 ub" where
  "val_ui32 AZero = Some 0"
| "val_ui32 (AUi32 v) = Some v"
| "val_ui32 _ = None"

fun val_dbl :: "any_value \<Rightarrow> dbl ub" where
  "val_dbl AZero = Some (Fin 0)"
| "val_dbl (ADbl v) = Some v"
| "val_dbl _ = None"

fun val_chr :: "any_value \<Rightarrow> char ub" where
  "val_chr AZero = Some (CHR 0x00)"
| "val_chr (AChr v) = Some v"
| "val_chr _ = None"

fun val_pid :: "any_value \<Rightarrow> pid ub" where
  "val_pid AZero = Some 0"
| "val_pid (APid v) = Some v"
| "val_pid _ = None"

text \<open>The member at \<open>DATA_PTR(branch)\<close>.\<close>

definition DATA_PTR :: "ptql_branch \<Rightarrow> datum ub" where
  "DATA_PTR branch =
     (case (b_data branch, b_lookup branch) of
        (APtr d, Some lookup) \<Rightarrow> lk_offset lookup d
      | _ \<Rightarrow> None)"

fun datum_u64 :: "datum \<Rightarrow> uint64 ub" where
  "datum_u64 (U64 v) = Some v" | "datum_u64 _ = None"

fun datum_u32 :: "datum \<Rightarrow> uint32 ub" where
  "datum_u32 (U32 v) = Some v" | "datum_u32 _ = None"

fun datum_dbl :: "datum \<Rightarrow> dbl ub" where
  "datum_dbl (Dbl v) = Some v" | "datum_dbl _ = None"

fun datum_chr :: "datum \<Rightarrow> char ub" where
  "datum_chr (Chr v) = Some v" | "datum_chr _ = None"

fun datum_str :: "datum \<Rightarrow> string ub" where
  "datum_str (Str v) = Some v" | "datum_str _ = None"

text \<open>Calls through the function pointer.\<close>

fun call_ui64 :: "ptql_match \<Rightarrow> uint64 \<Rightarrow> uint64 \<Rightarrow> bool ub" where
  "call_ui64 (MUi64 f) h n = Some (f h n)" | "call_ui64 _ h n = None"

fun call_ui32 :: "ptql_match \<Rightarrow> uint32 \<Rightarrow> uint32 \<Rightarrow> bool ub" where
  "call_ui32 (MUi32 f) h n = Some (f h n)" | "call_ui32 _ h n = None"

fun call_dbl :: "ptql_match \<Rightarrow> dbl \<Rightarrow> dbl \<Rightarrow> bool ub" where
  "call_dbl (MDbl f) h n = Some (f h n)" | "call_dbl _ h n = None"

fun call_chr :: "ptql_match \<Rightarrow> char \<Rightarrow> char \<Rightarrow> bool ub" where
  "call_chr (MChr f) h n = Some (f h n)" | "call_chr _ h n = None"

fun call_str :: "ptql_match \<Rightarrow> uint32 \<Rightarrow> string \<Rightarrow> string \<Rightarrow> bool ub" where
  "call_str (MStr f) fl h n = Some (f fl h n)" | "call_str _ fl h n = None"

section \<open>Matching one attribute\<close>

definition ptql_str_match :: "ptql_os \<Rightarrow> ptql_branch \<Rightarrow> string \<Rightarrow> bool ub" where
  "ptql_str_match os branch val = do {
     needle \<leftarrow> val_str (b_value branch);
     case needle of
       None \<Rightarrow> Some False
     | Some str \<Rightarrow>
         if b_op_name branch = PTQL_OP_RE then
           (case os_re_impl os of Some re \<Rightarrow> Some (re val str) | None \<Rightarrow> Some False)
         else call_str (b_match branch) (b_op_flags branch) val str }"

definition ptql_branch_match :: "ptql_branch \<Rightarrow> bool ub" where
  "ptql_branch_match branch = do {
     lookup \<leftarrow> b_lookup branch;
     case lk_type lookup of
       PTQL_VALUE_TYPE_UI64 \<Rightarrow> do {
         d \<leftarrow> DATA_PTR branch; h \<leftarrow> datum_u64 d; n \<leftarrow> val_ui64 (b_value branch);
         call_ui64 (b_match branch) h n }
     | PTQL_VALUE_TYPE_UI32 \<Rightarrow> do {
         d \<leftarrow> DATA_PTR branch; h \<leftarrow> datum_u32 d; n \<leftarrow> val_ui32 (b_value branch);
         call_ui32 (b_match branch) h n }
     | PTQL_VALUE_TYPE_DBL \<Rightarrow> do {
         d \<leftarrow> DATA_PTR branch; h \<leftarrow> datum_dbl d; n \<leftarrow> val_dbl (b_value branch);
         call_dbl (b_match branch) h n }
     | PTQL_VALUE_TYPE_CHR \<Rightarrow> do {
         d \<leftarrow> DATA_PTR branch; h \<leftarrow> datum_chr d; n \<leftarrow> val_chr (b_value branch);
         call_chr (b_match branch) h n }
     | _ \<Rightarrow> do {
         needle \<leftarrow> val_str (b_value branch);
         case needle of
           None \<Rightarrow> Some False
         | Some n \<Rightarrow> do {
             d \<leftarrow> DATA_PTR branch; h \<leftarrow> datum_str d;
             call_str (b_match branch) (b_op_flags branch) h n } } }"

definition ptql_branch_match_ref :: "ptql_branch \<Rightarrow> ptql_branch \<Rightarrow> bool ub" where
  "ptql_branch_match_ref branch ref = do {
     lookup \<leftarrow> b_lookup branch;
     d \<leftarrow> DATA_PTR branch;
     r \<leftarrow> DATA_PTR ref;
     case lk_type lookup of
       PTQL_VALUE_TYPE_UI64 \<Rightarrow> do { h \<leftarrow> datum_u64 d; n \<leftarrow> datum_u64 r; call_ui64 (b_match branch) h n }
     | PTQL_VALUE_TYPE_UI32 \<Rightarrow> do { h \<leftarrow> datum_u32 d; n \<leftarrow> datum_u32 r; call_ui32 (b_match branch) h n }
     | PTQL_VALUE_TYPE_DBL \<Rightarrow> do { h \<leftarrow> datum_dbl d; n \<leftarrow> datum_dbl r; call_dbl (b_match branch) h n }
     | PTQL_VALUE_TYPE_CHR \<Rightarrow> do { h \<leftarrow> datum_chr d; n \<leftarrow> datum_chr r; call_chr (b_match branch) h n }
     | _ \<Rightarrow> do { h \<leftarrow> datum_str d; n \<leftarrow> datum_str r; call_str (b_match branch) (b_op_flags branch) h n } }"

section \<open>Attributes with a matcher of their own\<close>

text \<open>A status of the platform, or 0 and 1 (\<open>!SIGAR_OK\<close>) for a match and a mismatch.\<close>

definition matched_status :: "bool \<Rightarrow> status" where
  "matched_status m = (if m then SIGAR_OK else 1)"

fun args_glob :: "ptql_os \<Rightarrow> ptql_branch \<Rightarrow> string list \<Rightarrow> bool ub" where
  "args_glob os branch [] = Some False"
| "args_glob os branch (arg # args) = do {
     m \<leftarrow> ptql_str_match os branch arg;
     if m then Some True else args_glob os branch args }"

definition ptql_args_match :: "ptql_os \<Rightarrow> pid \<Rightarrow> ptql_branch \<Rightarrow> status ub" where
  "ptql_args_match os pid branch =
     (case os_proc_args os pid of
        Inl status \<Rightarrow> Some status
      | Inr args \<Rightarrow>
          if flag_set (b_op_flags branch) PTQL_OP_FLAG_GLOB
          then map_option matched_status (args_glob os branch args)
          else do {
            n \<leftarrow> val_ui32 (b_data branch);
            let num0 = sint n;
                num = (if num0 < 0 then sint (of_int (num0 + int (length args)) :: uint32) else num0)
            in if 0 \<le> num \<and> num < int (length args)
               then map_option matched_status (ptql_str_match os branch (args ! nat num))
               else Some (matched_status False) })"

text \<open>The callback \<open>proc_modules_match\<close> over the modules: it stops the walk on the first match
  of a \<open>*\<close> query and at the wanted index otherwise.\<close>

fun proc_modules_match :: "ptql_os \<Rightarrow> ptql_branch \<Rightarrow> uint32 \<Rightarrow> string list \<Rightarrow> bool ub" where
  "proc_modules_match os branch ix [] = Some False"
| "proc_modules_match os branch ix (name # names) =
     (if flag_set (b_op_flags branch) PTQL_OP_FLAG_GLOB then do {
        m \<leftarrow> ptql_str_match os branch name;
        if m then Some True else proc_modules_match os branch ix names }
      else do {
        want \<leftarrow> val_ui32 (b_data branch);
        if ix = want then ptql_str_match os branch name
        else proc_modules_match os branch (ix + 1) names })"

definition ptql_modules_match :: "ptql_os \<Rightarrow> pid \<Rightarrow> ptql_branch \<Rightarrow> status ub" where
  "ptql_modules_match os pid branch =
     (case os_proc_modules os pid of
        Inl status \<Rightarrow> Some status
      | Inr names \<Rightarrow> map_option matched_status (proc_modules_match os branch 0 names))"

fun sigar_proc_env_get_key :: "string \<Rightarrow> nat \<Rightarrow> (string \<times> string) list \<Rightarrow> string option" where
  "sigar_proc_env_get_key key klen [] = None"
| "sigar_proc_env_get_key key klen ((k, v) # env) =
     (if klen = length k \<and> strcmp key k = 0 then Some v else sigar_proc_env_get_key key klen env)"

definition ptql_env_match :: "ptql_os \<Rightarrow> pid \<Rightarrow> ptql_branch \<Rightarrow> status ub" where
  "ptql_env_match os pid branch =
     (case os_proc_env os pid of
        Inl status \<Rightarrow> Some status
      | Inr env \<Rightarrow>
          (case b_data branch of
             AStr key \<Rightarrow>
               (case sigar_proc_env_get_key key (b_data_size branch) env of
                  Some val \<Rightarrow> map_option matched_status (ptql_str_match os branch val)
                | None \<Rightarrow> Some (matched_status False))
           | _ \<Rightarrow> None))"

definition ptql_pid_match :: "pid \<Rightarrow> ptql_branch \<Rightarrow> status ub" where
  "ptql_pid_match pid branch = Some SIGAR_OK"

definition call_any_get :: "ptql_os \<Rightarrow> ptql_get \<Rightarrow> pid \<Rightarrow> ptql_branch \<Rightarrow> status ub" where
  "call_any_get os get pid branch =
     (case get of
        G_args_match \<Rightarrow> ptql_args_match os pid branch
      | G_modules_match \<Rightarrow> ptql_modules_match os pid branch
      | G_env_match \<Rightarrow> ptql_env_match os pid branch
      | G_pid_match \<Rightarrow> ptql_pid_match pid branch
      | _ \<Rightarrow> None)"

section \<open>Matching a query\<close>

text \<open>\<open>if (!branch->data.ptr)\<close> allocates the structure; afterwards the getter fills it. When
  the getter fails the structure's content is unspecified.\<close>

definition branch_alloc :: "ptql_lookup \<Rightarrow> ptql_branch \<Rightarrow> ptql_branch ub" where
  "branch_alloc lookup branch =
     (case b_data branch of
        AZero \<Rightarrow> Some (branch\<lparr>b_data_size := lk_data_size lookup, b_data := AAlloc\<rparr>)
      | APtr d \<Rightarrow> Some branch
      | AAlloc \<Rightarrow> Some branch
      | _ \<Rightarrow> None)"

datatype step_result = Goto | Return status

text \<open>The process to look at: the parent for a \<open>P\<close> branch.\<close>

definition match_ppid :: "ptql_os \<Rightarrow> pid \<Rightarrow> uint32 \<Rightarrow> (status + pid) ub" where
  "match_ppid os query_pid op_flags =
     (if flag_set op_flags PTQL_OP_FLAG_PARENT then
        (case os_get os G_proc_state query_pid of
           Inl status \<Rightarrow> Some (Inl status)
         | Inr (DState state) \<Rightarrow> Some (Inr (ps_ppid state))
         | Inr _ \<Rightarrow> None)
      else Some (Inr query_pid))"

text \<open>One round of the loop of \<open>sigar_ptql_query_match\<close>: go on with the next branch, or return.\<close>

definition ptql_match_step ::
  "ptql_os \<Rightarrow> ptql_branch list \<Rightarrow> pid \<Rightarrow> nat \<Rightarrow> (step_result \<times> ptql_branch list) ub" where
  "ptql_match_step os branches query_pid i = do {
     branch \<leftarrow> cell branches i;
     lookup \<leftarrow> b_lookup branch;
     target \<leftarrow> match_ppid os query_pid (b_op_flags branch);
     case target of
       Inl status \<Rightarrow> Some (Return status, branches)
     | Inr pid \<Rightarrow>
         if lk_type lookup = PTQL_VALUE_TYPE_ANY then do {
           status \<leftarrow> call_any_get os (lk_get lookup) pid branch;
           Some (if status = SIGAR_OK then Goto else Return 1, branches) }
         else do {
           branch1 \<leftarrow> branch_alloc lookup branch;
           case os_get os (lk_get lookup) pid of
             Inl status \<Rightarrow> Some (Return status, branches[i := branch1\<lparr>b_data := AAlloc\<rparr>])
           | Inr d \<Rightarrow> do {
               let branch2 = branch1\<lparr>b_data := APtr d\<rparr>;
                   branches2 = branches[i := branch2]
               in do {
                 matched \<leftarrow>
                   (if flag_set (b_op_flags branch2) PTQL_OP_FLAG_REF then do {
                      ix \<leftarrow> val_ui32 (b_value branch2);
                      ref \<leftarrow> cell branches2 (unat ix);
                      ptql_branch_match_ref branch2 ref }
                    else if lk_type lookup = PTQL_VALUE_TYPE_STR then do {
                      v \<leftarrow> DATA_PTR branch2; str \<leftarrow> datum_str v;
                      ptql_str_match os branch2 str }
                    else ptql_branch_match branch2);
                 Some (if matched then Goto else Return 1, branches2) } } } }"

fun ptql_match_loop ::
  "ptql_os \<Rightarrow> ptql_branch list \<Rightarrow> pid \<Rightarrow> nat list \<Rightarrow> (status \<times> ptql_branch list) ub" where
  "ptql_match_loop os branches query_pid [] = Some (SIGAR_OK, branches)"
| "ptql_match_loop os branches query_pid (i # is) =
     (case ptql_match_step os branches query_pid i of
        None \<Rightarrow> None
      | Some (Return status, branches1) \<Rightarrow> Some (status, branches1)
      | Some (Goto, branches1) \<Rightarrow> ptql_match_loop os branches1 query_pid is)"

definition sigar_ptql_query_match ::
  "ptql_os \<Rightarrow> ptql_branch list \<Rightarrow> pid \<Rightarrow> (status \<times> ptql_branch list) ub" where
  "sigar_ptql_query_match os branches query_pid =
     ptql_match_loop os branches query_pid [0..<length branches]"

section \<open>Selecting processes by pid\<close>

text \<open>\<open>sigar_sudo_file2str\<close>: \<open>fgets\<close> keeps at most \<open>buflen - 1\<close> characters of the first line.\<close>

fun fgets_line :: "nat \<Rightarrow> string \<Rightarrow> string" where
  "fgets_line n [] = []"
| "fgets_line n (c # cs) =
     (if n = 0 then [] else if c = CHR 0x0A then [c] else c # fgets_line (n - 1) cs)"

definition sigar_sudo_file2str :: "ptql_os \<Rightarrow> string \<Rightarrow> nat \<Rightarrow> status \<times> string" where
  "sigar_sudo_file2str os fname buflen =
     (case os_stat os fname of
        Inl errno \<Rightarrow> (errno, [])
      | Inr st_size \<Rightarrow>
          if int buflen < st_size then (ENOMEM, [])
          else (case os_popen os (take (buflen - 1) (''sudo cat '' @ fname)) of
                  Inl errno \<Rightarrow> (errno, [])
                | Inr out \<Rightarrow> if out = [] then (- 1, [])
                             else (SIGAR_OK, cstring (fgets_line (buflen - 1) out))))"

definition ptql_pid_port_get :: "ptql_os \<Rightarrow> ptql_branch \<Rightarrow> (status + pid) ub" where
  "ptql_pid_port_get os branch = do {
     port \<leftarrow> val_ui32 (b_data branch);
     Some (os_proc_port os (if b_flags branch = PTQL_PID_UDP_PORT then SIGAR_NETCONN_UDP else SIGAR_NETCONN_TCP)
             (ucast port)) }"

abbreviation (input) ERANGE :: status where "ERANGE \<equiv> 34"

text \<open>\<open>ptql_pid_get\<close>: after \<open>SIGAR_CLEAR_ERRNO\<close>, a file that holds no number leaves \<open>errno\<close> 0, and
  returning it is returning \<open>SIGAR_OK\<close> with the pid 0 that \<open>strtoull\<close> gave.\<close>

definition ptql_pid_get :: "ptql_os \<Rightarrow> ptql_branch \<Rightarrow> (status + pid) ub" where
  "ptql_pid_get os branch =
     (if b_flags branch = PTQL_PID_FILE \<or> b_flags branch = PTQL_PID_SUDO_FILE then
        (case b_data branch of
           AStr fname \<Rightarrow>
             (let (status, buffer) =
                    (if b_flags branch = PTQL_PID_FILE then sigar_file2str (os_file os) fname SIGAR_PATH_MAX
                     else sigar_sudo_file2str os fname SIGAR_PATH_MAX)
              in if status \<noteq> SIGAR_OK then Some (Inl status)
                 else (let (v, ptr, erange) = strtoull buffer
                       in if erange then Some (Inl ERANGE) else Some (Inr (ucast v))))
         | _ \<Rightarrow> None)
      else if b_flags branch = PTQL_PID_SERVICE_NAME then Some (Inl SIGAR_ENOTIMPL)
      else if b_flags branch = PTQL_PID_UDP_PORT \<or> b_flags branch = PTQL_PID_TCP_PORT
      then ptql_pid_port_get os branch
      else map_option Inr (val_pid (b_data branch)))"

definition IS_PID_SERVICE_QUERY :: "ptql_branch \<Rightarrow> bool" where
  "IS_PID_SERVICE_QUERY branch = (PTQL_PID_SERVICE_NAME \<le> b_flags branch)"

text \<open>A pid is signed, so the conversion to the operands of the 64-bit table extends its sign.\<close>

definition pid_branch_match :: "ptql_branch \<Rightarrow> pid \<Rightarrow> pid \<Rightarrow> bool ub" where
  "pid_branch_match branch pid match_pid = do {
     f \<leftarrow> cell ptql_op_ui64 (op_ix (b_op_name branch));
     Some (f (scast pid) (scast match_pid)) }"

fun pid_filter_loop :: "ptql_branch \<Rightarrow> pid \<Rightarrow> pid list \<Rightarrow> pid clist \<Rightarrow> pid clist ub" where
  "pid_filter_loop branch match_pid [] proclist = Some proclist"
| "pid_filter_loop branch match_pid (pid # pids) proclist = do {
     m \<leftarrow> pid_branch_match branch pid match_pid;
     proclist1 \<leftarrow> (if m then clist_put sigar_proc_list_grow proclist pid else Some proclist);
     pid_filter_loop branch match_pid pids proclist1 }"

definition ptql_pid_list_get :: "ptql_os \<Rightarrow> ptql_branch \<Rightarrow> pid clist \<Rightarrow> (status \<times> pid clist) ub" where
  "ptql_pid_list_get os branch proclist =
     (if IS_PID_SERVICE_QUERY branch
         \<and> (PTQL_PID_SERVICE_NAME < b_flags branch \<or> b_op_name branch \<noteq> PTQL_OP_EQ)
      then Some (SIGAR_OK, proclist)
      else do {
        r \<leftarrow> ptql_pid_get os branch;
        case r of
          Inl status \<Rightarrow> Some (SIGAR_OK, proclist)
        | Inr match_pid \<Rightarrow>
            (case os_proc_list os of
               Inl status \<Rightarrow> Some (status, proclist)
             | Inr pids \<Rightarrow> do {
                 proclist1 \<leftarrow> pid_filter_loop branch match_pid pids proclist;
                 Some (SIGAR_OK, proclist1) }) })"

fun pid_branches_loop :: "ptql_os \<Rightarrow> ptql_branch list \<Rightarrow> pid clist option \<Rightarrow> (status \<times> pid clist option) ub" where
  "pid_branches_loop os [] proclist = Some (SIGAR_OK, proclist)"
| "pid_branches_loop os (branch # branches) proclist =
     (if flag_set (b_op_flags branch) PTQL_OP_FLAG_PID then
        (case ptql_pid_list_get os branch
                (case proclist of None \<Rightarrow> sigar_proc_list_create | Some l \<Rightarrow> l) of
           None \<Rightarrow> None
         | Some (status, l) \<Rightarrow>
             if status \<noteq> SIGAR_OK then Some (status, None)
             else pid_branches_loop os branches (Some l))
      else pid_branches_loop os branches proclist)"

definition ptql_proc_list_get :: "ptql_os \<Rightarrow> ptql_branch list \<Rightarrow> (status + pid list) ub" where
  "ptql_proc_list_get os branches = do {
     (status, proclist) \<leftarrow> pid_branches_loop os branches None;
     if status \<noteq> SIGAR_OK then Some (Inl status)
     else (case proclist of
             Some l \<Rightarrow> Some (Inr (clist_elems l))
           | None \<Rightarrow> Some (os_proc_list os)) }"

section \<open>The searches\<close>

fun find_process_loop ::
  "ptql_os \<Rightarrow> ptql_branch list \<Rightarrow> pid list \<Rightarrow> nat \<Rightarrow> pid option \<Rightarrow> (status \<times> nat \<times> pid option \<times> ptql_branch list) ub" where
  "find_process_loop os branches [] matches pid = Some (SIGAR_OK, matches, pid, branches)"
| "find_process_loop os branches (p # ps) matches pid =
     (case sigar_ptql_query_match os branches p of
        None \<Rightarrow> None
      | Some (query_status, branches1) \<Rightarrow>
          if query_status = SIGAR_OK then find_process_loop os branches1 ps (Suc matches) (Some p)
          else if query_status = SIGAR_ENOTIMPL then Some (query_status, matches, pid, branches1)
          else find_process_loop os branches1 ps matches pid)"

text \<open>The status, the pid written to \<open>*pid\<close> if any, the error text set, and the query.\<close>

definition sigar_ptql_query_find_process ::
  "ptql_os \<Rightarrow> ptql_branch list \<Rightarrow> (status \<times> pid option \<times> string option \<times> ptql_branch list) ub" where
  "sigar_ptql_query_find_process os branches = do {
     r \<leftarrow> ptql_proc_list_get os branches;
     case r of
       Inl status \<Rightarrow> Some (status, None, None, branches)
     | Inr pids \<Rightarrow> do {
         (status, matches, pid, branches1) \<leftarrow> find_process_loop os branches pids 0 None;
         Some (if status \<noteq> SIGAR_OK then (status, pid, None, branches1)
               else if matches = 1 then (SIGAR_OK, pid, None, branches1)
               else if matches = 0 then (- 1, pid, Some ''Query did not match any processes'', branches1)
               else (- 1, pid, Some (''Query matched multiple processes ('' @ dec_digits matches @ '')''), branches1)) } }"

fun query_find_loop ::
  "ptql_os \<Rightarrow> ptql_branch list \<Rightarrow> pid list \<Rightarrow> pid clist \<Rightarrow> (status \<times> pid clist \<times> ptql_branch list) ub" where
  "query_find_loop os branches [] proclist = Some (SIGAR_OK, proclist, branches)"
| "query_find_loop os branches (p # ps) proclist =
     (case sigar_ptql_query_match os branches p of
        None \<Rightarrow> None
      | Some (query_status, branches1) \<Rightarrow>
          if query_status = SIGAR_OK then
            (case clist_put sigar_proc_list_grow proclist p of
               None \<Rightarrow> None
             | Some proclist1 \<Rightarrow> query_find_loop os branches1 ps proclist1)
          else if query_status = SIGAR_ENOTIMPL then Some (query_status, proclist, branches1)
          else query_find_loop os branches1 ps proclist)"

definition sigar_ptql_query_find ::
  "ptql_os \<Rightarrow> ptql_branch list \<Rightarrow> (status \<times> pid clist \<times> ptql_branch list) ub" where
  "sigar_ptql_query_find os branches = do {
     r \<leftarrow> ptql_proc_list_get os branches;
     case r of
       Inl status \<Rightarrow> Some (status, \<lparr>l_number = 0, l_size = 0, l_data = []\<rparr>, branches)
     | Inr pids \<Rightarrow> do {
         (status, proclist, branches1) \<leftarrow> query_find_loop os branches pids sigar_proc_list_create;
         Some (if status \<noteq> SIGAR_OK then (status, sigar_proc_list_destroy proclist, branches1)
               else (SIGAR_OK, proclist, branches1)) } }"

end
