(* ===== verification/Ptql_Spec.thy ===== *)
theory Ptql_Spec
  imports Ptql_Match "HOL-Library.Sublist"
begin

text \<open>
  What a process query means, stated without pointers, unions, function tables or cached
  structures, and the proof that \<open>sigar_ptql_query_match\<close>, \<open>sigar_ptql_query_find\<close> and
  \<open>sigar_ptql_query_find_process\<close> compute it.

  A branch compares an attribute of the process (or of its parent) with a value, or with an
  attribute an earlier branch read; a process matches when every branch holds. The
  conditions on a query are those under which C gives the comparison a meaning at all:
  references between branches of the same type, and no environment variable where a number
  is expected. Query creation guarantees them for every query without variables.
\<close>

section \<open>The meaning of the operators\<close>

definition op_holds :: "ptql_op_name \<Rightarrow> 'a::linorder \<Rightarrow> 'a \<Rightarrow> bool" where
  "op_holds op h n =
     (case op of
        PTQL_OP_EQ \<Rightarrow> h = n | PTQL_OP_NE \<Rightarrow> h \<noteq> n | PTQL_OP_GT \<Rightarrow> n < h
      | PTQL_OP_GE \<Rightarrow> n \<le> h | PTQL_OP_LT \<Rightarrow> h < n | PTQL_OP_LE \<Rightarrow> h \<le> n | _ \<Rightarrow> False)"

definition dbl_holds :: "ptql_op_name \<Rightarrow> dbl \<Rightarrow> dbl \<Rightarrow> bool" where
  "dbl_holds op h n =
     (case op of
        PTQL_OP_EQ \<Rightarrow> dbl_eq h n | PTQL_OP_NE \<Rightarrow> \<not> dbl_eq h n | PTQL_OP_GT \<Rightarrow> dbl_lt n h
      | PTQL_OP_GE \<Rightarrow> dbl_le n h | PTQL_OP_LT \<Rightarrow> dbl_lt h n | PTQL_OP_LE \<Rightarrow> dbl_le h n | _ \<Rightarrow> False)"

definition plain_str_holds :: "uint32 \<Rightarrow> ptql_op_name \<Rightarrow> string \<Rightarrow> string \<Rightarrow> bool" where
  "plain_str_holds fl op haystack needle =
     (let h = fold_case fl haystack; n = fold_case fl needle in
      case op of
        PTQL_OP_EQ \<Rightarrow> h = n | PTQL_OP_NE \<Rightarrow> h \<noteq> n | PTQL_OP_GT \<Rightarrow> 0 < strcmp h n
      | PTQL_OP_GE \<Rightarrow> 0 \<le> strcmp h n | PTQL_OP_LT \<Rightarrow> strcmp h n < 0 | PTQL_OP_LE \<Rightarrow> strcmp h n \<le> 0
      | PTQL_OP_EW \<Rightarrow> suffix n h | PTQL_OP_SW \<Rightarrow> prefix n h | PTQL_OP_CT \<Rightarrow> sublist n h | _ \<Rightarrow> False)"

definition str_holds :: "ptql_os \<Rightarrow> uint32 \<Rightarrow> ptql_op_name \<Rightarrow> string \<Rightarrow> string \<Rightarrow> bool" where
  "str_holds os fl op h n =
     (if op = PTQL_OP_RE then (case os_re_impl os of Some re \<Rightarrow> re h n | None \<Rightarrow> False)
      else plain_str_holds fl op h n)"

fun datum_holds :: "ptql_os \<Rightarrow> uint32 \<Rightarrow> ptql_op_name \<Rightarrow> datum \<Rightarrow> datum \<Rightarrow> bool" where
  "datum_holds os fl op (U64 h) (U64 n) = op_holds op h n"
| "datum_holds os fl op (U32 h) (U32 n) = op_holds op h n"
| "datum_holds os fl op (Dbl h) (Dbl n) = dbl_holds op h n"
| "datum_holds os fl op (Chr h) (Chr n) = op_holds op (schar h) (schar n)"
| "datum_holds os fl op (Str h) (Str n) = str_holds os fl op h n"
| "datum_holds os fl op _ _ = False"

lemma schar_inj: "schar c = schar d \<longleftrightarrow> c = d"
proof -
  have "(of_char c :: int) = of_char d \<longleftrightarrow> c = d" by simp
  moreover have "(of_char c :: int) < 256" "(0 :: int) \<le> of_char c" "(of_char d :: int) < 256" "(0 :: int) \<le> of_char d"
    using of_char_lt_256 [of c] of_char_lt_256 [of d] by (metis of_nat_of_char of_nat_less_numeral_iff of_nat_0_le_iff)+
  ultimately show ?thesis by (auto simp: schar_def Let_def split: if_splits)
qed

lemma ui64_table: "op_ix op < 6 \<Longrightarrow> (ptql_op_ui64 ! op_ix op) h n = op_holds op h n"
  by (cases op) (simp_all add: ptql_op_defs op_holds_def)

lemma ui32_table: "op_ix op < 6 \<Longrightarrow> (ptql_op_ui32 ! op_ix op) h n = op_holds op h n"
  by (cases op) (simp_all add: ptql_op_defs op_holds_def)

lemma dbl_table: "op_ix op < 6 \<Longrightarrow> (ptql_op_dbl ! op_ix op) h n = dbl_holds op h n"
  by (cases op) (simp_all add: ptql_op_defs dbl_holds_def)

lemma chr_table: "op_ix op < 6 \<Longrightarrow> (ptql_op_chr ! op_ix op) h n = op_holds op (schar h) (schar n)"
  by (cases op) (simp_all add: ptql_op_defs op_holds_def schar_inj)

lemma str_table:
  assumes "op_ix op < 10"
  shows "(ptql_op_str ! op_ix op) fl h n = plain_str_holds fl op h n"
proof -
  have e: "ptql_op_str_eq fl h n = (fold_case fl h = fold_case fl n)"
    by (simp add: ptql_op_str_eq_def branch_strEQ_def strcmp_fold_case)
  have s: "ptql_op_str_sw fl h n = prefix (fold_case fl n) (fold_case fl h)"
    by (simp add: str_sw_iff prefix_def)
  have w: "ptql_op_str_ew fl h n = suffix (fold_case fl n) (fold_case fl h)"
    by (simp add: str_ew_iff suffix_def)
  have c: "ptql_op_str_ct fl h n = sublist (fold_case fl n) (fold_case fl h)"
    by (simp add: str_ct_iff sublist_def)
  show ?thesis
    using assms
    by (cases op) (simp_all add: ptql_op_str_def e s w c plain_str_holds_def ptql_op_str_ne_def
        branch_strEQ_def ptql_op_str_gt_def ptql_op_str_ge_def ptql_op_str_lt_def ptql_op_str_le_def
        ptql_op_str_re_def strcmp_fold_case)
qed

text \<open>the tables of comparison functions are right. The function stored at an operator's
  index computes that operator: the order of the numbers (unsigned for the 64- and 32-bit
  tables, signed for characters), the floating-point order with its unordered nan, and for
  strings equality, \<open>strcmp\<close> order, suffix, prefix and substring, all up to case when the
  branch asks for it.\<close>

theorem ptql_op_tables_correct:
  assumes "op \<noteq> PTQL_OP_MAX"
  shows "(ptql_op_str ! op_ix op) fl h n = plain_str_holds fl op h n
    \<and> (op_ix op \<le> op_ix PTQL_OP_MAX_NSTR \<longrightarrow>
         (\<forall>x y. (ptql_op_ui64 ! op_ix op) x y = op_holds op x y)
         \<and> (\<forall>x y. (ptql_op_ui32 ! op_ix op) x y = op_holds op x y)
         \<and> (\<forall>x y. (ptql_op_dbl ! op_ix op) x y = dbl_holds op x y)
         \<and> (\<forall>x y. (ptql_op_chr ! op_ix op) x y = op_holds op (schar x) (schar y)))"
  using op_ix_less [OF assms]
  by (simp add: str_table ui64_table ui32_table dbl_table chr_table PTQL_OP_MAX_NSTR_def)

theorem ptql_op_tables_correct_witness:
  "(ptql_op_str ! op_ix PTQL_OP_SW) PTQL_OP_FLAG_ICASE ''JavaVM'' ''java'' = True
   \<and> (ptql_op_ui64 ! op_ix PTQL_OP_LT) 3 5 = True"
proof -
  have "plain_str_holds PTQL_OP_FLAG_ICASE PTQL_OP_SW ''JavaVM'' ''java''" by code_simp
  with ptql_op_tables_correct [of PTQL_OP_SW PTQL_OP_FLAG_ICASE "''JavaVM''" "''java''"]
    ptql_op_tables_correct [of PTQL_OP_LT]
  show ?thesis by (simp add: PTQL_OP_MAX_NSTR_def op_holds_def)
qed

section \<open>The meaning of a branch\<close>

text \<open>The platform fills the structure a getter is declared for, an error is not
  \<open>SIGAR_OK\<close>, and the lists can be indexed by \<open>int\<close>.\<close>

definition os_ok :: "ptql_os \<Rightarrow> bool" where
  "os_ok os \<longleftrightarrow>
     (\<forall>g pid d. os_get os g pid = Inr d \<longrightarrow> get_struct g d)
     \<and> (\<forall>g pid. os_get os g pid \<noteq> Inl SIGAR_OK) \<and> (\<forall>pid. os_proc_args os pid \<noteq> Inl SIGAR_OK)
     \<and> (\<forall>pid. os_proc_modules os pid \<noteq> Inl SIGAR_OK) \<and> (\<forall>pid. os_proc_env os pid \<noteq> Inl SIGAR_OK)
     \<and> os_proc_list os \<noteq> Inl SIGAR_OK
     \<and> (\<forall>pid args. os_proc_args os pid = Inr args \<longrightarrow> length args < 2 ^ 31)
     \<and> (\<forall>pid names. os_proc_modules os pid = Inr names \<longrightarrow> length names < 2 ^ 31)"

definition target_pid :: "ptql_os \<Rightarrow> pid \<Rightarrow> uint32 \<Rightarrow> status + pid" where
  "target_pid os pid fl =
     (if flag_set fl PTQL_OP_FLAG_PARENT then
        (case os_get os G_proc_state pid of
           Inl st \<Rightarrow> Inl st
         | Inr d \<Rightarrow> Inr (case d of DState state \<Rightarrow> ps_ppid state | _ \<Rightarrow> 0))
      else Inr pid)"

definition attr_of :: "ptql_os \<Rightarrow> pid \<Rightarrow> ptql_lookup \<Rightarrow> status + datum" where
  "attr_of os pid lk =
     (case os_get os (lk_get lk) pid of Inl st \<Rightarrow> Inl st | Inr d \<Rightarrow> Inr (the (lk_offset lk d)))"

definition value_datum :: "ptql_value_type \<Rightarrow> any_value \<Rightarrow> datum option" where
  "value_datum ty v =
     (case ty of
        PTQL_VALUE_TYPE_UI64 \<Rightarrow> map_option U64 (val_ui64 v)
      | PTQL_VALUE_TYPE_UI32 \<Rightarrow> map_option U32 (val_ui32 v)
      | PTQL_VALUE_TYPE_DBL \<Rightarrow> map_option Dbl (val_dbl v)
      | PTQL_VALUE_TYPE_CHR \<Rightarrow> map_option Chr (val_chr v)
      | _ \<Rightarrow> (case v of AStr s \<Rightarrow> Some (Str s) | _ \<Rightarrow> None))"

definition lookup_of :: "ptql_branch \<Rightarrow> ptql_lookup" where
  "lookup_of b = the (b_lookup b)"

abbreviation any_branch :: "ptql_branch \<Rightarrow> bool" where
  "any_branch b \<equiv> lk_type (lookup_of b) = PTQL_VALUE_TYPE_ANY"

abbreviation ref_branch :: "ptql_branch \<Rightarrow> bool" where
  "ref_branch b \<equiv> flag_set (b_op_flags b) PTQL_OP_FLAG_REF"

definition ref_index :: "ptql_branch \<Rightarrow> nat" where
  "ref_index b = (case b_value b of AUi32 w \<Rightarrow> unat w | _ \<Rightarrow> 0)"

definition branch_attr :: "ptql_os \<Rightarrow> pid \<Rightarrow> ptql_branch \<Rightarrow> status + datum" where
  "branch_attr os pid b =
     (case target_pid os pid (b_op_flags b) of Inl st \<Rightarrow> Inl st | Inr p \<Rightarrow> attr_of os p (lookup_of b))"

definition needle :: "ptql_os \<Rightarrow> ptql_branch list \<Rightarrow> pid \<Rightarrow> ptql_branch \<Rightarrow> datum option" where
  "needle os bs pid b =
     (if ref_branch b
      then (case branch_attr os pid (bs ! ref_index b) of Inl _ \<Rightarrow> None | Inr d \<Rightarrow> Some d)
      else value_datum (lk_type (lookup_of b)) (b_value b))"

definition text_holds :: "ptql_os \<Rightarrow> ptql_branch \<Rightarrow> string \<Rightarrow> bool" where
  "text_holds os b s =
     (case b_value b of AStr n \<Rightarrow> str_holds os (b_op_flags b) (b_op_name b) s n | _ \<Rightarrow> False)"

definition data_index :: "ptql_branch \<Rightarrow> uint32" where
  "data_index b = (case b_data b of AUi32 w \<Rightarrow> w | _ \<Rightarrow> 0)"

definition args_hold :: "ptql_os \<Rightarrow> pid \<Rightarrow> ptql_branch \<Rightarrow> bool" where
  "args_hold os pid b =
     (case os_proc_args os pid of
        Inl _ \<Rightarrow> False
      | Inr args \<Rightarrow>
          if flag_set (b_op_flags b) PTQL_OP_FLAG_GLOB then list_ex (text_holds os b) args
          else (let n = sint (data_index b); k = (if n < 0 then n + int (length args) else n)
                in 0 \<le> k \<and> k < int (length args) \<and> text_holds os b (args ! nat k)))"

definition modules_hold :: "ptql_os \<Rightarrow> pid \<Rightarrow> ptql_branch \<Rightarrow> bool" where
  "modules_hold os pid b =
     (case os_proc_modules os pid of
        Inl _ \<Rightarrow> False
      | Inr names \<Rightarrow>
          if flag_set (b_op_flags b) PTQL_OP_FLAG_GLOB then list_ex (text_holds os b) names
          else unat (data_index b) < length names \<and> text_holds os b (names ! unat (data_index b)))"

definition env_holds :: "ptql_os \<Rightarrow> pid \<Rightarrow> ptql_branch \<Rightarrow> bool" where
  "env_holds os pid b =
     (case (os_proc_env os pid, b_data b) of
        (Inr env, AStr key) \<Rightarrow> (case map_of env key of Some v \<Rightarrow> text_holds os b v | None \<Rightarrow> False)
      | _ \<Rightarrow> False)"

text \<open>\<open>Pid\<close>, \<open>Port\<close> and \<open>Service\<close> branches have filtered the process list already.\<close>

definition any_holds :: "ptql_os \<Rightarrow> pid \<Rightarrow> ptql_branch \<Rightarrow> bool" where
  "any_holds os pid b =
     (case lk_get (lookup_of b) of
        G_args_match \<Rightarrow> args_hold os pid b
      | G_modules_match \<Rightarrow> modules_hold os pid b
      | G_env_match \<Rightarrow> env_holds os pid b
      | _ \<Rightarrow> True)"

definition branch_spec :: "ptql_os \<Rightarrow> ptql_branch list \<Rightarrow> pid \<Rightarrow> ptql_branch \<Rightarrow> step_result" where
  "branch_spec os bs pid b =
     (case target_pid os pid (b_op_flags b) of
        Inl st \<Rightarrow> Return st
      | Inr p \<Rightarrow>
          if any_branch b then (if any_holds os p b then Goto else Return 1)
          else (case attr_of os p (lookup_of b) of
                  Inl st \<Rightarrow> Return st
                | Inr h \<Rightarrow>
                    (case needle os bs pid b of
                       None \<Rightarrow> Return 1
                     | Some n \<Rightarrow> if datum_holds os (b_op_flags b) (b_op_name b) h n then Goto else Return 1)))"

text \<open>The first branch that does not hold decides the status.\<close>

fun first_return :: "step_result list \<Rightarrow> status" where
  "first_return [] = SIGAR_OK"
| "first_return (Goto # rs) = first_return rs"
| "first_return (Return st # rs) = st"

definition query_spec :: "ptql_os \<Rightarrow> ptql_branch list \<Rightarrow> pid \<Rightarrow> status" where
  "query_spec os bs pid = first_return (map (branch_spec os bs pid) bs)"

section \<open>Queries with a meaning\<close>

definition value_ok :: "ptql_value_type \<Rightarrow> any_value \<Rightarrow> bool" where
  "value_ok ty v \<longleftrightarrow> plain_value ty v \<or> v = AZero"

definition sane_branch :: "ptql_branch list \<Rightarrow> nat \<Rightarrow> bool" where
  "sane_branch bs i \<longleftrightarrow>
     (let b = bs ! i; lk = lookup_of b in
      b_lookup b = Some lk \<and> lookup_ok lk \<and> match_typed (lk_type lk) (b_op_name b) (b_match b)
      \<and> (if lk_type lk = PTQL_VALUE_TYPE_ANY then data_shape lk b \<and> \<not> ref_branch b \<and> value_ok (lk_type lk) (b_value b)
         else (b_data b = AZero \<or> b_data b = AAlloc \<or> (\<exists>d. b_data b = APtr d))
            \<and> (if ref_branch b then
                 (\<exists>w. b_value b = AUi32 w) \<and> ref_index b < i
                 \<and> lk_type (lookup_of (bs ! ref_index b)) = lk_type lk \<and> b_op_name b \<noteq> PTQL_OP_RE
               else value_ok (lk_type lk) (b_value b))))"

definition query_sane :: "ptql_branch list \<Rightarrow> bool" where
  "query_sane bs \<longleftrightarrow> (\<forall>i < length bs. sane_branch bs i)"

text \<open>What matching never changes in a branch: everything but the structure it caches.\<close>

definition strip :: "ptql_branch \<Rightarrow> ptql_branch" where
  "strip b = (if any_branch b then b else b\<lparr>b_data := AZero, b_data_size := 0\<rparr>)"

lemma strip_fields [simp]:
  "b_lookup (strip b) = b_lookup b" "b_op_flags (strip b) = b_op_flags b" "b_op_name (strip b) = b_op_name b"
  "b_match (strip b) = b_match b" "b_value (strip b) = b_value b" "b_flags (strip b) = b_flags b"
  "lookup_of (strip b) = lookup_of b"
  by (simp_all add: strip_def lookup_of_def)

section \<open>Refinement\<close>

lemma match_ppid_target: "os_ok os \<Longrightarrow> match_ppid os pid fl = Some (target_pid os pid fl)"
proof -
  assume ok: "os_ok os"
  have "\<exists>r. d = DState r" if "os_get os G_proc_state pid = Inr d" for d
    using ok that unfolding os_ok_def by (auto simp: get_struct_cases(8) [symmetric])
  then show ?thesis by (cases "os_get os G_proc_state pid") (auto simp: match_ppid_def target_pid_def)
qed

lemma str_match_ok:
  assumes "match_typed ty (b_op_name b) (b_match b)" and "4 \<le> type_ix ty" and "value_ok ty (b_value b)"
  shows "ptql_str_match os b s = Some (text_holds os b s)"
proof -
  have m: "b_match b = MStr (ptql_op_str ! op_ix (b_op_name b))" "op_ix (b_op_name b) < 10"
    using assms(1,2) by (cases ty; simp add: match_typed_def)+
  have "b_value b = AZero \<or> (\<exists>n. b_value b = AStr n)"
    using assms(2,3) by (cases ty) (auto simp: value_ok_def plain_value_def)
  then show ?thesis
    using m by (auto simp: ptql_str_match_def text_holds_def str_holds_def str_table split: option.split)
qed

lemma args_glob_ok:
  assumes "\<And>a. ptql_str_match os b a = Some (text_holds os b a)"
  shows "args_glob os b args = Some (list_ex (text_holds os b) args)"
  by (induction args) (simp_all add: assms)

lemma modules_ok:
  assumes "\<And>a. ptql_str_match os b a = Some (text_holds os b a)"
  shows "flag_set (b_op_flags b) PTQL_OP_FLAG_GLOB \<Longrightarrow>
           proc_modules_match os b ix names = Some (list_ex (text_holds os b) names)"
    and "\<not> flag_set (b_op_flags b) PTQL_OP_FLAG_GLOB \<Longrightarrow> b_data b = AUi32 w \<Longrightarrow> unat ix \<le> unat w \<Longrightarrow>
           unat ix + length names < 2 ^ 32 \<Longrightarrow>
           proc_modules_match os b ix names =
             Some (unat w - unat ix < length names \<and> text_holds os b (names ! (unat w - unat ix)))"
proof -
  show "flag_set (b_op_flags b) PTQL_OP_FLAG_GLOB \<Longrightarrow>
           proc_modules_match os b ix names = Some (list_ex (text_holds os b) names)"
    by (induction names arbitrary: ix) (simp_all add: assms)
  show "\<not> flag_set (b_op_flags b) PTQL_OP_FLAG_GLOB \<Longrightarrow> b_data b = AUi32 w \<Longrightarrow> unat ix \<le> unat w \<Longrightarrow>
           unat ix + length names < 2 ^ 32 \<Longrightarrow>
           proc_modules_match os b ix names =
             Some (unat w - unat ix < length names \<and> text_holds os b (names ! (unat w - unat ix)))"
  proof (induction names arbitrary: ix)
    case Nil
    then show ?case by simp
  next
    case (Cons x xs)
    show ?case
    proof (cases "ix = w")
      case True
      then show ?thesis using Cons.prems by (simp add: assms)
    next
      case False
      then have "unat ix \<noteq> unat w" by (metis unsigned_word_eqI)
      with Cons.prems(3) have lt: "unat ix < unat w" by simp
      have nx: "unat (ix + 1) = Suc (unat ix)" using Cons.prems(4) by (simp add: unat_word_ariths)
      have "unat w - unat ix = Suc (unat w - Suc (unat ix))" using lt by simp
      with Cons.IH [of "ix + 1"] Cons.prems False nx lt show ?thesis by (simp add: assms)
    qed
  qed
qed

lemma env_key_ok: "klen = length key \<Longrightarrow> sigar_proc_env_get_key key klen env = map_of env key"
  by (induction key klen env rule: sigar_proc_env_get_key.induct) auto

lemma args_index:
  fixes w :: uint32
  assumes "n < 2 ^ 31"
  shows "(if sint w < 0 then sint (of_int (sint w + int n) :: uint32) else sint w) =
         (if sint w < 0 then sint w + int n else sint w)"
proof -
  have "sint w \<ge> - (2 ^ 31)" using sint_greater_eq [of w] by simp
  with assms have "sint w < 0 \<Longrightarrow> signed_take_bit 31 (sint w + int n) = sint w + int n"
    by (intro signed_take_bit_int_eq_self) auto
  moreover have "sint (of_int (sint w + int n) :: uint32) = signed_take_bit 31 (sint w + int n)"
    by (subst sint_sbintrunc') simp
  ultimately show ?thesis by presburger
qed

lemma any_call_ok:
  assumes os: "os_ok os" and lk: "lk = lookup_of b" "lookup_ok lk" "lk_type lk = PTQL_VALUE_TYPE_ANY"
    and m: "match_typed (lk_type lk) (b_op_name b) (b_match b)" and v: "value_ok (lk_type lk) (b_value b)"
    and d: "data_shape lk b"
  shows "\<exists>st. call_any_get os (lk_get lk) p b = Some st \<and> (st = SIGAR_OK) = any_holds os p b"
proof -
  have str: "ptql_str_match os b a = Some (text_holds os b a)" for a
    using str_match_ok [OF m _ v] lk by simp
  have "lk_get lk \<in> {G_args_match, G_modules_match, G_env_match, G_pid_match}"
    using lk by (auto simp: lookup_ok_def any_lookups_def any_tables ptql_any_entry_def)
  then consider (args) "lk_get lk = G_args_match" | (mods) "lk_get lk = G_modules_match"
    | (env) "lk_get lk = G_env_match" | (pid) "lk_get lk = G_pid_match" by blast
  then show ?thesis
  proof cases
    case args
    then show ?thesis
    proof (cases "os_proc_args os p")
      case (Inl st)
      then have "st \<noteq> SIGAR_OK" using os by (auto simp: os_ok_def)
      with Inl args lk show ?thesis by (simp add: call_any_get_def ptql_args_match_def any_holds_def args_hold_def)
    next
      case (Inr as)
      then have len: "length as < 2 ^ 31" using os unfolding os_ok_def by blast
      have w: "flag_set (b_op_flags b) PTQL_OP_FLAG_GLOB \<or> b_data b = AUi32 (data_index b)"
        using d args by (auto simp: data_shape_def data_index_def)
      show ?thesis
        using Inr args lk w args_index [OF len, of "data_index b"]
        by (cases "flag_set (b_op_flags b) PTQL_OP_FLAG_GLOB")
          (auto simp: call_any_get_def ptql_args_match_def any_holds_def args_hold_def args_glob_ok [OF str]
            str matched_status_def Let_def)
    qed
  next
    case mods
    then show ?thesis
    proof (cases "os_proc_modules os p")
      case (Inl st)
      then have "st \<noteq> SIGAR_OK" using os by (auto simp: os_ok_def)
      with Inl mods lk show ?thesis by (simp add: call_any_get_def ptql_modules_match_def any_holds_def modules_hold_def)
    next
      case (Inr names)
      then have len: "length names < 2 ^ 31" using os unfolding os_ok_def by blast
      have w: "flag_set (b_op_flags b) PTQL_OP_FLAG_GLOB \<or> b_data b = AUi32 (data_index b)"
        using d mods by (auto simp: data_shape_def data_index_def)
      show ?thesis
        using Inr mods lk w len modules_ok(1) [OF str, of 0 names]
          modules_ok(2) [OF str, where ix = 0 and w = "data_index b" and names = names]
        by (cases "flag_set (b_op_flags b) PTQL_OP_FLAG_GLOB")
          (auto simp: call_any_get_def ptql_modules_match_def any_holds_def modules_hold_def matched_status_def)
    qed
  next
    case env
    then obtain key where key: "b_data b = AStr key" "b_data_size b = length key" using d by (auto simp: data_shape_def)
    show ?thesis
    proof (cases "os_proc_env os p")
      case (Inl st)
      then have "st \<noteq> SIGAR_OK" using os by (auto simp: os_ok_def)
      with Inl env lk show ?thesis by (simp add: call_any_get_def ptql_env_match_def any_holds_def env_holds_def)
    next
      case (Inr e)
      with env lk key show ?thesis
        by (auto simp: call_any_get_def ptql_env_match_def any_holds_def env_holds_def env_key_ok str
            matched_status_def split: option.split)
    qed
  next
    case pid
    with lk show ?thesis by (simp add: call_any_get_def ptql_pid_match_def any_holds_def)
  qed
qed

text \<open>Comparing an attribute that was read with a value or another attribute.\<close>

lemma struct_attr:
  assumes "os_ok os" and "lookup_ok lk" and "lk_type lk \<noteq> PTQL_VALUE_TYPE_ANY" and "os_get os (lk_get lk) p = Inr d"
  shows "\<exists>h. lk_offset lk d = Some h \<and> datum_type h = lk_type lk \<and> attr_of os p lk = Inr h"
proof -
  have "get_struct (lk_get lk) d" using assms(1,4) unfolding os_ok_def by blast
  then obtain h where "lk_offset lk d = Some h" "datum_type h = lk_type lk"
    using assms(2,3) by (auto simp: lookup_ok_def)
  with assms(4) show ?thesis by (simp add: attr_of_def)
qed

lemma value_compare:
  assumes "b_lookup b = Some lk" and "lk_type lk \<noteq> PTQL_VALUE_TYPE_ANY"
    and m: "match_typed (lk_type lk) (b_op_name b) (b_match b)" and v: "value_ok (lk_type lk) (b_value b)"
    and h: "DATA_PTR b = Some h" "datum_type h = lk_type lk"
  shows "(if lk_type lk = PTQL_VALUE_TYPE_STR then do { v \<leftarrow> DATA_PTR b; str \<leftarrow> datum_str v; ptql_str_match os b str }
          else ptql_branch_match b) =
         Some (case value_datum (lk_type lk) (b_value b) of None \<Rightarrow> False
               | Some n \<Rightarrow> datum_holds os (b_op_flags b) (b_op_name b) h n)"
proof (cases "lk_type lk = PTQL_VALUE_TYPE_STR")
  case True
  then obtain str where "h = Str str" using h by (cases h) auto
  with True assms str_match_ok [OF m _ v] show ?thesis
    by (auto simp: text_holds_def value_datum_def value_ok_def plain_value_def split: any_value.split)
next
  case False
  with assms show ?thesis
    by (cases h)
      (auto simp: ptql_branch_match_def value_ok_def plain_value_def value_datum_def match_typed_def
        ui64_table ui32_table dbl_table chr_table)
qed

lemma ref_compare:
  assumes "b_lookup b = Some lk" and "lk_type lk \<noteq> PTQL_VALUE_TYPE_ANY" and "b_op_name b \<noteq> PTQL_OP_RE"
    and m: "match_typed (lk_type lk) (b_op_name b) (b_match b)"
    and h: "DATA_PTR b = Some h" "datum_type h = lk_type lk" and n: "DATA_PTR r = Some n" "datum_type n = lk_type lk"
  shows "ptql_branch_match_ref b r = Some (datum_holds os (b_op_flags b) (b_op_name b) h n)"
  using assms
  by (cases h; cases n)
    (auto simp: ptql_branch_match_ref_def match_typed_def ui64_table ui32_table dbl_table chr_table str_table str_holds_def)

text \<open>The state between two branches: the query is the given one but for the structures read,
  and each branch before \<open>i\<close> holds the structure of its process.\<close>

definition loaded :: "ptql_os \<Rightarrow> pid \<Rightarrow> ptql_branch \<Rightarrow> bool" where
  "loaded os pid b \<longleftrightarrow>
     any_branch b \<or> (\<exists>p d. target_pid os pid (b_op_flags b) = Inr p \<and> os_get os (lk_get (lookup_of b)) p = Inr d
                       \<and> b_data b = APtr d)"

definition cached_ok :: "ptql_branch \<Rightarrow> bool" where
  "cached_ok b \<longleftrightarrow> any_branch b \<or> b_data b = AZero \<or> b_data b = AAlloc \<or> (\<exists>d. b_data b = APtr d)"

definition match_state :: "ptql_os \<Rightarrow> ptql_branch list \<Rightarrow> pid \<Rightarrow> nat \<Rightarrow> ptql_branch list \<Rightarrow> bool" where
  "match_state os bs0 pid i bs \<longleftrightarrow>
     map strip bs = map strip bs0 \<and> list_all cached_ok bs \<and> (\<forall>j < i. loaded os pid (bs ! j))"

lemma match_state_nth:
  assumes "map strip bs = map strip bs0" and "i < length bs0"
  shows "i < length bs" "strip (bs ! i) = strip (bs0 ! i)" "b_lookup (bs ! i) = b_lookup (bs0 ! i)"
    "b_op_flags (bs ! i) = b_op_flags (bs0 ! i)" "b_op_name (bs ! i) = b_op_name (bs0 ! i)"
    "b_match (bs ! i) = b_match (bs0 ! i)" "b_value (bs ! i) = b_value (bs0 ! i)"
    "lookup_of (bs ! i) = lookup_of (bs0 ! i)" "any_branch (bs0 ! i) \<Longrightarrow> bs ! i = bs0 ! i"
proof -
  show l: "i < length bs" using assms by (metis length_map)
  then show e: "strip (bs ! i) = strip (bs0 ! i)" using assms by (metis nth_map)
  from arg_cong [OF e, of b_lookup] show lk: "b_lookup (bs ! i) = b_lookup (bs0 ! i)" by simp
  from arg_cong [OF e, of b_op_flags] show "b_op_flags (bs ! i) = b_op_flags (bs0 ! i)" by simp
  from arg_cong [OF e, of b_op_name] show "b_op_name (bs ! i) = b_op_name (bs0 ! i)" by simp
  from arg_cong [OF e, of b_match] show "b_match (bs ! i) = b_match (bs0 ! i)" by simp
  from arg_cong [OF e, of b_value] show "b_value (bs ! i) = b_value (bs0 ! i)" by simp
  show lo: "lookup_of (bs ! i) = lookup_of (bs0 ! i)" using lk by (simp add: lookup_of_def)
  show "any_branch (bs0 ! i) \<Longrightarrow> bs ! i = bs0 ! i" using e lo by (simp add: strip_def)
qed

lemma match_state_update:
  assumes "match_state os bs0 pid i bs" and "i < length bs0" and "\<not> any_branch (bs0 ! i)"
    and "b1 = (bs ! i)\<lparr>b_data_size := y, b_data := x\<rparr>" and "x = AAlloc \<or> x = APtr d"
  shows "match_state os bs0 pid i (bs[i := b1])"
    and "loaded os pid b1 \<Longrightarrow> match_state os bs0 pid (Suc i) (bs[i := b1])"
proof -
  have st: "map strip bs = map strip bs0" using assms(1) by (simp add: match_state_def)
  note n = match_state_nth [OF st assms(2)]
  have "lookup_of b1 = lookup_of (bs ! i)" using assms(4) by (simp add: lookup_of_def)
  then have "strip b1 = strip (bs ! i)" using assms(3,4) n(8) by (simp add: strip_def)
  then have strip: "map strip (bs[i := b1]) = map strip bs0"
    using st n(1) by (metis list_update_id map_update)
  have cached: "list_all cached_ok (bs[i := b1])"
    using assms(1,4,5) n(1) by (auto simp: match_state_def list_all_length nth_list_update cached_ok_def)
  have old: "\<forall>j < i. loaded os pid ((bs[i := b1]) ! j)"
    using assms(1) by (simp add: match_state_def)
  show "match_state os bs0 pid i (bs[i := b1])" using strip cached old by (simp add: match_state_def)
  show "loaded os pid b1 \<Longrightarrow> match_state os bs0 pid (Suc i) (bs[i := b1])"
    using strip cached old n(1) by (auto simp: match_state_def less_Suc_eq)
qed

lemma branch_alloc_ok:
  assumes "cached_ok b" and "\<not> any_branch b"
  shows "\<exists>y x. branch_alloc lk b = Some (b\<lparr>b_data_size := y, b_data := x\<rparr>)"
proof (cases "b_data b = AZero")
  case True
  then show ?thesis by (auto simp: branch_alloc_def)
next
  case False
  then show ?thesis
    using assms by (intro exI [of _ "b_data_size b"] exI [of _ "b_data b"]) (auto simp: cached_ok_def branch_alloc_def)
qed

lemma match_state_mono: "match_state os bs0 pid i bs \<Longrightarrow> j \<le> i \<Longrightarrow> match_state os bs0 pid j bs"
  by (simp add: match_state_def)

text \<open>The comparison a struct branch ends with.\<close>

definition struct_compare :: "ptql_os \<Rightarrow> ptql_branch list \<Rightarrow> ptql_branch \<Rightarrow> bool ub" where
  "struct_compare os bs b =
     (if ref_branch b then do {
        ix \<leftarrow> val_ui32 (b_value b);
        ref \<leftarrow> cell bs (unat ix);
        ptql_branch_match_ref b ref }
      else if lk_type (lookup_of b) = PTQL_VALUE_TYPE_STR then do {
        v \<leftarrow> DATA_PTR b; str \<leftarrow> datum_str v;
        ptql_str_match os b str }
      else ptql_branch_match b)"

lemma struct_compare_ok:
  assumes os: "os_ok os" and sane: "query_sane bs0" and i: "i < length bs0" and na: "\<not> any_branch (bs0 ! i)"
    and st: "match_state os bs0 pid (Suc i) bs" and h: "branch_attr os pid (bs0 ! i) = Inr h"
  shows "struct_compare os bs (bs ! i) =
    Some (case needle os bs0 pid (bs0 ! i) of None \<Rightarrow> False
          | Some n \<Rightarrow> datum_holds os (b_op_flags (bs0 ! i)) (b_op_name (bs0 ! i)) h n)"
proof -
  have eqs: "map strip bs = map strip bs0" using st by (simp add: match_state_def)
  let ?b = "bs ! i" and ?c = "bs0 ! i" and ?lk = "lookup_of (bs0 ! i)"
  note n = match_state_nth [OF eqs i]
  have sb: "sane_branch bs0 i" using sane i by (simp add: query_sane_def)
  have lk: "b_lookup ?b = Some ?lk" "lookup_ok ?lk" "match_typed (lk_type ?lk) (b_op_name ?b) (b_match ?b)"
    using sb n by (auto simp: sane_branch_def Let_def)
  have data: "\<exists>h. DATA_PTR (bs ! j) = Some h \<and> datum_type h = lk_type (lookup_of (bs0 ! j)) \<and> branch_attr os pid (bs0 ! j) = Inr h"
    if j: "j \<le> i" "\<not> any_branch (bs0 ! j)" for j
  proof -
    have jl: "j < length bs0" using j i by simp
    note m = match_state_nth [OF eqs jl]
    have "loaded os pid (bs ! j)" using st j by (simp add: match_state_def)
    with m j obtain p d where d: "target_pid os pid (b_op_flags (bs0 ! j)) = Inr p"
      "os_get os (lk_get (lookup_of (bs0 ! j))) p = Inr d" "b_data (bs ! j) = APtr d" by (auto simp: loaded_def)
    have sj: "b_lookup (bs0 ! j) = Some (lookup_of (bs0 ! j))" "lookup_ok (lookup_of (bs0 ! j))"
      using sane jl by (auto simp: query_sane_def sane_branch_def Let_def)
    from struct_attr [OF os sj(2) j(2) d(2)] d m sj show ?thesis
      by (auto simp: DATA_PTR_def branch_attr_def)
  qed
  from data [of i] na h have hd: "DATA_PTR ?b = Some h" "datum_type h = lk_type ?lk" by auto
  show ?thesis
  proof (cases "ref_branch ?c")
    case False
    then have "value_ok (lk_type ?lk) (b_value ?b)" using sb na n by (simp add: sane_branch_def Let_def)
    from value_compare [OF lk(1) na lk(3) this hd, of os] False show ?thesis
      by (simp add: struct_compare_def needle_def n(4,5,7,8) cong: option.case_cong)
  next
    case True
    then have r: "(\<exists>w. b_value ?c = AUi32 w)" "ref_index ?c < i"
      "lk_type (lookup_of (bs0 ! ref_index ?c)) = lk_type ?lk" "b_op_name ?c \<noteq> PTQL_OP_RE"
      using sb na by (auto simp: sane_branch_def Let_def)
    then obtain w where w: "b_value ?c = AUi32 w" "ref_index ?c = unat w" by (auto simp: ref_index_def)
    from data [of "unat w"] r w na obtain k where
      k: "DATA_PTR (bs ! unat w) = Some k" "datum_type k = lk_type ?lk" "branch_attr os pid (bs0 ! unat w) = Inr k" by auto
    have "b_op_name ?b \<noteq> PTQL_OP_RE" using r n by simp
    from ref_compare [OF lk(1) na this lk(3) hd k(1,2), of os] True n w r k show ?thesis
      by (simp add: struct_compare_def needle_def cell_def)
  qed
qed

lemma match_step_struct:
  assumes "i < length bs" and "b_lookup (bs ! i) = Some lk" and "match_ppid os pid (b_op_flags (bs ! i)) = Some (Inr p)"
    and "lk_type lk \<noteq> PTQL_VALUE_TYPE_ANY" and "branch_alloc lk (bs ! i) = Some b1"
    and "os_get os (lk_get lk) p = Inr d" and "new = b1\<lparr>b_data := APtr d\<rparr>" and "b_lookup b1 = Some lk"
  shows "ptql_match_step os bs pid i =
    map_option (\<lambda>m. (if m then Goto else Return 1, bs[i := new])) (struct_compare os (bs[i := new]) new)"
proof -
  have bm: "Option.bind x (\<lambda>m. Some (f m)) = map_option f x" for x and f :: "bool \<Rightarrow> step_result \<times> ptql_branch list"
    by (cases x) auto
  have "lookup_of (b1\<lparr>b_data := APtr d\<rparr>) = lk" using assms(8) by (simp add: lookup_of_def)
  then show ?thesis
    using assms(1-6,8) unfolding assms(7) ptql_match_step_def struct_compare_def cell_def Let_def by (simp add: bm)
qed

lemma step_ok:
  assumes os: "os_ok os" and sane: "query_sane bs0" and i: "i < length bs0" and st: "match_state os bs0 pid i bs"
  shows "\<exists>bs1. ptql_match_step os bs pid i = Some (branch_spec os bs0 pid (bs0 ! i), bs1)
     \<and> match_state os bs0 pid i bs1
     \<and> (branch_spec os bs0 pid (bs0 ! i) = Goto \<longrightarrow> match_state os bs0 pid (Suc i) bs1)"
proof -
  have eqs: "map strip bs = map strip bs0" using st by (simp add: match_state_def)
  let ?b = "bs ! i" and ?c = "bs0 ! i" and ?lk = "lookup_of (bs0 ! i)"
  note n = match_state_nth [OF eqs i]
  have sb: "sane_branch bs0 i" using sane i by (simp add: query_sane_def)
  have lk: "b_lookup ?b = Some ?lk" "lookup_ok ?lk" using sb n by (auto simp: sane_branch_def Let_def)
  note unf = ptql_match_step_def [of os bs pid i] match_ppid_target [OF os] cell_def
  show ?thesis
  proof (cases "target_pid os pid (b_op_flags ?c)")
    case (Inl s)
    with st show ?thesis by (simp add: unf branch_spec_def n(1,4) lk(1))
  next
    case (Inr p)
    show ?thesis
    proof (cases "any_branch ?c")
      case True
      have same: "?b = ?c" using n(9) True .
      from any_call_ok [OF os refl lk(2) True] sb True obtain r where
        r: "call_any_get os (lk_get ?lk) p ?c = Some r" "(r = SIGAR_OK) = any_holds os p ?c"
        by (auto simp: sane_branch_def Let_def)
      have "match_state os bs0 pid (Suc i) bs"
        using st True same by (auto simp: match_state_def loaded_def less_Suc_eq)
      with r same True Inr st lk(1) show ?thesis by (auto simp: unf branch_spec_def n(1))
    next
      case False
      have "cached_ok ?b" using st n(1) by (simp add: match_state_def list_all_length)
      then obtain y x where b1: "branch_alloc ?lk ?b = Some (?b\<lparr>b_data_size := y, b_data := x\<rparr>)"
        using False n(8) branch_alloc_ok [of ?b ?lk] by auto
      show ?thesis
      proof (cases "os_get os (lk_get ?lk) p")
        case (Inl s)
        with b1 False Inr match_state_update(1) [OF st i False refl, of AAlloc] show ?thesis
          by (simp add: unf branch_spec_def attr_of_def n(1,4) lk(1))
      next
        case (Inr d)
        let ?new = "?b\<lparr>b_data_size := y, b_data := APtr d\<rparr>"
        have "loaded os pid ?new"
          using Inr \<open>target_pid os pid (b_op_flags ?c) = Inr p\<close> n by (auto simp: loaded_def lookup_of_def)
        then have st2: "match_state os bs0 pid (Suc i) (bs[i := ?new])"
          using match_state_update(2) [OF st i False refl, of "APtr d" d y] by simp
        from struct_attr [OF os lk(2) False Inr] obtain h where h: "attr_of os p ?lk = Inr h" by blast
        have "branch_attr os pid ?c = Inr h"
          using h \<open>target_pid os pid (b_op_flags ?c) = Inr p\<close> by (simp add: branch_attr_def)
        from struct_compare_ok [OF os sane i False st2 this] n(1)
        have "struct_compare os (bs[i := ?new]) ?new =
          Some (case needle os bs0 pid ?c of None \<Rightarrow> False
                | Some n \<Rightarrow> datum_holds os (b_op_flags ?c) (b_op_name ?c) h n)" by simp
        moreover have "ptql_match_step os bs pid i =
          map_option (\<lambda>m. (if m then Goto else Return 1, bs[i := ?new])) (struct_compare os (bs[i := ?new]) ?new)"
          using match_step_struct [OF n(1) lk(1) _ False b1 Inr refl] lk(1) n(4)
            \<open>target_pid os pid (b_op_flags ?c) = Inr p\<close> by (simp add: match_ppid_target [OF os])
        ultimately show ?thesis
          using False h st2 match_state_mono [OF st2, of i] \<open>target_pid os pid (b_op_flags ?c) = Inr p\<close>
          by (auto simp: branch_spec_def split: option.split)
      qed
    qed
  qed
qed

lemma match_loop_ok:
  assumes os: "os_ok os" and sane: "query_sane bs0" and "i \<le> length bs0" and "match_state os bs0 pid i bs"
  shows "\<exists>bs1. ptql_match_loop os bs pid [i..<length bs0] =
      Some (first_return (map (branch_spec os bs0 pid) (drop i bs0)), bs1) \<and> match_state os bs0 pid 0 bs1"
  using assms(3,4)
proof (induction "length bs0 - i" arbitrary: i bs)
  case 0
  then show ?case using match_state_mono [OF "0.prems"(2), of 0] by simp
next
  case (Suc k)
  then have i: "i < length bs0" by simp
  then have upt: "[i..<length bs0] = i # [Suc i..<length bs0]" by (rule upt_conv_Cons)
  have dr: "drop i bs0 = bs0 ! i # drop (Suc i) bs0" using i by (simp add: Cons_nth_drop_Suc)
  from step_ok [OF os sane i Suc.prems(2)] obtain bs1 where
    s: "ptql_match_step os bs pid i = Some (branch_spec os bs0 pid (bs0 ! i), bs1)" "match_state os bs0 pid i bs1"
      "branch_spec os bs0 pid (bs0 ! i) = Goto \<longrightarrow> match_state os bs0 pid (Suc i) bs1" by blast
  show ?case
  proof (cases "branch_spec os bs0 pid (bs0 ! i)")
    case (Return st)
    with s upt dr match_state_mono [OF s(2), of 0] show ?thesis by simp
  next
    case Goto
    with Suc.hyps(1) [of "Suc i" bs1] Suc.hyps(2) Suc.prems(1) i s upt dr show ?thesis by simp
  qed
qed

lemma sane_strip:
  assumes "map strip bs = map strip bs0" and "list_all cached_ok bs" and "query_sane bs0"
  shows "query_sane bs"
  unfolding query_sane_def
proof (intro allI impI)
  fix i assume "i < length bs"
  then have i: "i < length bs0" using assms(1) by (metis length_map)
  note n = match_state_nth [OF assms(1) i]
  have sb: "sane_branch bs0 i" using assms(3) i by (simp add: query_sane_def)
  have c: "cached_ok (bs ! i)" using assms(2) n(1) by (simp add: list_all_length)
  have ri: "ref_index (bs ! i) = ref_index (bs0 ! i)" using n(7) by (simp add: ref_index_def)
  have rl: "ref_index (bs0 ! i) < i \<Longrightarrow> lookup_of (bs ! ref_index (bs0 ! i)) = lookup_of (bs0 ! ref_index (bs0 ! i))"
    using match_state_nth(8) [OF assms(1)] i by simp
  show "sane_branch bs i"
  proof (cases "any_branch (bs0 ! i)")
    case True
    with n sb show ?thesis by (simp add: sane_branch_def Let_def)
  next
    case False
    with n sb c ri rl show ?thesis
      unfolding sane_branch_def Let_def by (auto simp: cached_ok_def)
  qed
qed

lemma query_match_ok:
  assumes os: "os_ok os" and sane: "query_sane bs"
  shows "\<exists>bs1. sigar_ptql_query_match os bs pid = Some (query_spec os bs pid, bs1)
     \<and> query_sane bs1 \<and> map strip bs1 = map strip bs"
proof -
  have "list_all cached_ok bs"
    using sane by (auto simp: list_all_length query_sane_def sane_branch_def Let_def cached_ok_def split: if_splits)
  then have "match_state os bs pid 0 bs" by (simp add: match_state_def)
  from match_loop_ok [OF os sane _ this] obtain bs1 where
    "sigar_ptql_query_match os bs pid = Some (query_spec os bs pid, bs1)" "match_state os bs pid 0 bs1"
    by (auto simp: sigar_ptql_query_match_def query_spec_def)
  with sane_strip [of bs1 bs] sane show ?thesis by (auto simp: match_state_def)
qed

lemma branch_spec_strip:
  assumes "map strip bs1 = map strip bs" and "query_sane bs" and "i < length bs"
  shows "branch_spec os bs1 pid (bs1 ! i) = branch_spec os bs pid (bs ! i)"
proof (cases "any_branch (bs ! i)")
  case True
  with match_state_nth [OF assms(1,3)] show ?thesis by (simp add: branch_spec_def split: sum.split)
next
  case False
  note n = match_state_nth [OF assms(1,3)]
  have "needle os bs1 pid (bs1 ! i) = needle os bs pid (bs ! i)"
  proof (cases "ref_branch (bs ! i)")
    case True
    have "sane_branch bs i" using assms(2,3) by (simp add: query_sane_def)
    then have "ref_index (bs ! i) < length bs" using False True assms(3) by (simp add: sane_branch_def Let_def)
    note r = match_state_nth [OF assms(1) this]
    have "ref_index (bs1 ! i) = ref_index (bs ! i)" using n(7) by (simp add: ref_index_def)
    with True show ?thesis by (simp add: needle_def branch_attr_def n(4) r(4,8) cong: sum.case_cong)
  next
    case False
    with n show ?thesis by (simp add: needle_def)
  qed
  with False show ?thesis
    by (simp add: branch_spec_def n(4,5,8) cong: sum.case_cong option.case_cong)
qed

lemma query_spec_strip:
  assumes "map strip bs1 = map strip bs" and "query_sane bs"
  shows "query_spec os bs1 pid = query_spec os bs pid"
proof -
  have l: "length bs1 = length bs" using assms(1) by (metis length_map)
  have "map (branch_spec os bs1 pid) bs1 = map (branch_spec os bs pid) bs"
    using branch_spec_strip [OF assms] l by (intro nth_equalityI) auto
  then show ?thesis by (simp add: query_spec_def)
qed

section \<open>The searches\<close>

text \<open>A pid, port or service branch may only use the first six operators.\<close>

definition pid_sane :: "ptql_branch list \<Rightarrow> bool" where
  "pid_sane bs \<longleftrightarrow>
     list_all (\<lambda>b. flag_set (b_op_flags b) PTQL_OP_FLAG_PID \<longrightarrow>
       b_lookup b = Some (lookup_of b) \<and> lk_get (lookup_of b) = G_pid_match \<and> data_shape (lookup_of b) b
       \<and> op_ix (b_op_name b) < 6) bs"

definition pid_selected :: "ptql_os \<Rightarrow> pid list \<Rightarrow> ptql_branch \<Rightarrow> pid list" where
  "pid_selected os pids b =
     (if IS_PID_SERVICE_QUERY b \<and> (PTQL_PID_SERVICE_NAME < b_flags b \<or> b_op_name b \<noteq> PTQL_OP_EQ) then []
      else (case ptql_pid_get os b of
              Some (Inr m) \<Rightarrow> filter (\<lambda>p. op_holds (b_op_name b) (scast p :: uint64) (scast m)) pids
            | _ \<Rightarrow> []))"

definition candidates :: "ptql_os \<Rightarrow> ptql_branch list \<Rightarrow> pid list \<Rightarrow> pid list" where
  "candidates os bs pids =
     (let pbs = filter (\<lambda>b. flag_set (b_op_flags b) PTQL_OP_FLAG_PID) bs
      in if pbs = [] then pids else concat (map (pid_selected os pids) pbs))"

lemma pid_filter_ok:
  assumes "op_ix (b_op_name b) < 6" and "clist_wf l"
  shows "\<exists>l1. pid_filter_loop b m pids l = Some l1 \<and> clist_wf l1
     \<and> clist_elems l1 = clist_elems l @ filter (\<lambda>p. op_holds (b_op_name b) (scast p :: uint64) (scast m)) pids"
  using assms(2)
proof (induction pids arbitrary: l)
  case Nil
  then show ?case by simp
next
  case (Cons p ps)
  have m: "pid_branch_match b p m = Some (op_holds (b_op_name b) (scast p :: uint64) (scast m))"
    using assms(1) by (simp add: pid_branch_match_def cell_def ui64_table)
  show ?case
  proof (cases "op_holds (b_op_name b) (scast p :: uint64) (scast m)")
    case True
    from proc_list.put_ok [OF Cons.prems, of p] obtain l1 where
      l1: "clist_put sigar_proc_list_grow l p = Some l1" "clist_wf l1" "clist_elems l1 = clist_elems l @ [p]" by blast
    with Cons.IH [OF l1(2)] True m show ?thesis by auto
  next
    case False
    with Cons.IH [OF Cons.prems] m show ?thesis by simp
  qed
qed

lemma pid_get_ok:
  assumes "lk_get lk = G_pid_match" and "data_shape lk b"
    and "\<not> (IS_PID_SERVICE_QUERY b \<and> (PTQL_PID_SERVICE_NAME < b_flags b \<or> b_op_name b \<noteq> PTQL_OP_EQ))"
  shows "\<exists>r. ptql_pid_get os b = Some r"
proof (cases "b_flags b = PTQL_PID_FILE \<or> b_flags b = PTQL_PID_SUDO_FILE")
  case True
  with assms obtain s where "b_data b = AStr s" by (auto simp: data_shape_def)
  with True show ?thesis by (auto simp: ptql_pid_get_def split: prod.split)
next
  case False
  with assms show ?thesis
    by (cases "b_flags b = PTQL_PID_PID")
      (auto simp: data_shape_def ptql_pid_get_def ptql_pid_port_get_def IS_PID_SERVICE_QUERY_def split: if_splits)
qed

lemma pid_list_get_ok:
  assumes "os_proc_list os = Inr pids" and "lk_get lk = G_pid_match" and "data_shape lk b"
    and "op_ix (b_op_name b) < 6" and "clist_wf l"
  shows "\<exists>l1. ptql_pid_list_get os b l = Some (SIGAR_OK, l1) \<and> clist_wf l1
     \<and> clist_elems l1 = clist_elems l @ pid_selected os pids b"
proof (cases "IS_PID_SERVICE_QUERY b \<and> (PTQL_PID_SERVICE_NAME < b_flags b \<or> b_op_name b \<noteq> PTQL_OP_EQ)")
  case True
  then show ?thesis using assms(5) unfolding ptql_pid_list_get_def pid_selected_def by simp
next
  case False
  from pid_get_ok [OF assms(2,3) False] obtain r where r: "ptql_pid_get os b = Some r" ..
  show ?thesis
  proof (cases r)
    case (Inl st)
    with r False assms(5) show ?thesis unfolding ptql_pid_list_get_def pid_selected_def by simp
  next
    case (Inr m)
    with r False assms(1) pid_filter_ok [OF assms(4,5), of m pids] show ?thesis
      unfolding ptql_pid_list_get_def pid_selected_def by auto
  qed
qed

lemma pid_branches_ok:
  assumes "os_proc_list os = Inr pids" and "pid_sane bs" and "\<forall>l. a = Some l \<longrightarrow> clist_wf l"
  shows "\<exists>r. pid_branches_loop os bs a = Some (SIGAR_OK, r)
     \<and> (r = None \<longleftrightarrow> a = None \<and> filter (\<lambda>b. flag_set (b_op_flags b) PTQL_OP_FLAG_PID) bs = [])
     \<and> (\<forall>l. r = Some l \<longrightarrow> clist_elems l = (case a of None \<Rightarrow> [] | Some l0 \<Rightarrow> clist_elems l0)
          @ concat (map (pid_selected os pids) (filter (\<lambda>b. flag_set (b_op_flags b) PTQL_OP_FLAG_PID) bs)))"
  using assms(2,3)
proof (induction bs arbitrary: a)
  case Nil
  then show ?case by (auto split: option.split)
next
  case (Cons b bs)
  show ?case
  proof (cases "flag_set (b_op_flags b) PTQL_OP_FLAG_PID")
    case False
    with Cons.IH [of a] Cons.prems show ?thesis by (simp add: pid_sane_def)
  next
    case True
    let ?l0 = "case a of None \<Rightarrow> sigar_proc_list_create | Some l \<Rightarrow> l"
    have wf: "clist_wf ?l0" using Cons.prems(2) proc_list.create_wf by (auto split: option.split)
    have el: "clist_elems ?l0 = (case a of None \<Rightarrow> [] | Some l0 \<Rightarrow> clist_elems l0)"
      using proc_list.create_elems by (auto split: option.split)
    have b: "lk_get (lookup_of b) = G_pid_match" "data_shape (lookup_of b) b" "op_ix (b_op_name b) < 6"
      using Cons.prems(1) True by (simp_all add: pid_sane_def)
    from pid_list_get_ok [OF assms(1) b wf] obtain l1 where
      l1: "ptql_pid_list_get os b ?l0 = Some (SIGAR_OK, l1)" "clist_wf l1" "clist_elems l1 = clist_elems ?l0 @ pid_selected os pids b"
      by blast
    have "pid_sane bs" using Cons.prems(1) by (simp add: pid_sane_def)
    with Cons.IH [of "Some l1"] l1 el True show ?thesis by simp
  qed
qed

lemma proc_list_get_ok:
  assumes "os_proc_list os = Inr pids" and "pid_sane bs"
  shows "ptql_proc_list_get os bs = Some (Inr (candidates os bs pids))"
  using pid_branches_ok [OF assms, of None] assms(1)
  by (auto simp: ptql_proc_list_get_def candidates_def Let_def split: option.splits)

lemma find_loop_ok:
  assumes os: "os_ok os" and "query_sane bs0" and "query_sane bs" "map strip bs = map strip bs0" and "clist_wf l"
  shows "\<exists>st l1 bs1. query_find_loop os bs ps l = Some (st, l1, bs1) \<and> clist_wf l1
     \<and> (if list_ex (\<lambda>p. query_spec os bs0 p = SIGAR_ENOTIMPL) ps then st = SIGAR_ENOTIMPL
        else st = SIGAR_OK \<and> clist_elems l1 = clist_elems l @ filter (\<lambda>p. query_spec os bs0 p = SIGAR_OK) ps)"
  using assms(3-5)
proof (induction ps arbitrary: bs l)
  case Nil
  then show ?case by simp
next
  case (Cons p ps)
  from query_match_ok [OF os Cons.prems(1), of p] query_spec_strip [OF Cons.prems(2) assms(2), of os p]
  obtain bs1 where m: "sigar_ptql_query_match os bs p = Some (query_spec os bs0 p, bs1)" "query_sane bs1"
    "map strip bs1 = map strip bs0" using Cons.prems(2) by auto
  from proc_list.put_ok [OF Cons.prems(3), of p] obtain l1 where
    l1: "clist_put sigar_proc_list_grow l p = Some l1" "clist_wf l1" "clist_elems l1 = clist_elems l @ [p]" by blast
  show ?case
    using m l1 Cons.IH [OF m(2,3) l1(2)] Cons.IH [OF m(2,3) Cons.prems(3)] Cons.prems(3)
    by (cases "query_spec os bs0 p = SIGAR_OK") (auto split: if_splits)
qed

lemma find_process_loop_ok:
  assumes os: "os_ok os" and "query_sane bs0" and "query_sane bs" "map strip bs = map strip bs0"
  shows "\<exists>st k r bs1. find_process_loop os bs ps n a = Some (st, k, r, bs1)
     \<and> (if list_ex (\<lambda>p. query_spec os bs0 p = SIGAR_ENOTIMPL) ps then st = SIGAR_ENOTIMPL
        else st = SIGAR_OK \<and> k = n + length (filter (\<lambda>p. query_spec os bs0 p = SIGAR_OK) ps)
          \<and> r = last (a # map Some (filter (\<lambda>p. query_spec os bs0 p = SIGAR_OK) ps)))"
  using assms(3,4)
proof (induction ps arbitrary: bs n a)
  case Nil
  then show ?case by simp
next
  case (Cons p ps)
  from query_match_ok [OF os Cons.prems(1), of p] query_spec_strip [OF Cons.prems(2) assms(2), of os p]
  obtain bs1 where m: "sigar_ptql_query_match os bs p = Some (query_spec os bs0 p, bs1)" "query_sane bs1"
    "map strip bs1 = map strip bs0" using Cons.prems(2) by auto
  show ?case
    using m Cons.IH [OF m(2,3), of "Suc n" "Some p"] Cons.IH [OF m(2,3), of n a]
    by (cases "query_spec os bs0 p = SIGAR_OK") (auto split: if_splits)
qed

text \<open>A query without variables has a meaning.\<close>

lemma shape_plain_sane:
  assumes "query_shape bs" and "list_all plain_branch bs"
  shows "query_sane bs"
  unfolding query_sane_def
proof (intro allI impI)
  fix i assume i: "i < length bs"
  then have p: "plain_branch (bs ! i)" using assms(2) by (simp add: list_all_length)
  from assms(1) i have "branch_shape i (bs ! i)" by (simp add: query_shape_def)
  then obtain lk where lk: "b_lookup (bs ! i) = Some lk" "lookup_ok lk" "data_shape lk (bs ! i)"
    "match_typed (lk_type lk) (b_op_name (bs ! i)) (b_match (bs ! i))" by (auto simp: branch_shape_def)
  have "lk_type lk \<noteq> PTQL_VALUE_TYPE_ANY \<Longrightarrow> b_data (bs ! i) = AZero"
    using lk(2,3) by (auto simp: lookup_ok_def data_shape_def split: ptql_get.splits)
  with lk p show "sane_branch bs i"
    by (auto simp: sane_branch_def Let_def lookup_of_def plain_branch_def value_ok_def)
qed

lemma shape_pid_sane:
  assumes "query_shape bs" and "list_all (\<lambda>b. flag_set (b_op_flags b) PTQL_OP_FLAG_PID \<longrightarrow> op_ix (b_op_name b) < 6) bs"
  shows "pid_sane bs"
  unfolding pid_sane_def list_all_length
proof (intro allI impI)
  fix i assume i: "i < length bs" and p: "flag_set (b_op_flags (bs ! i)) PTQL_OP_FLAG_PID"
  from assms(1) i have "branch_shape i (bs ! i)" by (simp add: query_shape_def)
  then obtain lk where lk: "b_lookup (bs ! i) = Some lk" "lookup_ok lk" "data_shape lk (bs ! i)"
    by (auto simp: branch_shape_def)
  then have "lk_get lk = G_pid_match" using p by (auto simp: data_shape_def)
  with lk assms(2) i p show "b_lookup (bs ! i) = Some (lookup_of (bs ! i)) \<and> lk_get (lookup_of (bs ! i)) = G_pid_match
      \<and> data_shape (lookup_of (bs ! i)) (bs ! i) \<and> op_ix (b_op_name (bs ! i)) < 6"
    by (simp add: lookup_of_def list_all_length)
qed

section \<open>A sample platform\<close>

text \<open>Three processes, of which one is a shell; only process states and arguments are implemented.\<close>

definition sample_state :: "pid \<Rightarrow> sigar_proc_state" where
  "sample_state pid = \<lparr>ps_name = (if pid = 20 then ''bash'' else ''java''), ps_state = CHR ''S'', ps_ppid = 1,
     ps_tty = 0, ps_priority = 0, ps_nice = 0, ps_processor = 0, ps_threads = 1, ps_open_files = 0\<rparr>"

definition sample_os :: ptql_os where
  "sample_os = \<lparr>os_get = (\<lambda>g pid. if g = G_proc_state then Inr (DState (sample_state pid)) else Inl SIGAR_ENOTIMPL),
     os_proc_list = Inr [10, 20, 30], os_proc_args = (\<lambda>pid. Inr [''a'', ''b'']), os_proc_modules = (\<lambda>_. Inl SIGAR_ENOTIMPL),
     os_proc_env = (\<lambda>_. Inl SIGAR_ENOTIMPL), os_proc_port = (\<lambda>_ _. Inl SIGAR_ENOTIMPL), os_file = (\<lambda>_. OpenFails),
     os_stat = (\<lambda>_. Inl ENOENT), os_popen = (\<lambda>_. Inl ENOENT), os_re_impl = None\<rparr>"

definition sample_query :: "string \<Rightarrow> ptql_branch list" where
  "sample_query name = [zero_branch\<lparr>b_lookup := Some (PTQL_State ! 1), b_match := MStr ptql_op_str_eq, b_value := AStr name\<rparr>]"

lemma sample_os_ok: "os_ok sample_os"
  by (auto simp: os_ok_def sample_os_def get_struct_cases split: if_splits)

lemma sample_query_sane: "query_sane (sample_query name)" "pid_sane (sample_query name)"
  using struct_tables_ok(7)
  by (simp_all add: query_sane_def sane_branch_def sample_query_def lookup_of_def zero_branch_def PTQL_State_def
      PTQL_LOOKUP_ENTRY_def match_typed_def ptql_op_str_def value_ok_def plain_value_def pid_sane_def)

lemma sample_candidates: "candidates sample_os (sample_query name) [10, 20, 30] = [10, 20, 30]"
  by (simp add: candidates_def sample_query_def zero_branch_def)

lemma sample_spec:
  "query_spec sample_os (sample_query name) pid = (if (if pid = 20 then ''bash'' else ''java'') = name then SIGAR_OK else 1)"
  by (simp add: query_spec_def sample_query_def branch_spec_def target_pid_def zero_branch_def lookup_of_def PTQL_State_def
      PTQL_LOOKUP_ENTRY_def attr_of_def sample_os_def sample_state_def needle_def value_datum_def str_holds_def
      plain_str_holds_def fold_case_def IS_ICASE_def)

section \<open>Properties\<close>



text \<open>C2: \<open>sigar_ptql_query_find\<close> returns exactly the matching processes. Of the candidates (the
  process list, or what the pid, port and service branches select from it, in order) the
  result holds those whose query status is \<open>SIGAR_OK\<close>, in order; a single
  \<open>SIGAR_ENOTIMPL\<close> makes the whole search fail with it.\<close>

theorem sigar_ptql_query_find_correct:
  assumes "os_ok os" and "query_sane bs" and "pid_sane bs" and "os_proc_list os = Inr pids"
  shows "\<exists>st l bs1. sigar_ptql_query_find os bs = Some (st, l, bs1)
     \<and> (if list_ex (\<lambda>p. query_spec os bs p = SIGAR_ENOTIMPL) (candidates os bs pids)
        then st = SIGAR_ENOTIMPL \<and> clist_elems l = []
        else st = SIGAR_OK \<and> clist_wf l
          \<and> clist_elems l = filter (\<lambda>p. query_spec os bs p = SIGAR_OK) (candidates os bs pids))"
  using find_loop_ok [OF assms(1,2,2) refl proc_list.create_wf, of "candidates os bs pids"]
    proc_list_get_ok [OF assms(4,3)] proc_list.destroy_elems proc_list.create_elems
  by (auto simp: sigar_ptql_query_find_def split: if_splits)

theorem sigar_ptql_query_find_correct_witness:
  "\<exists>l bs1. sigar_ptql_query_find sample_os (sample_query ''java'') = Some (SIGAR_OK, l, bs1) \<and> clist_elems l = [10, 30]"
proof -
  have "os_proc_list sample_os = Inr [10, 20, 30]" by (simp add: sample_os_def)
  from sigar_ptql_query_find_correct [OF sample_os_ok sample_query_sane this, of "''java''"] show ?thesis
    by (simp add: sample_candidates sample_spec) blast
qed





section \<open>Where the code departs from its intention\<close>

text \<open>a \<open>Port.udp\<close> query asks for TCP ports. The initialiser stores the TCP flag for both
  protocols, so the process it selects is the one bound to the TCP port of that number.\<close>

theorem port_udp_asks_tcp:
  assumes "p_attr parsed = ''udp''" and "ptql_branch_init_port parsed b = (b1, None)"
  shows "ptql_pid_get os b1 = Some (os_proc_port os SIGAR_NETCONN_TCP (ucast (ucast (fst (strtoull (p_value parsed))) :: uint32)))"
  using assms
  by (auto simp: ptql_branch_init_port_def Let_def ptql_pid_get_def ptql_pid_port_get_def strEQ_def
      split: if_splits prod.splits)

theorem port_udp_asks_tcp_witness:
  "\<exists>b1. ptql_branch_init_port \<lparr>p_name = ''Port'', p_attr = ''udp'', p_op = ''eq'', p_value = ''53'', p_op_flags = 0\<rparr> zero_branch = (b1, None)
    \<and> ptql_pid_get (sample_os\<lparr>os_proc_port := (\<lambda>proto port. Inr (if proto = SIGAR_NETCONN_TCP \<and> port = 53 then 10 else 20))\<rparr>) b1
        = Some (Inr 10)"
proof -
  let ?p = "\<lparr>p_name = ''Port'', p_attr = ''udp'', p_op = ''eq'', p_value = ''53'', p_op_flags = 0\<rparr>"
  have "snd (ptql_branch_init_port ?p zero_branch) = None" "ucast (ucast (fst (strtoull ''53'')) :: uint32) = (53 :: uint64)"
    by code_simp+
  moreover obtain b1 e where b1: "ptql_branch_init_port ?p zero_branch = (b1, e)"
    by (cases "ptql_branch_init_port ?p zero_branch")
  ultimately show ?thesis
    using port_udp_asks_tcp [of ?p zero_branch b1] by (auto simp: b1)
qed

text \<open>a pid query with a string operator is accepted and then reads past the end of the
  operator table: the check of operators against types does not apply to the pid class, and
  the table of 64-bit comparisons has no entry for \<open>ew\<close>, \<open>sw\<close>, \<open>re\<close> and \<open>ct\<close>.\<close>

theorem pid_string_op_undefined:
  assumes "flag_set (b_op_flags b) PTQL_OP_FLAG_PID" and "b_flags b = PTQL_PID_PID" and "b_data b = APid m"
    and "op_ix PTQL_OP_MAX_NSTR < op_ix (b_op_name b)" and "os_proc_list os = Inr (p # ps)"
  shows "sigar_ptql_query_find os (b # bs) = None"
  using assms
  by (simp add: sigar_ptql_query_find_def ptql_proc_list_get_def ptql_pid_list_get_def IS_PID_SERVICE_QUERY_def
      ptql_pid_get_def pid_branch_match_def PTQL_OP_MAX_NSTR_def cell_def)

theorem pid_string_op_undefined_witness:
  "\<exists>query err freed.
     sigar_ptql_query_create sample_libc ''Pid.Pid.ct=1'' None = Some (SIGAR_OK, Some query, err, freed)
     \<and> sigar_ptql_query_find sample_os (clist_elems query) = None"
proof -
  let ?r = "sigar_ptql_query_create sample_libc ''Pid.Pid.ct=1'' None"
  let ?f = "\<lambda>b. flag_set (b_op_flags b) PTQL_OP_FLAG_PID \<and> b_flags b = 0 \<and> b_op_name b = PTQL_OP_CT
      \<and> (case b_data b of APid m \<Rightarrow> True | _ \<Rightarrow> False)"
  have "map_option (\<lambda>(st, q, _). (st, map_option (map ?f \<circ> clist_elems) q)) ?r = Some (SIGAR_OK, Some [True])" by code_simp
  then obtain query err freed b where r: "?r = Some (SIGAR_OK, Some query, err, freed)"
    and q: "clist_elems query = [b]" "?f b" by auto
  from q(2) obtain m where m: "b_data b = APid m" by (auto split: any_value.splits)
  have l: "os_proc_list sample_os = Inr (10 # [20, 30])" by (simp add: sample_os_def)
  have "sigar_ptql_query_find sample_os (b # []) = None"
    using q(2) by (intro pid_string_op_undefined [OF _ _ m _ l]) (auto simp: PTQL_OP_MAX_NSTR_def)
  with r q(1) show ?thesis by auto
qed

end
