(* ===== verification/Sigar_Rma.thy ===== *)
theory Sigar_Rma
  imports Sigar_Double
begin

text \<open>
  The rolling moving average of \<open>src/sigar_rma.c\<close>: a ring buffer of timed samples and the
  average over the samples of the last \<open>rate\<close> seconds. \<open>element_count\<close> is the length of
  the sample array, times are integers, and float sums and quotients are rounded by the
  parameter \<open>rnd\<close>. The backward walk of \<open>sigar_rma_get_average\<close> has a fuel argument,
  for which the number of elements is enough; running out of it is \<open>None\<close>.
\<close>

section \<open>Data\<close>

record sigar_rma_sample =
  s_stime :: int
  s_value :: rat

record sigar_rma_stat =
  r_samples :: "sigar_rma_sample list"
  r_current_pos :: nat

abbreviation (input) SIGAR_RMA_RATE_1_MIN :: int where "SIGAR_RMA_RATE_1_MIN \<equiv> 60"
abbreviation (input) SIGAR_RMA_RATE_5_MIN :: int where "SIGAR_RMA_RATE_5_MIN \<equiv> 300"
abbreviation (input) SIGAR_RMA_RATE_15_MIN :: int where "SIGAR_RMA_RATE_15_MIN \<equiv> 900"

definition element_count :: "sigar_rma_stat \<Rightarrow> nat" where
  "element_count rma = length (r_samples rma)"

section \<open>Operations\<close>

text \<open>The options are NULL or give the longest period, a 16-bit number.\<close>

definition sigar_rma_open :: "uint16 option \<Rightarrow> sigar_rma_stat" where
  "sigar_rma_open opts =
     (let size = (case opts of None \<Rightarrow> 900 | Some t \<Rightarrow> if t = 0 then 900 else unat t)
      in \<lparr>r_samples = replicate size \<lparr>s_stime = 0, s_value = 0\<rparr>, r_current_pos = 0\<rparr>)"

definition next_pos :: "sigar_rma_stat \<Rightarrow> nat \<Rightarrow> nat" where
  "next_pos rma pos = (if element_count rma \<le> pos + 1 then 0 else pos + 1)"

definition prev_pos :: "sigar_rma_stat \<Rightarrow> nat \<Rightarrow> nat" where
  "prev_pos rma pos = (if pos = 0 then element_count rma - 1 else pos - 1)"

definition sigar_rma_add_sample ::
  "sigar_rma_stat option \<Rightarrow> rat \<Rightarrow> int \<Rightarrow> int \<Rightarrow> (status \<times> sigar_rma_stat option) ub" where
  "sigar_rma_add_sample rma_ptr val cur_time_sec now_millis =
     (case rma_ptr of
        None \<Rightarrow> Some (- 1, None)
      | Some rma \<Rightarrow>
          if r_current_pos rma < element_count rma then
            (let sample = \<lparr>s_stime = (if cur_time_sec \<noteq> 0 then cur_time_sec else now_millis div 1000), s_value = val\<rparr>
             in Some (0, Some (rma\<lparr>r_samples := (r_samples rma)[r_current_pos rma := sample],
                                   r_current_pos := next_pos rma (r_current_pos rma)\<rparr>)))
          else None)"

fun rma_walk :: "rounding \<Rightarrow> nat \<Rightarrow> sigar_rma_stat \<Rightarrow> int \<Rightarrow> int \<Rightarrow> nat \<Rightarrow> rat \<Rightarrow> nat \<Rightarrow> (rat \<times> nat) ub" where
  "rma_walk rnd fuel rma rate cur_time_sec pos avg count =
     (if pos = r_current_pos rma then Some (avg, count)
      else if fuel = 0 then None
      else (case cell (r_samples rma) pos of
              None \<Rightarrow> None
            | Some sample \<Rightarrow>
                if s_stime sample = 0 \<or> rate < cur_time_sec - s_stime sample then Some (avg, count)
                else rma_walk rnd (fuel - 1) rma rate cur_time_sec (prev_pos rma pos)
                       (rnd (avg + s_value sample)) (count + 1)))"

declare rma_walk.simps [simp del]

text \<open>The average and \<open>*result\<close>.\<close>

definition sigar_rma_get_average ::
  "rounding \<Rightarrow> sigar_rma_stat option \<Rightarrow> int \<Rightarrow> int \<Rightarrow> (rat \<times> status) ub" where
  "sigar_rma_get_average rnd rma_ptr rate cur_time_sec =
     (case rma_ptr of
        None \<Rightarrow> Some (0, - 1)
      | Some rma \<Rightarrow>
          (case rma_walk rnd (element_count rma) rma rate cur_time_sec (prev_pos rma (r_current_pos rma)) 0 0 of
             None \<Rightarrow> None
           | Some (avg, count) \<Rightarrow>
               if count = 0 then Some (0, - 1) else Some (rnd (avg / of_nat count), 0)))"

definition sigar_rma_add_fetch_std_sample ::
  "rounding \<Rightarrow> sigar_rma_stat option \<Rightarrow> rat \<Rightarrow> int \<Rightarrow> int \<Rightarrow> (status \<times> (rat \<times> status) list \<times> sigar_rma_stat option) ub" where
  "sigar_rma_add_fetch_std_sample rnd rma_ptr val cur_time_sec now_millis = do {
     (st, rma1) \<leftarrow> sigar_rma_add_sample rma_ptr val cur_time_sec now_millis;
     a1 \<leftarrow> sigar_rma_get_average rnd rma1 SIGAR_RMA_RATE_1_MIN cur_time_sec;
     a5 \<leftarrow> sigar_rma_get_average rnd rma1 SIGAR_RMA_RATE_5_MIN cur_time_sec;
     a15 \<leftarrow> sigar_rma_get_average rnd rma1 SIGAR_RMA_RATE_15_MIN cur_time_sec;
     Some (0, [a1, a5, a15], rma1) }"

text \<open>The custom variant reads the wanted periods from \<open>loadavg\<close> and overwrites them with the
  averages; \<open>result\<close> is 0 inside the loop, so the loop never breaks.\<close>

fun fetch_averages :: "rounding \<Rightarrow> sigar_rma_stat option \<Rightarrow> int \<Rightarrow> int list \<Rightarrow> (rat \<times> status) list ub" where
  "fetch_averages rnd rma cur [] = Some []"
| "fetch_averages rnd rma cur (avg_secs # rest) = do {
     a \<leftarrow> sigar_rma_get_average rnd rma avg_secs cur;
     as \<leftarrow> fetch_averages rnd rma cur rest;
     Some (a # as) }"

definition sigar_rma_add_fetch_custom_sample ::
  "rounding \<Rightarrow> sigar_rma_stat option \<Rightarrow> rat \<Rightarrow> int \<Rightarrow> int \<Rightarrow> int list \<Rightarrow> (status \<times> (rat \<times> status) list \<times> sigar_rma_stat option) ub" where
  "sigar_rma_add_fetch_custom_sample rnd rma_ptr val cur_time_sec now_millis periods = do {
     (result, rma1) \<leftarrow> sigar_rma_add_sample rma_ptr val cur_time_sec now_millis;
     if result < 0 then Some (result, [], rma1)
     else do {
       as \<leftarrow> fetch_averages rnd rma1 cur_time_sec periods;
       Some (result, as, rma1) } }"

section \<open>The samples a walk can see\<close>

definition rma_ok :: "sigar_rma_stat \<Rightarrow> bool" where
  "rma_ok rma \<longleftrightarrow> r_current_pos rma < element_count rma"

text \<open>The sample \<open>k\<close> steps before the newest, and all of them, newest first; the cell at
  \<open>current_pos\<close>, the oldest one, is never visited.\<close>

definition ring_at :: "sigar_rma_stat \<Rightarrow> nat \<Rightarrow> nat" where
  "ring_at rma k = (r_current_pos rma + element_count rma - 1 - k) mod element_count rma"

definition ring_view :: "sigar_rma_stat \<Rightarrow> sigar_rma_sample list" where
  "ring_view rma = map (\<lambda>k. r_samples rma ! ring_at rma k) [0..<element_count rma - 1]"

definition recent :: "int \<Rightarrow> int \<Rightarrow> sigar_rma_sample \<Rightarrow> bool" where
  "recent rate cur s \<longleftrightarrow> \<not> (s_stime s = 0 \<or> rate < cur - s_stime s)"

definition float_sum :: "rounding \<Rightarrow> rat list \<Rightarrow> rat" where
  "float_sum rnd vs = foldl (\<lambda>a v. rnd (a + v)) 0 vs"

lemma ring_at_0: "rma_ok rma \<Longrightarrow> ring_at rma 0 = prev_pos rma (r_current_pos rma)"
  by (cases "r_current_pos rma") (auto simp: ring_at_def prev_pos_def rma_ok_def mod_if)

lemma ring_at_less: "rma_ok rma \<Longrightarrow> ring_at rma k < element_count rma"
  by (auto simp: ring_at_def rma_ok_def)

lemma ring_at_cases:
  assumes "rma_ok rma" and "k < element_count rma"
  shows "ring_at rma k = (if k < r_current_pos rma then r_current_pos rma - 1 - k
                          else r_current_pos rma + element_count rma - 1 - k)"
proof -
  have "r_current_pos rma < element_count rma" using assms by (simp add: rma_ok_def)
  then show ?thesis
    using assms(2) by (cases "k < r_current_pos rma") (auto simp: ring_at_def mod_if)
qed

lemma ring_at_Suc:
  assumes "rma_ok rma" and "Suc k < element_count rma"
  shows "ring_at rma (Suc k) = prev_pos rma (ring_at rma k)"
  using assms ring_at_cases [OF assms(1), of k] ring_at_cases [OF assms]
  by (auto simp: prev_pos_def rma_ok_def)

lemma ring_at_current:
  assumes "rma_ok rma" and "k < element_count rma"
  shows "ring_at rma k = r_current_pos rma \<longleftrightarrow> k = element_count rma - 1"
  using ring_at_cases [OF assms] assms by (auto simp: rma_ok_def)

lemma rma_walk_ok:
  assumes ok: "rma_ok rma" and "k < element_count rma" and "element_count rma - 1 - k \<le> fuel"
  shows "rma_walk rnd fuel rma rate cur (ring_at rma k) avg n =
    (let good = takeWhile (recent rate cur) (drop k (ring_view rma))
     in Some (foldl (\<lambda>a v. rnd (a + v)) avg (map s_value good), n + length good))"
  using assms(2,3)
proof (induction fuel arbitrary: k avg n)
  case 0
  then have k: "k = element_count rma - 1" by simp
  then have "ring_at rma k = r_current_pos rma" using ring_at_current [OF ok 0(1)] by simp
  with k show ?case by (simp add: rma_walk.simps ring_view_def)
next
  case (Suc fuel)
  show ?case
  proof (cases "k = element_count rma - 1")
    case True
    then have "ring_at rma k = r_current_pos rma" using ring_at_current [OF ok Suc.prems(1)] by simp
    with True show ?thesis by (simp add: rma_walk.simps ring_view_def)
  next
    case False
    then have k: "k < element_count rma - 1" "Suc k < element_count rma" using Suc.prems(1) by auto
    let ?s = "r_samples rma ! ring_at rma k"
    have ne: "ring_at rma k \<noteq> r_current_pos rma" using ring_at_current [OF ok Suc.prems(1)] False by simp
    have c: "cell (r_samples rma) (ring_at rma k) = Some ?s"
      using ring_at_less [OF ok, of k] by (simp add: cell_def element_count_def)
    have d: "drop k (ring_view rma) = ?s # drop (Suc k) (ring_view rma)"
      using k(1) by (simp add: ring_view_def Cons_nth_drop_Suc [symmetric])
    show ?thesis
    proof (cases "recent rate cur ?s")
      case False
      with ne c d show ?thesis by (simp add: rma_walk.simps [of rnd "Suc fuel"] recent_def)
    next
      case True
      with ne c d Suc.IH [OF k(2), of "rnd (avg + s_value ?s)" "n + 1"] Suc.prems(2) ring_at_Suc [OF ok k(2)]
      show ?thesis by (simp add: rma_walk.simps [of rnd "Suc fuel"] recent_def Let_def)
    qed
  qed
qed

lemma get_average_ok:
  assumes "rma_ok rma"
  shows "sigar_rma_get_average rnd (Some rma) rate cur =
    (let vs = map s_value (takeWhile (recent rate cur) (ring_view rma))
     in Some (if vs = [] then (0, - 1) else (rnd (float_sum rnd vs / of_nat (length vs)), 0)))"
proof -
  have "0 < element_count rma" using assms by (simp add: rma_ok_def)
  from rma_walk_ok [OF assms this, of "element_count rma" rnd rate cur 0 0] ring_at_0 [OF assms] show ?thesis
    by (simp add: sigar_rma_get_average_def Let_def float_sum_def)
qed

definition rma_put :: "sigar_rma_stat \<Rightarrow> sigar_rma_sample \<Rightarrow> sigar_rma_stat" where
  "rma_put rma s = rma\<lparr>r_samples := (r_samples rma)[r_current_pos rma := s], r_current_pos := next_pos rma (r_current_pos rma)\<rparr>"

lemma rma_put_ok:
  assumes "rma_ok rma"
  shows "rma_ok (rma_put rma s)" and "element_count (rma_put rma s) = element_count rma"
  using assms by (auto simp: rma_put_def rma_ok_def element_count_def next_pos_def)

lemma rma_put_view:
  assumes ok: "rma_ok rma"
  shows "ring_view (rma_put rma s) = take (element_count rma - 1) (s # ring_view rma)"
proof (rule nth_equalityI)
  let ?r = "rma_put rma s"
  note pk = rma_put_ok [OF ok, of s]
  show "length (ring_view ?r) = length (take (element_count rma - 1) (s # ring_view rma))"
    by (simp add: ring_view_def pk)
  fix k assume "k < length (ring_view ?r)"
  then have k: "k < element_count rma - 1" by (simp add: ring_view_def pk)
  have p: "r_current_pos rma < element_count rma" using ok by (simp add: rma_ok_def)
  have pos: "r_current_pos ?r = (if element_count rma \<le> r_current_pos rma + 1 then 0 else r_current_pos rma + 1)"
    by (simp add: rma_put_def next_pos_def)
  have lhs: "ring_view ?r ! k = (r_samples rma)[r_current_pos rma := s] ! ring_at ?r k"
    using k by (simp add: ring_view_def pk) (simp add: rma_put_def)
  show "ring_view ?r ! k = take (element_count rma - 1) (s # ring_view rma) ! k"
  proof (cases k)
    case 0
    have "ring_at ?r 0 = r_current_pos rma"
      using ring_at_cases [OF pk(1), of 0] pk(2) pos p k by (auto split: if_splits)
    with 0 lhs k p show ?thesis by (simp add: element_count_def)
  next
    case (Suc j)
    have "ring_at ?r (Suc j) = ring_at rma j"
      using ring_at_cases [OF pk(1), of "Suc j"] ring_at_cases [OF ok, of j] pk(2) pos p k Suc
      by (auto split: if_splits)
    moreover have "ring_at rma j \<noteq> r_current_pos rma" using ring_at_current [OF ok, of j] k Suc by simp
    ultimately show ?thesis using lhs Suc k by (simp add: ring_view_def)
  qed
qed

text \<open>A history of samples, oldest first, added to a new buffer.\<close>

fun rma_puts :: "sigar_rma_stat \<Rightarrow> sigar_rma_sample list \<Rightarrow> sigar_rma_stat" where
  "rma_puts rma [] = rma"
| "rma_puts rma (s # ss) = rma_puts (rma_put rma s) ss"

lemma rma_puts_ok:
  assumes "rma_ok rma"
  shows "rma_ok (rma_puts rma ss) \<and> element_count (rma_puts rma ss) = element_count rma
     \<and> ring_view (rma_puts rma ss) = take (element_count rma - 1) (rev ss @ ring_view rma)"
  using assms
proof (induction ss arbitrary: rma)
  case Nil
  then show ?case by (simp add: ring_view_def)
next
  case (Cons s ss)
  from Cons.IH [OF rma_put_ok(1) [OF Cons.prems]] rma_put_ok(2) [OF Cons.prems, of s] rma_put_view [OF Cons.prems, of s]
  show ?case by (auto simp: take_append min_def)
qed

lemma open_ok:
  "rma_ok (sigar_rma_open opts) \<and> r_current_pos (sigar_rma_open opts) = 0
   \<and> (\<forall>s \<in> set (ring_view (sigar_rma_open opts)). s_stime s = 0)"
proof -
  have "0 < (case opts of None \<Rightarrow> 900 | Some t \<Rightarrow> if t = 0 then 900 else unat t)"
    by (auto simp: unat_gt_0 split: option.split)
  then have ok: "rma_ok (sigar_rma_open opts)" by (simp add: sigar_rma_open_def rma_ok_def element_count_def Let_def)
  have "r_samples (sigar_rma_open opts) ! i = \<lparr>s_stime = 0, s_value = 0\<rparr>" if "i < element_count (sigar_rma_open opts)" for i
    using that by (simp add: sigar_rma_open_def element_count_def Let_def)
  with ok ring_at_less [OF ok] show ?thesis
    by (auto simp: ring_view_def) (simp add: sigar_rma_open_def Let_def)
qed

lemma takeWhile_take: "takeWhile P (take n xs) = take n (takeWhile P xs)"
  by (induction xs arbitrary: n) (auto simp: take_Cons split: nat.split)

lemma takeWhile_append_stop: "takeWhile P ys = [] \<Longrightarrow> takeWhile P (xs @ ys) = takeWhile P xs"
  by (induction xs) auto

section \<open>Properties\<close>



text \<open>adding a sample never writes outside the buffer: from a new buffer, any sequence of
  samples keeps the write position inside it and its size unchanged, and the value
  returned is 0.\<close>

theorem rma_add_sample_in_bounds:
  assumes "rma = rma_puts (sigar_rma_open opts) hist"
  shows "\<exists>s. sigar_rma_add_sample (Some rma) v cur now = Some (0, Some (rma_puts (sigar_rma_open opts) (hist @ [s])))
     \<and> s_value s = v \<and> s_stime s = (if cur \<noteq> 0 then cur else now div 1000)
     \<and> rma_ok (rma_puts (sigar_rma_open opts) (hist @ [s]))"
proof -
  have app: "rma_puts r (xs @ [s]) = rma_put (rma_puts r xs) s" for r xs s
    by (induction xs arbitrary: r) auto
  have ok: "rma_ok (rma_puts (sigar_rma_open opts) xs)" for xs
    using rma_puts_ok [of "sigar_rma_open opts" xs] open_ok [of opts] by simp
  let ?s = "\<lparr>s_stime = (if cur \<noteq> 0 then cur else now div 1000), s_value = v\<rparr>"
  have "r_current_pos rma < element_count rma" using ok [of hist] assms by (simp add: rma_ok_def)
  then have "sigar_rma_add_sample (Some rma) v cur now = Some (0, Some (rma_put rma ?s))"
    unfolding sigar_rma_add_sample_def rma_put_def Let_def by simp
  with assms app ok [of "hist @ [?s]"] show ?thesis by (intro exI [of _ ?s]) simp
qed

theorem rma_add_sample_in_bounds_witness:
  "\<exists>s. sigar_rma_add_sample (Some (sigar_rma_open (Some 2))) 7 0 5000 = Some (0, Some (rma_puts (sigar_rma_open (Some 2)) [s]))
     \<and> s_stime s = 5"
  using rma_add_sample_in_bounds [of "sigar_rma_open (Some 2)" "Some 2" "[]" 7 0 5000] by auto

end
