(* ===== verification/Sigar_Table.thy ===== *)
theory Sigar_Table
  imports Sigar_Cache
begin

text \<open>
  The contract of the caches that never expire (\<open>sigar_cache_new\<close>): service names, listening
  addresses, device names. Their clients read an entry and, depending on the value they find,
  store a new one through the same pointer. The locale \<open>perm_table\<close> states what such a client
  may rely on; it is interpreted on the hash table of \<^verbatim>\<open>Sigar_Cache\<close>.
\<close>

section \<open>The contract\<close>

text \<open>\<open>ok n c\<close>: a well-formed table with room for \<open>n\<close> more entries. \<open>present\<close> says that a key has an
  entry, \<open>content\<close> gives the values stored.\<close>

locale perm_table =
  fixes ok :: "nat \<Rightarrow> 'c \<Rightarrow> bool"
    and content :: "'c \<Rightarrow> uint64 \<Rightarrow> 'v option"
    and present :: "'c \<Rightarrow> uint64 \<Rightarrow> bool"
    and get :: "'c \<Rightarrow> uint64 \<Rightarrow> uint64 \<Rightarrow> 'v option \<times> 'c"
    and find :: "'c \<Rightarrow> uint64 \<Rightarrow> uint64 \<Rightarrow> bool \<times> 'c"
    and put :: "'c \<Rightarrow> uint64 \<Rightarrow> 'v \<Rightarrow> 'c"
  assumes ok_less: "ok n c \<Longrightarrow> m \<le> n \<Longrightarrow> ok m c"
    and get_law: "ok (Suc n) c \<Longrightarrow> get c k now = (r, c') \<Longrightarrow>
          r = content c k \<and> content c' = content c \<and> ok n c' \<and> present c' = (present c)(k := True)"
    and find_law: "ok n c \<Longrightarrow> find c k now = (b, c') \<Longrightarrow>
          b = present c k \<and> content c' = content c \<and> ok n c' \<and> present c' = present c"
    and put_law: "ok n c \<Longrightarrow> present c k \<Longrightarrow>
          ok n (put c k v) \<and> content (put c k v) = (content c)(k \<mapsto> v) \<and> present (put c k v) = present c"
begin

definition full :: "'c \<Rightarrow> bool" where
  "full c \<longleftrightarrow> (\<forall>k. present c k \<longleftrightarrow> content c k \<noteq> None)"

text \<open>Read the entry of \<open>k\<close>; a fresh one gets \<open>v\<close>, an old value may be replaced.\<close>

definition upsert :: "('v \<Rightarrow> 'v option) \<Rightarrow> uint64 \<Rightarrow> 'c \<Rightarrow> uint64 \<Rightarrow> 'v \<Rightarrow> 'c" where
  "upsert f now c k v =
     (case get c k now of
        (Some old, c1) \<Rightarrow> (case f old of None \<Rightarrow> c1 | Some w \<Rightarrow> put c1 k w)
      | (None, c1) \<Rightarrow> put c1 k v)"

definition merged :: "('v \<Rightarrow> 'v option) \<Rightarrow> 'v option \<Rightarrow> 'v \<Rightarrow> 'v" where
  "merged f prior v = (case prior of None \<Rightarrow> v | Some w \<Rightarrow> (case f w of None \<Rightarrow> w | Some u \<Rightarrow> u))"

lemma upsert_ok:
  assumes "ok (Suc n) c"
  shows "ok n (upsert f now c k v)"
    and "content (upsert f now c k v) = (content c)(k \<mapsto> merged f (content c k) v)"
    and "full c \<Longrightarrow> full (upsert f now c k v)"
proof -
  obtain r c1 where g: "get c k now = (r, c1)" by (cases "get c k now")
  note l = get_law [OF assms g]
  have c1: "r = content c k" "content c1 = content c" "ok n c1" "present c1 = (present c)(k := True)" using l by auto
  have "ok n (upsert f now c k v) \<and> content (upsert f now c k v) = (content c)(k \<mapsto> merged f (content c k) v) \<and>
      present (upsert f now c k v) = (present c)(k := True)"
  proof (cases r)
    case None
    with g c1 put_law [OF c1(3), of k v] show ?thesis by (simp add: upsert_def merged_def)
  next
    case (Some old)
    show ?thesis
    proof (cases "f old")
      case None
      then have "upsert f now c k v = c1" using g Some by (simp add: upsert_def)
      moreover have "content c k = Some old" using c1(1) Some by simp
      then have "(content c)(k \<mapsto> merged f (content c k) v) = content c" using None by (simp add: merged_def fun_upd_idem)
      ultimately show ?thesis using c1 by simp
    next
      case (Some w)
      then have "upsert f now c k v = put c1 k w" using g \<open>r = Some old\<close> by (simp add: upsert_def)
      moreover have "merged f (content c k) v = w" using c1(1) \<open>r = Some old\<close> Some by (simp add: merged_def flip: c1(1))
      ultimately show ?thesis using c1 put_law [OF c1(3), of k w] by simp
    qed
  qed
  then show "ok n (upsert f now c k v)" "content (upsert f now c k v) = (content c)(k \<mapsto> merged f (content c k) v)"
    "full c \<Longrightarrow> full (upsert f now c k v)" by (auto simp: full_def)
qed

text \<open>A sequence of such updates is the fold of the merges.\<close>

fun merge_all :: "('v \<Rightarrow> 'v \<Rightarrow> 'v option) \<Rightarrow> (uint64 \<times> 'v) list \<Rightarrow> (uint64 \<Rightarrow> 'v option) \<Rightarrow> uint64 \<Rightarrow> 'v option" where
  "merge_all f [] m = m"
| "merge_all f ((k, v) # kvs) m = merge_all f kvs (m(k \<mapsto> merged (f v) (m k) v))"

lemma upserts_ok:
  assumes "ok (length kvs + n) c"
  shows "ok n (foldl (\<lambda>c (k, v). upsert (f v) now c k v) c kvs) \<and>
    content (foldl (\<lambda>c (k, v). upsert (f v) now c k v) c kvs) = merge_all f kvs (content c)"
  using assms
proof (induction kvs arbitrary: c)
  case Nil
  then show ?case by simp
next
  case (Cons kv kvs)
  obtain k v where kv: "kv = (k, v)" by (cases kv)
  have "ok (Suc (length kvs + n)) c" using Cons.prems by simp
  note u = upsert_ok [OF this, of "f v" now k v]
  from Cons.IH [OF u(1), unfolded u(2)] show ?case
    by (simp only: kv foldl.simps prod.case merge_all.simps)
qed

end

section \<open>The hash table as such a table\<close>

lemma rehash_cleanup_fields: "c_cleanup (sigar_perform_cleanup_if_necessary t now) = c_cleanup t"
  by (simp add: sigar_perform_cleanup_if_necessary_def Let_def rehash_fields)

lemma get_cleanup_field: "c_cleanup (snd (sigar_cache_get t k a b)) = c_cleanup t"
  by (simp add: sigar_cache_get_def Let_def rehash_fields rehash_cleanup_fields split: option.split)

lemma find_cleanup_field: "c_cleanup (snd (sigar_cache_find t k a b)) = c_cleanup t"
  by (simp add: sigar_cache_find_def Let_def rehash_cleanup_fields split: option.split)

lemma no_expiry: "c_cleanup t = SIGAR_FIELD_NOTIMPL \<Longrightarrow> cache_seen t now = cache_stored t"
  by (auto simp: cache_seen_def cache_stored_def cache_view_def cleanup_due_def fun_eq_iff split: option.split)

lemma no_expiry_view: "c_cleanup t = SIGAR_FIELD_NOTIMPL \<Longrightarrow> cache_view t now = cache_lookup t"
  by (auto simp: cache_view_def cleanup_due_def fun_eq_iff split: option.split)

definition perm_ok :: "nat \<Rightarrow> 'v cache \<Rightarrow> bool" where
  "perm_ok n t \<longleftrightarrow> cache_inv t \<and> c_cleanup t = SIGAR_FIELD_NOTIMPL \<and> length (cache_all t) + n < 2 ^ 31"

definition cache_present :: "'v cache \<Rightarrow> uint64 \<Rightarrow> bool" where
  "cache_present t k = (cache_lookup t k \<noteq> None)"

definition cache_get_now :: "'v cache \<Rightarrow> uint64 \<Rightarrow> uint64 \<Rightarrow> 'v option \<times> 'v cache" where
  "cache_get_now t k now = cache_get_value t k now now"

definition cache_find_now :: "'v cache \<Rightarrow> uint64 \<Rightarrow> uint64 \<Rightarrow> bool \<times> 'v cache" where
  "cache_find_now t k now = (case sigar_cache_find t k now now of (e, t1) \<Rightarrow> (e \<noteq> None, t1))"

lemma perm_get:
  assumes "perm_ok (Suc n) t" and "cache_get_now t k now = (r, t1)"
  shows "r = cache_stored t k \<and> cache_stored t1 = cache_stored t \<and> perm_ok n t1 \<and>
    cache_present t1 = (cache_present t)(k := True)"
proof -
  have t: "cache_inv t" "c_cleanup t = SIGAR_FIELD_NOTIMPL" "length (cache_all t) < 2 ^ 31 - 1" "cache_room t"
    "length (cache_all t) + Suc n < 2 ^ 31"
    using assms(1) by (simp_all add: perm_ok_def cache_room_def)
  have g: "cache_get_value t k now now = (r, t1)" using assms(2) by (simp add: cache_get_now_def)
  have t1: "t1 = snd (sigar_cache_get t k now now)" using g cache_get_value_parts(2) [of t k now now] by simp
  have "cache_inv t1" "r = cache_stored t k" "cache_stored t1 = cache_stored t"
    using id_table.get_inv [OF t(1,4), of k now now] id_table.get_result [OF t(1,4), of k now now]
      id_table.get_stored [OF t(1,4), of k now now] g no_expiry [OF t(2)] by simp_all
  moreover have "c_cleanup t1 = SIGAR_FIELD_NOTIMPL" unfolding t1 get_cleanup_field by (rule t(2))
  moreover have "length (cache_all t1) + n < 2 ^ 31" using get_length [OF t(1,3), of k now now] t(5) t1 by simp
  moreover have "cache_present t1 = (cache_present t)(k := True)"
    using get_ok(3) [OF t(1,3), of k now now] no_expiry_view [OF t(2)] t1
    by (auto simp: cache_present_def fun_eq_iff)
  ultimately show ?thesis by (simp add: perm_ok_def)
qed

lemma perm_find:
  assumes "perm_ok n t" and "cache_find_now t k now = (b, t1)"
  shows "b = cache_present t k \<and> cache_stored t1 = cache_stored t \<and> perm_ok n t1 \<and> cache_present t1 = cache_present t"
proof -
  have t: "cache_inv t" "c_cleanup t = SIGAR_FIELD_NOTIMPL" "length (cache_all t) + n < 2 ^ 31"
    using assms(1) by (simp_all add: perm_ok_def)
  obtain e t2 where f: "sigar_cache_find t k now now = (e, t2)" by (cases "sigar_cache_find t k now now")
  have t1: "t1 = t2" "b = (e \<noteq> None)" using assms(2) f by (simp_all add: cache_find_now_def)
  note ok = find_ok [OF t(1), of k now now, unfolded f snd_conv fst_conv no_expiry_view [OF t(2)]]
  have "c_cleanup t2 = SIGAR_FIELD_NOTIMPL" using find_cleanup_field [of t k now now] f t(2) by simp
  moreover have "length (cache_all t2) \<le> length (cache_all t)" using find_length [OF t(1), of k now now] f by simp
  moreover have "cache_stored t2 = cache_stored t" "cache_present t2 = cache_present t"
    using ok(3) by (auto simp: cache_stored_def cache_present_def fun_eq_iff split: option.splits)
  ultimately show ?thesis using ok(1,2) t(3) t1 by (auto simp: perm_ok_def cache_present_def)
qed

lemma perm_put:
  assumes "perm_ok n t" and "cache_present t k"
  shows "perm_ok n (cache_set_value t k v) \<and> cache_stored (cache_set_value t k v) = (cache_stored t)(k \<mapsto> v) \<and>
    cache_present (cache_set_value t k v) = cache_present t"
proof -
  have t: "cache_inv t" using assms(1) by (simp add: perm_ok_def)
  have p: "cache_lookup t k \<noteq> None" using assms(2) by (simp add: cache_present_def)
  have "c_cleanup (cache_set_value t k v) = c_cleanup t" by (simp add: cache_set_value_def)
  moreover have "length (cache_all (cache_set_value t k v)) = length (cache_all t)" by (simp add: set_value_all)
  moreover have "cache_present (cache_set_value t k v) = cache_present t"
    by (auto simp: cache_present_def set_value_lookup fun_eq_iff)
  ultimately show ?thesis
    using assms(1) id_table.set_inv [OF t, of k v] id_table.set_stored [OF t p, of v] by (simp add: perm_ok_def)
qed

interpretation perm: perm_table perm_ok cache_stored cache_present cache_get_now cache_find_now cache_set_value
  by unfold_locales
    (simp add: perm_ok_def, rule perm_get, assumption+, rule perm_find, assumption+, rule perm_put, assumption+)

lemma perm_new: "0 < sz \<Longrightarrow> n < 2 ^ 31 \<Longrightarrow> perm_ok n (sigar_cache_new sz now)"
  by (simp add: perm_ok_def sigar_cache_new_def new_inv)
    (simp add: cache_all_def sigar_expired_cache_new_def)

lemma perm_new_content: "cache_stored (sigar_cache_new sz now) = Map.empty" "cache_present (sigar_cache_new sz now) = (\<lambda>k. False)"
  by (auto simp: cache_stored_def cache_present_def sigar_cache_new_def new_lookup fun_eq_iff)

end
