(* ===== verification/Sigar_Format.thy ===== *)
theory Sigar_Format
  imports Sigar_Util Sigar_Types Sigar_Table
begin

text \<open>
  The formatting functions of \<open>src/sigar_format.c\<close>: user and group names, error strings,
  human-readable sizes and uptimes, addresses, connection and interface descriptions, the
  service-name cache and the CPU percentages. The build is the Linux one (re-entrant
  passwd and group lookups, \<open>inet_ntop\<close>), on a little-endian machine. A buffer is the string
  written to it; lookups in system databases are parameters.
\<close>

section \<open>Users and groups\<close>

text \<open>The outcome of a re-entrant lookup: an error number, no such entry, or the entry.\<close>

datatype 'a lookup_r = LookupError status | NotFound | Found 'a

definition sigar_user_name_get :: "(int \<Rightarrow> string lookup_r) \<Rightarrow> int \<Rightarrow> nat \<Rightarrow> status + string" where
  "sigar_user_name_get getpwuid_r uid buflen =
     (case getpwuid_r uid of
        LookupError errno \<Rightarrow> Inl errno
      | NotFound \<Rightarrow> Inl ENOENT
      | Found pw_name \<Rightarrow> Inr (take (buflen - 1) pw_name))"

text \<open>An entry's name may be NULL; a missing group is written as its number and then cut at
  the buffer length.\<close>

definition sigar_group_name_get :: "(int \<Rightarrow> string option lookup_r) \<Rightarrow> int \<Rightarrow> nat \<Rightarrow> status + string" where
  "sigar_group_name_get getgrgid_r gid buflen =
     (case getgrgid_r gid of
        LookupError errno \<Rightarrow> Inl errno
      | Found (Some gr_name) \<Rightarrow> Inr (take (buflen - 1) gr_name)
      | _ \<Rightarrow> Inr (take (buflen - 1) (dec_int gid)))"

text \<open>\<open>sigar_user_id_get\<close> does not test for a missing entry: it dereferences NULL then.\<close>

definition sigar_user_id_get :: "(string \<Rightarrow> uint32 lookup_r) \<Rightarrow> string \<Rightarrow> (status + uint32) ub" where
  "sigar_user_id_get getpwnam_r name =
     (case getpwnam_r name of
        LookupError errno \<Rightarrow> Some (Inl errno)
      | NotFound \<Rightarrow> None
      | Found uid \<Rightarrow> Some (Inr uid))"

section \<open>Error strings\<close>

definition sigar_error_string :: "status \<Rightarrow> string" where
  "sigar_error_string err =
     (if err = SIGAR_ENOTIMPL then ''This function has not been implemented on this platform''
      else ''Error string not specified yet'')"

text \<open>The error buffer of a \<open>sigar_t\<close> has 256 bytes.\<close>

definition sigar_strerror_get :: "(status \<Rightarrow> string option) \<Rightarrow> status \<Rightarrow> string \<Rightarrow> nat \<Rightarrow> string" where
  "sigar_strerror_get strerror err errbuf buflen =
     (case strerror err of Some buf \<Rightarrow> sstrcpy buflen buf | None \<Rightarrow> errbuf)"

text \<open>The string returned and the error buffer afterwards.\<close>

definition sigar_strerror ::
  "(status \<Rightarrow> string option) \<Rightarrow> (status \<Rightarrow> string option) \<Rightarrow> string \<Rightarrow> status \<Rightarrow> string \<times> string" where
  "sigar_strerror os_error_string strerror errbuf err =
     (if err < 0 then (errbuf, errbuf)
      else if SIGAR_OS_START_ERROR < err then
        (case os_error_string err of Some buf \<Rightarrow> (buf, errbuf) | None \<Rightarrow> (''Unknown OS Error'', errbuf))
      else if SIGAR_START_ERROR < err then (sigar_error_string err, errbuf)
      else (let b = sigar_strerror_get strerror err errbuf 256 in (b, b)))"

definition sigar_strerror_set :: "string \<Rightarrow> string" where
  "sigar_strerror_set msg = sstrcpy 256 msg"

definition sigar_strerror_printf :: "string \<Rightarrow> string" where
  "sigar_strerror_printf formatted = take 255 formatted"

section \<open>Sizes and times\<close>

definition pad_left :: "nat \<Rightarrow> char \<Rightarrow> string \<Rightarrow> string" where
  "pad_left w c s = replicate (w - length s) c @ s"

text \<open>The loop of \<open>sigar_format_size\<close>, on the unit letters not yet passed; reading past the last
  letter is undefined.\<close>

fun format_size_loop :: "string \<Rightarrow> uint64 \<Rightarrow> string ub" where
  "format_size_loop [] sz0 = None"
| "format_size_loop (u # us) sz0 =
     (let remain = unat (sz0 AND 1023);
          sz = drop_bit 10 sz0
      in if 973 \<le> sz then format_size_loop us sz
         else if sz < 9 \<or> (sz = 9 \<and> remain < 973) then
           (let r = (remain * 5 + 256) div 512 in
            if 10 \<le> r then Some (dec_digits (unat (sz + 1)) @ ''.'' @ dec_digits 0 @ [u])
            else Some (dec_digits (unat sz) @ ''.'' @ dec_digits r @ [u]))
         else Some (pad_left 3 (CHR '' '') (dec_digits (unat (if 512 \<le> remain then sz + 1 else sz))) @ [u]))"

definition sigar_format_size :: "uint64 \<Rightarrow> string ub" where
  "sigar_format_size sz =
     (if sz = SIGAR_FIELD_NOTIMPL then Some ''-''
      else if sz < 973 then Some (pad_left 3 (CHR '' '') (dec_digits (unat sz)) @ '' '')
      else format_size_loop ''KMGTPE'' sz)"

text \<open>\<open>sigar_uptime_string\<close> of an uptime of so many whole seconds (the \<open>double\<close> cast to \<open>int\<close>).\<close>

definition sigar_uptime_string :: "nat \<Rightarrow> string" where
  "sigar_uptime_string time =
     (let days = time div (60 * 60 * 24);
          minutes0 = time div 60;
          hours0 = minutes0 div 60;
          hours = hours0 mod 24;
          minutes = minutes0 mod 60;
          ds = (if days \<noteq> 0 then dec_digits days @ '' day'' @ (if 1 < days then ''s'' else []) @ '', '' else [])
      in if hours \<noteq> 0
         then ds @ pad_left 2 (CHR '' '') (dec_digits hours) @ '':'' @ pad_left 2 (CHR ''0'') (dec_digits minutes)
         else ds @ dec_digits minutes @ '' min'')"

section \<open>Addresses\<close>

text \<open>Byte \<open>k\<close> of a 32-bit value in memory (little-endian).\<close>

definition mem_byte :: "uint32 \<Rightarrow> nat \<Rightarrow> nat" where
  "mem_byte address k = unat (drop_bit (8 * k) address AND 255)"

definition ntoa_byte :: "nat \<Rightarrow> string" where
  "ntoa_byte u =
     (if 99 < u then [digit_char (u div 100), digit_char (u mod 100 div 10), digit_char (u mod 100 mod 10)]
      else if 9 < u then [digit_char (u div 10), digit_char (u mod 10)]
      else [digit_char u])"

text \<open>The loop writes a dot after each byte and the last one is overwritten by the NUL.\<close>

definition sigar_inet_ntoa :: "uint32 \<Rightarrow> string" where
  "sigar_inet_ntoa address = butlast (concat (map (\<lambda>k. ntoa_byte (mem_byte address k) @ ''.'') [0..<4]))"

definition hex_digit :: "nat \<Rightarrow> char" where
  "hex_digit d = (if d < 10 then char_of (48 + d) else char_of (55 + d))"

definition hex_byte :: "nat \<Rightarrow> string" where
  "hex_byte b = [hex_digit (b div 16), hex_digit (b mod 16)]"

text \<open>The address union is its 16 bytes of memory, of which \<open>in\<close> is the first four and \<open>mac\<close> the
  first eight.\<close>

record sigar_net_address =
  na_family :: nat
  na_addr :: "nat list"

abbreviation (input) SIGAR_AF_UNSPEC :: nat where "SIGAR_AF_UNSPEC \<equiv> 0"
abbreviation (input) SIGAR_AF_INET :: nat where "SIGAR_AF_INET \<equiv> 1"
abbreviation (input) SIGAR_AF_INET6 :: nat where "SIGAR_AF_INET6 \<equiv> 2"
abbreviation (input) SIGAR_AF_LINK :: nat where "SIGAR_AF_LINK \<equiv> 3"

definition addr_in :: "sigar_net_address \<Rightarrow> uint32" where
  "addr_in a = of_nat (horner_sum id 256 (take 4 (na_addr a)))"

definition sigar_ether_ntoa :: "nat list \<Rightarrow> string" where
  "sigar_ether_ntoa ptr =
     hex_byte (ptr ! 0) @ '':'' @ hex_byte (ptr ! 1) @ '':'' @ hex_byte (ptr ! 2) @ '':'' @
     hex_byte (ptr ! 3) @ '':'' @ hex_byte (ptr ! 4) @ '':'' @ hex_byte (ptr ! 5)"

text \<open>\<open>memcmp\<close>, by the sign of its result.\<close>

fun memcmp :: "nat list \<Rightarrow> nat list \<Rightarrow> int" where
  "memcmp (x # xs) (y # ys) = (if x < y then - 1 else if y < x then 1 else memcmp xs ys)"
| "memcmp _ _ = 0"

definition sigar_net_address_equals :: "sigar_net_address \<Rightarrow> sigar_net_address \<Rightarrow> int" where
  "sigar_net_address_equals addr1 addr2 =
     (if na_family addr1 \<noteq> na_family addr2 then EINVAL
      else if na_family addr1 = SIGAR_AF_INET then memcmp (take 4 (na_addr addr1)) (take 4 (na_addr addr2))
      else if na_family addr1 = SIGAR_AF_INET6 then memcmp (take 16 (na_addr addr1)) (take 16 (na_addr addr2))
      else if na_family addr1 = SIGAR_AF_LINK then memcmp (take 8 (na_addr addr1)) (take 8 (na_addr addr2))
      else EINVAL)"

definition sigar_net_address_to_string ::
  "(nat list \<Rightarrow> status + string) \<Rightarrow> sigar_net_address \<Rightarrow> status \<times> string" where
  "sigar_net_address_to_string inet_ntop6 address =
     (if na_family address = SIGAR_AF_INET6 then
        (case inet_ntop6 (take 16 (na_addr address)) of Inr s \<Rightarrow> (SIGAR_OK, s) | Inl errno \<Rightarrow> (errno, []))
      else if na_family address = SIGAR_AF_INET then (SIGAR_OK, sigar_inet_ntoa (addr_in address))
      else if na_family address = SIGAR_AF_UNSPEC then (SIGAR_OK, sigar_inet_ntoa 0)
      else if na_family address = SIGAR_AF_LINK then (SIGAR_OK, sigar_ether_ntoa (na_addr address))
      else (EINVAL, []))"

text \<open>The inner loop of the hash: up to \<open>elts\<close> bytes shifted into one component (an \<open>int\<close> whose
  left shift keeps the low 32 bits).\<close>

definition hash_component :: "nat list \<Rightarrow> uint32" where
  "hash_component bytes = foldl (\<lambda>c d. push_bit 8 c + of_nat d) 0 bytes"

function hash_loop :: "nat \<Rightarrow> nat list \<Rightarrow> uint32 \<Rightarrow> uint32" where
  "hash_loop elts data hash =
     (if data = [] \<or> elts = 0 then hash
      else hash_loop elts (drop elts data) (hash + hash_component (take elts data)))"
  by pat_completeness auto
termination
  by (relation "measure (\<lambda>(elts, data, hash). length data)") auto

declare hash_loop.simps [simp del]

definition sigar_net_address_hash :: "sigar_net_address \<Rightarrow> uint32" where
  "sigar_net_address_hash address =
     (if na_family address = SIGAR_AF_UNSPEC \<or> na_family address = SIGAR_AF_INET then addr_in address
      else if na_family address = SIGAR_AF_INET6 then hash_loop 4 (take 16 (na_addr address)) 0
      else if na_family address = SIGAR_AF_LINK then hash_loop 2 (take 8 (na_addr address)) 0
      else - 1)"

section \<open>Names of scopes, connections and interface flags\<close>

definition sigar_net_scope_to_string :: "nat \<Rightarrow> string" where
  "sigar_net_scope_to_string type =
     (if type = 0 then ''Global'' else if type = 0x10 then ''Host'' else if type = 0x20 then ''Link''
      else if type = 0x40 then ''Site'' else if type = 0x80 then ''Compat'' else ''Unknown'')"

definition sigar_net_connection_type_get :: "nat \<Rightarrow> string" where
  "sigar_net_connection_type_get type =
     (if type = 0x10 then ''tcp'' else if type = 0x20 then ''udp'' else if type = 0x40 then ''raw''
      else if type = 0x80 then ''unix'' else ''unknown'')"

definition sigar_net_connection_state_get :: "nat \<Rightarrow> string" where
  "sigar_net_connection_state_get state =
     (if state = 1 then ''ESTABLISHED''
      else if state = 2 then ''SYN_SENT''
      else if state = 3 then ''SYN_RECV''
      else if state = 4 then ''FIN_WAIT1''
      else if state = 5 then ''FIN_WAIT2''
      else if state = 6 then ''TIME_WAIT''
      else if state = 7 then ''CLOSE''
      else if state = 8 then ''CLOSE_WAIT''
      else if state = 9 then ''LAST_ACK''
      else if state = 10 then ''LISTEN''
      else if state = 11 then ''CLOSING''
      else if state = 12 then ''IDLE''
      else if state = 13 then ''BOUND''
      else ''UNKNOWN'')"

definition sigar_net_interface_flags_to_string :: "uint64 \<Rightarrow> string" where
  "sigar_net_interface_flags_to_string flags =
     (if flags = 0 then ''[NO FLAGS] '' else []) @
     (if flags AND 0x1 \<noteq> 0 then ''UP '' else []) @
     (if flags AND 0x2 \<noteq> 0 then ''BROADCAST '' else []) @
     (if flags AND 0x4 \<noteq> 0 then ''DEBUG '' else []) @
     (if flags AND 0x8 \<noteq> 0 then ''LOOPBACK '' else []) @
     (if flags AND 0x10 \<noteq> 0 then ''POINTOPOINT '' else []) @
     (if flags AND 0x20 \<noteq> 0 then ''NOTRAILERS '' else []) @
     (if flags AND 0x40 \<noteq> 0 then ''RUNNING '' else []) @
     (if flags AND 0x80 \<noteq> 0 then ''NOARP '' else []) @
     (if flags AND 0x100 \<noteq> 0 then ''PROMISC '' else []) @
     (if flags AND 0x200 \<noteq> 0 then ''ALLMULTI '' else []) @
     (if flags AND 0x800 \<noteq> 0 then ''MULTICAST '' else []) @
     (if flags AND 0x1000 \<noteq> 0 then ''SLAVE '' else []) @
     (if flags AND 0x2000 \<noteq> 0 then ''MASTER '' else []) @
     (if flags AND 0x4000 \<noteq> 0 then ''DYNAMIC '' else [])"

section \<open>Service names\<close>

text \<open>\<open>sscanf(ptr, "%s%d/%s", name, &port, proto)\<close>: None when fewer than three items are
  assigned. A word of \<open>%s\<close> is a maximal run of non-space characters; the port is read as by
  \<open>strtol\<close> and stored in an \<open>int\<close>.\<close>

definition scan_word :: "string \<Rightarrow> string \<times> string" where
  "scan_word s = (takeWhile (\<lambda>c. \<not> isspace c) (skip_space s), dropWhile (\<lambda>c. \<not> isspace c) (skip_space s))"

definition scan_service :: "string \<Rightarrow> (string \<times> uint32 \<times> string) option" where
  "scan_service s =
     (case scan_word s of (name, r1) \<Rightarrow>
        if name = [] then None
        else (case strtol r1 of (v, r2, erange) \<Rightarrow>
                if r2 = r1 then None
                else (case r2 of
                        [] \<Rightarrow> None
                      | c # r3 \<Rightarrow>
                          if c \<noteq> CHR ''/'' then None
                          else (case scan_word r3 of (proto, r4) \<Rightarrow>
                                  if proto = [] then None else Some (name, ucast v, proto)))))"

text \<open>What one line of the services file contributes.\<close>

definition service_line :: "string \<Rightarrow> string \<Rightarrow> (uint64 \<times> string) option" where
  "service_line type buffer =
     (let ptr = skip_space buffer in
      if ptr = [] \<or> hd ptr = CHR ''#'' then None
      else (case scan_service ptr of
              None \<Rightarrow> None
            | Some (name, port, proto) \<Rightarrow> if strEQ type proto then Some (scast port, name) else None))"

text \<open>The body of the loop: the first name seen for a port is kept.\<close>

definition service_add :: "uint64 \<Rightarrow> string cache \<Rightarrow> uint64 \<Rightarrow> string \<Rightarrow> string cache" where
  "service_add now names port name =
     (case cache_get_value names port now now of
        (Some _, names1) \<Rightarrow> names1
      | (None, names1) \<Rightarrow> cache_set_value names1 port name)"

fun services_loop :: "uint64 \<Rightarrow> string \<Rightarrow> string list \<Rightarrow> string cache \<Rightarrow> string cache" where
  "services_loop now type [] names = names"
| "services_loop now type (line # lines) names =
     (case service_line type line of
        None \<Rightarrow> services_loop now type lines names
      | Some (port, name) \<Rightarrow> services_loop now type lines (service_add now names port name))"

text \<open>\<open>fopen\<close> of the services file: an error number, or the lines \<open>fgets\<close> delivers.\<close>

definition net_services_parse :: "(status + string list) \<Rightarrow> uint64 \<Rightarrow> string cache \<Rightarrow> string \<Rightarrow> status \<times> string cache" where
  "net_services_parse fopen now names type =
     (case fopen of
        Inl errno \<Rightarrow> (errno, names)
      | Inr lines \<Rightarrow> (SIGAR_OK, services_loop now type lines names))"

record net_services =
  net_services_tcp :: "string cache option"
  net_services_udp :: "string cache option"

definition services_cache :: "(status + string list) \<Rightarrow> uint64 \<Rightarrow> string cache option \<Rightarrow> string \<Rightarrow> string cache" where
  "services_cache fopen now names pname =
     (case names of
        Some c \<Rightarrow> c
      | None \<Rightarrow> snd (net_services_parse fopen now (sigar_cache_new 1024 now) pname))"

definition cache_find_value :: "'v cache \<Rightarrow> uint64 \<Rightarrow> uint64 \<Rightarrow> 'v option \<times> 'v cache" where
  "cache_find_value t k now = (case sigar_cache_find t k now now of (e, t1) \<Rightarrow> (Option.bind e e_value, t1))"

definition sigar_net_services_name_get ::
  "(status + string list) \<Rightarrow> uint64 \<Rightarrow> net_services \<Rightarrow> nat \<Rightarrow> uint64 \<Rightarrow> string option \<times> net_services" where
  "sigar_net_services_name_get fopen now sigar protocol port =
     (if protocol = 0x10 then
        (let (name, c) = cache_find_value (services_cache fopen now (net_services_tcp sigar) ''tcp'') port now
         in (name, sigar\<lparr>net_services_tcp := Some c\<rparr>))
      else if protocol = 0x20 then
        (let (name, c) = cache_find_value (services_cache fopen now (net_services_udp sigar) ''udp'') port now
         in (name, sigar\<lparr>net_services_udp := Some c\<rparr>))
      else (None, sigar))"

section \<open>CPU percentages\<close>

record sigar_cpu =
  cpu_user :: uint64
  cpu_sys :: uint64
  cpu_nice :: uint64
  cpu_idle :: uint64
  cpu_wait :: uint64
  cpu_irq :: uint64
  cpu_soft_irq :: uint64
  cpu_stolen :: uint64
  cpu_total :: uint64

record sigar_cpu_perc =
  perc_user :: dbl
  perc_sys :: dbl
  perc_nice :: dbl
  perc_idle :: dbl
  perc_wait :: dbl
  perc_irq :: dbl
  perc_soft_irq :: dbl
  perc_stolen :: dbl
  perc_combined :: dbl

text \<open>\<open>diff = curr - prev\<close> is an unsigned subtraction whose result is converted to
  \<open>double\<close>; then comes the clamp \<open>diff < 0 ? 0 : diff\<close>.\<close>

definition cpu_diff :: "rounding \<Rightarrow> uint64 \<Rightarrow> uint64 \<Rightarrow> rat" where
  "cpu_diff rnd c p = (let d = dbl_of_u64 rnd (c - p) in if d < 0 then 0 else d)"

definition sigar_cpu_perc_calculate :: "rounding \<Rightarrow> sigar_cpu \<Rightarrow> sigar_cpu \<Rightarrow> sigar_cpu_perc" where
  "sigar_cpu_perc_calculate rnd prev cur =
     (let diff_user = cpu_diff rnd (cpu_user cur) (cpu_user prev);
          diff_sys = cpu_diff rnd (cpu_sys cur) (cpu_sys prev);
          diff_nice = cpu_diff rnd (cpu_nice cur) (cpu_nice prev);
          diff_idle = cpu_diff rnd (cpu_idle cur) (cpu_idle prev);
          diff_wait = cpu_diff rnd (cpu_wait cur) (cpu_wait prev);
          diff_irq = cpu_diff rnd (cpu_irq cur) (cpu_irq prev);
          diff_soft_irq = cpu_diff rnd (cpu_soft_irq cur) (cpu_soft_irq prev);
          diff_stolen = cpu_diff rnd (cpu_stolen cur) (cpu_stolen prev);
          diff_total = rnd (rnd (rnd (rnd (rnd (rnd (rnd (diff_user + diff_sys) + diff_nice) + diff_idle) + diff_wait)
                         + diff_irq) + diff_soft_irq) + diff_stolen);
          user = dbl_div_fin rnd diff_user diff_total;
          sys = dbl_div_fin rnd diff_sys diff_total;
          nice = dbl_div_fin rnd diff_nice diff_total;
          wait = dbl_div_fin rnd diff_wait diff_total
      in \<lparr>perc_user = user, perc_sys = sys, perc_nice = nice,
          perc_idle = dbl_div_fin rnd diff_idle diff_total, perc_wait = wait,
          perc_irq = dbl_div_fin rnd diff_irq diff_total,
          perc_soft_irq = dbl_div_fin rnd diff_soft_irq diff_total,
          perc_stolen = dbl_div_fin rnd diff_stolen diff_total,
          perc_combined = dbl_add rnd (dbl_add rnd (dbl_add rnd user sys) nice) wait\<rparr>)"

section \<open>Facts about the formats\<close>

lemma length_dec_digits_1: "n < 10 \<Longrightarrow> length (dec_digits n) = 1"
  by (simp add: dec_digits.simps)

lemma length_dec_digits_3: "n < 1000 \<Longrightarrow> length (dec_digits n) \<le> 3"
  by (simp add: dec_digits.simps [of n] dec_digits.simps [of "n div 10"] dec_digits.simps [of "n div 10 div 10"])

lemma length_pad_left: "length s \<le> w \<Longrightarrow> length (pad_left w c s) = w"
  by (simp add: pad_left_def)

lemma unat_drop_10: "unat (drop_bit 10 (w :: uint64)) = unat w div 1024"
  by (simp add: drop_bit_eq_div unat_div)

lemma format_size_loop_ok:
  assumes "us \<noteq> []" and "unat sz0 < 973 * 1024 ^ length us"
  shows "\<exists>s. format_size_loop us sz0 = Some s \<and> length s = 4"
  using assms
proof (induction us arbitrary: sz0)
  case Nil
  then show ?case by simp
next
  case (Cons u us)
  let ?sz = "drop_bit 10 sz0" and ?r = "unat (sz0 AND 1023)"
  have lt: "unat ?sz < 973 * 1024 ^ length us"
    using Cons.prems(2) by (simp add: unat_drop_10 less_mult_imp_div_less algebra_simps)
  show ?case
  proof (cases "973 \<le> ?sz")
    case True
    then have "us \<noteq> []" using lt by (cases us) (auto simp: word_le_nat_alt)
    with Cons.IH [OF _ lt] True show ?thesis by simp
  next
    case False
    then have sz: "unat ?sz < 973" by (simp add: word_le_nat_alt)
    show ?thesis
    proof (cases "?sz < 9 \<or> ?sz = 9 \<and> ?r < 973")
      case small: True
      let ?q = "(?r * 5 + 256) div 512"
      have s9: "unat ?sz \<le> 9" using small by (auto simp: word_less_nat_alt)
      show ?thesis
      proof (cases "10 \<le> ?q")
        case True
        then have "?sz < 9" using small by auto
        then have "unat (?sz + 1) < 10" by (simp add: word_less_nat_alt unat_word_ariths)
        with False small True show ?thesis by (simp add: Let_def length_dec_digits_1 del: One_nat_def)
      next
        case q: False
        with False small s9 show ?thesis by (simp add: Let_def length_dec_digits_1 del: One_nat_def)
      qed
    next
      case big: False
      have "unat (if 512 \<le> ?r then ?sz + 1 else ?sz) < 1000" using sz by (auto simp: unat_word_ariths)
      with False big show ?thesis
        by (simp only: format_size_loop.simps Let_def if_False simp_thms) (simp add: length_pad_left length_dec_digits_3)
    qed
  qed
qed

lemma ntoa_byte_dec: "u < 256 \<Longrightarrow> ntoa_byte u = dec_digits u"
proof -
  have "u mod 100 = 10 * (u div 10 mod 10) + u mod 10" using mod_mult2_eq [of u 10 10] by simp
  then have m: "u mod 100 mod 10 = u mod 10" "u mod 100 div 10 = u div 10 mod 10" by simp_all
  assume u: "u < 256"
  consider "u < 10" | "10 \<le> u" "u < 100" | "100 \<le> u" by linarith
  then show ?thesis
  proof cases
    case 1
    then show ?thesis by (simp add: ntoa_byte_def dec_digits.simps [of u])
  next
    case 2
    then have "u div 10 < 10" by linarith
    with 2 show ?thesis by (simp add: ntoa_byte_def dec_digits.simps [of u] dec_digits.simps [of "u div 10"])
  next
    case 3
    then have "\<not> u div 10 < 10" "u div 100 < 10" using u by linarith+
    with 3 show ?thesis
      by (simp add: ntoa_byte_def m dec_digits.simps [of u] dec_digits.simps [of "u div 10"]
          dec_digits.simps [of "u div 100"] div_mult2_eq [symmetric])
  qed
qed

lemma mem_byte_div: "mem_byte a k = unat a div 256 ^ k mod 256"
proof -
  have "drop_bit (8 * k) a AND 255 = take_bit 8 (drop_bit (8 * k) a)"
    by (simp add: take_bit_eq_mask mask_eq_exp_minus_1)
  moreover have "take_bit 32 (unat a) = unat a"
    using unsigned_less [of a, where ?'a = nat] by (simp add: take_bit_nat_eq_self_iff)
  ultimately have "mem_byte a k = take_bit 8 (drop_bit (8 * k) (unat a))"
    by (simp add: mem_byte_def unsigned_take_bit_eq unsigned_drop_bit_eq)
  then show ?thesis by (simp add: take_bit_eq_mod drop_bit_eq_div power_mult)
qed

lemma mem_byte_less: "mem_byte a k < 256"
  by (simp add: mem_byte_div)

lemma memcmp_eq: "length xs = length ys \<Longrightarrow> memcmp xs ys = 0 \<longleftrightarrow> xs = ys"
  by (induction xs ys rule: memcmp.induct) auto

lemma length_ntoa_byte: "u < 256 \<Longrightarrow> length (ntoa_byte u) \<le> 3"
  by (simp add: ntoa_byte_def)

lemma ntoa_unfold:
  "sigar_inet_ntoa a = ntoa_byte (mem_byte a 0) @ ''.'' @ ntoa_byte (mem_byte a 1) @ ''.'' @
     ntoa_byte (mem_byte a 2) @ ''.'' @ ntoa_byte (mem_byte a 3)"
proof -
  have "[0..<4] = [0 :: nat, 1, 2, 3]" by code_simp
  then show ?thesis by (simp add: sigar_inet_ntoa_def butlast_append)
qed

lemma mem_bytes_value:
  "unat a = mem_byte a 0 + 256 * mem_byte a 1 + 65536 * mem_byte a 2 + 16777216 * mem_byte a 3"
proof -
  define x where "x = unat a"
  define q where "q = x div 256"
  define r where "r = q div 256"
  have lt: "x < 4294967296" using unsigned_less [of a, where ?'a = nat] by (simp add: x_def)
  have e: "x = 256 * q + x mod 256" "q = 256 * r + q mod 256" "r = 256 * (r div 256) + r mod 256"
    by (simp_all add: q_def r_def)
  have d: "x div 65536 = r" "x div 16777216 = r div 256" "r div 256 < 256"
    using lt by (simp_all add: q_def r_def div_mult2_eq [symmetric])
  have "mem_byte a 0 = x mod 256" "mem_byte a 1 = q mod 256" "mem_byte a 2 = r mod 256" "mem_byte a 3 = r div 256"
    unfolding mem_byte_div x_def [symmetric] using d by (simp_all add: q_def)
  then show ?thesis using e unfolding x_def [symmetric] by linarith
qed

section \<open>Facts about the service cache\<close>

lemma service_add_upsert: "service_add now t port name = perm.upsert (\<lambda>_. None) now t port name"
  by (simp add: service_add_def perm.upsert_def cache_get_now_def split: prod.split option.split)

lemma services_loop_ok:
  assumes "perm_ok (length lines + n) t"
  shows "perm_ok n (services_loop now ty lines t)
     \<and> cache_stored (services_loop now ty lines t) = map_add (map_of (List.map_filter (service_line ty) lines)) (cache_stored t)"
  using assms
proof (induction lines arbitrary: t)
  case Nil
  then show ?case by (simp add: map_filter_simps)
next
  case (Cons line lines)
  show ?case
  proof (cases "service_line ty line")
    case None
    moreover have "perm_ok (length lines + n) t" by (rule perm.ok_less [OF Cons.prems]) simp
    ultimately show ?thesis using Cons.IH [of t] by (simp add: map_filter_simps)
  next
    case (Some p)
    obtain port name where p: "p = (port, name)" by (cases p)
    have "perm_ok (Suc (length lines + n)) t" using Cons.prems by simp
    note a = perm.upsert_ok [OF this, of "\<lambda>_. None" now port name]
    have m: "(cache_stored t)(port \<mapsto> perm.merged (\<lambda>_. None) (cache_stored t port) name) = map_add [port \<mapsto> name] (cache_stored t)"
      by (auto simp: fun_eq_iff map_add_def perm.merged_def split: option.split)
    have "map_add m (map_add [port \<mapsto> name] c) = map_add (m(port \<mapsto> name)) c" for m c :: "uint64 \<Rightarrow> string option"
      by (auto simp: fun_eq_iff map_add_def split: option.split)
    with Cons.IH [OF a(1), unfolded a(2) m] Some p show ?thesis
      by (simp add: map_filter_simps service_add_upsert fun_upd_def)
  qed
qed

section \<open>Facts about percentages\<close>

definition representable :: "rounding \<Rightarrow> rat \<Rightarrow> bool" where
  "representable rnd x \<longleftrightarrow> 0 \<le> x \<and> rnd x = x"

lemma cpu_diff_eq:
  assumes "rounding_ok rnd"
  shows "cpu_diff rnd c p = dbl_of_u64 rnd (c - p)" and "representable rnd (cpu_diff rnd c p)"
proof -
  have m: "mono rnd" "rnd 0 = 0" "rnd (rnd x) = rnd x" for x using assms by (simp_all add: rounding_ok_def)
  have n: "0 \<le> dbl_of_u64 rnd (c - p)"
    unfolding dbl_of_u64_def by (rule rnd_nonneg [OF m(1,2)]) (rule of_nat_0_le_iff)
  then show e: "cpu_diff rnd c p = dbl_of_u64 rnd (c - p)" by (simp add: cpu_diff_def)
  have "rnd (dbl_of_u64 rnd (c - p)) = dbl_of_u64 rnd (c - p)"
    unfolding dbl_of_u64_def by (rule m(3))
  with n e show "representable rnd (cpu_diff rnd c p)" by (simp add: representable_def)
qed

lemma rnd_sum:
  assumes "rounding_ok rnd" and "representable rnd x" and "representable rnd y"
  shows "representable rnd (rnd (x + y))" and "x \<le> rnd (x + y)" and "y \<le> rnd (x + y)"
proof -
  have m: "mono rnd" using assms(1) by (simp add: rounding_ok_def)
  have "0 \<le> x" "0 \<le> y" using assms by (simp_all add: representable_def)
  then have "rnd x \<le> rnd (x + y)" "rnd y \<le> rnd (x + y)"
    using monoD [OF m, of x "x + y"] monoD [OF m, of y "x + y"] by simp_all
  then show "x \<le> rnd (x + y)" "y \<le> rnd (x + y)" using assms by (simp_all add: representable_def)
  then show "representable rnd (rnd (x + y))"
    using assms by (simp add: representable_def rounding_ok_def)
qed

lemma share_bounds:
  assumes "rounding_ok rnd" and "0 \<le> x" and "x \<le> t" and "0 < t"
  shows "\<exists>q. dbl_div_fin rnd x t = Fin q \<and> 0 \<le> q \<and> q \<le> 1"
proof -
  have m: "mono rnd" "rnd 0 = 0" "rnd 1 = 1" using assms(1) by (simp_all add: rounding_ok_def)
  have "0 \<le> x / t" "x / t \<le> 1" using assms by simp_all
  then have "0 \<le> rnd (x / t)" "rnd (x / t) \<le> 1" using rnd_nonneg rnd_le_one m by auto
  with assms show ?thesis by (simp add: dbl_div_fin_def)
qed

text \<open>The total of a calculation, added up in the order of the code.\<close>

definition cpu_perc_total :: "rounding \<Rightarrow> sigar_cpu \<Rightarrow> sigar_cpu \<Rightarrow> rat" where
  "cpu_perc_total rnd prev cur =
     foldl (\<lambda>a d. rnd (a + d)) (cpu_diff rnd (cpu_user cur) (cpu_user prev))
       [cpu_diff rnd (cpu_sys cur) (cpu_sys prev), cpu_diff rnd (cpu_nice cur) (cpu_nice prev),
        cpu_diff rnd (cpu_idle cur) (cpu_idle prev), cpu_diff rnd (cpu_wait cur) (cpu_wait prev),
        cpu_diff rnd (cpu_irq cur) (cpu_irq prev), cpu_diff rnd (cpu_soft_irq cur) (cpu_soft_irq prev),
        cpu_diff rnd (cpu_stolen cur) (cpu_stolen prev)]"

lemma foldl_total:
  assumes "rounding_ok rnd" and "representable rnd a" and "list_all (representable rnd) ds"
  shows "a \<le> foldl (\<lambda>a d. rnd (a + d)) a ds \<and> list_all (\<lambda>d. d \<le> foldl (\<lambda>a d. rnd (a + d)) a ds) ds
     \<and> representable rnd (foldl (\<lambda>a d. rnd (a + d)) a ds)"
  using assms(2,3)
proof (induction ds arbitrary: a)
  case Nil
  then show ?case by simp
next
  case (Cons d ds)
  then have d: "representable rnd d" "list_all (representable rnd) ds" by simp_all
  note r = rnd_sum [OF assms(1) Cons.prems(1) d(1)]
  from Cons.IH [OF r(1) d(2)] r show ?case by (auto simp: list_all_iff)
qed

section \<open>Properties\<close>

text \<open>\<open>sigar_format_size\<close> ends for every size, never reads past the unit letters and writes
  at most four characters: three for the number and one for the unit, or \<open>-\<close> for a missing
  value.\<close>

theorem sigar_format_size_bounded:
  "\<exists>s. sigar_format_size sz = Some s \<and> (if sz = SIGAR_FIELD_NOTIMPL then s = ''-'' else length s = 4)"
proof -
  have lt: "unat sz < 973 * 1024 ^ length ''KMGTPE''"
    using unsigned_less [of sz, where ?'a = nat] by simp
  show ?thesis
    using format_size_loop_ok [OF _ lt]
    by (auto simp: sigar_format_size_def length_pad_left length_dec_digits_3 word_less_nat_alt)
qed

text \<open>\<open>sigar_inet_ntoa\<close> writes the four bytes of the address, in memory order, in decimal
  with dots between them; at most 15 characters, so a 16-byte buffer is enough. Different
  addresses give different bytes.\<close>

theorem sigar_inet_ntoa_dotted:
  "sigar_inet_ntoa a = dec_digits (mem_byte a 0) @ ''.'' @ dec_digits (mem_byte a 1) @ ''.'' @
     dec_digits (mem_byte a 2) @ ''.'' @ dec_digits (mem_byte a 3)
   \<and> length (sigar_inet_ntoa a) \<le> 15
   \<and> unat a = mem_byte a 0 + 256 * mem_byte a 1 + 65536 * mem_byte a 2 + 16777216 * mem_byte a 3"
proof -
  have l: "length (ntoa_byte (mem_byte a k)) \<le> 3" for k by (rule length_ntoa_byte [OF mem_byte_less])
  have "length (sigar_inet_ntoa a) \<le> 15"
    using l [of 0] l [of 1] l [of 2] l [of 3] by (simp add: ntoa_unfold)
  then show ?thesis using mem_bytes_value [of a] by (simp add: ntoa_unfold ntoa_byte_dec mem_byte_less)
qed

text \<open>addresses that compare equal hash equal: two addresses of a known family for which
  \<open>sigar_net_address_equals\<close> returns 0 have the same \<open>sigar_net_address_hash\<close>.\<close>

theorem net_address_hash_respects_equals:
  assumes "length (na_addr a) = 16" and "length (na_addr b) = 16" and "sigar_net_address_equals a b = 0"
  shows "sigar_net_address_hash a = sigar_net_address_hash b"
proof -
  have "memcmp (take n (na_addr a)) (take n (na_addr b)) = 0 \<longleftrightarrow> take n (na_addr a) = take n (na_addr b)" for n
    using assms(1,2) by (intro memcmp_eq) simp
  then show ?thesis
    using assms(3) by (auto simp: sigar_net_address_equals_def sigar_net_address_hash_def addr_in_def split: if_splits)
qed

theorem net_address_hash_respects_equals_witness:
  "let a = \<lparr>na_family = SIGAR_AF_LINK, na_addr = [0, 26, 43, 60, 77, 94] @ replicate 10 0\<rparr>;
       b = \<lparr>na_family = SIGAR_AF_LINK, na_addr = [0, 26, 43, 60, 77, 94, 0, 0] @ replicate 8 7\<rparr>
   in sigar_net_address_hash a = sigar_net_address_hash b"
  unfolding Let_def by (rule net_address_hash_respects_equals) code_simp+





text \<open>the clamps of \<open>sigar_cpu_perc_calculate\<close> have no effect, and a repeated sample gives
  nans. The differences are computed in unsigned 64-bit arithmetic, so a counter that went
  back gives a huge positive difference instead of a negative one that would be set to 0;
  with no tick at all the quotient is \<open>0/0\<close>.\<close>

theorem cpu_perc_clamp_dead:
  assumes "rounding_ok rnd"
  shows "cpu_diff rnd c p = rnd (of_nat (if p \<le> c then unat c - unat p else 2 ^ 64 + unat c - unat p))
    \<and> perc_user (sigar_cpu_perc_calculate rnd x x) = NaN"
proof
  have "unat (c - p) = (if p \<le> c then unat c - unat p else 2 ^ 64 + unat c - unat p)"
    unfolding unat_sub_if' word_le_nat_alt using unsigned_less [of p, where ?'a = nat] by auto
  then show "cpu_diff rnd c p = rnd (of_nat (if p \<le> c then unat c - unat p else 2 ^ 64 + unat c - unat p))"
    using cpu_diff_eq(1) [OF assms] by (simp only: dbl_of_u64_def)
  have "cpu_diff rnd w w = 0" for w using cpu_diff_eq(1) [OF assms] assms by (simp add: dbl_of_u64_def rounding_ok_def)
  then show "perc_user (sigar_cpu_perc_calculate rnd x x) = NaN"
    using assms by (simp add: sigar_cpu_perc_calculate_def Let_def dbl_div_fin_def rounding_ok_def)
qed

theorem cpu_perc_clamp_dead_witness: "cpu_diff (\<lambda>x. x) 5 6 = of_nat (2 ^ 64 - 1)"
proof -
  have "\<not> (6 :: uint64) \<le> 5" by simp
  with cpu_perc_clamp_dead [OF id_rounding, of 5 6] show ?thesis by simp
qed

end
