(* ===== verification/Sigar_Procfs.thy ===== *)
theory Sigar_Procfs
  imports Sigar_Util Sigar_Types Sigar_Lists
begin

text \<open>
  The tokenizing and \<open>/proc\<close> helpers of \<open>src/sigar_util.c\<close>: number printing, skipping of tokens
  and lines, \<open>getword\<close>, the names of process files, the list of processes, the count of open
  files and the command line of a process. A directory is what \<open>opendir\<close> and \<open>readdir\<close> report:
  an error number or the names of its entries; the global \<open>gHostFSPrefix\<close> is an argument.
\<close>

section \<open>Printing numbers\<close>

abbreviation (input) UITOA_BUFFER_SIZE :: nat where "UITOA_BUFFER_SIZE \<equiv> 13"

text \<open>The loop writes digits downwards from \<open>start\<close>; writing below the buffer is undefined.\<close>

fun uitoa_loop :: "string \<Rightarrow> nat \<Rightarrow> uint32 \<Rightarrow> nat \<Rightarrow> (string \<times> nat \<times> nat) ub" where
  "uitoa_loop buf 0 n len = None"
| "uitoa_loop buf (Suc start) n len =
     (let buf1 = buf[start := digit_char (unat (n mod 10))];
          n1 = n div 10
      in if n1 \<noteq> 0 then uitoa_loop buf1 start n1 (Suc len) else Some (buf1, start, Suc len))"

definition sigar_uitoa :: "string \<Rightarrow> uint32 \<Rightarrow> nat \<Rightarrow> (string \<times> nat \<times> nat) ub" where
  "sigar_uitoa buf n len =
     uitoa_loop (buf[UITOA_BUFFER_SIZE - 1 := CHR 0x00]) (UITOA_BUFFER_SIZE - 1) n len"

section \<open>Tokens and lines\<close>

text \<open>With no newline the result is \<open>NULL + 1\<close>, which no caller may use.\<close>

definition sigar_skip_line :: "string \<Rightarrow> nat \<Rightarrow> string ub" where
  "sigar_skip_line buffer buflen =
     (let searched = (if buflen \<noteq> 0 then take buflen buffer else buffer);
          i = length (takeWhile (\<lambda>c. c \<noteq> CHR 0x0A) searched)
      in if i < length searched then Some (drop (Suc i) buffer) else None)"

definition sigar_skip_token :: "string \<Rightarrow> string" where
  "sigar_skip_token p = skip_word (skip_space p)"

fun sigar_skip_multiple_token :: "string \<Rightarrow> nat \<Rightarrow> string" where
  "sigar_skip_multiple_token p 0 = p"
| "sigar_skip_multiple_token p (Suc count) = sigar_skip_multiple_token (sigar_skip_token p) count"

text \<open>A stream is the list of buffers \<open>fgets\<close> still delivers.\<close>

fun sigar_skip_file_lines :: "string list option \<Rightarrow> nat \<Rightarrow> status \<times> string list option" where
  "sigar_skip_file_lines None count = (- 1, None)"
| "sigar_skip_file_lines (Some fp) 0 = (SIGAR_OK, Some fp)"
| "sigar_skip_file_lines (Some []) (Suc count) = (- 1, Some [])"
| "sigar_skip_file_lines (Some (l # ls)) (Suc count) = sigar_skip_file_lines (Some ls) count"

text \<open>The word before \<open>stop\<close> and the rest of the line after the run of stop characters.\<close>

definition sigar_getword :: "string \<Rightarrow> char \<Rightarrow> string \<times> string" where
  "sigar_getword line stop =
     (let pos = dropWhile (\<lambda>c. c \<noteq> stop) line
      in (takeWhile (\<lambda>c. c \<noteq> stop) line,
          if stop \<noteq> CHR 0x00 then dropWhile (\<lambda>c. c = stop) pos else pos))"

section \<open>Names of process files\<close>

definition opt_string :: "string option \<Rightarrow> string" where
  "opt_string s = (case s of None \<Rightarrow> [] | Some t \<Rightarrow> t)"

text \<open>The path is built once and kept by the caller.\<close>

definition sigar_proc_path :: "string option \<Rightarrow> string option \<Rightarrow> string option \<Rightarrow> string option \<Rightarrow> string" where
  "sigar_proc_path gHostFSPrefix path prefix suffix =
     (case path of
        Some p \<Rightarrow> p
      | None \<Rightarrow>
          (case gHostFSPrefix of
             Some host \<Rightarrow> host @ opt_string prefix @ opt_string suffix
           | None \<Rightarrow> opt_string prefix @ opt_string suffix))"

abbreviation (input) PATH_MAX :: nat where "PATH_MAX \<equiv> 4096"

abbreviation PROCP_FS_ROOT :: string where "PROCP_FS_ROOT \<equiv> ''/proc/''"

text \<open>The string built in the buffer; \<open>None\<close> where the host prefix overflows the local array or
  the assertion on the buffer length fails.\<close>

definition sigar_proc_filename :: "string option \<Rightarrow> nat \<Rightarrow> pid \<Rightarrow> string \<Rightarrow> string ub" where
  "sigar_proc_filename gHostFSPrefix buflen bigpid fname =
     (case sigar_uitoa (replicate UITOA_BUFFER_SIZE (CHR 0x00)) bigpid 0 of
        None \<Rightarrow> None
      | Some (pid_buf, pid_str, len) \<Rightarrow>
          (let proc_path = (case gHostFSPrefix of Some host \<Rightarrow> host @ PROCP_FS_ROOT | None \<Rightarrow> PROCP_FS_ROOT)
           in if PATH_MAX \<le> length proc_path then None
              else if buflen < length proc_path + UITOA_BUFFER_SIZE + length fname + 1 then None
              else Some (proc_path @ take len (drop pid_str pid_buf) @ fname)))"

definition sigar_proc_file2str ::
  "(string \<Rightarrow> file_read) \<Rightarrow> string option \<Rightarrow> nat \<Rightarrow> pid \<Rightarrow> string \<Rightarrow> (status \<times> string) ub" where
  "sigar_proc_file2str fs gHostFSPrefix buflen pid fname =
     (case sigar_proc_filename gHostFSPrefix buflen pid fname of
        None \<Rightarrow> None
      | Some name \<Rightarrow>
          (case sigar_file2str fs name buflen of
             (retval, buffer) \<Rightarrow> Some (if retval = ENOENT then ESRCH else retval, buffer)))"

section \<open>Processes, open files, command lines\<close>

type_synonym directory = "string \<Rightarrow> status + string list"

fun procfs_list_loop :: "string list \<Rightarrow> pid clist \<Rightarrow> pid clist ub" where
  "procfs_list_loop [] proclist = Some proclist"
| "procfs_list_loop (d_name # ents) proclist =
     (if \<not> starts_digit d_name then procfs_list_loop ents proclist
      else case clist_put sigar_proc_list_grow proclist (ucast (fst (strtoull d_name))) of
             None \<Rightarrow> None
           | Some proclist1 \<Rightarrow> procfs_list_loop ents proclist1)"

definition sigar_proc_list_procfs_get ::
  "directory \<Rightarrow> string option \<Rightarrow> pid clist \<Rightarrow> (status \<times> pid clist) ub" where
  "sigar_proc_list_procfs_get opendir gHostFSPrefix proclist =
     (let proc_path = (case gHostFSPrefix of Some host \<Rightarrow> host @ ''/proc'' | None \<Rightarrow> ''/proc'') in
      if PATH_MAX \<le> length proc_path then None
      else case opendir proc_path of
             Inl errno \<Rightarrow> Some (errno, proclist)
           | Inr ents \<Rightarrow> map_option (\<lambda>l. (SIGAR_OK, l)) (procfs_list_loop ents proclist))"

fun fd_count_loop :: "string list \<Rightarrow> uint64 \<Rightarrow> uint64" where
  "fd_count_loop [] total0 = total0"
| "fd_count_loop (d_name # ents) total0 =
     (if \<not> starts_digit d_name then fd_count_loop ents total0 else fd_count_loop ents (total0 + 1))"

definition sigar_proc_fd_count :: "directory \<Rightarrow> string option \<Rightarrow> pid \<Rightarrow> (status \<times> uint64) ub" where
  "sigar_proc_fd_count opendir gHostFSPrefix pid =
     (case sigar_proc_filename gHostFSPrefix 8192 pid ''/fd'' of
        None \<Rightarrow> None
      | Some name \<Rightarrow>
          (case opendir name of
             Inl errno \<Rightarrow> Some (errno, 0)
           | Inr ents \<Rightarrow> Some (SIGAR_OK, fd_count_loop ents 0)))"

text \<open>The bytes not yet split: \<open>total\<close> is their number, and a NUL follows them.\<close>

function procargs_loop :: "string \<Rightarrow> string clist \<Rightarrow> string clist ub" where
  "procargs_loop bytes procargs =
     (if bytes = [] then Some procargs
      else let arg = cstring bytes;
               alen = length arg + 1
           in case clist_put sigar_proc_args_grow procargs arg of
                None \<Rightarrow> None
              | Some procargs1 \<Rightarrow> procargs_loop (drop alen bytes) procargs1)"
  by pat_completeness auto
termination
  by (relation "measure (\<lambda>(bytes, procargs). length bytes)") auto

declare procargs_loop.simps [simp del]

text \<open>\<open>cmdline\<close>: the open fails with an error number, or the bytes \<open>read\<close> delivers until it
  returns 0 or fails (the loop treats both alike).\<close>

definition sigar_procfs_args_get ::
  "(string \<Rightarrow> status + string) \<Rightarrow> string option \<Rightarrow> pid \<Rightarrow> string clist \<Rightarrow> (status \<times> string clist) ub" where
  "sigar_procfs_args_get cmdline gHostFSPrefix pid procargs =
     (case sigar_proc_filename gHostFSPrefix 9086 pid ''/cmdline'' of
        None \<Rightarrow> None
      | Some name \<Rightarrow>
          (case cmdline name of
             Inl errno \<Rightarrow> Some (if errno = ENOENT then ESRCH else errno, procargs)
           | Inr bytes \<Rightarrow>
               if bytes = [] then Some (SIGAR_OK, procargs\<lparr>l_number := 0\<rparr>)
               else map_option (\<lambda>l. (SIGAR_OK, l)) (procargs_loop bytes procargs)))"

section \<open>Facts\<close>

lemma uitoa_loop_digits:
  assumes "length (dec_digits (unat n)) \<le> start" and "start \<le> length buf"
  shows "uitoa_loop buf start n len =
    Some (take (start - length (dec_digits (unat n))) buf @ dec_digits (unat n) @ drop start buf,
          start - length (dec_digits (unat n)), len + length (dec_digits (unat n)))"
  using assms
proof (induction buf start n len rule: uitoa_loop.induct)
  case (1 buf n len)
  then show ?case by simp
next
  case (2 buf start n len)
  have m: "unat (n mod 10) = unat n mod 10" and d: "unat (n div 10) = unat n div 10"
    by (simp_all add: unat_mod unat_div)
  have z: "n div 10 = 0 \<longleftrightarrow> unat n < 10" using d by (auto simp: unat_eq_zero [symmetric] simp del: unat_eq_zero)
  show ?case
  proof (cases "unat n < 10")
    case True
    then have "dec_digits (unat n) = [digit_char (unat n)]" by (simp add: dec_digits.simps)
    with True z m 2 show ?thesis by (simp add: Let_def upd_conv_take_nth_drop)
  next
    case False
    then have e: "dec_digits (unat n) = dec_digits (unat n div 10) @ [digit_char (unat n mod 10)]"
      by (simp add: dec_digits.simps [of "unat n"])
    let ?b = "buf[start := digit_char (unat (n mod 10))]"
    have "uitoa_loop ?b start (n div 10) (Suc len) =
      Some (take (start - length (dec_digits (unat n div 10))) ?b @ dec_digits (unat n div 10) @ drop start ?b,
          start - length (dec_digits (unat n div 10)), Suc len + length (dec_digits (unat n div 10)))"
      using "2.IH" [of ?b "n div 10"] False z "2.prems" d e by simp
    then show ?thesis
      using False z e m "2.prems" by (simp add: Let_def upd_conv_take_nth_drop)
  qed
qed

lemma length_dec_digits_le: "n < 10 ^ Suc k \<Longrightarrow> length (dec_digits n) \<le> Suc k"
proof (induction k arbitrary: n)
  case 0
  then show ?case by (simp add: dec_digits.simps)
next
  case (Suc k)
  then have "n div 10 < 10 ^ Suc k" by (simp add: less_mult_imp_div_less)
  with Suc.IH [of "n div 10"] show ?case by (simp add: dec_digits.simps [of n])
qed

lemma length_dec_u32: "length (dec_digits (unat (n :: uint32))) \<le> 10"
  using length_dec_digits_le [of "unat n" 9] unsigned_less [of n, where ?'a = nat] by simp

lemma uitoa_value:
  assumes "length buf = 13"
  shows "\<exists>b. sigar_uitoa buf n 0 = Some (b, 12 - length (dec_digits (unat n)), length (dec_digits (unat n))) \<and>
     length b = 13 \<and> drop (12 - length (dec_digits (unat n))) b = dec_digits (unat n) @ [CHR 0x00]"
proof -
  have l: "length (dec_digits (unat n)) \<le> 12" using length_dec_u32 [of n] by simp
  let ?b = "buf[12 := CHR 0x00]"
  have d: "drop 12 ?b = [CHR 0x00]"
    using assms by (auto simp: upd_conv_take_nth_drop)
  show ?thesis
    using uitoa_loop_digits [OF l, of ?b 0] assms l d by (simp add: sigar_uitoa_def)
qed

lemma ucast_of_nat_32: "(ucast (of_nat n :: uint64) :: uint32) = of_nat n"
  by (rule bit_word_eqI) (simp add: bit_simps)

lemma proc_filename_ok:
  "sigar_proc_filename host buflen pid fname =
     (let root = opt_string host @ ''/proc/'' in
      if 4096 \<le> length root \<or> buflen < length root + 13 + length fname + 1 then None
      else Some (root @ dec_digits (unat pid) @ fname))"
proof -
  from uitoa_value [of "replicate 13 (CHR 0x00)" pid] obtain b where
    b: "sigar_uitoa (replicate 13 (CHR 0x00)) pid 0 =
          Some (b, 12 - length (dec_digits (unat pid)), length (dec_digits (unat pid)))"
       "drop (12 - length (dec_digits (unat pid))) b = dec_digits (unat pid) @ [CHR 0x00]"
    by auto
  show ?thesis
    by (cases host) (auto simp: sigar_proc_filename_def b opt_string_def Let_def)
qed

lemma procfs_list_loop_fills:
  "procfs_list_loop ents l = clist_fill sigar_proc_list_grow l (map (\<lambda>d. ucast (fst (strtoull d))) (filter starts_digit ents))"
  by (induction ents l rule: procfs_list_loop.induct) (auto split: option.splits)

lemma procfs_list_filled:
  assumes "opendir (opt_string host @ ''/proc'') = Inr ents" and "length (opt_string host) < 4090"
    and "filter starts_digit ents = map (\<lambda>p. dec_digits (unat p)) pids"
    and "clist_wf l0" and "clist_elems l0 = []"
  shows "\<exists>l. sigar_proc_list_procfs_get opendir host l0 = Some (SIGAR_OK, l) \<and> clist_wf l \<and> clist_elems l = pids"
proof -
  have "(ucast (ucast p :: uint64) :: uint32) = p" for p :: pid
    by (rule bit_word_eqI) (simp add: bit_simps)
  then have "ucast (fst (strtoull (dec_digits (unat p)))) = p" for p :: pid
    using strtoull_dec [of "unat p" "[]"] unsigned_less [of p, where ?'a = nat]
    by (simp add: starts_digit_def)
  then have m: "map (\<lambda>d. ucast (fst (strtoull d))) (filter starts_digit ents) = pids"
    by (simp add: assms(3) o_def)
  have "(case host of Some h \<Rightarrow> h @ ''/proc'' | None \<Rightarrow> ''/proc'') = opt_string host @ ''/proc''"
    by (cases host) (simp_all add: opt_string_def)
  with proc_list.fill_ok [OF assms(4), of pids] assms(1,2,5) m show ?thesis
    by (auto simp: sigar_proc_list_procfs_get_def procfs_list_loop_fills Let_def)
qed

text \<open>The arguments a command line holds: the pieces between NULs, a last piece without NUL
  included.\<close>

function split_args :: "string \<Rightarrow> string list" where
  "split_args bytes = (if bytes = [] then [] else cstring bytes # split_args (drop (Suc (length (cstring bytes))) bytes))"
  by pat_completeness auto
termination
  by (relation "measure length") auto

declare split_args.simps [simp del]

lemma split_args_Nil [simp]: "split_args [] = []"
  by (simp add: split_args.simps)

lemma procargs_loop_fills: "procargs_loop bytes l = clist_fill sigar_proc_args_grow l (split_args bytes)"
proof (induction bytes l rule: procargs_loop.induct)
  case (1 bytes l)
  then show ?case
    by (cases "bytes = []")
      (simp_all add: procargs_loop.simps [of "[]"] procargs_loop.simps [of bytes] split_args.simps [of bytes] Let_def
        split: option.splits)
qed

lemma cstring_append_NUL: "CHR 0x00 \<notin> set a \<Longrightarrow> cstring (a @ CHR 0x00 # r) = a"
  by (auto simp: cstring_def takeWhile_append2 takeWhile_tail)

lemma split_args_Cons: "CHR 0x00 \<notin> set a \<Longrightarrow> split_args (a @ CHR 0x00 # r) = a # split_args r"
  by (subst split_args.simps) (simp add: cstring_append_NUL)

lemma split_args_last: "CHR 0x00 \<notin> set a \<Longrightarrow> split_args a = (if a = [] then [] else [a])"
proof -
  assume a: "CHR 0x00 \<notin> set a"
  then have "cstring a = a" unfolding cstring_def by (auto simp only: takeWhile_eq_all_conv)
  then show ?thesis by (subst split_args.simps) simp
qed

lemma split_args_concat:
  "list_all (\<lambda>a. CHR 0x00 \<notin> set a) args \<Longrightarrow>
   split_args (concat (map (\<lambda>a. a @ [CHR 0x00]) args) @ r) = args @ split_args r"
  by (induction args) (auto simp: split_args_Cons)

section \<open>Properties\<close>

text \<open>\<open>sigar_uitoa\<close> never leaves its 13-byte buffer: for every 32-bit number it ends, the
  pointer it returns points into the buffer at the decimal digits of the number followed by
  the terminating NUL, and the length it adds up is the number of digits.\<close>

theorem sigar_uitoa_digits:
  assumes "length buf = 13"
  shows "\<exists>b start len. sigar_uitoa buf n 0 = Some (b, start, len) \<and> length b = 13 \<and> start < 13
     \<and> drop start b = dec_digits (unat n) @ [CHR 0x00] \<and> len = length (dec_digits (unat n))"
proof -
  have "12 - length (dec_digits (unat n)) < 13" by simp
  with uitoa_value [OF assms, of n] show ?thesis by blast
qed

theorem sigar_uitoa_digits_witness:
  "\<exists>b start len. sigar_uitoa (replicate 13 (CHR ''x'')) 4294967295 0 = Some (b, start, len) \<and> len = 10"
proof -
  have "length (dec_digits (unat (4294967295 :: uint32))) = 10" by code_simp
  with sigar_uitoa_digits [of "replicate 13 (CHR ''x'')" 4294967295] show ?thesis by auto
qed

text \<open>reading a process file. When the buffer has room for the name, \<open>sigar_proc_file2str\<close>
  reads the file \<open>/proc/<pid><fname>\<close> under the host prefix, and a file that cannot be opened
  means that the process does not exist.\<close>

theorem sigar_proc_file2str_reads:
  assumes "length (opt_string host) < 4090"
    and "length (opt_string host) + 20 + length fname \<le> buflen"
  shows "sigar_proc_file2str fs host buflen pid fname =
    Some (case fs (opt_string host @ ''/proc/'' @ dec_digits (unat pid) @ fname) of
            OpenFails \<Rightarrow> (ESRCH, [])
          | ReadFails errno \<Rightarrow> (if errno = ENOENT then ESRCH else errno, [])
          | Contents bytes \<Rightarrow> (SIGAR_OK, cstring (take (buflen - 1) bytes)))"
proof -
  have "sigar_proc_filename host buflen pid fname =
      Some (opt_string host @ ''/proc/'' @ dec_digits (unat pid) @ fname)"
    using assms by (simp add: proc_filename_ok Let_def)
  then show ?thesis
    by (simp add: sigar_proc_file2str_def sigar_file2str_def split: file_read.splits)
qed

theorem sigar_proc_file2str_reads_witness:
  "sigar_proc_file2str (\<lambda>f. if f = ''/proc/42/stat'' then Contents ''42 (cat)'' else OpenFails) None 1024 42 ''/stat''
     = Some (0, ''42 (cat)'')"
proof -
  have d: "dec_digits 42 = ''42''" and c: "cstring (take 1023 ''42 (cat)'') = ''42 (cat)''" by code_simp+
  from sigar_proc_file2str_reads [of None "''/stat''" 1024
      "\<lambda>f. if f = ''/proc/42/stat'' then Contents ''42 (cat)'' else OpenFails" 42] d c
  show ?thesis by (simp add: opt_string_def)
qed

text \<open>C15: the process list is the \<open>/proc\<close> directory. For a directory whose entries are the
  decimal names of processes, in any order among entries that do not start with a digit, the
  list that \<open>sigar_proc_list_procfs_get\<close> fills is well formed and holds exactly those process
  ids, in order; growing the array as often as needed.\<close>

theorem sigar_proc_list_procfs_exact:
  assumes "opendir (opt_string host @ ''/proc'') = Inr ents" and "length (opt_string host) < 4090"
    and "filter starts_digit ents = map (\<lambda>p. dec_digits (unat p)) pids"
  shows "\<exists>l. sigar_proc_list_procfs_get opendir host sigar_proc_list_create = Some (SIGAR_OK, l)
    \<and> clist_wf l \<and> clist_elems l = pids \<and> l_number l = length pids"
proof -
  from procfs_list_filled [where opendir = opendir and host = host, OF assms proc_list.create_wf proc_list.create_elems]
  obtain l where l: "sigar_proc_list_procfs_get opendir host sigar_proc_list_create = Some (SIGAR_OK, l)"
    "clist_wf l" "clist_elems l = pids" by blast
  then show ?thesis using length_clist_elems [OF l(2)] by auto
qed

theorem sigar_proc_list_procfs_exact_witness:
  "\<exists>l. sigar_proc_list_procfs_get (\<lambda>d. Inr [''self'', ''1'', ''acpi'', ''4711'']) None sigar_proc_list_create = Some (0, l)
     \<and> clist_wf l \<and> clist_elems l = [1, 4711]"
proof -
  have "filter starts_digit [''self'', ''1'', ''acpi'', ''4711''] = map (\<lambda>p :: pid. dec_digits (unat p)) [1, 4711]"
    by code_simp
  from sigar_proc_list_procfs_exact [where host = None and opendir = "\<lambda>d. Inr [''self'', ''1'', ''acpi'', ''4711'']", OF _ _ this]
  show ?thesis by (auto simp: opt_string_def)
qed

text \<open>C14: command lines round-trip. The kernel writes each argument followed by a NUL, the last
  one possibly without; from such a file \<open>sigar_procfs_args_get\<close> rebuilds exactly the list of
  arguments, empty ones included.\<close>

theorem sigar_procfs_args_roundtrip:
  assumes "cmdline (opt_string host @ ''/proc/'' @ dec_digits (unat pid) @ ''/cmdline'')
             = Inr (concat (map (\<lambda>a. a @ [CHR 0x00]) args) @ rest)"
    and "list_all (\<lambda>a. CHR 0x00 \<notin> set a) args" and "CHR 0x00 \<notin> set rest"
    and "length (opt_string host) < 4090"
  shows "\<exists>l. sigar_procfs_args_get cmdline host pid sigar_proc_args_create = Some (SIGAR_OK, l) \<and> clist_wf l
    \<and> clist_elems l = args @ (if rest = [] then [] else [rest])"
proof -
  let ?bytes = "concat (map (\<lambda>a. a @ [CHR 0x00]) args) @ rest"
  have f: "sigar_proc_filename host 9086 pid ''/cmdline'' =
      Some (opt_string host @ ''/proc/'' @ dec_digits (unat pid) @ ''/cmdline'')"
    using assms(4) by (simp add: proc_filename_ok Let_def)
  have s: "split_args ?bytes = args @ (if rest = [] then [] else [rest])"
    by (simp only: split_args_concat [OF assms(2)] split_args_last [OF assms(3)])
  show ?thesis
  proof (cases "?bytes = []")
    case True
    then have "sigar_procfs_args_get cmdline host pid sigar_proc_args_create
        = Some (SIGAR_OK, sigar_proc_args_create\<lparr>l_number := 0\<rparr>)"
      using f assms(1) by (simp add: sigar_procfs_args_get_def)
    moreover have "(sigar_proc_args_create :: string clist)\<lparr>l_number := 0\<rparr> = sigar_proc_args_create"
      by (simp add: sigar_proc_args_create_def clist_alloc_def)
    moreover have "args @ (if rest = [] then [] else [rest]) = []" using s True by simp
    ultimately show ?thesis using proc_args.create_wf proc_args.create_elems by metis
  next
    case False
    then have "sigar_procfs_args_get cmdline host pid sigar_proc_args_create
        = map_option (\<lambda>l. (SIGAR_OK, l)) (clist_fill sigar_proc_args_grow sigar_proc_args_create (split_args ?bytes))"
      using f assms(1) by (auto simp: sigar_procfs_args_get_def procargs_loop_fills)
    with proc_args.fill_create [of "split_args ?bytes"] show ?thesis unfolding s by auto
  qed
qed

theorem sigar_procfs_args_roundtrip_witness:
  "\<exists>l. sigar_procfs_args_get (\<lambda>f. if f = ''/proc/7/cmdline'' then Inr (''ls'' @ [CHR 0x00] @ ''-l'' @ [CHR 0x00]) else Inl 2)
          None 7 sigar_proc_args_create = Some (0, l) \<and> clist_elems l = [''ls'', ''-l'']"
proof -
  have "dec_digits 7 = ''7''" by code_simp
  with sigar_procfs_args_roundtrip [of "\<lambda>f. if f = ''/proc/7/cmdline'' then Inr (''ls'' @ [CHR 0x00] @ ''-l'' @ [CHR 0x00]) else Inl 2"
      None 7 "[''ls'', ''-l'']" "[]"]
  show ?thesis by (auto simp: opt_string_def)
qed

end
