(* ===== verification/Sigar_Calc.thy ===== *)
theory Sigar_Calc
  imports Sigar_Procfs
begin

text \<open>
  The calculations of \<open>src/sigar_util.c\<close> that need no operating system: memory sizes and
  percentages, file system usage, cores per socket, cpu model names and clock rates, and the
  logging functions. The \<open>cpuid\<close> instruction is a parameter.
\<close>

section \<open>Memory\<close>

record sigar_mem =
  mem_ram :: uint64
  mem_total :: uint64
  mem_used :: uint64
  mem_free :: uint64
  mem_actual_used :: uint64
  mem_actual_free :: uint64
  mem_used_percent :: dbl
  mem_free_percent :: dbl

text \<open>A signed 64-bit integer is its bit pattern; it is read with \<open>sint\<close>.\<close>

definition dbl_of_i64 :: "rounding \<Rightarrow> uint64 \<Rightarrow> rat" where
  "dbl_of_i64 rnd w = rnd (of_int (sint w))"

definition mem_percent :: "rounding \<Rightarrow> uint64 \<Rightarrow> uint64 \<Rightarrow> dbl" where
  "mem_percent rnd total0 actual =
     (let diff = total0 - actual div 1024
      in dbl_div_fin rnd (dbl_of_i64 rnd (diff * 100)) (dbl_of_i64 rnd total0))"

text \<open>The value returned is the \<open>int\<close> \<open>ram\<close>; the remainder has C's sign.\<close>

definition sigar_mem_calc_ram :: "rounding \<Rightarrow> sigar_mem \<Rightarrow> uint32 \<times> sigar_mem" where
  "sigar_mem_calc_ram rnd mem =
     (let total0 = mem_total mem div 1024;
          lram = mem_total mem div (1024 * 1024);
          ram = (ucast lram :: uint32);
          remainder = (if 0 \<le> sint ram then sint ram mod 8 else - (- sint ram mod 8));
          ram1 = (if 0 < remainder then ram + of_int (8 - remainder) else ram)
      in (ram1, mem\<lparr>mem_ram := scast ram1,
                    mem_used_percent := mem_percent rnd total0 (mem_actual_free mem),
                    mem_free_percent := mem_percent rnd total0 (mem_actual_used mem)\<rparr>))"

section \<open>File system usage\<close>

record sigar_disk_usage =
  du_reads :: uint64
  du_writes :: uint64
  du_write_bytes :: uint64
  du_read_bytes :: uint64
  du_rtime :: uint64
  du_wtime :: uint64
  du_qtime :: uint64
  du_time :: uint64
  du_snaptime :: uint64
  du_ios :: uint64
  du_service_time :: dbl
  du_queue :: dbl

definition zero_disk_usage :: sigar_disk_usage where
  "zero_disk_usage = \<lparr>du_reads = 0, du_writes = 0, du_write_bytes = 0, du_read_bytes = 0, du_rtime = 0, du_wtime = 0,
     du_qtime = 0, du_time = 0, du_snaptime = 0, du_ios = 0, du_service_time = Fin 0, du_queue = Fin 0\<rparr>"

record sigar_file_system_usage =
  fs_disk :: sigar_disk_usage
  fs_use_percent :: dbl
  fs_total :: uint64
  fs_free :: uint64
  fs_used :: uint64
  fs_avail :: uint64
  fs_files :: uint64
  fs_free_files :: uint64

definition sigar_file_system_usage_calc_used :: "rounding \<Rightarrow> sigar_file_system_usage \<Rightarrow> dbl" where
  "sigar_file_system_usage_calc_used rnd fsusage =
     (let b_used = (fs_total fsusage - fs_free fsusage) div 1024;
          b_avail = fs_avail fsusage div 1024;
          utotal = b_used + b_avail
      in if utotal \<noteq> 0 then
           (let u100 = b_used * 100;
                pct = dbl_of_u64 rnd (u100 div utotal + (if u100 mod utotal \<noteq> 0 then 1 else 0))
            in dbl_div_fin rnd pct 100)
         else Fin 0)"

section \<open>Cores\<close>

record cpuid_regs =
  eax :: uint32
  ebx :: uint32
  ecx :: uint32
  edx :: uint32

abbreviation (input) INTEL_ID :: uint32 where "INTEL_ID \<equiv> 0x756e6547"
abbreviation (input) AMD_ID :: uint32 where "AMD_ID \<equiv> 0x68747541"

text \<open>The part of a \<open>sigar_t\<close> these functions and the log use. An unset \<open>log_impl\<close> is False.\<close>

record sigar_core =
  s_lcpu :: int
  s_cpu_list_cores :: bool
  s_log_level :: int
  s_log_impl :: bool

definition sigar_cpu_core_count :: "(uint32 \<Rightarrow> cpuid_regs) \<Rightarrow> sigar_core \<Rightarrow> int \<times> sigar_core" where
  "sigar_cpu_core_count cpuid sigar =
     (let sigar1 =
        (if s_lcpu sigar = - 1 then
           (let id0 = cpuid 0 in
            if ebx id0 = INTEL_ID \<or> ebx id0 = AMD_ID then
              (let id1 = cpuid 1 in
               if edx id1 AND push_bit 28 1 \<noteq> 0
               then sigar\<lparr>s_lcpu := uint (drop_bit 16 (ebx id1 AND 0x00FF0000))\<rparr>
               else sigar\<lparr>s_lcpu := 1\<rparr>)
            else sigar\<lparr>s_lcpu := 1\<rparr>)
         else sigar)
      in (s_lcpu sigar1, sigar1))"

abbreviation (input) SIGAR_LOG_DEBUG :: int where "SIGAR_LOG_DEBUG \<equiv> 4"

definition sigar_cpu_core_rollup :: "(uint32 \<Rightarrow> cpuid_regs) \<Rightarrow> sigar_core \<Rightarrow> bool \<times> sigar_core" where
  "sigar_cpu_core_rollup cpuid sigar =
     (let log_rollup = (SIGAR_LOG_DEBUG \<le> s_log_level sigar \<and> s_lcpu sigar = - 1);
          sigar1 = snd (sigar_cpu_core_count cpuid sigar)
      in (if s_cpu_list_cores sigar1 then False else log_rollup \<and> 1 < s_lcpu sigar1, sigar1))"

section \<open>Cpu models\<close>

definition cpu_models :: "(string \<times> string) list" where
  "cpu_models =
    [(''Xeon'', ''Xeon''), (''XEON'', ''Xeon''), (''Pentium III'', ''Pentium III''),
     (''Pentium II'', ''Pentium II''), (''Pentium(R) III'', ''Pentium III''),
     (''Pentium(R) 4'', ''Pentium 4''), (''Pentium(R) M'', ''Pentium M''),
     (''Pentium Pro'', ''Pentium Pro''), (''Celeron'', ''Celeron''),
     (''Opteron'', ''Opteron''), (''Athlon'', ''Athlon''), (''Duron'', ''Duron''),
     (''K6(tm)-III'', ''K6 III''), (''K6(tm) 3D+'', ''K6 3D+'')]"

fun cpu_model_find :: "(string \<times> string) list \<Rightarrow> string \<Rightarrow> string option" where
  "cpu_model_find [] ptr = None"
| "cpu_model_find ((name, rname) # models) ptr =
     (if strnEQ ptr name (length name) then Some rname else cpu_model_find models ptr)"

definition is_blank :: "char \<Rightarrow> bool" where
  "is_blank c = (c = CHR '' '')"

text \<open>The trimming loop at the end of the string runs past its beginning when there is no other
  character than spaces.\<close>

definition sigar_cpu_model_adjust :: "string \<Rightarrow> string \<Rightarrow> string ub" where
  "sigar_cpu_model_adjust vendor model =
     (if list_all is_blank model then None
      else
        (let ptr = rev (dropWhile is_blank (rev (dropWhile is_blank model)));
             ptr1 = (if strnEQ ptr vendor (length vendor)
                     then (let p = drop (length vendor) ptr;
                               p1 = (if is_prefix ''(R)'' p then drop 3 p else p)
                           in dropWhile is_blank p1)
                     else ptr);
             ptr2 = (if is_prefix ''-'' ptr1 then drop 1 ptr1 else ptr1)
         in case cpu_model_find cpu_models ptr2 of
              Some rname \<Rightarrow> Some rname
            | None \<Rightarrow> Some ptr2))"

text \<open>One round of the loop of \<open>sigar_cpu_mhz_from_model\<close> starts at a space; \<open>mhz\<close> is an \<open>int\<close>
  whose products and sums keep 32 bits.\<close>

fun find_digit :: "string \<Rightarrow> string" where
  "find_digit [] = []"
| "find_digit (c # cs) = (if isdigit c then c # cs else find_digit cs)"

lemma length_find_digit [simp]: "length (find_digit s) \<le> length s"
  by (induction s) auto

lemma strchr_find_digit: "strchr s (CHR '' '') = Some p \<Longrightarrow> length (find_digit p) < length s"
proof (induction s)
  case (Cons c cs)
  show ?case
  proof (cases "c = CHR '' ''")
    case True
    then have "p = CHR '' '' # cs" using Cons.prems by simp
    moreover have "\<not> isdigit (CHR '' '')" by (simp add: isdigit_def)
    ultimately show ?thesis using length_find_digit [of cs] by (simp add: le_imp_less_Suc)
  next
    case False
    with Cons show ?thesis by simp
  qed
qed simp

lemma mhz_shrinks:
  assumes "strchr ptr (CHR '' '') = Some p" and "strtoull (find_digit p) = (v, r, e)"
  shows "length r < length ptr"
  using strchr_find_digit [OF assms(1)] strtoull_rest_le [OF assms(2)] by simp

text \<open>The result is the mhz value with which the loop ends and the place it ends at (where the
  loop ends because no space is left, \<open>ptr\<close> is NULL and the value -1).\<close>

function mhz_loop :: "string \<Rightarrow> uint32 \<times> string" where
  "mhz_loop ptr =
     (case strchr ptr (CHR '' '') of
        None \<Rightarrow> (- 1, [])
      | Some p \<Rightarrow>
          (case strtoull (find_digit p) of
             (v, r, e) \<Rightarrow>
               if is_prefix ''.'' r then
                 (case strtoull (drop 1 r) of (w, r2, e2) \<Rightarrow> (ucast v * 100 + ucast w, r2))
               else if strnEQ r ''GHz'' 3 \<or> strnEQ r ''MHz'' 3 then (ucast v, r)
               else mhz_loop r))"
  by pat_completeness auto
termination
  by (relation "measure length") (auto intro: mhz_shrinks [OF _ sym])

declare mhz_loop.simps [simp del]

definition sigar_cpu_mhz_from_model :: "string \<Rightarrow> uint32" where
  "sigar_cpu_mhz_from_model model =
     (case mhz_loop model of
        (mhz, ptr) \<Rightarrow> if mhz \<noteq> - 1 \<and> strnEQ ptr ''GHz'' 3 then mhz * 10 else mhz)"

section \<open>Logging\<close>

text \<open>What the log implementation is called with, if it is called.\<close>

definition sigar_log :: "sigar_core \<Rightarrow> int \<Rightarrow> string \<Rightarrow> (int \<times> string) option" where
  "sigar_log sigar level message =
     (if s_log_level sigar < level then None
      else if \<not> s_log_impl sigar then None
      else Some (level, message))"

definition sigar_log_printf :: "sigar_core \<Rightarrow> int \<Rightarrow> string \<Rightarrow> (int \<times> string) option" where
  "sigar_log_printf sigar level formatted =
     (if s_log_level sigar < level then None
      else if \<not> s_log_impl sigar then None
      else Some (level, take (8192 - 1) formatted))"

definition log_levels :: "string list" where
  "log_levels = [''FATAL'', ''ERROR'', ''WARN'', ''INFO'', ''DEBUG'', ''TRACE'']"

definition log_level_cell :: "int \<Rightarrow> string ub" where
  "log_level_cell level = (if level < 0 then None else cell log_levels (nat level))"

definition sigar_log_level_string_get :: "sigar_core \<Rightarrow> string ub" where
  "sigar_log_level_string_get sigar = log_level_cell (s_log_level sigar)"

definition sigar_log_level_set :: "sigar_core \<Rightarrow> int \<Rightarrow> sigar_core" where
  "sigar_log_level_set sigar level = sigar\<lparr>s_log_level := level\<rparr>"

definition sigar_log_impl_file :: "int \<Rightarrow> string \<Rightarrow> string ub" where
  "sigar_log_impl_file level message =
     map_option (\<lambda>n. ''['' @ n @ ''] '' @ message @ [CHR 0x0A]) (log_level_cell level)"

section \<open>Facts\<close>

lemma unat_kb: "unat ((w :: uint64) div 1024) = unat w div 1024"
  by (simp add: unat_div)

lemma unat_kb_less: "unat ((w :: uint64) div 1024) < 2 ^ 54"
  using unsigned_less [of w, where ?'a = nat] by (simp add: unat_kb less_mult_imp_div_less)

lemma sint_unat_small: "unat (w :: 'a :: len word) < 2 ^ (LENGTH('a) - 1) \<Longrightarrow> sint w = int (unat w)"
proof -
  assume "unat w < 2 ^ (LENGTH('a) - 1)"
  then have l: "uint w < 2 ^ (LENGTH('a) - 1)" by (metis of_nat_less_iff of_nat_numeral of_nat_power uint_nat)
  then have "signed_take_bit (LENGTH('a) - 1) (uint w) = uint w"
    by (intro signed_take_bit_int_eq_self) (simp_all add: order_trans [OF _ uint_ge_0])
  then show ?thesis by (simp add: sint_uint)
qed

lemma mem_percent_value:
  assumes "exact_ints rnd" and "unat t < 2 ^ 46" and "unat a div 1024 \<le> unat t" and "0 < unat t"
  shows "mem_percent rnd t a = Fin (rnd (of_nat (100 * (unat t - unat a div 1024)) / of_nat (unat t)))"
proof -
  let ?d = "unat t - unat a div 1024"
  have d: "unat (t - a div 1024) = ?d"
    using assms(3) by (simp add: unat_sub word_le_nat_alt unat_kb)
  have "unat ((t - a div 1024) * 100) = unat (t - a div 1024) * unat (100 :: uint64) mod 2 ^ 64"
    by (simp only: unat_word_ariths(2)) simp
  then have "unat ((t - a div 1024) * 100) = 100 * ?d"
    using assms(2) unfolding d by simp
  moreover have "100 * ?d < 2 ^ 53" using assms(2) by simp
  ultimately have s: "sint ((t - a div 1024) * 100) = int (100 * ?d)" "sint t = int (unat t)"
    using assms(2) by (simp_all add: sint_unat_small)
  have r: "dbl_of_i64 rnd ((t - a div 1024) * 100) = of_nat (100 * ?d)" "dbl_of_i64 rnd t = of_nat (unat t)"
    using assms(2) exact_nat [OF assms(1), of "100 * ?d"] exact_nat [OF assms(1), of "unat t"]
    by (simp_all only: dbl_of_i64_def s of_int_of_nat_eq) simp_all
  show ?thesis
    unfolding mem_percent_def Let_def r dbl_div_fin_def using assms(4)
    by (simp only: of_nat_eq_0_iff if_False neq0_conv [symmetric])
qed

lemma percent_bounds:
  assumes "rounding_ok rnd" and "exact_ints rnd" and "d \<le> t" and "0 < t"
  shows "0 \<le> rnd (of_nat (100 * d) / of_nat t) \<and> rnd (of_nat (100 * d) / of_nat t) \<le> 100"
proof -
  have m: "mono rnd" "rnd 0 = 0" using assms(1) by (simp_all add: rounding_ok_def)
  have h: "rnd 100 = 100" using exact_nat [OF assms(2), of 100] by simp
  have "(of_nat (100 * d) :: rat) / of_nat t \<le> 100"
  proof -
    have "(of_nat (100 * d) :: rat) \<le> of_nat (100 * t)" using assms(3) by (intro of_nat_mono) simp
    then show ?thesis using assms(4) by (simp add: divide_le_eq)
  qed
  then have "rnd (of_nat (100 * d) / of_nat t) \<le> rnd 100" by (rule monoD [OF m(1)])
  then show ?thesis using rnd_nonneg [OF m] h by simp
qed

lemma round_up_8: "(if 0 < n mod 8 then n + (8 - n mod 8) else n) = 8 * ((n + 7) div (8 :: nat))"
proof -
  obtain q r where n: "n = 8 * q + r" "r < 8" by (metis mod_less_divisor mult_div_mod_eq zero_less_numeral)
  have "(8 * q + r + 7) div 8 = Suc q" if "0 < r" using n(2) that by (intro div_nat_eqI) simp_all
  with n show ?thesis by (cases "r = 0") auto
qed

lemma ram_value:
  assumes "unat (mem_total mem) div 2 ^ 20 < 2 ^ 31 - 8"
  shows "unat (fst (sigar_mem_calc_ram rnd mem)) = 8 * ((unat (mem_total mem) div 2 ^ 20 + 7) div 8)"
    and "unat (mem_ram (snd (sigar_mem_calc_ram rnd mem))) = 8 * ((unat (mem_total mem) div 2 ^ 20 + 7) div 8)"
proof -
  define n where "n = unat (mem_total mem) div 2 ^ 20"
  define ram :: uint32 where "ram = ucast (mem_total mem div (1024 * 1024))"
  define ram1 where "ram1 = fst (sigar_mem_calc_ram rnd mem)"
  have n: "n < 2 ^ 31 - 8" using assms by (simp add: n_def)
  have ram: "unat ram = n"
    using n by (simp add: ram_def unsigned_ucast_eq unat_div n_def take_bit_nat_eq_self_iff)
  then have s: "sint ram = int n" using n sint_unat_small [of ram] by simp
  have r1: "ram1 = (if 0 < int n mod 8 then ram + of_int (8 - int n mod 8) else ram)"
    unfolding ram1_def sigar_mem_calc_ram_def Let_def fst_conv ram_def [symmetric] s by simp
  have e: "(of_int (8 - int n mod 8) :: uint32) = of_nat (8 - n mod 8)"
  proof -
    have "8 - int n mod 8 = int (8 - n mod 8)" by (simp add: of_nat_diff zmod_int)
    then show ?thesis by (simp only: of_int_of_nat_eq)
  qed
  have a: "unat (ram + of_nat (8 - n mod 8)) = n + (8 - n mod 8)"
  proof -
    define k where "k = 8 - n mod 8"
    have "k \<le> 8" by (simp add: k_def)
    then have "unat (of_nat k :: uint32) = k" by (simp add: unat_of_nat take_bit_nat_eq_self_iff)
    then show ?thesis unfolding k_def [symmetric] using n ram \<open>k \<le> 8\<close> by (simp add: unat_word_ariths)
  qed
  have z: "int n mod 8 = int (n mod 8)" by (simp add: zmod_int)
  have u: "unat ram1 = (if 0 < n mod 8 then n + (8 - n mod 8) else n)"
  proof (cases "0 < n mod 8")
    case True
    then have "0 < int n mod 8" unfolding z by simp
    with True r1 a e show ?thesis by simp
  next
    case False
    then have "int n mod 8 = 0" unfolding z by simp
    with False r1 ram show ?thesis by simp
  qed
  then show "unat (fst (sigar_mem_calc_ram rnd mem)) = 8 * ((unat (mem_total mem) div 2 ^ 20 + 7) div 8)"
    using round_up_8 [of n] by (simp add: ram1_def n_def)
  have "unat ram1 < 2 ^ 31" using n unfolding u by (auto split: if_splits)
  then have "sint ram1 = int (unat ram1)" by (simp add: sint_unat_small)
  then have "(scast ram1 :: uint64) = of_nat (unat ram1)" by (metis of_int_of_nat_eq scast_eq)
  moreover have "mem_ram (snd (sigar_mem_calc_ram rnd mem)) = scast ram1"
    by (simp add: ram1_def sigar_mem_calc_ram_def Let_def)
  ultimately have "unat (mem_ram (snd (sigar_mem_calc_ram rnd mem))) = unat ram1"
    using \<open>unat ram1 < 2 ^ 31\<close> by (simp add: unsigned_ucast_eq take_bit_nat_eq_self_iff)
  then show "unat (mem_ram (snd (sigar_mem_calc_ram rnd mem))) = 8 * ((unat (mem_total mem) div 2 ^ 20 + 7) div 8)"
    using u round_up_8 [of n] by (simp add: n_def)
qed

lemma ceil_div: "0 < t \<Longrightarrow> x div t + (if x mod t \<noteq> 0 then 1 else 0) = (x + t - 1) div (t :: nat)"
proof -
  assume t: "0 < t"
  have x: "x = t * (x div t) + x mod t" by simp
  show ?thesis
  proof (cases "x mod t = 0")
    case True
    then have "x + t - 1 = t * (x div t) + (t - 1)" using x t by linarith
    then have "(x + t - 1) div t = x div t + (t - 1) div t" using t by (simp only: div_mult_self4)
    with True t show ?thesis by simp
  next
    case False
    then have "x + t - 1 = (t * (x div t) + t) + (x mod t - 1)" using x t by linarith
    also have "\<dots> = t * (x div t + 1) + (x mod t - 1)" by (simp add: algebra_simps)
    finally have "(x + t - 1) div t = x div t + 1 + (x mod t - 1) div t" using t by (simp only: div_mult_self4)
    moreover have "(x mod t - 1) div t = 0" using t by (simp add: less_imp_diff_less)
    ultimately show ?thesis using False by simp
  qed
qed

lemma usage_value:
  assumes "fs_free u \<le> fs_total u"
  shows "sigar_file_system_usage_calc_used rnd u =
    (let used = (unat (fs_total u) - unat (fs_free u)) div 1024;
         all = used + unat (fs_avail u) div 1024
     in if all = 0 then Fin 0
        else dbl_div_fin rnd (rnd (of_nat ((100 * used + all - 1) div all))) 100)"
proof -
  define b where "b = (fs_total u - fs_free u) div 1024"
  define t where "t = b + fs_avail u div 1024"
  have b: "unat b = (unat (fs_total u) - unat (fs_free u)) div 1024"
    using assms by (simp add: b_def unat_kb unat_sub word_le_nat_alt)
  have bl: "unat b < 2 ^ 54" and al: "unat (fs_avail u div 1024) < 2 ^ 54"
    unfolding b_def by (rule unat_kb_less)+
  have t: "unat t = unat b + unat (fs_avail u) div 1024"
    unfolding t_def unat_word_ariths(1) using bl al by (simp add: unat_kb)
  have h: "unat (b * 100) = 100 * unat b"
    unfolding unat_word_ariths(2) using bl by simp
  let ?p = "b * 100 div t + (if b * 100 mod t \<noteq> 0 then 1 else 0)"
  have p: "unat ?p = (100 * unat b + unat t - 1) div unat t" if "t \<noteq> 0"
  proof -
    have "0 < unat t" using that by (simp add: unat_gt_0)
    moreover have "100 * unat b div unat t < 2 ^ 61"
      using bl by (intro le_less_trans [OF div_le_dividend]) simp
    ultimately have "unat ?p = 100 * unat b div unat t + (if 100 * unat b mod unat t \<noteq> 0 then 1 else 0)"
      using bl by (auto simp: unat_div unat_mod h unat_word_ariths unat_eq_zero [symmetric]
          mult.commute [of "unat b" 100] simp del: unat_eq_zero)
    then show ?thesis using ceil_div [OF \<open>0 < unat t\<close>] by simp
  qed
  have z: "t = 0 \<longleftrightarrow> unat t = 0" by (simp add: unat_eq_zero)
  show ?thesis
    unfolding sigar_file_system_usage_calc_used_def Let_def b_def [symmetric] t_def [symmetric]
      dbl_of_u64_def b [symmetric] t [symmetric]
    using p z by auto
qed

text \<open>A pair of decimal digit strings around a point, followed by a unit.\<close>

lemma scan_digits_stop:
  "(\<And>c. c \<in> set s \<Longrightarrow> isdigit c) \<Longrightarrow> \<not> starts_digit t \<Longrightarrow> scan_digits a (s @ t) = (fst (scan_digits a s), t)"
  by (induction s arbitrary: a) (auto simp: starts_digit_def split: list.splits)

lemma strtoull_digits:
  assumes "fs \<noteq> []" and "list_all isdigit fs" and "\<not> starts_digit t" and "fst (scan_digits 0 fs) < 2 ^ 64"
  shows "strtoull (fs @ t) = (of_nat (fst (scan_digits 0 fs)), t, False)"
proof -
  obtain c cs where e: "fs = c # cs" using assms(1) by (cases fs) auto
  then have d: "isdigit c" using assms(2) by simp
  have "c \<noteq> CHR ''-''" "c \<noteq> CHR ''+''" using d by (auto simp: isdigit_def Let_def)
  then have h: "skip_space (fs @ t) = fs @ t" "scan_sign (fs @ t) = (False, fs @ t)" "starts_digit (fs @ t)"
    using e d isdigit_not_isspace [OF d] by (simp_all add: starts_digit_def)
  have "scan_digits 0 (fs @ t) = (fst (scan_digits 0 fs), t)"
    using scan_digits_stop [of fs t 0] assms(2,3) by (auto simp: list_all_iff)
  with h assms(4) show ?thesis by (simp add: strtoull_def)
qed

lemma strchr_found: "x \<notin> set s \<Longrightarrow> strchr (s @ x # t) x = Some (x # t)"
  by (induction s) auto

lemma find_digit_blank: "list_all isdigit ds \<Longrightarrow> ds \<noteq> [] \<Longrightarrow> find_digit (CHR '' '' # ds @ t) = ds @ t"
  by (cases ds) (auto simp: isdigit_def)

lemma mhz_loop_ghz:
  assumes "CHR '' '' \<notin> set name" and "ds \<noteq> []" "list_all isdigit ds" "fs \<noteq> []" "list_all isdigit fs"
    and "fst (scan_digits 0 ds) < 2 ^ 64" "fst (scan_digits 0 fs) < 2 ^ 64"
  shows "mhz_loop (name @ '' '' @ ds @ ''.'' @ fs @ ''GHz'' @ rest) =
    (of_nat (100 * fst (scan_digits 0 ds) + fst (scan_digits 0 fs)), ''GHz'' @ rest)"
proof -
  let ?t = "ds @ ''.'' @ fs @ ''GHz'' @ rest"
  have "strchr (name @ '' '' @ ?t) (CHR '' '') = Some (CHR '' '' # ?t)"
    using strchr_found [OF assms(1), of ?t] by simp
  moreover have "find_digit (CHR '' '' # ?t) = ?t" using find_digit_blank [OF assms(3,2)] by blast
  moreover have "strtoull ?t = (of_nat (fst (scan_digits 0 ds)), ''.'' @ fs @ ''GHz'' @ rest, False)"
    by (rule strtoull_digits [OF assms(2,3) _ assms(6)]) (simp add: starts_digit_def isdigit_def)
  moreover have "strtoull (fs @ ''GHz'' @ rest) = (of_nat (fst (scan_digits 0 fs)), ''GHz'' @ rest, False)"
    by (rule strtoull_digits [OF assms(4,5) _ assms(7)]) (simp add: starts_digit_def isdigit_def)
  ultimately show ?thesis
    by (subst mhz_loop.simps) (simp add: ucast_of_nat_32 mult.commute)
qed

section \<open>Properties\<close>

text \<open>memory percentages and the memory size. On a machine with at least one kilobyte and less
  than \<open>2^51\<close> bytes the value of \<open>ram\<close> is the number of whole megabytes rounded up to a multiple
  of 8, and each percentage is the exact quotient of the kilobyte counts, rounded once, between
  0 and 100.\<close>

theorem sigar_mem_calc_ram_correct:
  assumes "rounding_ok rnd" and "exact_ints rnd"
    and "1024 \<le> unat (mem_total mem)" and "unat (mem_total mem) < 2 ^ 51 - 2 ^ 23"
    and "mem_actual_free mem \<le> mem_total mem" and "mem_actual_used mem \<le> mem_total mem"
  shows "let mem1 = snd (sigar_mem_calc_ram rnd mem);
             total0 = unat (mem_total mem) div 1024;
             pct = \<lambda>part. rnd (of_nat (100 * (total0 - unat part div 1024)) / of_nat total0)
         in unat (mem_ram mem1) = 8 * ((unat (mem_total mem) div 2 ^ 20 + 7) div 8)
          \<and> mem_used_percent mem1 = Fin (pct (mem_actual_free mem))
          \<and> mem_free_percent mem1 = Fin (pct (mem_actual_used mem))
          \<and> (\<forall>part. 0 \<le> pct part \<and> pct part \<le> 100)"
proof -
  let ?t = "mem_total mem div 1024"
  have t: "unat ?t = unat (mem_total mem) div 1024" by (rule unat_kb)
  have tp: "0 < unat (mem_total mem) div 1024" using div_le_mono [OF assms(3), of 1024] by simp
  have tl: "unat ?t < 2 ^ 46" using assms(4) unfolding t by (simp add: less_mult_imp_div_less)
  have p: "mem_percent rnd ?t a = Fin (rnd (of_nat (100 * (unat ?t - unat a div 1024)) / of_nat (unat ?t)))"
    if "a \<le> mem_total mem" for a
    using mem_percent_value [OF assms(2) tl] that tp unfolding t by (simp add: div_le_mono word_le_nat_alt)
  have r: "unat (mem_total mem) div 2 ^ 20 < 2 ^ 31 - 8" using assms(4) by (simp add: less_mult_imp_div_less)
  have u: "mem_used_percent (snd (sigar_mem_calc_ram rnd mem)) = mem_percent rnd ?t (mem_actual_free mem)"
    "mem_free_percent (snd (sigar_mem_calc_ram rnd mem)) = mem_percent rnd ?t (mem_actual_used mem)"
    by (simp_all add: sigar_mem_calc_ram_def Let_def)
  have "0 \<le> rnd (of_nat (100 * (unat ?t - k)) / of_nat (unat ?t)) \<and>
      rnd (of_nat (100 * (unat ?t - k)) / of_nat (unat ?t)) \<le> 100" for k
    by (rule percent_bounds [OF assms(1,2)]) (use tp t in simp_all)
  then show ?thesis
    unfolding Let_def u p [OF assms(5)] p [OF assms(6)] ram_value(2) [OF r] t by blast
qed

text \<open>The state of a machine with 16 GB less a reserved part, half of it used.\<close>

definition example_mem :: sigar_mem where
  "example_mem = \<lparr>mem_ram = 0, mem_total = 16777216000, mem_used = 0, mem_free = 0,
     mem_actual_used = 8388608000, mem_actual_free = 8388608000, mem_used_percent = NaN, mem_free_percent = NaN\<rparr>"

theorem sigar_mem_calc_ram_correct_witness:
  "unat (mem_ram (snd (sigar_mem_calc_ram (\<lambda>x. x) example_mem))) = 16000
   \<and> mem_used_percent (snd (sigar_mem_calc_ram (\<lambda>x. x) example_mem)) = Fin 50"
  using sigar_mem_calc_ram_correct [OF id_rounding id_exact, of example_mem]
  by (simp add: example_mem_def Let_def)

text \<open>file system usage. When no more is free than there is, the value
  \<open>sigar_file_system_usage_calc_used\<close> returns is the used share of used plus available
  kilobytes as a percentage rounded up, a whole number of hundredths between 0 and 1; without
  any space it is 0. No step of the 64-bit computation overflows.\<close>

theorem fs_usage_ceiling:
  assumes "rounding_ok rnd" and "exact_ints rnd" and "fs_free u \<le> fs_total u"
  shows "let used = (unat (fs_total u) - unat (fs_free u)) div 1024;
             all = used + unat (fs_avail u) div 1024;
             pct = (if all = 0 then 0 else (100 * used + all - 1) div all)
         in sigar_file_system_usage_calc_used rnd u = Fin (rnd (of_nat pct / 100))
          \<and> 0 \<le> rnd (of_nat pct / 100) \<and> rnd (of_nat pct / 100) \<le> 1
          \<and> 100 * used \<le> pct * all \<and> (0 < used \<longrightarrow> (pct - 1) * all < 100 * used)"
proof -
  define b where "b = (unat (fs_total u) - unat (fs_free u)) div 1024"
  define t where "t = b + unat (fs_avail u) div 1024"
  define p where "p = (if t = 0 then 0 else (100 * b + t - 1) div t)"
  have m: "mono rnd" "rnd 0 = 0" "rnd 1 = 1" using assms(1) by (simp_all add: rounding_ok_def)
  have bt: "b \<le> t" by (simp add: t_def)
  have p100: "p \<le> 100"
  proof (cases "t = 0")
    case False
    then have "100 * b + t - 1 < 101 * t" using bt by linarith
    then have "(100 * b + t - 1) div t < 101" by (simp add: less_mult_imp_div_less)
    with False show ?thesis by (simp add: p_def)
  qed (simp add: p_def)
  have q: "p * t \<le> 100 * b + t - 1 \<and> 100 * b + t - 1 < (p + 1) * t" if "t \<noteq> 0"
    using that by (simp add: p_def div_times_less_eq_dividend dividend_less_div_times add.commute)
  have c1: "100 * b \<le> p * t" using q bt by (cases "t = 0") (auto simp: algebra_simps)
  have c2: "(p - 1) * t < 100 * b" if "0 < b"
  proof (cases p)
    case 0
    then show ?thesis using that by simp
  next
    case (Suc k)
    moreover have "t \<noteq> 0" using that bt by simp
    ultimately have "t + k * t \<le> 100 * b + t - 1" "t \<noteq> 0" using q by simp_all
    then have "k * t < 100 * b" using that by linarith
    with Suc show ?thesis by simp
  qed
  have e: "sigar_file_system_usage_calc_used rnd u = Fin (rnd (of_nat p / 100))"
    using usage_value [OF assms(3), of rnd] p100 exact_nat [OF assms(2), of p] m
    unfolding Let_def b_def [symmetric] t_def [symmetric]
    by (auto simp: p_def dbl_div_fin_def split: if_splits)
  have "(of_nat p :: rat) / 100 \<le> 1" using p100 by simp
  then have "rnd (of_nat p / 100) \<le> 1" by (rule rnd_le_one [OF m(1,3)])
  moreover have "0 \<le> rnd (of_nat p / 100)" by (rule rnd_nonneg [OF m(1,2)]) simp
  ultimately show ?thesis
    unfolding Let_def b_def [symmetric] t_def [symmetric] p_def [symmetric] using e c1 c2 by blast
qed

theorem fs_usage_ceiling_witness:
  "sigar_file_system_usage_calc_used (\<lambda>x. x)
     \<lparr>fs_disk = zero_disk_usage, fs_use_percent = NaN, fs_total = 1048576, fs_free = 700416, fs_used = 0, fs_avail = 640000, fs_files = 0, fs_free_files = 0\<rparr> = Fin (36 / 100)"
proof -
  have "sigar_file_system_usage_calc_used (\<lambda>x. x)
     \<lparr>fs_disk = zero_disk_usage, fs_use_percent = NaN, fs_total = 1048576, fs_free = 700416, fs_used = 0, fs_avail = 640000, fs_files = 0, fs_free_files = 0\<rparr> = Fin (of_nat 36 / 100)"
    using fs_usage_ceiling [OF id_rounding id_exact,
        of "\<lparr>fs_disk = zero_disk_usage, fs_use_percent = NaN, fs_total = 1048576, fs_free = 700416, fs_used = 0, fs_avail = 640000, fs_files = 0, fs_free_files = 0\<rparr>"]
    by (simp add: Let_def)
  then show ?thesis by simp
qed

text \<open>the clock rate in a model name. From a name of the form \<open>... <i>.<f>GHz ...\<close>, whose
  first space precedes the number, \<open>sigar_cpu_mhz_from_model\<close> derives \<open>1000 i + 10 f\<close>, with \<open>f\<close> the
  number its digits spell: the rate in MHz when the fraction has two digits. (With one digit,
  as in 2.4GHz, the result is too small.)\<close>

theorem sigar_cpu_mhz_from_model_ghz:
  assumes "CHR '' '' \<notin> set name" and "ds \<noteq> []" "list_all isdigit ds" "fs \<noteq> []" "list_all isdigit fs"
    and "fst (scan_digits 0 ds) < 4000" "fst (scan_digits 0 fs) < 4000"
  shows "sigar_cpu_mhz_from_model (name @ '' '' @ ds @ ''.'' @ fs @ ''GHz'' @ rest) =
    of_nat (1000 * fst (scan_digits 0 ds) + 10 * fst (scan_digits 0 fs))"
proof -
  let ?n = "100 * fst (scan_digits 0 ds) + fst (scan_digits 0 fs)"
  have l: "mhz_loop (name @ '' '' @ ds @ ''.'' @ fs @ ''GHz'' @ rest) = (of_nat ?n, ''GHz'' @ rest)"
    by (rule mhz_loop_ghz [OF assms(1-5)]) (use assms(6,7) in simp_all)
  have n: "?n < 2 ^ 32 - 1" using assms(6,7) by simp
  then have u: "unat (of_nat ?n :: uint32) = ?n" by (simp add: unat_of_nat take_bit_nat_eq_self_iff del: of_nat_add of_nat_mult)
  have m: "unat (- 1 :: uint32) = 2 ^ 32 - 1" by (simp add: unsigned_minus_1_eq_mask mask_eq_exp_minus_1)
  have "(of_nat ?n :: uint32) \<noteq> - 1"
  proof
    assume "(of_nat ?n :: uint32) = - 1"
    then have "?n = 2 ^ 32 - 1" using u m by (simp only:)
    with n show False by simp
  qed
  then show ?thesis
    unfolding sigar_cpu_mhz_from_model_def l by (simp add: strnEQ_def algebra_simps)
qed

theorem sigar_cpu_mhz_from_model_ghz_witness:
  "sigar_cpu_mhz_from_model ''Xeon 2.40GHz'' = 2400 \<and> sigar_cpu_mhz_from_model ''Xeon 2.4GHz'' = 2040"
proof -
  have s: "fst (scan_digits 0 ''2'') = 2" "fst (scan_digits 0 ''40'') = 40" "fst (scan_digits 0 ''4'') = 4"
    "list_all isdigit ''2''" "list_all isdigit ''40''" "list_all isdigit ''4''" by code_simp+
  show ?thesis
    using sigar_cpu_mhz_from_model_ghz [of "''Xeon''" "''2''" "''40''" "[]"]
      sigar_cpu_mhz_from_model_ghz [of "''Xeon''" "''2''" "''4''" "[]"] s by simp
qed

text \<open>cleaning a model name is safe for every name that is not all spaces, and only then: the
  result is one of the short names of the table or a part of the model name.\<close>

theorem sigar_cpu_model_adjust_result:
  "(sigar_cpu_model_adjust vendor model = None \<longleftrightarrow> list_all is_blank model)
   \<and> (\<forall>m. sigar_cpu_model_adjust vendor model = Some m \<longrightarrow>
        m \<in> snd ` set cpu_models \<or> (\<exists>a b. model = a @ m @ b))"
proof -
  have suffix_part: "\<exists>a b. x = a @ drop n y @ b" if "\<exists>a b. x = a @ y @ b" for x y :: string and n
    using that by (metis append.assoc append_take_drop_id)
  have drop_while: "dropWhile is_blank y = drop (length (takeWhile is_blank y)) y" for y
    by (rule dropWhile_eq_drop)
  have "\<exists>a. model = a @ dropWhile is_blank model" by (metis takeWhile_dropWhile_id)
  moreover have "\<exists>b. y = rev (dropWhile is_blank (rev y)) @ b" for y
    by (metis rev_append rev_rev_ident takeWhile_dropWhile_id)
  ultimately have t: "\<exists>a b. model = a @ rev (dropWhile is_blank (rev (dropWhile is_blank model))) @ b"
    by metis
  have found: "cpu_model_find ms p = Some r \<Longrightarrow> r \<in> snd ` set ms" for ms p r
    by (induction ms p rule: cpu_model_find.induct) (auto split: if_splits intro: rev_image_eqI)
  show ?thesis
    unfolding sigar_cpu_model_adjust_def Let_def drop_while
    using t suffix_part found by (auto split: option.splits simp: drop_while [symmetric])
qed

theorem sigar_cpu_model_adjust_result_witness:
  "sigar_cpu_model_adjust ''Intel'' ''Intel(R) Xeon(TM) CPU 2.40GHz '' = Some ''Xeon''
   \<and> (''Xeon'' \<in> snd ` set cpu_models \<or> (\<exists>a b. ''Intel(R) Xeon(TM) CPU 2.40GHz '' = a @ ''Xeon'' @ b))"
proof -
  have "sigar_cpu_model_adjust ''Intel'' ''Intel(R) Xeon(TM) CPU 2.40GHz '' = Some ''Xeon''" by code_simp
  with sigar_cpu_model_adjust_result [of "''Intel''" "''Intel(R) Xeon(TM) CPU 2.40GHz ''"] show ?thesis by blast
qed

text \<open>The roll-up answer depends on the log level: below debug it is never given.\<close>

lemma core_rollup_needs_debug: "s_log_level s < 4 \<Longrightarrow> \<not> fst (sigar_cpu_core_rollup cpuid s)"
  by (simp add: sigar_cpu_core_rollup_def Let_def)

end
