(* ===== verification/Sigar_Proc.thy ===== *)
theory Sigar_Proc
  imports Sigar_Format Sigar_Procfs
begin

text \<open>
  The process functions of \<open>src/sigar.c\<close> that keep state in a \<open>sigar_t\<close>: the reusable process
  list, the CPU percentages and the disk rates computed from the previous sample of a process,
  which live in two expiring caches, and the counts over all processes. The platform functions
  they call (process times, cumulative disk counters, process state, credentials) are
  parameters; so is the clock: \<open>now\<close> is what \<open>sigar_time_now_millis\<close> returns to the function
  itself and \<open>t0\<close>, \<open>t1\<close>, \<open>t2\<close> what it returns when the cache is made, swept and accessed.
\<close>

section \<open>State\<close>

record sigar_cached_proc_disk_io =
  ci_bytes_read :: uint64
  ci_bytes_written :: uint64
  ci_bytes_total :: uint64
  ci_last_time :: uint64
  ci_bytes_read_diff :: uint64
  ci_bytes_written_diff :: uint64
  ci_bytes_total_diff :: uint64

record sigar_proc_cumulative_disk_io =
  cd_bytes_read :: uint64
  cd_bytes_written :: uint64
  cd_bytes_total :: uint64

record sigar_procs =
  sp_pids :: "pid clist option"
  sp_proc_cpu :: "sigar_proc_cpu cache option"
  sp_proc_io :: "sigar_cached_proc_disk_io cache option"

abbreviation (input) PID_CACHE_CLEANUP_PERIOD :: uint64 where "PID_CACHE_CLEANUP_PERIOD \<equiv> 600000"
abbreviation (input) PID_CACHE_ENTRY_EXPIRE_PERIOD :: uint64 where "PID_CACHE_ENTRY_EXPIRE_PERIOD \<equiv> 1200000"

text \<open>A pid (a signed \<open>int\<close>) is widened to the 64-bit key of the cache.\<close>

definition pid_key :: "pid \<Rightarrow> uint64" where
  "pid_key p = scast p"

section \<open>CPU use of a process\<close>

definition pid_cache :: "'v cache option \<Rightarrow> uint64 \<Rightarrow> 'v cache" where
  "pid_cache c t0 =
     (case c of
        Some t \<Rightarrow> t
      | None \<Rightarrow> sigar_expired_cache_new 128 PID_CACHE_CLEANUP_PERIOD PID_CACHE_ENTRY_EXPIRE_PERIOD t0)"

definition zero_proc_cpu :: sigar_proc_cpu where
  "zero_proc_cpu = \<lparr>pc_start_time = 0, pc_user = 0, pc_sys = 0, pc_total = 0, pc_last_time = 0, pc_percent = Fin 0\<rparr>"

text \<open>The status, the caller's structure afterwards (\<open>proccpu\<close> is what it held before) and the
  state.\<close>

definition sigar_proc_cpu_get ::
  "rounding \<Rightarrow> (pid \<Rightarrow> status + sigar_proc_time) \<Rightarrow> uint64 \<Rightarrow> uint64 \<times> uint64 \<times> uint64 \<Rightarrow>
   sigar_procs \<Rightarrow> pid \<Rightarrow> sigar_proc_cpu \<Rightarrow> status \<times> sigar_proc_cpu \<times> sigar_procs" where
  "sigar_proc_cpu_get rnd proc_time_get now clk sigar pid proccpu =
     (case clk of (t0, t1, t2) \<Rightarrow>
      (case cache_get_value (pid_cache (sp_proc_cpu sigar) t0) (pid_key pid) t1 t2 of (value, c) \<Rightarrow>
        (let prev = (case value of Some v \<Rightarrow> v | None \<Rightarrow> zero_proc_cpu);
             store = (\<lambda>v. sigar\<lparr>sp_proc_cpu := Some (cache_set_value c (pid_key pid) v)\<rparr>);
             time_diff = now - pc_last_time prev;
             prev1 = prev\<lparr>pc_last_time := now\<rparr>;
             proccpu1 = proccpu\<lparr>pc_last_time := now\<rparr>
         in if time_diff = 0 then (SIGAR_OK, prev1, store prev1)
            else
              (let otime = pc_total prev1 in
               case proc_time_get pid of
                 Inl st \<Rightarrow> (st, proccpu1, store prev1)
               | Inr tm \<Rightarrow>
                   (let proccpu2 = proccpu1\<lparr>pc_start_time := pt_start_time tm, pc_user := pt_user tm,
                                            pc_sys := pt_sys tm, pc_total := pt_total tm\<rparr>;
                        otime1 = (if pc_total proccpu2 < otime then 0 else otime)
                    in if otime1 = 0 then (SIGAR_OK, proccpu2\<lparr>pc_percent := Fin 0\<rparr>, store proccpu2)
                       else (SIGAR_OK,
                             proccpu2\<lparr>pc_percent := dbl_div_fin rnd (dbl_of_u64 rnd (pc_total proccpu2 - otime1))
                                                                    (dbl_of_u64 rnd time_diff)\<rparr>,
                             store proccpu2))))))"

section \<open>Disk rates of a process\<close>

definition copy_cached_disk_io_into_disk_io :: "sigar_cached_proc_disk_io \<Rightarrow> sigar_proc_disk_io" where
  "copy_cached_disk_io_into_disk_io cached =
     \<lparr>pd_bytes_read = ci_bytes_read_diff cached, pd_bytes_written = ci_bytes_written_diff cached,
      pd_bytes_total = ci_bytes_total_diff cached\<rparr>"

text \<open>The conversion of a \<open>double\<close> outside the range of the integer type is undefined.\<close>

definition get_io_diff :: "rounding \<Rightarrow> uint64 \<Rightarrow> uint64 \<Rightarrow> uint64 \<Rightarrow> uint64 ub" where
  "get_io_diff rnd current_value prev_value time_diff =
     (if current_value = SIGAR_FIELD_NOTIMPL then Some SIGAR_FIELD_NOTIMPL
      else case dbl_div_fin rnd (dbl_of_u64 rnd (current_value - prev_value)) (dbl_of_u64 rnd time_diff) of
             Fin q \<Rightarrow>
               (let io_diff = rnd (q * rnd 1000) in
                if 2 ^ 64 \<le> io_diff \<or> io_diff \<le> - 1 then None
                else Some (if 0 \<le> io_diff then of_int \<lfloor>io_diff\<rfloor> else 0))
           | _ \<Rightarrow> None)"

definition calculate_io_diff ::
  "rounding \<Rightarrow> sigar_proc_cumulative_disk_io \<Rightarrow> sigar_cached_proc_disk_io \<Rightarrow> uint64 \<Rightarrow> bool \<Rightarrow>
   sigar_cached_proc_disk_io ub" where
  "calculate_io_diff rnd io cached time_diff is_first_time =
     (let keep = (\<lambda>w r t. Some (cached\<lparr>ci_bytes_written_diff := w, ci_bytes_read_diff := r, ci_bytes_total_diff := t,
                                     ci_bytes_written := cd_bytes_written io, ci_bytes_read := cd_bytes_read io,
                                     ci_bytes_total := cd_bytes_total io\<rparr>))
      in if \<not> is_first_time then
           (case get_io_diff rnd (cd_bytes_written io) (ci_bytes_written cached) time_diff of
              None \<Rightarrow> None
            | Some w \<Rightarrow>
           (case get_io_diff rnd (cd_bytes_read io) (ci_bytes_read cached) time_diff of
              None \<Rightarrow> None
            | Some r \<Rightarrow>
           (case get_io_diff rnd (cd_bytes_total io) (ci_bytes_total cached) time_diff of
              None \<Rightarrow> None
            | Some t \<Rightarrow> keep w r t)))
         else keep 0 0 0)"

definition zero_cached_io :: sigar_cached_proc_disk_io where
  "zero_cached_io = \<lparr>ci_bytes_read = 0, ci_bytes_written = 0, ci_bytes_total = 0, ci_last_time = 0,
     ci_bytes_read_diff = 0, ci_bytes_written_diff = 0, ci_bytes_total_diff = 0\<rparr>"

text \<open>The result is the status, the caller's structure when it is written, and the state.\<close>

definition sigar_proc_disk_io_get ::
  "rounding \<Rightarrow> (pid \<Rightarrow> status + sigar_proc_cumulative_disk_io) \<Rightarrow> uint64 \<Rightarrow> uint64 \<times> uint64 \<times> uint64 \<Rightarrow>
   sigar_procs \<Rightarrow> pid \<Rightarrow> (status \<times> sigar_proc_disk_io option \<times> sigar_procs) ub" where
  "sigar_proc_disk_io_get rnd cumulative_get now clk sigar pid =
     (case clk of (t0, t1, t2) \<Rightarrow>
      (case cache_get_value (pid_cache (sp_proc_io sigar) t0) (pid_key pid) t1 t2 of (value, c) \<Rightarrow>
        (let prev = (case value of Some v \<Rightarrow> v | None \<Rightarrow> zero_cached_io);
             store = (\<lambda>v. sigar\<lparr>sp_proc_io := Some (cache_set_value c (pid_key pid) v)\<rparr>);
             is_first_time = (ci_last_time prev = 0);
             time_diff = now - ci_last_time prev
         in if sint time_diff < 1000 then
              Some (SIGAR_OK, Some (copy_cached_disk_io_into_disk_io prev),
                    store (if sint time_diff < 0 then prev\<lparr>ci_last_time := now\<rparr> else prev))
            else
              (let prev1 = prev\<lparr>ci_last_time := now\<rparr> in
               case cumulative_get pid of
                 Inl st \<Rightarrow> Some (st, None, store prev1)
               | Inr io \<Rightarrow>
                   (case calculate_io_diff rnd io prev1 time_diff is_first_time of
                      None \<Rightarrow> None
                    | Some prev2 \<Rightarrow> Some (SIGAR_OK, Some (copy_cached_disk_io_into_disk_io prev2), store prev2))))))"

section \<open>Process lists and counts\<close>

text \<open>\<open>sigar_proc_list_get\<close> into the list kept in the \<open>sigar_t\<close> (the argument is NULL) and into
  the caller's list.\<close>

definition sigar_proc_list_get_kept ::
  "(pid clist \<Rightarrow> (status \<times> pid clist) ub) \<Rightarrow> sigar_procs \<Rightarrow> (status \<times> sigar_procs) ub" where
  "sigar_proc_list_get_kept os_proc_list_get sigar =
     (let pids = (case sp_pids sigar of None \<Rightarrow> sigar_proc_list_create | Some l \<Rightarrow> l\<lparr>l_number := 0\<rparr>)
      in map_option (\<lambda>(st, l). (st, sigar\<lparr>sp_pids := Some l\<rparr>)) (os_proc_list_get pids))"

definition sigar_proc_list_get ::
  "(pid clist \<Rightarrow> (status \<times> pid clist) ub) \<Rightarrow> (status \<times> pid clist) ub" where
  "sigar_proc_list_get os_proc_list_get = os_proc_list_get sigar_proc_list_create"

definition sigar_proc_args_get ::
  "(pid \<Rightarrow> string clist \<Rightarrow> (status \<times> string clist) ub) \<Rightarrow> pid \<Rightarrow> (status \<times> string clist) ub" where
  "sigar_proc_args_get os_proc_args_get pid =
     map_option (\<lambda>(st, l). (st, if st \<noteq> SIGAR_OK then snd (sigar_proc_args_destroy l) else l))
       (os_proc_args_get pid sigar_proc_args_create)"

record sigar_proc_stat =
  st_total :: uint64
  st_sleeping :: uint64
  st_running :: uint64
  st_zombie :: uint64
  st_stopped :: uint64
  st_idle :: uint64
  st_threads :: uint64
  st_open_files :: uint64

definition stat_sum :: "uint64 \<Rightarrow> uint64 \<Rightarrow> uint64" where
  "stat_sum acc v =
     (if v \<noteq> SIGAR_FIELD_NOTIMPL then (if acc = SIGAR_FIELD_NOTIMPL then v else acc + v) else acc)"

definition stat_count :: "sigar_proc_state \<Rightarrow> sigar_proc_stat \<Rightarrow> sigar_proc_stat" where
  "stat_count state procstat0 =
     (let procstat = procstat0\<lparr>st_threads := stat_sum (st_threads procstat0) (ps_threads state),
                               st_open_files := stat_sum (st_open_files procstat0) (ps_open_files state)\<rparr>
      in if ps_state state = CHR ''D'' then procstat\<lparr>st_idle := st_idle procstat + 1\<rparr>
         else if ps_state state = CHR ''R'' then procstat\<lparr>st_running := st_running procstat + 1\<rparr>
         else if ps_state state = CHR ''S'' then procstat\<lparr>st_sleeping := st_sleeping procstat + 1\<rparr>
         else if ps_state state = CHR ''T'' then procstat\<lparr>st_stopped := st_stopped procstat + 1\<rparr>
         else if ps_state state = CHR ''Z'' then procstat\<lparr>st_zombie := st_zombie procstat + 1\<rparr>
         else procstat)"

fun proc_stat_loop ::
  "(pid \<Rightarrow> status + sigar_proc_state) \<Rightarrow> pid option list \<Rightarrow> sigar_proc_stat \<Rightarrow> sigar_proc_stat ub" where
  "proc_stat_loop proc_state_get [] procstat = Some procstat"
| "proc_stat_loop proc_state_get (None # cells) procstat = None"
| "proc_stat_loop proc_state_get (Some pid # cells) procstat =
     (case proc_state_get pid of
        Inl st \<Rightarrow> proc_stat_loop proc_state_get cells procstat
      | Inr state \<Rightarrow> proc_stat_loop proc_state_get cells (stat_count state procstat))"

definition zero_proc_stat :: sigar_proc_stat where
  "zero_proc_stat = \<lparr>st_total = 0, st_sleeping = 0, st_running = 0, st_zombie = 0, st_stopped = 0, st_idle = 0,
     st_threads = SIGAR_FIELD_NOTIMPL, st_open_files = SIGAR_FIELD_NOTIMPL\<rparr>"

definition sigar_proc_stat_get ::
  "(pid clist \<Rightarrow> (status \<times> pid clist) ub) \<Rightarrow> (pid \<Rightarrow> status + sigar_proc_state) \<Rightarrow> sigar_procs \<Rightarrow>
   (status \<times> sigar_proc_stat \<times> sigar_procs) ub" where
  "sigar_proc_stat_get os_proc_list_get proc_state_get sigar =
     (case sigar_proc_list_get_kept os_proc_list_get sigar of
        None \<Rightarrow> None
      | Some (st, sigar1) \<Rightarrow>
          if st \<noteq> SIGAR_OK then Some (st, zero_proc_stat, sigar1)
          else (case sp_pids sigar1 of
                  None \<Rightarrow> None
                | Some pids \<Rightarrow>
                    map_option (\<lambda>s. (SIGAR_OK, s, sigar1))
                      (proc_stat_loop proc_state_get (take (l_number pids) (l_data pids))
                         (zero_proc_stat\<lparr>st_total := of_nat (l_number pids)\<rparr>))))"

section \<open>Names of the owner\<close>

definition sigar_proc_cred_name_get ::
  "(pid \<Rightarrow> status + sigar_proc_cred) \<Rightarrow> (int \<Rightarrow> string lookup_r) \<Rightarrow> (int \<Rightarrow> string option lookup_r) \<Rightarrow> pid \<Rightarrow>
   status + sigar_proc_cred_name" where
  "sigar_proc_cred_name_get proc_cred_get getpwuid_r getgrgid_r pid =
     (case proc_cred_get pid of
        Inl st \<Rightarrow> Inl st
      | Inr cred \<Rightarrow>
          (case sigar_user_name_get getpwuid_r (sint (cr_uid cred)) 512 of
             Inl st \<Rightarrow> Inl st
           | Inr user \<Rightarrow>
               (case sigar_group_name_get getgrgid_r (sint (cr_gid cred)) 512 of
                  Inl st \<Rightarrow> Inl st
                | Inr grp \<Rightarrow> Inr \<lparr>cn_user = user, cn_group = grp\<rparr>)))"

section \<open>Facts\<close>

text \<open>A cache of process samples between calls, with room for \<open>n\<close> more.\<close>

definition pid_cache_ok :: "nat \<Rightarrow> 'v cache option \<Rightarrow> bool" where
  "pid_cache_ok n c \<longleftrightarrow>
     (case c of
        None \<Rightarrow> n < 2 ^ 31
      | Some t \<Rightarrow> cache_inv t \<and> length (cache_all t) + n < 2 ^ 31 \<and> c_expire t = PID_CACHE_ENTRY_EXPIRE_PERIOD)"

lemma get_expire: "c_expire (snd (sigar_cache_get t k a b)) = c_expire t"
  by (auto simp: sigar_cache_get_def sigar_perform_cleanup_if_necessary_def Let_def rehash_fields split: option.split)

lemma set_value_expire: "c_expire (cache_set_value t k v) = c_expire t"
  by (simp add: cache_set_value_def)

lemma pid_cache_made:
  assumes "pid_cache_ok n c"
  shows "cache_inv (pid_cache c t0) \<and> length (cache_all (pid_cache c t0)) + n < 2 ^ 31 \<and> c_expire (pid_cache c t0) = 1200000"
proof (cases c)
  case None
  have "cache_all (pid_cache c t0) = []" "c_expire (pid_cache c t0) = 1200000"
    using None by (simp_all add: pid_cache_def cache_all_def sigar_expired_cache_new_def)
  moreover have "cache_inv (pid_cache c t0)" using None by (simp add: pid_cache_def new_inv)
  ultimately show ?thesis using assms None by (simp add: pid_cache_ok_def)
next
  case (Some t)
  with assms show ?thesis by (simp add: pid_cache_def pid_cache_ok_def)
qed

lemma pid_cache_access:
  assumes "pid_cache_ok (Suc n) c" and "cache_get_value (pid_cache c t0) k t1 t2 = (value, c')"
  shows "value = cache_seen (pid_cache c t0) t1 k"
    and "pid_cache_ok n (Some (cache_set_value c' k v))"
    and "cache_lookup (cache_set_value c' k v) k = Some \<lparr>e_id = k, e_value = Some v, e_last_access = t2\<rparr>"
proof -
  let ?t = "pid_cache c t0"
  have t: "cache_inv ?t" "length (cache_all ?t) + Suc n < 2 ^ 31" "c_expire ?t = 1200000"
    using pid_cache_made [OF assms(1)] by auto
  then have room: "length (cache_all ?t) < 2 ^ 31 - 1" "cache_room ?t" by (simp_all add: cache_room_def)
  have c': "c' = snd (sigar_cache_get ?t k t1 t2)" "value = fst (cache_get_value ?t k t1 t2)"
    using assms(2) cache_get_value_parts(2) [of ?t k t1 t2] by simp_all
  note g = get_ok [OF t(1) room(1), of k t1 t2]
  show "value = cache_seen ?t t1 k" using c'(2) id_table.get_result [OF t(1) room(2)] by simp
  have "length (cache_all (cache_set_value c' k v)) \<le> Suc (length (cache_all ?t))"
    unfolding set_value_all length_map c'(1) by (rule get_length [OF t(1) room(1)])
  moreover have "cache_inv (cache_set_value c' k v)" unfolding c'(1) by (rule set_value_inv [OF g(1)])
  moreover have "c_expire (cache_set_value c' k v) = 1200000" unfolding set_value_expire c'(1) get_expire by (rule t(3))
  ultimately show "pid_cache_ok n (Some (cache_set_value c' k v))" using t(2) by (simp add: pid_cache_ok_def)
  have "cache_lookup c' k = Some (fresh_or_touched ?t k t1 t2)" using g(3) c'(1) by simp
  moreover have "e_id (fresh_or_touched ?t k t1 t2) = k" "e_last_access (fresh_or_touched ?t k t1 t2) = t2"
    using t(1) by (auto simp: fresh_or_touched_def cache_view_def cache_lookup_iff cache_inv_def split: option.splits if_splits)
  ultimately show "cache_lookup (cache_set_value c' k v) k = Some \<lparr>e_id = k, e_value = Some v, e_last_access = t2\<rparr>"
    by (simp add: set_value_lookup)
qed

text \<open>The next access within the expiry period sees the value.\<close>

lemma pid_cache_again:
  assumes "pid_cache_ok (Suc n) c" and "cache_get_value (pid_cache c t0) k t1 t2 = (value, c')" and "t1' - t2 \<le> 1200000"
  shows "cache_seen (cache_set_value c' k v) t1' k = Some v"
  using pid_cache_access(2,3) [OF assms(1,2), of v] assms(3)
  by (auto simp: cache_seen_def cache_view_def entry_expired_def pid_cache_ok_def not_less)

text \<open>The sample a call starts from, and what a successful measurement leaves behind.\<close>

definition prev_sample :: "sigar_procs \<Rightarrow> uint64 \<times> uint64 \<times> uint64 \<Rightarrow> pid \<Rightarrow> sigar_proc_cpu" where
  "prev_sample s clk p =
     (case clk of (t0, t1, t2) \<Rightarrow>
        (case cache_seen (pid_cache (sp_proc_cpu s) t0) t1 (pid_key p) of Some v \<Rightarrow> v | None \<Rightarrow> zero_proc_cpu))"

lemma proc_cpu_first:
  assumes "pid_cache_ok (Suc n) (sp_proc_cpu s)" and "tget p = Inr x"
    and "pc_last_time (prev_sample s (t0, t1, t2) p) \<noteq> a"
    and "sigar_proc_cpu_get rnd tget a (t0, t1, t2) s p buf = (st, out, s1)"
  shows "st = SIGAR_OK" and "pid_cache_ok n (sp_proc_cpu s1)"
    and "t1' - t2 \<le> 1200000 \<Longrightarrow> prev_sample s1 (t0', t1', t2') p =
      \<lparr>pc_start_time = pt_start_time x, pc_user = pt_user x, pc_sys = pt_sys x, pc_total = pt_total x,
       pc_last_time = a, pc_percent = pc_percent buf\<rparr>"
proof -
  let ?v = "\<lparr>pc_start_time = pt_start_time x, pc_user = pt_user x, pc_sys = pt_sys x, pc_total = pt_total x,
       pc_last_time = a, pc_percent = pc_percent buf\<rparr>"
  obtain val c' where g: "cache_get_value (pid_cache (sp_proc_cpu s) t0) (pid_key p) t1 t2 = (val, c')"
    by (cases "cache_get_value (pid_cache (sp_proc_cpu s) t0) (pid_key p) t1 t2")
  note ac = pid_cache_access [OF assms(1) g]
  have pv: "(case val of Some v \<Rightarrow> v | None \<Rightarrow> zero_proc_cpu) = prev_sample s (t0, t1, t2) p"
    using ac(1) by (simp add: prev_sample_def)
  have r: "st = SIGAR_OK \<and> s1 = s\<lparr>sp_proc_cpu := Some (cache_set_value c' (pid_key p) ?v)\<rparr>"
    using assms(2,3,4) by (cases buf) (auto simp: sigar_proc_cpu_get_def g pv Let_def split: if_splits)
  then show "st = SIGAR_OK" "pid_cache_ok n (sp_proc_cpu s1)" using ac(2) by simp_all
  show "prev_sample s1 (t0', t1', t2') p = ?v" if "t1' - t2 \<le> 1200000"
    using pid_cache_again [OF assms(1) g that, of ?v] r by (simp add: prev_sample_def pid_cache_def)
qed

lemma proc_cpu_second:
  assumes "pid_cache_ok (Suc n) (sp_proc_cpu s)"
  shows "tget p = Inr y \<Longrightarrow> pc_last_time (prev_sample s clk p) \<noteq> b \<Longrightarrow> pc_total (prev_sample s clk p) \<noteq> 0 \<Longrightarrow>
      pc_total (prev_sample s clk p) \<le> pt_total y \<Longrightarrow>
      fst (sigar_proc_cpu_get rnd tget b clk s p buf) = SIGAR_OK \<and>
      fst (snd (sigar_proc_cpu_get rnd tget b clk s p buf)) =
        \<lparr>pc_start_time = pt_start_time y, pc_user = pt_user y, pc_sys = pt_sys y, pc_total = pt_total y, pc_last_time = b,
         pc_percent = dbl_div_fin rnd (dbl_of_u64 rnd (pt_total y - pc_total (prev_sample s clk p)))
                        (dbl_of_u64 rnd (b - pc_last_time (prev_sample s clk p)))\<rparr>"
    and "pc_last_time (prev_sample s clk p) = b \<Longrightarrow>
      fst (snd (sigar_proc_cpu_get rnd tget b clk s p buf)) = prev_sample s clk p"
proof -
  obtain t0 t1 t2 where clk: "clk = (t0, t1, t2)" by (cases clk)
  obtain val c' where g: "cache_get_value (pid_cache (sp_proc_cpu s) t0) (pid_key p) t1 t2 = (val, c')"
    by (cases "cache_get_value (pid_cache (sp_proc_cpu s) t0) (pid_key p) t1 t2")
  have pv: "(case val of Some v \<Rightarrow> v | None \<Rightarrow> zero_proc_cpu) = prev_sample s clk p"
    using pid_cache_access(1) [OF assms g] by (simp add: prev_sample_def clk)
  note unf = sigar_proc_cpu_get_def clk prod.case g pv [unfolded clk] Let_def
  { assume "tget p = Inr y" "pc_last_time (prev_sample s clk p) \<noteq> b" "pc_total (prev_sample s clk p) \<noteq> 0"
      "pc_total (prev_sample s clk p) \<le> pt_total y"
    then show "fst (sigar_proc_cpu_get rnd tget b clk s p buf) = SIGAR_OK \<and>
      fst (snd (sigar_proc_cpu_get rnd tget b clk s p buf)) =
        \<lparr>pc_start_time = pt_start_time y, pc_user = pt_user y, pc_sys = pt_sys y, pc_total = pt_total y, pc_last_time = b,
         pc_percent = dbl_div_fin rnd (dbl_of_u64 rnd (pt_total y - pc_total (prev_sample s clk p)))
                        (dbl_of_u64 rnd (b - pc_last_time (prev_sample s clk p)))\<rparr>"
      unfolding unf by (cases buf) (auto simp: not_less) }
  { assume "pc_last_time (prev_sample s clk p) = b"
    then show "fst (snd (sigar_proc_cpu_get rnd tget b clk s p buf)) = prev_sample s clk p"
      unfolding unf by simp }
qed

lemma rnd_pos: "rounding_ok rnd \<Longrightarrow> 1 \<le> x \<Longrightarrow> 1 \<le> rnd x"
  using monoD [of rnd 1 x] by (simp add: rounding_ok_def)

lemma proc_stat_loop_fold:
  "proc_stat_loop get (map Some pids) p =
     Some (fold stat_count (List.map_filter (\<lambda>i. case get i of Inl _ \<Rightarrow> None | Inr s \<Rightarrow> Some s) pids) p)"
  by (induction pids arbitrary: p) (simp_all add: map_filter_simps split: sum.split)

lemma stat_count_fields:
  "st_total (stat_count s p) = st_total p"
  "st_idle (stat_count s p) = st_idle p + (if ps_state s = CHR ''D'' then 1 else 0)"
  "st_running (stat_count s p) = st_running p + (if ps_state s = CHR ''R'' then 1 else 0)"
  "st_sleeping (stat_count s p) = st_sleeping p + (if ps_state s = CHR ''S'' then 1 else 0)"
  "st_stopped (stat_count s p) = st_stopped p + (if ps_state s = CHR ''T'' then 1 else 0)"
  "st_zombie (stat_count s p) = st_zombie p + (if ps_state s = CHR ''Z'' then 1 else 0)"
  by (simp_all add: stat_count_def Let_def)

definition in_state :: "char \<Rightarrow> sigar_proc_state list \<Rightarrow> nat" where
  "in_state c ss = length (filter (\<lambda>s. ps_state s = c) ss)"

lemma stat_fold_fields:
  "st_total (fold stat_count ss p) = st_total p"
  "st_idle (fold stat_count ss p) = st_idle p + of_nat (in_state (CHR ''D'') ss)"
  "st_running (fold stat_count ss p) = st_running p + of_nat (in_state (CHR ''R'') ss)"
  "st_sleeping (fold stat_count ss p) = st_sleeping p + of_nat (in_state (CHR ''S'') ss)"
  "st_stopped (fold stat_count ss p) = st_stopped p + of_nat (in_state (CHR ''T'') ss)"
  "st_zombie (fold stat_count ss p) = st_zombie p + of_nat (in_state (CHR ''Z'') ss)"
  by (induction ss arbitrary: p) (simp_all add: stat_count_fields in_state_def)

lemma clist_wf_elems: "clist_wf l \<Longrightarrow> take (l_number l) (l_data l) = map Some (clist_elems l)"
  by (auto simp: clist_wf_def clist_elems_def list_all_iff intro!: map_idI [symmetric])

lemma clist_reuse: "clist_wf l \<Longrightarrow> clist_wf (l\<lparr>l_number := 0\<rparr>) \<and> clist_elems (l\<lparr>l_number := 0\<rparr>) = []"
  by (simp add: clist_wf_def clist_elems_def)

section \<open>Properties\<close>

text \<open>C18: the CPU percentage of a process. After a measurement at time \<open>a\<close>, a later call at time \<open>b\<close>
  before the sample expires reports the CPU time used in between divided by the elapsed time,
  however the cache was swept or rehashed in the meantime.\<close>

theorem proc_cpu_percent_between_calls:
  assumes "rounding_ok rnd" and "pid_cache_ok 2 (sp_proc_cpu s)"
    and "tget1 p = Inr x" and "tget2 p = Inr y" and "0 < pt_total x" and "pt_total x \<le> pt_total y"
    and "pc_last_time (prev_sample s (t0, t1, t2) p) \<noteq> a" and "a < b" and "t1' - t2 \<le> 1200000"
    and "sigar_proc_cpu_get rnd tget1 a (t0, t1, t2) s p buf = (st, out, s1)"
  shows "\<exists>out2 s2. sigar_proc_cpu_get rnd tget2 b (t0', t1', t2') s1 p buf2 = (SIGAR_OK, out2, s2)
    \<and> pc_total out2 = pt_total y \<and> pc_last_time out2 = b
    \<and> pc_percent out2 = Fin (rnd (dbl_of_u64 rnd (pt_total y - pt_total x) / dbl_of_u64 rnd (b - a)))"
proof -
  have c2: "pid_cache_ok (Suc 1) (sp_proc_cpu s)" using assms(2) by (simp add: numeral_2_eq_2)
  note one = proc_cpu_first [OF c2 assms(3,7,10)]
  have ok: "pid_cache_ok (Suc 0) (sp_proc_cpu s1)" using one(2) by simp
  note pv = one(3) [OF assms(9), of t0' t2']
  have n: "pt_total x \<noteq> 0" "a \<noteq> b" using assms(5,8) by auto
  have "1 \<le> unat (b - a)" using assms(8) by (simp add: unat_sub word_less_nat_alt order_less_imp_le)
  then have "(1 :: rat) \<le> of_nat (unat (b - a))" using of_nat_mono [of 1] by fastforce
  then have "dbl_of_u64 rnd (b - a) \<noteq> 0" using rnd_pos [OF assms(1)] unfolding dbl_of_u64_def by fastforce
  then show ?thesis
    using proc_cpu_second(1) [where clk = "(t0', t1', t2')" and tget = tget2 and p = p and b = b and rnd = rnd and buf = buf2,
        OF ok assms(4), unfolded pv] assms(6) n
    by (cases "sigar_proc_cpu_get rnd tget2 b (t0', t1', t2') s1 p buf2") (simp add: dbl_div_fin_def)
qed

text \<open>A machine with one process, seen twice.\<close>

definition example_procs :: sigar_procs where
  "example_procs = \<lparr>sp_pids = None, sp_proc_cpu = None, sp_proc_io = None\<rparr>"

definition example_time :: "uint64 \<Rightarrow> pid \<Rightarrow> status + sigar_proc_time" where
  "example_time t p = Inr \<lparr>pt_start_time = 5, pt_user = t, pt_sys = 0, pt_total = t\<rparr>"

lemma example_first:
  "pid_cache_ok 2 (sp_proc_cpu example_procs)"
  "pc_last_time (prev_sample example_procs (1000, 1000, 1000) 7) = 0"
  by (simp add: example_procs_def pid_cache_ok_def) code_simp

theorem proc_cpu_percent_between_calls_witness:
  "\<exists>st out s1 out2 s2.
     sigar_proc_cpu_get (\<lambda>x. x) (example_time 100) 1000 (1000, 1000, 1000) example_procs 7 zero_proc_cpu = (st, out, s1)
   \<and> sigar_proc_cpu_get (\<lambda>x. x) (example_time 350) 1500 (1500, 1500, 1500) s1 7 zero_proc_cpu = (0, out2, s2)
   \<and> pc_percent out2 = Fin (1 / 2)"
proof -
  obtain st out s1 where
    f: "sigar_proc_cpu_get (\<lambda>x. x) (example_time 100) 1000 (1000, 1000, 1000) example_procs 7 zero_proc_cpu = (st, out, s1)"
    by (cases "sigar_proc_cpu_get (\<lambda>x. x) (example_time 100) 1000 (1000, 1000, 1000) example_procs 7 zero_proc_cpu")
  have "\<exists>out2 s2. sigar_proc_cpu_get (\<lambda>x. x) (example_time 350) 1500 (1500, 1500, 1500) s1 7 zero_proc_cpu = (0, out2, s2)
    \<and> pc_percent out2 = Fin (1 / 2)"
    using proc_cpu_percent_between_calls [where ?tget1.0 = "example_time 100" and ?tget2.0 = "example_time 350" and p = 7
          and ?t0.0 = 1000 and ?t1.0 = 1000 and ?t2.0 = 1000 and t0' = 1500 and t1' = 1500 and t2' = 1500
          and a = 1000 and b = 1500 and ?s1.0 = s1 and st = st and out = out
          and buf = zero_proc_cpu and ?buf2.0 = zero_proc_cpu,
        OF id_rounding example_first(1) example_time_def example_time_def] example_first(2) f
    by (auto simp: dbl_of_u64_def)
  with f show ?thesis by blast
qed

text \<open>a repeated call within the same millisecond returns the sample as it was cached, and that
  was before the percentage was computed: the percentage it reports is what the first caller's
  structure happened to hold before the call.\<close>

theorem proc_cpu_repeat_returns_buffer:
  assumes "pid_cache_ok 2 (sp_proc_cpu s)" and "tget1 p = Inr x"
    and "pc_last_time (prev_sample s (t0, t1, t2) p) \<noteq> a" and "t1' - t2 \<le> 1200000"
    and "sigar_proc_cpu_get rnd tget1 a (t0, t1, t2) s p buf = (st, out, s1)"
  shows "pc_percent (fst (snd (sigar_proc_cpu_get rnd tget2 a (t0', t1', t2') s1 p buf2))) = pc_percent buf"
proof -
  have c2: "pid_cache_ok (Suc 1) (sp_proc_cpu s)" using assms(1) by (simp add: numeral_2_eq_2)
  note one = proc_cpu_first [OF c2 assms(2,3,5)]
  have ok: "pid_cache_ok (Suc 0) (sp_proc_cpu s1)" using one(2) by simp
  note pv = one(3) [OF assms(4), of t0' t2']
  show ?thesis using proc_cpu_second(2) [where clk = "(t0', t1', t2')" and p = p and b = a, OF ok, unfolded pv] by simp
qed

theorem proc_cpu_repeat_returns_buffer_witness:
  "\<exists>st out s1.
     sigar_proc_cpu_get (\<lambda>x. x) (example_time 100) 1000 (1000, 1000, 1000) example_procs 7
       (zero_proc_cpu\<lparr>pc_percent := NaN\<rparr>) = (st, out, s1)
   \<and> pc_percent (fst (snd (sigar_proc_cpu_get (\<lambda>x. x) (example_time 350) 1000 (1000, 1000, 1000) s1 7 zero_proc_cpu))) = NaN"
proof -
  obtain st out s1 where
    f: "sigar_proc_cpu_get (\<lambda>x. x) (example_time 100) 1000 (1000, 1000, 1000) example_procs 7
       (zero_proc_cpu\<lparr>pc_percent := NaN\<rparr>) = (st, out, s1)"
    by (cases "sigar_proc_cpu_get (\<lambda>x. x) (example_time 100) 1000 (1000, 1000, 1000) example_procs 7
       (zero_proc_cpu\<lparr>pc_percent := NaN\<rparr>)")
  with proc_cpu_repeat_returns_buffer [where ?tget1.0 = "example_time 100" and p = 7 and ?t0.0 = 1000 and ?t1.0 = 1000 and ?t2.0 = 1000
      and t0' = 1000 and t1' = 1000 and t2' = 1000 and a = 1000 and rnd = "\<lambda>x. x"
      and buf = "zero_proc_cpu\<lparr>pc_percent := NaN\<rparr>" and st = st and out = out and ?s1.0 = s1
      and ?tget2.0 = "example_time 350" and ?buf2.0 = zero_proc_cpu,
      OF example_first(1) example_time_def] example_first(2)
  show ?thesis by auto
qed



end
