(* ===== verification/Sigar_Netstat.thy ===== *)
theory Sigar_Netstat
  imports Sigar_Format
begin

text \<open>
  Connection statistics of \<open>src/sigar.c\<close>: the walkers that are called with each connection of the
  machine, the cache of listening addresses they fill, and the totals. The function
  \<open>sigar_net_connection_walk\<close> belongs to the platform: a parameter \<open>walk\<close> gives, for the flags of
  the walker, the status it returns and the connections it delivers (the walkers of this file
  always ask for more). The cache never expires, so one time per call is enough.
\<close>

section \<open>Data\<close>

record sigar_net_connection =
  nc_local_port :: uint64
  nc_local_address :: sigar_net_address
  nc_remote_port :: uint64
  nc_remote_address :: sigar_net_address
  nc_uid :: uint32
  nc_inode :: uint64
  nc_type :: nat
  nc_state :: int
  nc_send_queue :: uint64
  nc_receive_queue :: uint64
  nc_pid :: uint32

record sigar_net_stat =
  ns_tcp_states :: "uint32 list"
  ns_tcp_inbound_total :: uint32
  ns_tcp_outbound_total :: uint32
  ns_all_inbound_total :: uint32
  ns_all_outbound_total :: uint32

abbreviation (input) SIGAR_NETCONN_CLIENT :: nat where "SIGAR_NETCONN_CLIENT \<equiv> 0x01"
abbreviation (input) SIGAR_NETCONN_SERVER :: nat where "SIGAR_NETCONN_SERVER \<equiv> 0x02"
abbreviation (input) SIGAR_NETCONN_TCP :: nat where "SIGAR_NETCONN_TCP \<equiv> 0x10"
abbreviation (input) SIGAR_NETCONN_UDP :: nat where "SIGAR_NETCONN_UDP \<equiv> 0x20"
abbreviation (input) SIGAR_NETCONN_RAW :: nat where "SIGAR_NETCONN_RAW \<equiv> 0x40"
abbreviation (input) SIGAR_NETCONN_UNIX :: nat where "SIGAR_NETCONN_UNIX \<equiv> 0x80"
abbreviation (input) SIGAR_TCP_ESTABLISHED :: int where "SIGAR_TCP_ESTABLISHED \<equiv> 1"
abbreviation (input) SIGAR_TCP_CLOSE_WAIT :: int where "SIGAR_TCP_CLOSE_WAIT \<equiv> 8"
abbreviation (input) SIGAR_TCP_LISTEN :: int where "SIGAR_TCP_LISTEN \<equiv> 10"
abbreviation (input) SIGAR_TCP_UNKNOWN :: int where "SIGAR_TCP_UNKNOWN \<equiv> 14"

text \<open>\<open>SIGAR_ZERO(netstat)\<close>; the array has \<open>SIGAR_TCP_UNKNOWN\<close> cells.\<close>

definition zero_net_stat :: sigar_net_stat where
  "zero_net_stat = \<lparr>ns_tcp_states = replicate 14 0, ns_tcp_inbound_total = 0, ns_tcp_outbound_total = 0,
     ns_all_inbound_total = 0, ns_all_outbound_total = 0\<rparr>"

type_synonym listen_cache = "sigar_net_address cache"

section \<open>Walkers\<close>

text \<open>\<open>tcp_states[state]++\<close>.\<close>

definition count_state :: "int \<Rightarrow> uint32 list \<Rightarrow> uint32 list ub" where
  "count_state state states =
     (if 0 \<le> state \<and> nat state < length states then Some (states[nat state := states ! nat state + 1]) else None)"

definition sigar_net_listen_address_add :: "uint64 \<Rightarrow> listen_cache \<Rightarrow> sigar_net_connection \<Rightarrow> listen_cache" where
  "sigar_net_listen_address_add now net_listen conn =
     (case cache_get_value net_listen (nc_local_port conn) now now of
        (Some _, c) \<Rightarrow>
          if na_family (nc_local_address conn) = SIGAR_AF_INET6 then c
          else cache_set_value c (nc_local_port conn) (nc_local_address conn)
      | (None, c) \<Rightarrow> cache_set_value c (nc_local_port conn) (nc_local_address conn))"

definition net_stat_walker ::
  "uint64 \<Rightarrow> sigar_net_connection \<Rightarrow> sigar_net_stat \<times> listen_cache \<Rightarrow> (sigar_net_stat \<times> listen_cache) ub" where
  "net_stat_walker now conn getter =
     (case getter of (netstat, net_listen) \<Rightarrow>
        map_option (\<lambda>(ns, c). (ns\<lparr>ns_all_inbound_total := ns_tcp_inbound_total ns,
                                 ns_all_outbound_total := ns_tcp_outbound_total ns\<rparr>, c))
          (if nc_type conn = SIGAR_NETCONN_TCP then
             (case count_state (nc_state conn) (ns_tcp_states netstat) of
                None \<Rightarrow> None
              | Some states \<Rightarrow>
                  (let ns = netstat\<lparr>ns_tcp_states := states\<rparr> in
                   if nc_state conn = SIGAR_TCP_LISTEN then Some (ns, sigar_net_listen_address_add now net_listen conn)
                   else (case cache_find_now net_listen (nc_local_port conn) now of
                           (found, c) \<Rightarrow>
                             if found then Some (ns\<lparr>ns_tcp_inbound_total := ns_tcp_inbound_total ns + 1\<rparr>, c)
                             else Some (ns\<lparr>ns_tcp_outbound_total := ns_tcp_outbound_total ns + 1\<rparr>, c))))
           else Some (netstat, net_listen)))"

text \<open>A walk: the callback is applied to each connection in turn.\<close>

fun walk_all :: "('c \<Rightarrow> 's \<Rightarrow> 's ub) \<Rightarrow> 'c list \<Rightarrow> 's \<Rightarrow> 's ub" where
  "walk_all f [] s = Some s"
| "walk_all f (c # cs) s = (case f c s of None \<Rightarrow> None | Some s1 \<Rightarrow> walk_all f cs s1)"

definition sigar_net_stat_get ::
  "(nat \<Rightarrow> status \<times> sigar_net_connection list) \<Rightarrow> uint64 \<Rightarrow> listen_cache option \<Rightarrow> nat \<Rightarrow>
   (status \<times> sigar_net_stat \<times> listen_cache) ub" where
  "sigar_net_stat_get walk now net_listen flags =
     (let c = (case net_listen of Some c \<Rightarrow> c | None \<Rightarrow> sigar_cache_new 32 now)
      in case walk flags of
           (st, conns) \<Rightarrow>
             map_option (\<lambda>(ns, c1). (st, ns, c1)) (walk_all (net_stat_walker now) conns (zero_net_stat, c)))"

text \<open>The address a server listens on; \<open>None\<close> also where a cached value were NULL.\<close>

definition listen_value :: "uint64 \<Rightarrow> uint64 \<Rightarrow> listen_cache \<Rightarrow> (status \<times> sigar_net_address option \<times> listen_cache) ub" where
  "listen_value now port c =
     (case cache_find_now c port now of
        (False, c1) \<Rightarrow> Some (ENOENT, None, c1)
      | (True, c1) \<Rightarrow>
          (case cache_get_value c1 port now now of
             (None, c2) \<Rightarrow> None
           | (Some address, c2) \<Rightarrow> Some (SIGAR_OK, Some address, c2)))"

definition sigar_net_listen_address_get ::
  "(nat \<Rightarrow> status \<times> sigar_net_connection list) \<Rightarrow> uint64 \<Rightarrow> listen_cache option \<Rightarrow> uint64 \<Rightarrow>
   (status \<times> sigar_net_address option \<times> listen_cache option) ub" where
  "sigar_net_listen_address_get walk now net_listen port =
     (let (known, listen1) =
        (case net_listen of
           None \<Rightarrow> (False, None)
         | Some c \<Rightarrow> (case cache_find_now c port now of (found, c1) \<Rightarrow> (found, Some c1)))
      in if known then
           (case listen1 of
              None \<Rightarrow> None
            | Some c \<Rightarrow> map_option (\<lambda>(st, a, c1). (st, a, Some c1)) (listen_value now port c))
         else
           (case sigar_net_stat_get walk now listen1 (SIGAR_NETCONN_SERVER + SIGAR_NETCONN_TCP) of
              None \<Rightarrow> None
            | Some (st, ns, c) \<Rightarrow>
                if st \<noteq> SIGAR_OK then Some (st, None, Some c)
                else map_option (\<lambda>(st, a, c1). (st, a, Some c1)) (listen_value now port c)))"

definition net_stat_port_walker ::
  "sigar_net_address \<Rightarrow> uint64 \<Rightarrow> sigar_net_connection \<Rightarrow> sigar_net_stat \<Rightarrow> sigar_net_stat ub" where
  "net_stat_port_walker address port conn netstat =
     (let counted = (\<lambda>ns. map_option (\<lambda>states. ns\<lparr>ns_tcp_states := states\<rparr>)
                           (count_state (nc_state conn) (ns_tcp_states ns)))
      in if nc_type conn = SIGAR_NETCONN_TCP then
           (if nc_local_port conn = port then
              (let ns = netstat\<lparr>ns_all_inbound_total := ns_all_inbound_total netstat + 1\<rparr> in
               if sigar_net_address_equals address (nc_local_address conn) = SIGAR_OK
               then counted (ns\<lparr>ns_tcp_inbound_total := ns_tcp_inbound_total ns + 1\<rparr>)
               else counted ns)
            else if nc_remote_port conn = port then
              (let ns = netstat\<lparr>ns_all_outbound_total := ns_all_outbound_total netstat + 1\<rparr> in
               if sigar_net_address_equals address (nc_remote_address conn) = SIGAR_OK
               then counted (ns\<lparr>ns_tcp_outbound_total := ns_tcp_outbound_total ns + 1\<rparr>)
               else counted ns)
            else Some netstat)
         else Some netstat)"

definition sigar_net_stat_port_get ::
  "(nat \<Rightarrow> status \<times> sigar_net_connection list) \<Rightarrow> nat \<Rightarrow> sigar_net_address \<Rightarrow> uint64 \<Rightarrow> (status \<times> sigar_net_stat) ub" where
  "sigar_net_stat_port_get walk flags address port =
     (case walk flags of
        (st, conns) \<Rightarrow> map_option (\<lambda>ns. (st, ns)) (walk_all (net_stat_port_walker address port) conns zero_net_stat))"

definition tcp_curr_estab_count :: "sigar_net_connection \<Rightarrow> uint64 \<Rightarrow> uint64" where
  "tcp_curr_estab_count conn curr_estab =
     (if nc_state conn = SIGAR_TCP_ESTABLISHED \<or> nc_state conn = SIGAR_TCP_CLOSE_WAIT then curr_estab + 1 else curr_estab)"

definition sigar_tcp_curr_estab :: "(nat \<Rightarrow> status \<times> sigar_net_connection list) \<Rightarrow> status \<times> uint64" where
  "sigar_tcp_curr_estab walk =
     (case walk (SIGAR_NETCONN_CLIENT + SIGAR_NETCONN_TCP) of (st, conns) \<Rightarrow> (st, fold tcp_curr_estab_count conns 0))"

section \<open>Specification\<close>

definition is_tcp :: "sigar_net_connection \<Rightarrow> bool" where
  "is_tcp k \<longleftrightarrow> nc_type k = SIGAR_NETCONN_TCP"

definition is_listen :: "sigar_net_connection \<Rightarrow> bool" where
  "is_listen k \<longleftrightarrow> is_tcp k \<and> nc_state k = SIGAR_TCP_LISTEN"

definition states_ok :: "sigar_net_connection list \<Rightarrow> bool" where
  "states_ok ks \<longleftrightarrow> list_all (\<lambda>k. is_tcp k \<longrightarrow> 0 \<le> nc_state k \<and> nc_state k < SIGAR_TCP_UNKNOWN) ks"

text \<open>How many connections use a local port that is known to be listened on, with the ports known
  so far.\<close>

fun inbound_count :: "uint64 set \<Rightarrow> sigar_net_connection list \<Rightarrow> nat" where
  "inbound_count P [] = 0"
| "inbound_count P (k # ks) =
     (if is_listen k then inbound_count (insert (nc_local_port k) P) ks
      else (if is_tcp k \<and> nc_local_port k \<in> P then 1 else 0) + inbound_count P ks)"

fun listen_merge :: "sigar_net_connection list \<Rightarrow> (uint64 \<Rightarrow> sigar_net_address option) \<Rightarrow> uint64 \<Rightarrow> sigar_net_address option" where
  "listen_merge [] m = m"
| "listen_merge (k # ks) m =
     (if is_listen k
      then listen_merge ks (m(nc_local_port k \<mapsto>
             (case m (nc_local_port k) of
                Some a \<Rightarrow> if na_family (nc_local_address k) = SIGAR_AF_INET6 then a else nc_local_address k
              | None \<Rightarrow> nc_local_address k)))
      else listen_merge ks m)"

text \<open>Which of several listening addresses of a port is kept: the last that is not IPv6, else the
  first.\<close>

definition preferred :: "sigar_net_address list \<Rightarrow> sigar_net_address" where
  "preferred as = (case filter (\<lambda>a. na_family a \<noteq> SIGAR_AF_INET6) as of [] \<Rightarrow> hd as | bs \<Rightarrow> last bs)"

definition listeners :: "sigar_net_connection list \<Rightarrow> uint64 \<Rightarrow> sigar_net_address list" where
  "listeners ks port = map nc_local_address (filter (\<lambda>k. is_listen k \<and> nc_local_port k = port) ks)"

section \<open>Facts\<close>

definition listen_keep :: "sigar_net_address \<Rightarrow> sigar_net_address \<Rightarrow> sigar_net_address option" where
  "listen_keep v old = (if na_family v = SIGAR_AF_INET6 then None else Some v)"

lemma listen_add_upsert:
  "sigar_net_listen_address_add now c k =
     perm.upsert (listen_keep (nc_local_address k)) now c (nc_local_port k) (nc_local_address k)"
  by (simp add: sigar_net_listen_address_add_def perm.upsert_def cache_get_now_def listen_keep_def split: prod.split option.split)

lemma count_state_ok:
  assumes "length states = 14" and "0 \<le> st" and "st < 14"
  shows "\<exists>states'. count_state st states = Some states' \<and> length states' = 14 \<and>
    (\<forall>i < 14. states' ! i = states ! i + (if int i = st then 1 else 0))"
  using assms by (auto simp: count_state_def nth_list_update)

text \<open>One connection.\<close>

lemma walker_step:
  assumes "perm_ok (Suc n) c" and "perm.full c" and "length (ns_tcp_states ns) = 14"
    and "is_tcp k \<Longrightarrow> 0 \<le> nc_state k \<and> nc_state k < 14"
  shows "\<exists>ns' c'. net_stat_walker now k (ns, c) = Some (ns', c') \<and> perm_ok n c' \<and> perm.full c' \<and>
    cache_stored c' = listen_merge [k] (cache_stored c) \<and> length (ns_tcp_states ns') = 14 \<and>
    (\<forall>i < 14. ns_tcp_states ns' ! i = ns_tcp_states ns ! i + (if is_tcp k \<and> nc_state k = int i then 1 else 0)) \<and>
    ns_tcp_inbound_total ns' = ns_tcp_inbound_total ns + of_nat (inbound_count (dom (cache_stored c)) [k]) \<and>
    ns_tcp_inbound_total ns' + ns_tcp_outbound_total ns' =
      ns_tcp_inbound_total ns + ns_tcp_outbound_total ns + (if is_tcp k \<and> \<not> is_listen k then 1 else 0)"
proof (cases "is_tcp k")
  case False
  then have "net_stat_walker now k (ns, c) =
      Some (ns\<lparr>ns_all_inbound_total := ns_tcp_inbound_total ns, ns_all_outbound_total := ns_tcp_outbound_total ns\<rparr>, c)"
    by (simp add: net_stat_walker_def is_tcp_def)
  moreover have "\<not> is_listen k" using False by (simp add: is_listen_def)
  moreover have "perm_ok n c" by (rule perm.ok_less [OF assms(1)]) simp
  ultimately show ?thesis using assms False by simp
next
  case True
  then have st: "0 \<le> nc_state k" "nc_state k < 14" using assms(4) by auto
  from count_state_ok [OF assms(3) st] obtain states where
    s: "count_state (nc_state k) (ns_tcp_states ns) = Some states" "length states = 14"
      "\<forall>i < 14. states ! i = ns_tcp_states ns ! i + (if int i = nc_state k then 1 else 0)" by blast
  show ?thesis
  proof (cases "nc_state k = 10")
    case listen: True
    then have l: "is_listen k" using True by (simp add: is_listen_def)
    note u = perm.upsert_ok [OF assms(1), of "listen_keep (nc_local_address k)" now "nc_local_port k" "nc_local_address k"]
    have "perm.merged (listen_keep (nc_local_address k)) m (nc_local_address k) =
        (case m of Some a \<Rightarrow> if na_family (nc_local_address k) = SIGAR_AF_INET6 then a else nc_local_address k
         | None \<Rightarrow> nc_local_address k)" for m
      by (simp add: perm.merged_def listen_keep_def split: option.split)
    then show ?thesis
      using True listen l s u assms(2) by (auto simp: net_stat_walker_def is_tcp_def listen_add_upsert Let_def)
  next
    case no: False
    then have nl: "\<not> is_listen k" by (simp add: is_listen_def)
    obtain b c1 where f: "cache_find_now c (nc_local_port k) now = (b, c1)" by (cases "cache_find_now c (nc_local_port k) now")
    have ok: "perm_ok n c" by (rule perm.ok_less [OF assms(1)]) simp
    from perm.find_law [OF ok f] have c1: "b = cache_present c (nc_local_port k)" "cache_stored c1 = cache_stored c"
      "perm_ok n c1" "cache_present c1 = cache_present c" by auto
    have "perm.full c1" using assms(2) c1 by (simp add: perm.full_def)
    moreover have "b \<longleftrightarrow> nc_local_port k \<in> dom (cache_stored c)" using assms(2) c1(1) by (auto simp: perm.full_def)
    ultimately show ?thesis
      using True no nl s f c1 by (auto simp: net_stat_walker_def is_tcp_def Let_def)
  qed
qed

lemma inbound_Cons:
  "inbound_count (dom m) (k # ks) = inbound_count (dom m) [k] + inbound_count (dom (listen_merge [k] m)) ks"
  by (simp add: insert_absorb)

lemma listen_merge_Cons: "listen_merge (k # ks) m = listen_merge ks (listen_merge [k] m)"
  by simp

lemma walk_counts:
  assumes "perm_ok (length ks + n) c" and "perm.full c" and "length (ns_tcp_states ns) = 14" and "states_ok ks"
  shows "\<exists>ns' c'. walk_all (net_stat_walker now) ks (ns, c) = Some (ns', c') \<and> perm_ok n c' \<and> perm.full c' \<and>
    cache_stored c' = listen_merge ks (cache_stored c) \<and>
    (\<forall>i < 14. ns_tcp_states ns' ! i = ns_tcp_states ns ! i + of_nat (length (filter (\<lambda>k. is_tcp k \<and> nc_state k = int i) ks))) \<and>
    ns_tcp_inbound_total ns' = ns_tcp_inbound_total ns + of_nat (inbound_count (dom (cache_stored c)) ks) \<and>
    ns_tcp_inbound_total ns' + ns_tcp_outbound_total ns' = ns_tcp_inbound_total ns + ns_tcp_outbound_total ns +
      of_nat (length (filter (\<lambda>k. is_tcp k \<and> \<not> is_listen k) ks))"
  using assms
proof (induction ks arbitrary: c ns)
  case Nil
  then show ?case by simp
next
  case (Cons k ks)
  have ok: "perm_ok (Suc (length ks + n)) c" using Cons.prems(1) by simp
  have st: "is_tcp k \<Longrightarrow> 0 \<le> nc_state k \<and> nc_state k < 14" "states_ok ks"
    using Cons.prems(4) by (simp_all add: states_ok_def)
  from walker_step [OF ok Cons.prems(2,3) st(1)] obtain ns1 c1 where
    w: "net_stat_walker now k (ns, c) = Some (ns1, c1)" "perm_ok (length ks + n) c1" "perm.full c1"
      "cache_stored c1 = listen_merge [k] (cache_stored c)" "length (ns_tcp_states ns1) = 14"
      "\<forall>i < 14. ns_tcp_states ns1 ! i = ns_tcp_states ns ! i + (if is_tcp k \<and> nc_state k = int i then 1 else 0)"
      "ns_tcp_inbound_total ns1 = ns_tcp_inbound_total ns + of_nat (inbound_count (dom (cache_stored c)) [k])"
      "ns_tcp_inbound_total ns1 + ns_tcp_outbound_total ns1 =
        ns_tcp_inbound_total ns + ns_tcp_outbound_total ns + (if is_tcp k \<and> \<not> is_listen k then 1 else 0)"
    by blast
  from Cons.IH [OF w(2,3,5) st(2)] obtain ns2 c2 where
    r: "walk_all (net_stat_walker now) ks (ns1, c1) = Some (ns2, c2)" "perm_ok n c2" "perm.full c2"
      "cache_stored c2 = listen_merge ks (cache_stored c1)"
      "\<forall>i < 14. ns_tcp_states ns2 ! i = ns_tcp_states ns1 ! i + of_nat (length (filter (\<lambda>k. is_tcp k \<and> nc_state k = int i) ks))"
      "ns_tcp_inbound_total ns2 = ns_tcp_inbound_total ns1 + of_nat (inbound_count (dom (cache_stored c1)) ks)"
      "ns_tcp_inbound_total ns2 + ns_tcp_outbound_total ns2 = ns_tcp_inbound_total ns1 + ns_tcp_outbound_total ns1 +
        of_nat (length (filter (\<lambda>k. is_tcp k \<and> \<not> is_listen k) ks))"
    by blast
  have "ns_tcp_inbound_total ns2 = ns_tcp_inbound_total ns + of_nat (inbound_count (dom (cache_stored c)) (k # ks))"
    unfolding r(6) w(7) w(4) inbound_Cons [of "cache_stored c" k ks] by (simp only: of_nat_add add.assoc)
  moreover have "\<forall>i < 14. ns_tcp_states ns2 ! i =
      ns_tcp_states ns ! i + of_nat (length (filter (\<lambda>k. is_tcp k \<and> nc_state k = int i) (k # ks)))"
    using r(5) w(6) by (simp add: ac_simps)
  moreover have "ns_tcp_inbound_total ns2 + ns_tcp_outbound_total ns2 = ns_tcp_inbound_total ns + ns_tcp_outbound_total ns +
      of_nat (length (filter (\<lambda>k. is_tcp k \<and> \<not> is_listen k) (k # ks)))"
    unfolding r(7) w(8) by simp
  moreover have "cache_stored c2 = listen_merge (k # ks) (cache_stored c)"
    unfolding r(4) w(4) by (rule listen_merge_Cons [of k ks, symmetric])
  moreover have "walk_all (net_stat_walker now) (k # ks) (ns, c) = Some (ns2, c2)" using w(1) r(1) by simp
  ultimately show ?case using r(2,3) by blast
qed

lemma listen_merge_snoc: "listen_merge (ks @ [k]) m = listen_merge [k] (listen_merge ks m)"
  by (induction ks arbitrary: m) auto

lemma preferred_snoc:
  "preferred (as @ [a]) = (if na_family a \<noteq> SIGAR_AF_INET6 \<or> as = [] then a else preferred as)"
  by (auto simp: preferred_def split: list.split)

lemma listen_merge_preferred:
  "listen_merge ks Map.empty port = (if listeners ks port = [] then None else Some (preferred (listeners ks port)))"
proof (induction ks rule: rev_induct)
  case Nil
  then show ?case by (simp add: listeners_def)
next
  case (snoc k ks)
  show ?case
  proof (cases "is_listen k \<and> nc_local_port k = port")
    case True
    then have "listeners (ks @ [k]) port = listeners ks port @ [nc_local_address k]" by (simp add: listeners_def)
    with True snoc show ?thesis
      by (auto simp: listen_merge_snoc preferred_snoc split: if_splits option.splits)
  next
    case False
    then have "listeners (ks @ [k]) port = listeners ks port" by (auto simp: listeners_def)
    with False snoc show ?thesis by (auto simp: listen_merge_snoc)
  qed
qed

text \<open>The cache a statistics call starts from.\<close>

definition listen_ready :: "nat \<Rightarrow> listen_cache option \<Rightarrow> bool" where
  "listen_ready n net_listen \<longleftrightarrow> (case net_listen of None \<Rightarrow> n < 2 ^ 31 | Some c \<Rightarrow> perm_ok n c \<and> perm.full c)"

definition known_ports :: "listen_cache option \<Rightarrow> uint64 set" where
  "known_ports net_listen = (case net_listen of None \<Rightarrow> {} | Some c \<Rightarrow> dom (cache_stored c))"

lemma zero_states: "length (ns_tcp_states zero_net_stat) = 14" "i < 14 \<Longrightarrow> ns_tcp_states zero_net_stat ! i = 0"
  "ns_tcp_inbound_total zero_net_stat = 0" "ns_tcp_outbound_total zero_net_stat = 0"
  by (simp_all add: zero_net_stat_def nth_replicate)

lemma net_stat_get_ok:
  assumes "listen_ready (length ks + n) net_listen" and "walk flags = (st, ks)" and "states_ok ks"
    and "m = (case net_listen of None \<Rightarrow> Map.empty | Some c \<Rightarrow> cache_stored c)"
  shows "\<exists>ns c. sigar_net_stat_get walk now net_listen flags = Some (st, ns, c) \<and> perm_ok n c \<and> perm.full c \<and>
    cache_stored c = listen_merge ks m \<and>
    (\<forall>i < 14. ns_tcp_states ns ! i = of_nat (length (filter (\<lambda>k. is_tcp k \<and> nc_state k = int i) ks))) \<and>
    ns_tcp_inbound_total ns = of_nat (inbound_count (dom m) ks) \<and>
    ns_tcp_inbound_total ns + ns_tcp_outbound_total ns = of_nat (length (filter (\<lambda>k. is_tcp k \<and> \<not> is_listen k) ks))"
proof -
  define c0 where "c0 = (case net_listen of Some c \<Rightarrow> c | None \<Rightarrow> sigar_cache_new 32 now)"
  have c0: "perm_ok (length ks + n) c0" "perm.full c0" "cache_stored c0 = m"
    using assms(1,4)
    by (auto simp: c0_def listen_ready_def perm_new perm.full_def perm_new_content split: option.splits)
  from walk_counts [OF c0(1,2) zero_states(1) assms(3), of now] show ?thesis
    unfolding sigar_net_stat_get_def c0_def [symmetric] Let_def assms(2) prod.case c0(3)
    using zero_states(2-4) by auto
qed

section \<open>Properties\<close>

text \<open>C20: connection statistics. When every TCP state the platform reports is below
  \<open>SIGAR_TCP_UNKNOWN\<close>, the walk stays inside the array of states, which afterwards holds the
  number of TCP connections in each state; every TCP connection that is not listening is
  counted once, as inbound exactly when its local port is known to be listened on (from
  earlier calls, or because the listener was delivered before it) and as outbound otherwise.\<close>

theorem net_stat_counts:
  assumes "listen_ready (length ks) net_listen" and "walk flags = (st, ks)" and "states_ok ks"
  shows "\<exists>ns c. sigar_net_stat_get walk now net_listen flags = Some (st, ns, c)
    \<and> (\<forall>i < 14. ns_tcp_states ns ! i = of_nat (length (filter (\<lambda>k. is_tcp k \<and> nc_state k = int i) ks)))
    \<and> ns_tcp_inbound_total ns = of_nat (inbound_count (known_ports net_listen) ks)
    \<and> ns_tcp_inbound_total ns + ns_tcp_outbound_total ns = of_nat (length (filter (\<lambda>k. is_tcp k \<and> \<not> is_listen k) ks))"
proof -
  define m where "m = (case net_listen of None \<Rightarrow> Map.empty | Some c \<Rightarrow> cache_stored c)"
  have p: "known_ports net_listen = dom m"
    by (simp add: known_ports_def m_def split: option.split)
  have "listen_ready (length ks + 0) net_listen" using assms(1) by simp
  from net_stat_get_ok [where walk = walk and flags = flags and st = st and now = now, OF this assms(2,3) m_def]
  show ?thesis unfolding p by blast
qed

text \<open>An address and a connection for the examples.\<close>

definition example_addr :: "nat \<Rightarrow> sigar_net_address" where
  "example_addr f = \<lparr>na_family = f, na_addr = replicate 16 1\<rparr>"

definition example_conn :: "nat \<Rightarrow> uint64 \<Rightarrow> int \<Rightarrow> sigar_net_connection" where
  "example_conn f port state =
     \<lparr>nc_local_port = port, nc_local_address = example_addr f, nc_remote_port = 40000, nc_remote_address = example_addr f,
      nc_uid = 0, nc_inode = 0, nc_type = 0x10, nc_state = state, nc_send_queue = 0, nc_receive_queue = 0, nc_pid = 0\<rparr>"

theorem net_stat_counts_witness:
  "\<exists>ns c. sigar_net_stat_get (\<lambda>f. (0, [example_conn 1 80 10, example_conn 1 80 1, example_conn 1 5000 1])) 0 None 0x13
      = Some (0, ns, c) \<and> ns_tcp_inbound_total ns = 1 \<and> ns_tcp_states ns ! 1 = 2"
proof -
  let ?ks = "[example_conn 1 80 10, example_conn 1 80 1, example_conn 1 5000 1]"
  have ok: "states_ok ?ks" by (simp add: states_ok_def example_conn_def)
  have "listen_ready (length ?ks) None" by (simp add: listen_ready_def)
  from net_stat_counts [where walk = "\<lambda>f. (0, ?ks)" and flags = "0x13" and now = 0, OF this refl ok] obtain ns c where
    r: "sigar_net_stat_get (\<lambda>f. (0, ?ks)) 0 None 0x13 = Some (0, ns, c)"
      "\<forall>i < 14. ns_tcp_states ns ! i = of_nat (length (filter (\<lambda>k. is_tcp k \<and> nc_state k = int i) ?ks))"
      "ns_tcp_inbound_total ns = of_nat (inbound_count (known_ports None) ?ks)" by blast
  have "ns_tcp_inbound_total ns = 1" using r(3) by (simp add: is_listen_def is_tcp_def example_conn_def known_ports_def)
  moreover have "ns_tcp_states ns ! 1 = 2" using r(2) by (simp add: is_tcp_def example_conn_def)
  ultimately show ?thesis using r(1) by blast
qed

text \<open>the address of a server. On first use \<open>sigar_net_listen_address_get\<close> walks the listening TCP
  connections and returns, for a port that has listeners, the last listening address that is
  not IPv6 or, if all are IPv6, the first; for a port without listener it returns \<open>ENOENT\<close>. The
  cached value it copies is never NULL.\<close>

theorem net_listen_address_prefers_ipv4:
  assumes "walk 0x12 = (SIGAR_OK, ks)" and "states_ok ks" and "length ks < 2 ^ 31 - 1"
  shows "\<exists>c. sigar_net_listen_address_get walk now None port =
    Some (if listeners ks port = [] then (ENOENT, None, c) else (SIGAR_OK, Some (preferred (listeners ks port)), c))"
proof -
  have "listen_ready (length ks + 1) None" using assms(3) by (simp add: listen_ready_def)
  from net_stat_get_ok [where walk = walk and flags = "0x12" and now = now, OF this assms(1,2) refl] obtain ns c where
    g: "sigar_net_stat_get walk now None 0x12 = Some (SIGAR_OK, ns, c)" "perm_ok 1 c" "perm.full c"
      "cache_stored c = listen_merge ks Map.empty" by auto
  obtain b c1 where f: "cache_find_now c port now = (b, c1)" by (cases "cache_find_now c port now")
  from perm.find_law [OF g(2) f] have c1: "b = cache_present c port" "cache_stored c1 = cache_stored c" "perm_ok (Suc 0) c1"
    by auto
  obtain r c2 where v: "cache_get_now c1 port now = (r, c2)" by (cases "cache_get_now c1 port now")
  have r: "r = cache_stored c port" using perm.get_law [OF c1(3) v] c1(2) by simp
  have "b \<longleftrightarrow> listeners ks port \<noteq> []"
    using g(3) c1(1) by (simp add: perm.full_def g(4) listen_merge_preferred)
  then show ?thesis
    using g(1) f v r g(4)
    by (auto simp: sigar_net_listen_address_get_def listen_value_def cache_get_now_def listen_merge_preferred)
qed

theorem net_listen_address_prefers_ipv4_witness:
  "\<exists>c. sigar_net_listen_address_get (\<lambda>f. (0, [example_conn 2 80 10, example_conn 1 80 10, example_conn 2 80 10])) 0 None 80
     = Some (0, Some (example_addr 1), c)"
proof -
  let ?ks = "[example_conn 2 80 10, example_conn 1 80 10, example_conn 2 80 10]"
  have "states_ok ?ks" by (simp add: states_ok_def example_conn_def)
  from net_listen_address_prefers_ipv4 [where walk = "\<lambda>f. (0, ?ks)" and now = 0 and port = 80, OF refl this]
  show ?thesis
    by (simp add: listeners_def is_listen_def is_tcp_def example_conn_def preferred_def example_addr_def)
qed

end
