(* ===== verification/Sigar_Netif.thy ===== *)
theory Sigar_Netif
  imports Sigar_Format Sigar_Procfs
begin

text \<open>
  Network interfaces, host names and the small system queries of \<open>src/sigar.c\<close> in the Linux build:
  the list of interfaces (the \<open>SIOCGIFCONF\<close> loop and \<open>/proc/net/dev\<close>), the configuration of one
  interface, the choice of the primary one, the fully qualified host name, name servers and
  default gateway, logged-in users, resource limits. The \<open>ioctl\<close> calls and the C library's lookups are
  parameters.
\<close>

section \<open>Addresses\<close>

definition sigar_net_address_set :: "sigar_net_address \<Rightarrow> uint32 \<Rightarrow> sigar_net_address" where
  "sigar_net_address_set a val =
     a\<lparr>na_addr := map (mem_byte val) [0..<4] @ drop 4 (na_addr a), na_family := SIGAR_AF_INET\<rparr>"

definition sigar_net_address_mac_set :: "sigar_net_address \<Rightarrow> nat list \<Rightarrow> nat \<Rightarrow> sigar_net_address" where
  "sigar_net_address_mac_set a val len =
     a\<lparr>na_addr := take len val @ drop len (na_addr a), na_family := SIGAR_AF_LINK\<rparr>"

definition null_address :: sigar_net_address where
  "null_address = \<lparr>na_family = 0, na_addr = replicate 16 0\<rparr>"

section \<open>Configuration of an interface\<close>

record sigar_net_interface_config =
  ic_name :: string
  ic_type :: string
  ic_description :: string
  ic_hwaddr :: sigar_net_address
  ic_address :: sigar_net_address
  ic_destination :: sigar_net_address
  ic_broadcast :: sigar_net_address
  ic_netmask :: sigar_net_address
  ic_address6 :: sigar_net_address
  ic_prefix6_length :: uint32
  ic_scope6 :: uint32
  ic_flags :: uint64
  ic_mtu :: uint64
  ic_metric :: uint64
  ic_tx_queue_len :: int

definition zero_config :: sigar_net_interface_config where
  "zero_config = \<lparr>ic_name = [], ic_type = [], ic_description = [], ic_hwaddr = null_address, ic_address = null_address,
     ic_destination = null_address, ic_broadcast = null_address, ic_netmask = null_address, ic_address6 = null_address,
     ic_prefix6_length = 0, ic_scope6 = 0, ic_flags = 0, ic_mtu = 0, ic_metric = 0, ic_tx_queue_len = 0\<rparr>"

definition get_interface_type :: "nat \<Rightarrow> string" where
  "get_interface_type family =
     (if family = 256 then ''Serial Line IP''
      else if family = 257 then ''VJ Serial Line IP''
      else if family = 258 then ''6-bit Serial Line IP''
      else if family = 259 then ''VJ 6-bit Serial Line IP''
      else if family = 264 then ''Adaptive Serial Line IP''
      else if family = 1 then ''Ethernet''
      else if family = 781 then ''Ash''
      else if family = 774 then ''Fiber Distributed Data Interface''
      else if family = 780 then ''HIPPI''
      else if family = 3 then ''AMPR AX.25''
      else if family = 270 then ''AMPR ROSE''
      else if family = 0 then ''AMPR NET/ROM''
      else if family = 271 then ''generic X.25''
      else if family = 768 then ''IPIP Tunnel''
      else if family = 512 then ''Point-to-Point Protocol''
      else if family = 513 then ''(Cisco)-HDLC''
      else if family = 516 then ''LAPB''
      else if family = 7 then ''ARCnet''
      else if family = 15 then ''Frame Relay DLCI''
      else if family = 770 then ''Frame Relay Access Device''
      else if family = 776 then ''IPv6-in-IPv4''
      else if family = 783 then ''IrLAP''
      else if family = 782 then ''Econet''
      else ''UNSPEC'')"

text \<open>The flags: \<open>ifr_flags\<close> is a \<open>short\<close> that is widened with its sign. The bits that differ between
  Linux and sigar are moved.\<close>

definition sigar_flags :: "uint16 \<Rightarrow> uint64" where
  "sigar_flags ifr_flags =
     (let flags = (scast ifr_flags :: uint64);
          is_mcast = (flags AND 0x1000 \<noteq> 0);
          is_slave = (flags AND 0x800 \<noteq> 0);
          is_master = (flags AND 0x400 \<noteq> 0);
          is_dynamic = (flags AND 0x8000 \<noteq> 0);
          f0 = flags AND NOT 0x1C00;
          f1 = (if is_mcast then f0 OR 0x800 else f0);
          f2 = (if is_slave then f1 OR 0x1000 else f1);
          f3 = (if is_master then f2 OR 0x2000 else f2)
      in if is_dynamic then f3 OR 0x4000 else f3)"

text \<open>The answers of the \<open>ioctl\<close> calls for the interface named in the request, \<open>None\<close> for a call that
  fails.\<close>

record if_ioctls =
  io_addr :: "string \<Rightarrow> uint32 option"
  io_netmask :: "string \<Rightarrow> uint32 option"
  io_flags :: "string \<Rightarrow> status + uint16"
  io_dstaddr :: "string \<Rightarrow> uint32 option"
  io_brdaddr :: "string \<Rightarrow> uint32 option"
  io_hwaddr :: "string \<Rightarrow> (nat \<times> nat list) option"
  io_mtu :: "string \<Rightarrow> uint32 option"
  io_metric :: "string \<Rightarrow> uint32 option"
  io_txqlen :: "string \<Rightarrow> int option"

definition set_if :: "sigar_net_address \<Rightarrow> uint32 option \<Rightarrow> sigar_net_address" where
  "set_if a v = (case v of None \<Rightarrow> a | Some w \<Rightarrow> sigar_net_address_set a w)"

definition sigar_net_interface_config_get ::
  "if_ioctls \<Rightarrow> (string \<Rightarrow> sigar_net_interface_config \<Rightarrow> sigar_net_interface_config) \<Rightarrow> status option \<Rightarrow> string \<Rightarrow>
   status + sigar_net_interface_config" where
  "sigar_net_interface_config_get os ipv6_config_get socket_error name =
     (case socket_error of
        Some errno \<Rightarrow> Inl errno
      | None \<Rightarrow>
          (let ifr_name = sstrcpy 16 name;
               c0 = zero_config\<lparr>ic_name := sstrcpy 256 name\<rparr>;
               c1 = c0\<lparr>ic_address := set_if (ic_address c0) (io_addr os ifr_name)\<rparr>;
               c2 = c1\<lparr>ic_netmask := set_if (ic_netmask c1) (io_netmask os ifr_name)\<rparr>
           in case io_flags os ifr_name of
                Inl errno \<Rightarrow> Inl errno
              | Inr fl \<Rightarrow>
                  (let c3 = c2\<lparr>ic_flags := sigar_flags fl\<rparr>;
                       c4 = (if ic_flags c3 AND 0x8 \<noteq> 0 then
                               c3\<lparr>ic_destination := sigar_net_address_set (ic_destination c3) (addr_in (ic_address c3)),
                                  ic_broadcast := sigar_net_address_set (ic_broadcast c3) 0,
                                  ic_hwaddr := sigar_net_address_mac_set (ic_hwaddr c3) (replicate 8 0) 8,
                                  ic_type := ''Local Loopback''\<rparr>
                             else
                               (let d = c3\<lparr>ic_destination := set_if (ic_destination c3) (io_dstaddr os ifr_name),
                                           ic_broadcast := set_if (ic_broadcast c3) (io_brdaddr os ifr_name)\<rparr>
                                in case io_hwaddr os ifr_name of
                                     None \<Rightarrow> d
                                   | Some (family, sa_data) \<Rightarrow>
                                       d\<lparr>ic_type := get_interface_type family,
                                         ic_hwaddr := sigar_net_address_mac_set (ic_hwaddr d) sa_data 6\<rparr>));
                       c5 = (case io_mtu os ifr_name of None \<Rightarrow> c4 | Some v \<Rightarrow> c4\<lparr>ic_mtu := scast v\<rparr>);
                       c6 = (case io_metric os ifr_name of
                               None \<Rightarrow> c5 | Some v \<Rightarrow> c5\<lparr>ic_metric := (if v \<noteq> 0 then scast v else 1)\<rparr>);
                       c7 = c6\<lparr>ic_tx_queue_len := (case io_txqlen os ifr_name of None \<Rightarrow> - 1 | Some v \<Rightarrow> v)\<rparr>;
                       c8 = c7\<lparr>ic_description := sstrcpy 256 (ic_name c7),
                               ic_address6 := (ic_address6 c7)\<lparr>na_family := SIGAR_AF_INET6\<rparr>,
                               ic_prefix6_length := 0, ic_scope6 := 0\<rparr>
                   in Inr (ipv6_config_get name c8))))"

section \<open>The list of interfaces\<close>

text \<open>\<open>SIOCGIFCONF\<close>: for a buffer of so many bytes the call fails with an error number, or fills the
  buffer and returns the number of bytes used, of 40 for each interface. \<open>has_buf\<close> says whether
  \<open>ifconf_buf\<close> is allocated, \<open>len\<close> is \<open>ifconf_len\<close>. The loop may not end: \<open>None\<close>.\<close>

type_synonym ifconf = "nat \<Rightarrow> status + (nat \<times> string list)"

partial_function (option) ifconf_loop ::
  "ifconf \<Rightarrow> bool \<Rightarrow> nat \<Rightarrow> nat \<Rightarrow> ((status + (nat \<times> string list)) \<times> nat) option" where
  "ifconf_loop ifconf has_buf len0 lastlen =
     (let len = (if \<not> has_buf \<or> lastlen \<noteq> 0 then len0 + 40 * 20 else len0) in
      case ifconf len of
        Inl errno \<Rightarrow>
          if errno \<noteq> EINVAL \<or> lastlen = len then Some (Inl errno, len)
          else ifconf_loop ifconf True len len
      | Inr (ifc_len, names) \<Rightarrow>
          if ifc_len < len then Some (Inr (ifc_len, names), len)
          else if ifc_len \<noteq> lastlen then ifconf_loop ifconf True len ifc_len
          else Some (Inr (ifc_len, names), len))"

definition has_interface :: "string clist \<Rightarrow> string \<Rightarrow> bool" where
  "has_interface iflist name = list_ex (\<lambda>c. c = Some name) (take (l_number iflist) (l_data iflist))"

fun proc_net_loop :: "string list \<Rightarrow> string clist \<Rightarrow> string clist ub" where
  "proc_net_loop [] iflist = Some iflist"
| "proc_net_loop (buffer # lines) iflist =
     (case split_at (CHR '':'') (skip_space buffer) of
        (dev, None) \<Rightarrow> proc_net_loop lines iflist
      | (dev, Some _) \<Rightarrow>
          if has_interface iflist dev then proc_net_loop lines iflist
          else (case clist_put sigar_net_interface_list_grow iflist dev of
                  None \<Rightarrow> None
                | Some iflist1 \<Rightarrow> proc_net_loop lines iflist1))"

definition proc_net_interface_list_get :: "(status + string list) \<Rightarrow> string clist \<Rightarrow> (status \<times> string clist) ub" where
  "proc_net_interface_list_get dev_file iflist =
     (case dev_file of
        Inl errno \<Rightarrow> Some (errno, iflist)
      | Inr lines \<Rightarrow>
          (case sigar_skip_file_lines (Some lines) 2 of
             (result, rest) \<Rightarrow>
               if result \<noteq> SIGAR_OK then Some (- 1, iflist)
               else map_option (\<lambda>l. (SIGAR_OK, l)) (proc_net_loop (case rest of Some ls \<Rightarrow> ls | None \<Rightarrow> []) iflist)))"

text \<open>The buffer kept in the \<open>sigar_t\<close> is not there yet, allocated with a length, or freed by a failing
  call that leaves the pointer behind; using it then is undefined. In the result of the whole
  function the outer \<open>None\<close> stands for a loop that does not end and the inner one for undefined
  behaviour. The list is allocated with as many cells as the buffer has bytes.\<close>

datatype ifconf_buf = NoBuf | Buf nat | FreedBuf

definition sigar_net_interface_list_get ::
  "ifconf \<Rightarrow> (status + string list) \<Rightarrow> status option \<Rightarrow> ifconf_buf \<Rightarrow> (status \<times> string clist option \<times> ifconf_buf) ub option" where
  "sigar_net_interface_list_get ifconf dev_file socket_error buf =
     (case socket_error of
        Some errno \<Rightarrow> Some (Some (errno, None, buf))
      | None \<Rightarrow>
          if buf = FreedBuf then Some None
          else (case ifconf_loop ifconf (buf \<noteq> NoBuf) (case buf of Buf n \<Rightarrow> n | _ \<Rightarrow> 0) 0 of
             None \<Rightarrow> None
           | Some (Inl errno, len) \<Rightarrow> Some (Some (errno, None, FreedBuf))
           | Some (Inr (ifc_len, names), len) \<Rightarrow>
               Some (case clist_fill (\<lambda>l. l) (clist_alloc ifc_len) names of
                       None \<Rightarrow> None
                     | Some iflist \<Rightarrow>
                         map_option (\<lambda>(st, l). (SIGAR_OK, Some l, Buf len)) (proc_net_interface_list_get dev_file iflist))))"

section \<open>The primary interface\<close>

fun primary_loop ::
  "(string \<Rightarrow> status + sigar_net_interface_config) \<Rightarrow> string list \<Rightarrow> sigar_net_interface_config option \<Rightarrow>
   sigar_net_interface_config option \<times> sigar_net_interface_config option" where
  "primary_loop config_get [] possible = (None, possible)"
| "primary_loop config_get (name # names) possible =
     (case config_get name of
        Inl _ \<Rightarrow> primary_loop config_get names possible
      | Inr ifconfig \<Rightarrow>
          if ic_flags ifconfig AND 0x8 \<noteq> 0 \<or> addr_in (ic_hwaddr ifconfig) = 0
          then primary_loop config_get names possible
          else
            (let possible1 = (if (case possible of None \<Rightarrow> True | Some p \<Rightarrow> ic_flags p = 0) then Some ifconfig else possible) in
             if addr_in (ic_address ifconfig) = 0 then primary_loop config_get names possible1
             else if CHR '':'' \<in> set name then primary_loop config_get names possible1
             else (Some ifconfig, possible1)))"

definition sigar_net_interface_config_primary_get ::
  "(string \<Rightarrow> status + sigar_net_interface_config) \<Rightarrow> (status + string list) \<Rightarrow> status + sigar_net_interface_config" where
  "sigar_net_interface_config_primary_get config_get interfaces =
     (case interfaces of
        Inl st \<Rightarrow> Inl st
      | Inr names \<Rightarrow>
          (case primary_loop config_get names None of
             (Some ifconfig, _) \<Rightarrow> Inr ifconfig
           | (None, Some p) \<Rightarrow> if ic_flags p \<noteq> 0 then Inr p else Inl ENXIO
           | (None, None) \<Rightarrow> Inl ENXIO))"

section \<open>The host name\<close>

record 'a hostent =
  h_name :: "string option"
  h_aliases :: "string list"
  h_addr_list :: "'a list"

definition IS_FQDN :: "string \<Rightarrow> bool" where
  "IS_FQDN name = (CHR ''.'' \<in> set name)"

definition IS_FQDN_MATCH :: "string option \<Rightarrow> string \<Rightarrow> bool" where
  "IS_FQDN_MATCH lookup name =
     (case lookup of None \<Rightarrow> False | Some l \<Rightarrow> IS_FQDN l \<and> strnEQ l name (length name))"

text \<open>The address of the primary interface, written over the name whatever the buffer's length.\<close>

definition fqdn_ip_get ::
  "(nat list \<Rightarrow> status + string) \<Rightarrow> (status + sigar_net_interface_config) \<Rightarrow> string \<Rightarrow> string" where
  "fqdn_ip_get inet_ntop6 primary name =
     (case primary of
        Inl st \<Rightarrow> name
      | Inr ifconfig \<Rightarrow>
          if addr_in (ic_address ifconfig) = 0 then name
          else snd (sigar_net_address_to_string inet_ntop6 (ic_address ifconfig)))"

fun fqdn_alias :: "string list \<Rightarrow> string \<Rightarrow> string option" where
  "fqdn_alias [] name = None"
| "fqdn_alias (al # als) name = (if IS_FQDN_MATCH (Some al) name then Some al else fqdn_alias als name)"

fun fqdn_addrs :: "('a \<Rightarrow> 'a hostent option) \<Rightarrow> 'a list \<Rightarrow> string \<Rightarrow> string option" where
  "fqdn_addrs gethostbyaddr [] name = None"
| "fqdn_addrs gethostbyaddr (ad # ads) name =
     (case gethostbyaddr ad of
        None \<Rightarrow> fqdn_addrs gethostbyaddr ads name
      | Some q \<Rightarrow>
          if IS_FQDN_MATCH (h_name q) name then h_name q
          else (case fqdn_alias (h_aliases q) name of
                  Some al \<Rightarrow> Some al
                | None \<Rightarrow> fqdn_addrs gethostbyaddr ads name))"

text \<open>The domain appended to the name in the rest of the buffer; with no byte left the dot itself is
  overwritten by the terminator.\<close>

definition append_domain :: "nat \<Rightarrow> string \<Rightarrow> string \<Rightarrow> string" where
  "append_domain namelen name domain =
     (let rest = namelen - (length name + 1)
      in if rest = 0 then name else name @ ''.'' @ take (rest - 1) domain)"

definition sigar_fqdn_get ::
  "(status + string) \<Rightarrow> (string \<Rightarrow> 'a hostent option) \<Rightarrow> ('a \<Rightarrow> 'a hostent option) \<Rightarrow> string option \<Rightarrow>
   (nat list \<Rightarrow> status + string) \<Rightarrow> (status + sigar_net_interface_config) \<Rightarrow> nat \<Rightarrow> status + string" where
  "sigar_fqdn_get gethostname gethostbyname gethostbyaddr getdomainname inet_ntop6 primary namelen =
     (case gethostname of
        Inl errno \<Rightarrow> Inl errno
      | Inr name \<Rightarrow>
          (case gethostbyname name of
             None \<Rightarrow> Inr (if \<not> IS_FQDN name then fqdn_ip_get inet_ntop6 primary name else name)
           | Some p \<Rightarrow>
               if IS_FQDN_MATCH (h_name p) name then Inr (sstrcpy namelen (opt_string (h_name p)))
               else (case fqdn_alias (h_aliases p) name of
                       Some al \<Rightarrow> Inr (sstrcpy namelen al)
                     | None \<Rightarrow>
                         (case fqdn_addrs gethostbyaddr (h_addr_list p) name of
                            Some q \<Rightarrow> Inr (sstrcpy namelen q)
                          | None \<Rightarrow>
                              (let name1 = (case getdomainname of
                                      Some domain \<Rightarrow>
                                        if \<not> IS_FQDN name \<and> domain \<noteq> [] \<and> hd domain \<noteq> CHR ''(''
                                        then append_domain namelen name domain else name
                                    | None \<Rightarrow> name)
                               in Inr (if \<not> IS_FQDN name1 then fqdn_ip_get inet_ntop6 primary name1 else name1))))))"

section \<open>Name servers, gateway, users, limits\<close>

record sigar_net_route =
  rt_destination :: sigar_net_address
  rt_gateway :: sigar_net_address
  rt_mask :: sigar_net_address
  rt_flags :: uint64
  rt_refcnt :: uint64
  rt_use :: uint64
  rt_metric :: uint64
  rt_mtu :: uint64
  rt_window :: uint64
  rt_irtt :: uint64
  rt_ifname :: string

record sigar_net_info =
  ni_default_gateway :: string
  ni_default_gateway_interface :: string
  ni_host_name :: string
  ni_domain_name :: string
  ni_primary_dns :: string
  ni_secondary_dns :: string

definition sigar_get_default_gateway ::
  "(nat list \<Rightarrow> status + string) \<Rightarrow> (status + sigar_net_route list) \<Rightarrow> sigar_net_info \<Rightarrow> status \<times> sigar_net_info" where
  "sigar_get_default_gateway inet_ntop6 routes netinfo =
     (case routes of
        Inl st \<Rightarrow> (st, netinfo)
      | Inr rs \<Rightarrow>
          (case List.find (\<lambda>r. rt_flags r AND 0x2 \<noteq> 0 \<and> addr_in (rt_destination r) = 0) rs of
             None \<Rightarrow> (SIGAR_OK, netinfo)
           | Some r \<Rightarrow>
               (SIGAR_OK, netinfo\<lparr>ni_default_gateway := snd (sigar_net_address_to_string inet_ntop6 (rt_gateway r)),
                                  ni_default_gateway_interface := sstrcpy 256 (rt_ifname r)\<rparr>)))"

text \<open>The name servers of \<open>/etc/resolv.conf\<close>: the last character of a line is cut off as its newline.\<close>

definition nameserver_line :: "string \<Rightarrow> string option" where
  "nameserver_line buffer =
     (let ptr = skip_space buffer in
      if ptr \<noteq> [] \<and> hd ptr = CHR ''#'' then None
      else (case strstr ptr ''nameserver'' of
              None \<Rightarrow> None
            | Some p \<Rightarrow> Some (butlast (skip_space (drop 10 p)))))"

fun resolv_loop :: "string list \<Rightarrow> sigar_net_info \<Rightarrow> sigar_net_info" where
  "resolv_loop [] netinfo = netinfo"
| "resolv_loop (buffer # lines) netinfo =
     (case nameserver_line buffer of
        None \<Rightarrow> resolv_loop lines netinfo
      | Some ptr \<Rightarrow>
          if ni_primary_dns netinfo = [] then resolv_loop lines (netinfo\<lparr>ni_primary_dns := sstrcpy 46 ptr\<rparr>)
          else if ni_secondary_dns netinfo = [] then resolv_loop lines (netinfo\<lparr>ni_secondary_dns := sstrcpy 46 ptr\<rparr>)
          else netinfo)"

definition sigar_net_info_get ::
  "string list option \<Rightarrow> string option \<Rightarrow> string option \<Rightarrow> (nat list \<Rightarrow> status + string) \<Rightarrow>
   (status + sigar_net_route list) \<Rightarrow> sigar_net_info" where
  "sigar_net_info_get resolv_conf gethostname getdomainname inet_ntop6 routes =
     (let n0 = \<lparr>ni_default_gateway = [], ni_default_gateway_interface = [], ni_host_name = [], ni_domain_name = [],
                ni_primary_dns = [], ni_secondary_dns = []\<rparr>;
          n1 = (case resolv_conf of Some lines \<Rightarrow> resolv_loop lines n0 | None \<Rightarrow> n0);
          n2 = n1\<lparr>ni_host_name := (case gethostname of Some h \<Rightarrow> take 255 h | None \<Rightarrow> []),
                  ni_domain_name := (case getdomainname of Some h \<Rightarrow> take 255 h | None \<Rightarrow> [])\<rparr>
      in snd (sigar_get_default_gateway inet_ntop6 routes n2))"

record utmpx =
  ut_type :: int
  ut_user :: string
  ut_line :: string
  ut_host :: string
  ut_sec :: uint64

record sigar_who =
  who_user :: string
  who_device :: string
  who_host :: string
  who_time :: uint64

text \<open>\<open>USER_PROCESS\<close> is 7.\<close>

fun sigar_who_utmp :: "utmpx list \<Rightarrow> sigar_who clist \<Rightarrow> sigar_who clist ub" where
  "sigar_who_utmp [] wholist = Some wholist"
| "sigar_who_utmp (ut # uts) wholist =
     (if ut_user ut = [] then sigar_who_utmp uts wholist
      else if ut_type ut \<noteq> 7 then sigar_who_utmp uts wholist
      else (case clist_put sigar_who_list_grow wholist
                   \<lparr>who_user = sstrcpy 32 (ut_user ut), who_device = sstrcpy 32 (ut_line ut),
                    who_host = sstrcpy 256 (ut_host ut), who_time = ut_sec ut\<rparr> of
              None \<Rightarrow> None
            | Some wholist1 \<Rightarrow> sigar_who_utmp uts wholist1))"

definition sigar_who_list_get :: "utmpx list \<Rightarrow> (status \<times> sigar_who clist) ub" where
  "sigar_who_list_get uts = map_option (\<lambda>l. (SIGAR_OK, l)) (sigar_who_utmp uts sigar_who_list_create)"

text \<open>The table of limits (resource, factor, field); on Linux \<open>RLIM_NLIMITS\<close> is 16 and the pipe size has the
  number 19.\<close>

definition sigar_rlimits :: "(nat \<times> uint64 \<times> string) list" where
  "sigar_rlimits =
     [(0, 1, ''cpu''), (1, 1024, ''file_size''), (2, 1024, ''data''), (3, 1024, ''stack''), (19, 512, ''pipe_size''),
      (4, 1024, ''core''), (5, 1024, ''memory''), (6, 1, ''processes''), (7, 1, ''open_files''), (9, 1024, ''virtual_memory'')]"

definition RlimitScale :: "uint64 \<Rightarrow> uint64 \<Rightarrow> uint64" where
  "RlimitScale factor val = (if val \<noteq> - 1 then val div factor else val)"

definition sigar_resource_limit_get :: "(nat \<Rightarrow> (uint64 \<times> uint64) option) \<Rightarrow> (string \<times> uint64 \<times> uint64) list" where
  "sigar_resource_limit_get getrlimit =
     map (\<lambda>(resource, factor, field).
            if 16 < resource then (if resource = 19 then (field, 8, 8) else (field, - 1, - 1))
            else (case getrlimit resource of
                    None \<Rightarrow> (field, - 1, - 1)
                  | Some (rlim_cur, rlim_max) \<Rightarrow> (field, RlimitScale factor rlim_cur, RlimitScale factor rlim_max))) sigar_rlimits"

text \<open>The container mode is OFF, ON or DECIDE (0, 1, 2); any other value changes nothing.\<close>

definition sigar_set_container_mode :: "bool \<Rightarrow> int \<Rightarrow> bool \<Rightarrow> bool" where
  "sigar_set_container_mode os_is_in_container mode in_container =
     (if mode = 0 then False else if mode = 1 then True else if mode = 2 then os_is_in_container else in_container)"

section \<open>Facts\<close>

text \<open>What the kernel documents of \<open>SIOCGIFCONF\<close>: it fills in as many whole entries as fit.\<close>

definition ifconf_kernel :: "string list \<Rightarrow> ifconf" where
  "ifconf_kernel ifs len = Inr (40 * min (len div 40) (length ifs), take (len div 40) ifs)"

lemma ifconf_step:
  assumes "n = (if \<not> has_buf \<or> lastlen \<noteq> 0 then len + 800 else len)" and "n = 800 * k" and "0 < k" and "lastlen < n"
  shows "ifconf_loop (ifconf_kernel ifs) has_buf len lastlen =
    (if length ifs < 20 * k then Some (Inr (40 * length ifs, ifs), n) else ifconf_loop (ifconf_kernel ifs) True n n)"
proof -
  have d: "n div 40 = 20 * k" using assms(2) by simp
  have u: "ifconf_loop (ifconf_kernel ifs) has_buf len lastlen =
      (if 40 * min (20 * k) (length ifs) < n then Some (Inr (40 * min (20 * k) (length ifs), take (20 * k) ifs), n)
       else if 40 * min (20 * k) (length ifs) \<noteq> lastlen
       then ifconf_loop (ifconf_kernel ifs) True n (40 * min (20 * k) (length ifs))
       else Some (Inr (40 * min (20 * k) (length ifs), take (20 * k) ifs), n))"
    by (subst ifconf_loop.simps) (simp only: Let_def assms(1) [symmetric] ifconf_kernel_def d sum.case prod.case
        mult_numeral_left_semiring_numeral semiring_norm arith_simps num.simps if_cancel)
  show ?thesis unfolding u using assms(2,4) by (cases "length ifs < 20 * k") (simp_all add: min_def)
qed

lemma ifconf_loop_grows:
  assumes "0 < k"
  shows "\<exists>j > 0. ifconf_loop (ifconf_kernel ifs) True (800 * k) (800 * k) = Some (Inr (40 * length ifs, ifs), 800 * j)"
  using assms
proof (induction "length ifs - 20 * k" arbitrary: k rule: less_induct)
  case less
  have s: "ifconf_loop (ifconf_kernel ifs) True (800 * k) (800 * k) =
    (if length ifs < 20 * Suc k then Some (Inr (40 * length ifs, ifs), 800 * Suc k)
     else ifconf_loop (ifconf_kernel ifs) True (800 * Suc k) (800 * Suc k))"
    using less.prems by (intro ifconf_step) auto
  show ?case
  proof (cases "length ifs < 20 * Suc k")
    case True
    with s show ?thesis by (intro exI [of _ "Suc k"]) simp
  next
    case False
    then have "length ifs - 20 * Suc k < length ifs - 20 * k" by simp
    from less.hyps [OF this] False show ?thesis unfolding s by simp
  qed
qed

lemma ifconf_loop_ends:
  "\<exists>j > 0. ifconf_loop (ifconf_kernel ifs) False 0 0 = Some (Inr (40 * length ifs, ifs), 800 * j)"
  "0 < k \<Longrightarrow> \<exists>j > 0. ifconf_loop (ifconf_kernel ifs) True (800 * k) 0 = Some (Inr (40 * length ifs, ifs), 800 * j)"
proof -
  have "ifconf_loop (ifconf_kernel ifs) False 0 0 =
    (if length ifs < 20 * 1 then Some (Inr (40 * length ifs, ifs), 800 * 1) else ifconf_loop (ifconf_kernel ifs) True (800 * 1) (800 * 1))"
    by (intro ifconf_step) auto
  then show "\<exists>j > 0. ifconf_loop (ifconf_kernel ifs) False 0 0 = Some (Inr (40 * length ifs, ifs), 800 * j)"
    using ifconf_loop_grows [of 1 ifs] by (cases "length ifs < 20 * 1") (auto intro: exI [of _ 1])
  assume k: "0 < k"
  then have "ifconf_loop (ifconf_kernel ifs) True (800 * k) 0 =
    (if length ifs < 20 * k then Some (Inr (40 * length ifs, ifs), 800 * k)
     else ifconf_loop (ifconf_kernel ifs) True (800 * k) (800 * k))"
    by (intro ifconf_step) auto
  then show "\<exists>j > 0. ifconf_loop (ifconf_kernel ifs) True (800 * k) 0 = Some (Inr (40 * length ifs, ifs), 800 * j)"
    using ifconf_loop_grows [OF k, of ifs] k by (cases "length ifs < 20 * k") auto
qed

text \<open>Filling a list that has room needs no growth.\<close>

lemma clist_fill_room:
  assumes "clist_wf l" and "l_number l + length vs \<le> l_size l"
  shows "\<exists>l'. clist_fill g l vs = Some l' \<and> clist_wf l' \<and> clist_elems l' = clist_elems l @ vs"
  using assms
proof (induction vs arbitrary: l)
  case Nil
  then show ?case by simp
next
  case (Cons v vs)
  have r: "l_number l < l_size l" using Cons.prems(2) by simp
  have "clist_put g l v = clist_put sigar_net_interface_list_grow l v" using r by (simp add: clist_put_def)
  with iflist.put_step [OF Cons.prems(1) r, of v] obtain l1 where
    l1: "clist_put g l v = Some l1" "clist_wf l1" "clist_elems l1 = clist_elems l @ [v]" "l_size l1 = l_size l" by auto
  have "l_number l1 = Suc (l_number l)"
    using length_clist_elems [OF l1(2)] length_clist_elems [OF Cons.prems(1)] l1(3) by simp
  then have "l_number l1 + length vs \<le> l_size l1" using l1(4) Cons.prems(2) by simp
  from Cons.IH [OF l1(2) this] l1 show ?case by fastforce
qed

lemma has_interface_iff: "clist_wf l \<Longrightarrow> has_interface l name \<longleftrightarrow> name \<in> set (clist_elems l)"
  by (auto simp: has_interface_def clist_wf_def clist_elems_def list_ex_iff list_all_iff image_iff intro: rev_bexI)

text \<open>The device names of \<open>/proc/net/dev\<close>.\<close>

definition dev_names :: "string list \<Rightarrow> string list" where
  "dev_names lines =
     List.map_filter (\<lambda>l. case split_at (CHR '':'') (skip_space l) of (dev, Some _) \<Rightarrow> Some dev | _ \<Rightarrow> None) (drop 2 lines)"

lemma proc_net_loop_ok:
  assumes "clist_wf l"
  shows "\<exists>l' new. proc_net_loop lines l = Some l' \<and> clist_wf l' \<and> clist_elems l' = clist_elems l @ new \<and> distinct new \<and>
    set new = set (List.map_filter (\<lambda>l. case split_at (CHR '':'') (skip_space l) of (dev, Some _) \<Rightarrow> Some dev | _ \<Rightarrow> None) lines)
      - set (clist_elems l)"
  using assms
proof (induction lines arbitrary: l)
  case Nil
  then show ?case by (simp add: map_filter_simps)
next
  case (Cons line lines)
  let ?f = "\<lambda>l. case split_at (CHR '':'') (skip_space l) of (dev, Some _) \<Rightarrow> Some dev | _ \<Rightarrow> None"
  obtain dev r where d: "split_at (CHR '':'') (skip_space line) = (dev, r)" by (cases "split_at (CHR '':'') (skip_space line)")
  show ?case
  proof (cases "r = None \<or> has_interface l dev")
    case True
    then have "proc_net_loop (line # lines) l = proc_net_loop lines l" using d by (auto split: option.split)
    moreover have "set (List.map_filter ?f (line # lines)) - set (clist_elems l) = set (List.map_filter ?f lines) - set (clist_elems l)"
      using True d has_interface_iff [OF Cons.prems] by (auto simp: map_filter_simps split: option.split)
    ultimately show ?thesis using Cons.IH [OF Cons.prems] by simp
  next
    case False
    then obtain x where r: "r = Some x" by auto
    from iflist.put_ok [OF Cons.prems, of dev] obtain l1 where
      l1: "clist_put sigar_net_interface_list_grow l dev = Some l1" "clist_wf l1" "clist_elems l1 = clist_elems l @ [dev]" by blast
    from Cons.IH [OF l1(2)] obtain l2 new where
      l2: "proc_net_loop lines l1 = Some l2" "clist_wf l2" "clist_elems l2 = clist_elems l1 @ new" "distinct new"
        "set new = set (List.map_filter ?f lines) - set (clist_elems l1)" by blast
    have "dev \<notin> set (clist_elems l)" using False has_interface_iff [OF Cons.prems] by simp
    then have "set (dev # new) = set (List.map_filter ?f (line # lines)) - set (clist_elems l)" "distinct (dev # new)"
      using l2(4,5) l1(3) d r by (auto simp: map_filter_simps)
    moreover have "proc_net_loop (line # lines) l = Some l2" using d r False l1(1) l2(1) by simp
    moreover have "clist_elems l2 = clist_elems l @ dev # new" using l2(3) l1(3) by simp
    ultimately show ?thesis using l2(2) by blast
  qed
qed

lemma skip_two: "2 \<le> length lines \<Longrightarrow> sigar_skip_file_lines (Some lines) 2 = (SIGAR_OK, Some (drop 2 lines))"
  by (cases lines; cases "tl lines") (auto simp: numeral_2_eq_2)

text \<open>The interfaces a primary one is chosen from: usable ones with their configuration.\<close>

definition usable_configs ::
  "(string \<Rightarrow> status + sigar_net_interface_config) \<Rightarrow> string list \<Rightarrow> (string \<times> sigar_net_interface_config) list" where
  "usable_configs config_get names =
     List.map_filter (\<lambda>n. case config_get n of
        Inl _ \<Rightarrow> None
      | Inr c \<Rightarrow> if ic_flags c AND 0x8 \<noteq> 0 \<or> addr_in (ic_hwaddr c) = 0 then None else Some (n, c)) names"

definition online :: "string \<times> sigar_net_interface_config \<Rightarrow> bool" where
  "online nc \<longleftrightarrow> addr_in (ic_address (snd nc)) \<noteq> 0 \<and> CHR '':'' \<notin> set (fst nc)"

definition flagged :: "string \<times> sigar_net_interface_config \<Rightarrow> bool" where
  "flagged nc \<longleftrightarrow> ic_flags (snd nc) \<noteq> 0"

definition best_config :: "(string \<times> sigar_net_interface_config) list \<Rightarrow> status + sigar_net_interface_config" where
  "best_config cs =
     (case List.find online cs of
        Some (n, c) \<Rightarrow> Inr c
      | None \<Rightarrow> (case List.find flagged cs of Some (n, c) \<Rightarrow> Inr c | None \<Rightarrow> Inl ENXIO))"

definition with_flags :: "sigar_net_interface_config option \<Rightarrow> sigar_net_interface_config option" where
  "with_flags p = (case p of None \<Rightarrow> None | Some c \<Rightarrow> if ic_flags c \<noteq> 0 then Some c else None)"

lemma primary_loop_best:
  "primary_loop cg names possible = (f, p) \<Longrightarrow>
   f = map_option snd (List.find online (usable_configs cg names)) \<and>
   (f = None \<longrightarrow> with_flags p =
      (case with_flags possible of Some c \<Rightarrow> Some c | None \<Rightarrow> map_option snd (List.find flagged (usable_configs cg names))))"
proof (induction names arbitrary: possible)
  case Nil
  then show ?case by (auto simp: usable_configs_def map_filter_simps split: option.split)
next
  case (Cons n names)
  show ?case
  proof (cases "usable_configs cg [n]")
    case Nil
    then have e: "primary_loop cg (n # names) possible = primary_loop cg names possible"
      "usable_configs cg (n # names) = usable_configs cg names"
      by (auto simp: usable_configs_def map_filter_simps split: sum.splits if_splits option.splits)
    show ?thesis using Cons.IH [of possible] Cons.prems unfolding e by blast
  next
    case (Cons nc u)
    then obtain c where c: "cg n = Inr c" "\<not> (ic_flags c AND 0x8 \<noteq> 0 \<or> addr_in (ic_hwaddr c) = 0)" "nc = (n, c)"
      by (auto simp: usable_configs_def map_filter_simps split: sum.splits if_splits option.splits)
    have us: "usable_configs cg (n # names) = (n, c) # usable_configs cg names"
      using c by (simp add: usable_configs_def map_filter_simps)
    define p1 where "p1 = (if (case possible of None \<Rightarrow> True | Some p \<Rightarrow> ic_flags p = 0) then Some c else possible)"
    have p1: "with_flags p1 = (case with_flags possible of Some q \<Rightarrow> Some q | None \<Rightarrow> if flagged (n, c) then Some c else None)"
      by (auto simp: p1_def with_flags_def flagged_def split: option.split)
    show ?thesis
    proof (cases "online (n, c)")
      case True
      then have "primary_loop cg (n # names) possible = (Some c, p1)"
        using c by (simp add: online_def p1_def Let_def)
      with Cons.prems us True show ?thesis by simp
    next
      case False
      then have "primary_loop cg (n # names) possible = primary_loop cg names p1"
        using c by (auto simp: online_def p1_def Let_def)
      with Cons.IH [of p1] Cons.prems us False p1 show ?thesis by (auto split: option.splits if_splits)
    qed
  qed
qed

lemma ntoa_has_dot: "CHR ''.'' \<in> set (sigar_inet_ntoa a)"
  by (simp add: ntoa_unfold)

lemma fqdn_alias_dot: "fqdn_alias als name = Some al \<Longrightarrow> al \<in> set als \<and> IS_FQDN al"
  by (induction als name rule: fqdn_alias.induct) (auto simp: IS_FQDN_MATCH_def split: if_splits)

lemma fqdn_addrs_dot:
  "fqdn_addrs gba ads name = Some q \<Longrightarrow> IS_FQDN q \<and> (\<exists>ad h. gba ad = Some h \<and> (h_name h = Some q \<or> q \<in> set (h_aliases h)))"
  by (induction gba ads name rule: fqdn_addrs.induct)
    (auto simp: IS_FQDN_MATCH_def dest: fqdn_alias_dot split: option.splits if_splits)

section \<open>Properties\<close>

text \<open>C21: listing the interfaces terminates and misses none. With the documented behaviour of
  \<open>SIOCGIFCONF\<close> the loop that enlarges its buffer ends for every number of interfaces, whether or
  not a buffer is left from an earlier call; the list then holds all interfaces of the kernel
  followed by exactly those of \<open>/proc/net/dev\<close> that were missing, each once.\<close>

theorem interface_list_complete:
  assumes "buf = NoBuf \<or> (\<exists>k > 0. buf = Buf (800 * k))" and "2 \<le> length lines"
  shows "\<exists>l k new. sigar_net_interface_list_get (ifconf_kernel ifs) (Inr lines) None buf = Some (Some (SIGAR_OK, Some l, Buf (800 * k)))
    \<and> 0 < k \<and> clist_wf l \<and> clist_elems l = ifs @ new \<and> distinct new \<and> set new = set (dev_names lines) - set ifs"
proof -
  have "\<exists>j > 0. ifconf_loop (ifconf_kernel ifs) (buf \<noteq> NoBuf) (case buf of Buf n \<Rightarrow> n | _ \<Rightarrow> 0) 0 =
      Some (Inr (40 * length ifs, ifs), 800 * j)"
    using assms(1) ifconf_loop_ends by auto
  then obtain j where j: "0 < j" "ifconf_loop (ifconf_kernel ifs) (buf \<noteq> NoBuf) (case buf of Buf n \<Rightarrow> n | _ \<Rightarrow> 0) 0 =
      Some (Inr (40 * length ifs, ifs), 800 * j)" by blast
  have "\<exists>l. clist_fill (\<lambda>l. l) (clist_alloc (40 * length ifs)) ifs = Some l \<and> clist_wf l \<and> clist_elems l = ifs"
  proof -
    have "l_number (clist_alloc (40 * length ifs) :: string clist) + length ifs \<le> l_size (clist_alloc (40 * length ifs) :: string clist)"
      by (simp add: clist_alloc_def)
    from clist_fill_room [OF clist_alloc_wf this, of "\<lambda>l. l"] show ?thesis by simp
  qed
  then obtain l0 where l0: "clist_fill (\<lambda>l. l) (clist_alloc (40 * length ifs)) ifs = Some l0" "clist_wf l0" "clist_elems l0 = ifs"
    by blast
  from proc_net_loop_ok [OF l0(2), of "drop 2 lines"] obtain l new where
    l: "proc_net_loop (drop 2 lines) l0 = Some l" "clist_wf l" "clist_elems l = ifs @ new" "distinct new"
      "set new = set (dev_names lines) - set ifs" unfolding l0(3) dev_names_def by blast
  have "buf \<noteq> FreedBuf" using assms(1) by auto
  then have "sigar_net_interface_list_get (ifconf_kernel ifs) (Inr lines) None buf = Some (Some (SIGAR_OK, Some l, Buf (800 * j)))"
    using j(2) l0(1) l(1) skip_two [OF assms(2)]
    by (simp add: sigar_net_interface_list_get_def proc_net_interface_list_get_def)
  with l j(1) show ?thesis by blast
qed

theorem interface_list_complete_witness:
  "\<exists>l k. sigar_net_interface_list_get (ifconf_kernel [''lo'', ''eth0'']) (Inr [''h1'', ''h2'', ''  lo: 1 2'', '' vmnic0: 3 4'']) None NoBuf
      = Some (Some (0, Some l, Buf (800 * k))) \<and> set (clist_elems l) = {''lo'', ''eth0'', ''vmnic0''}"
proof -
  let ?lines = "[''h1'', ''h2'', ''  lo: 1 2'', '' vmnic0: 3 4'']"
  have "dev_names ?lines = [''lo'', ''vmnic0'']" by code_simp
  with interface_list_complete [of NoBuf ?lines "[''lo'', ''eth0'']"] obtain l k new where
    l: "sigar_net_interface_list_get (ifconf_kernel [''lo'', ''eth0'']) (Inr ?lines) None NoBuf = Some (Some (0, Some l, Buf (800 * k)))"
      "clist_elems l = [''lo'', ''eth0''] @ new" "set new = {''vmnic0''}" by auto
  then have "set (clist_elems l) = {''lo'', ''eth0'', ''vmnic0''}" by auto
  with l(1) show ?thesis by blast
qed

text \<open>the primary interface. Among the interfaces that can be queried, are not loopback and have
  a hardware address, the first with an address whose name is not an alias is chosen; if there
  is none, the first that has any flag set; otherwise the result is \<open>ENXIO\<close>.\<close>

theorem primary_interface_best:
  "sigar_net_interface_config_primary_get config_get (Inr names) = best_config (usable_configs config_get names)"
proof -
  obtain f p where r: "primary_loop config_get names None = (f, p)" by (cases "primary_loop config_get names None")
  note b = primary_loop_best [OF r]
  show ?thesis
  proof (cases "List.find online (usable_configs config_get names)")
    case None
    then have "f = None" "with_flags p = map_option snd (List.find flagged (usable_configs config_get names))"
      using b by (simp_all add: with_flags_def)
    with None r show ?thesis
      by (cases "List.find flagged (usable_configs config_get names)")
        (auto simp: sigar_net_interface_config_primary_get_def best_config_def with_flags_def split: option.splits if_splits)
  next
    case (Some nc)
    with b r show ?thesis
      by (cases nc) (simp add: sigar_net_interface_config_primary_get_def best_config_def)
  qed
qed

text \<open>the host name is qualified. If the primary interface has an IPv4 address and no name the
  resolver returns is as long as the buffer, a successful \<open>sigar_fqdn_get\<close> yields a name with a
  dot: a resolved name, the host name with its domain, or the address.\<close>

theorem fqdn_is_qualified:
  assumes "primary = Inr cfg" and "na_family (ic_address cfg) = SIGAR_AF_INET" and "addr_in (ic_address cfg) \<noteq> 0"
    and "\<And>n h. gethostbyname n = Some h \<Longrightarrow> list_all (\<lambda>s. length s < namelen) (opt_string (h_name h) # h_aliases h)"
    and "\<And>a h. gethostbyaddr a = Some h \<Longrightarrow> list_all (\<lambda>s. length s < namelen) (opt_string (h_name h) # h_aliases h)"
    and "sigar_fqdn_get gethostname gethostbyname gethostbyaddr getdomainname inet_ntop6 primary namelen = Inr result"
  shows "IS_FQDN result"
proof -
  obtain name where host: "gethostname = Inr name" using assms(6) by (cases gethostname) (auto simp: sigar_fqdn_get_def)
  have ip: "IS_FQDN (fqdn_ip_get inet_ntop6 primary n)" for n
    using assms(1-3) ntoa_has_dot by (simp add: fqdn_ip_get_def sigar_net_address_to_string_def IS_FQDN_def)
  have whole: "IS_FQDN (sstrcpy namelen s)" if "length s < namelen" "IS_FQDN s" for s
    using that by (simp add: sstrcpy_def)
  show ?thesis
  proof (cases "gethostbyname name")
    case None
    with assms(6) host ip show ?thesis by (auto simp: sigar_fqdn_get_def split: if_splits)
  next
    case (Some p)
    have p: "IS_FQDN_MATCH (h_name p) name \<Longrightarrow> IS_FQDN (sstrcpy namelen (opt_string (h_name p)))"
      using assms(4) [OF Some] whole by (auto simp: IS_FQDN_MATCH_def opt_string_def split: option.splits)
    have al: "IS_FQDN (sstrcpy namelen s)" if "fqdn_alias (h_aliases p) name = Some s" for s
      using fqdn_alias_dot [OF that] assms(4) [OF Some] whole by (auto simp: list_all_iff)
    have ad: "IS_FQDN (sstrcpy namelen q)" if found: "fqdn_addrs gethostbyaddr (h_addr_list p) name = Some q" for q
    proof -
      from fqdn_addrs_dot [OF found] obtain a h where
        q: "IS_FQDN q" "gethostbyaddr a = Some h" "h_name h = Some q \<or> q \<in> set (h_aliases h)" by blast
      then have "length q < namelen" using assms(5) [OF q(2)] by (auto simp: opt_string_def list_all_iff)
      with q(1) whole show ?thesis by blast
    qed
    show ?thesis
      using assms(6) host Some ip p al ad by (auto simp: sigar_fqdn_get_def Let_def split: if_splits option.splits)
  qed
qed

definition example_config :: sigar_net_interface_config where
  "example_config = zero_config\<lparr>ic_address := sigar_net_address_set null_address 0x0100000A\<rparr>"

theorem fqdn_is_qualified_witness:
  "\<exists>r. sigar_fqdn_get (Inr ''web1'') (\<lambda>n. Some \<lparr>h_name = Some ''web1'', h_aliases = [''web1.example.org''], h_addr_list = [] :: nat list\<rparr>)
      (\<lambda>a. None) None (\<lambda>b. Inl 22) (Inr example_config) 512 = Inr r \<and> IS_FQDN r"
proof -
  have a: "na_family (ic_address example_config) = 1" "addr_in (ic_address example_config) \<noteq> 0" by code_simp+
  have "sigar_fqdn_get (Inr ''web1'') (\<lambda>n. Some \<lparr>h_name = Some ''web1'', h_aliases = [''web1.example.org''], h_addr_list = [] :: nat list\<rparr>)
      (\<lambda>a. None) None (\<lambda>b. Inl 22) (Inr example_config) 512 = Inr ''web1.example.org''" by code_simp
  moreover from fqdn_is_qualified [OF refl a _ _ this] have "IS_FQDN ''web1.example.org''" by (auto simp: opt_string_def)
  ultimately show ?thesis by blast
qed

end
