(* ===== verification/Sigar_Fileinfo.thy ===== *)
theory Sigar_Fileinfo
  imports Sigar_Calc Sigar_Procfs
begin

text \<open>
  File attributes and directory totals (\<open>sigar_fileinfo.c\<close>, the Unix build). \<open>statvfs\<close>, \<open>stat\<close>,
  \<open>lstat\<close> and the directory reader are parameters: functions of the path that yield an error
  number or the result. The recursive walk of a directory tree is a total function, because each
  level works in a path that is longer than the one above and the path buffer is bounded; using
  the buffer for a longer path would be undefined and is \<open>None\<close>.
\<close>

section \<open>File system sizes\<close>

record statvfs =
  f_frsize :: uint64
  f_blocks :: uint64
  f_bfree :: uint64
  f_bavail :: uint64
  f_files :: uint64
  f_ffree :: uint64

definition SIGAR_FS_BLOCKS_TO_BYTES :: "uint64 \<Rightarrow> uint64 \<Rightarrow> uint64" where
  "SIGAR_FS_BLOCKS_TO_BYTES val bsize = drop_bit 1 (val * bsize)"

definition sigar_statvfs ::
  "(string \<Rightarrow> status + statvfs) \<Rightarrow> string \<Rightarrow> sigar_file_system_usage \<Rightarrow> status \<times> sigar_file_system_usage" where
  "sigar_statvfs statvfs dirname fsusage =
     (case statvfs dirname of
        Inl errno \<Rightarrow> (errno, fsusage)
      | Inr buf \<Rightarrow>
          (let bsize = f_frsize buf div 512;
               total = SIGAR_FS_BLOCKS_TO_BYTES (f_blocks buf) bsize;
               free = SIGAR_FS_BLOCKS_TO_BYTES (f_bfree buf) bsize
           in (SIGAR_OK, fsusage\<lparr>fs_total := total, fs_free := free,
                fs_avail := SIGAR_FS_BLOCKS_TO_BYTES (f_bavail buf) bsize, fs_used := total - free,
                fs_files := f_files buf, fs_free_files := f_ffree buf\<rparr>)))"

section \<open>Types and permissions\<close>

datatype sigar_file_type =
    SIGAR_FILETYPE_NOFILE | SIGAR_FILETYPE_REG | SIGAR_FILETYPE_DIR | SIGAR_FILETYPE_CHR
  | SIGAR_FILETYPE_BLK | SIGAR_FILETYPE_PIPE | SIGAR_FILETYPE_LNK | SIGAR_FILETYPE_SOCK | SIGAR_FILETYPE_UNKFILE

definition types :: "string list" where
  "types = [''none'', ''regular'', ''directory'', ''character device'', ''block device'', ''pipe'',
     ''symbolic link'', ''socket'', ''unknown'']"

text \<open>The argument is any \<open>int\<close> a caller passes for the enumeration.\<close>

definition sigar_file_attrs_type_string_get :: "int \<Rightarrow> string ub" where
  "sigar_file_attrs_type_string_get type =
     cell types (nat (if type < 0 \<or> 8 < type then 8 else type))"

definition perm_modes :: "uint64 list" where
  "perm_modes = [0x400, 0x200, 0x100, 0x40, 0x20, 0x10, 0x4, 0x2, 0x1]"

definition perm_chars :: string where "perm_chars = ''rwx''"

definition sigar_file_attrs_permissions_string_get :: "uint64 \<Rightarrow> string" where
  "sigar_file_attrs_permissions_string_get permissions =
     concat (map (\<lambda>i. map (\<lambda>j. if permissions AND perm_modes ! (i + j) \<noteq> 0 then perm_chars ! j else CHR ''-'') [0, 1, 2])
       [0, 3, 6])"

definition perm_int :: "nat list" where
  "perm_int = [400, 200, 100, 40, 20, 10, 4, 2, 1]"

definition sigar_file_attrs_mode_get :: "uint64 \<Rightarrow> nat" where
  "sigar_file_attrs_mode_get permissions =
     foldl (\<lambda>perms i. if permissions AND perm_modes ! i \<noteq> 0 then perms + perm_int ! i else perms) 0 [0..<9]"

definition IS_DOTDIR :: "string \<Rightarrow> bool" where
  "IS_DOTDIR d = (d = ''.'' \<or> d = ''..'')"

text \<open>\<open>mode_t\<close> and its masks on Linux, where \<open>S_IFFIFO\<close> is not defined and pipes are recognised by
  \<open>S_ISFIFO\<close> in the default branch.\<close>

definition filetype_from_mode :: "uint32 \<Rightarrow> sigar_file_type" where
  "filetype_from_mode mode =
     (let fmt = mode AND 0xF000 in
      if fmt = 0x8000 then SIGAR_FILETYPE_REG
      else if fmt = 0x4000 then SIGAR_FILETYPE_DIR
      else if fmt = 0xA000 then SIGAR_FILETYPE_LNK
      else if fmt = 0x2000 then SIGAR_FILETYPE_CHR
      else if fmt = 0x6000 then SIGAR_FILETYPE_BLK
      else if fmt = 0xC000 then SIGAR_FILETYPE_SOCK
      else if fmt = 0x1000 then SIGAR_FILETYPE_PIPE
      else SIGAR_FILETYPE_UNKFILE)"

definition mode_bit :: "uint32 \<Rightarrow> uint32 \<Rightarrow> uint64 \<Rightarrow> uint64 \<Rightarrow> uint64" where
  "mode_bit mode s_flag sigar_flag perms = (if mode AND s_flag \<noteq> 0 then perms OR sigar_flag else perms)"

definition sigar_unix_mode2perms :: "uint32 \<Rightarrow> uint64" where
  "sigar_unix_mode2perms mode =
     (let perms = 0;
          perms = mode_bit mode 0x100 0x400 perms;
          perms = mode_bit mode 0x80 0x200 perms;
          perms = mode_bit mode 0x40 0x100 perms;
          perms = mode_bit mode 0x20 0x40 perms;
          perms = mode_bit mode 0x10 0x20 perms;
          perms = mode_bit mode 0x8 0x10 perms;
          perms = mode_bit mode 0x4 0x4 perms;
          perms = mode_bit mode 0x2 0x2 perms;
          perms = mode_bit mode 0x1 0x1 perms
      in perms)"

section \<open>Attributes\<close>

record stat_info =
  st_mode :: uint32
  st_uid :: uint32
  st_gid :: uint32
  st_size :: uint64
  st_ino :: uint64
  st_dev :: uint64
  st_rdev :: uint64
  st_nlink :: uint64
  st_atime :: uint64
  st_mtime :: uint64
  st_ctime :: uint64

record sigar_file_attrs =
  fa_permissions :: uint64
  fa_type :: sigar_file_type
  fa_uid :: uint32
  fa_gid :: uint32
  fa_inode :: uint64
  fa_device :: uint64
  fa_nlink :: uint64
  fa_size :: uint64
  fa_atime :: uint64
  fa_mtime :: uint64
  fa_ctime :: uint64

definition copy_stat_info :: "stat_info \<Rightarrow> sigar_file_attrs" where
  "copy_stat_info info =
     \<lparr>fa_permissions = sigar_unix_mode2perms (st_mode info), fa_type = filetype_from_mode (st_mode info),
      fa_uid = st_uid info, fa_gid = st_gid info, fa_inode = st_ino info, fa_device = st_dev info,
      fa_nlink = st_nlink info, fa_size = st_size info,
      fa_atime = st_atime info * 1000, fa_mtime = st_mtime info * 1000, fa_ctime = st_ctime info * 1000\<rparr>"

text \<open>Without success the caller's structure is untouched.\<close>

definition sigar_file_attrs_get ::
  "(string \<Rightarrow> status + stat_info) \<Rightarrow> string \<Rightarrow> sigar_file_attrs \<Rightarrow> status \<times> sigar_file_attrs" where
  "sigar_file_attrs_get stat file fileattrs =
     (case stat file of Inr info \<Rightarrow> (SIGAR_OK, copy_stat_info info) | Inl errno \<Rightarrow> (errno, fileattrs))"

definition sigar_link_attrs_get ::
  "(string \<Rightarrow> status + stat_info) \<Rightarrow> string \<Rightarrow> sigar_file_attrs \<Rightarrow> status \<times> sigar_file_attrs" where
  "sigar_link_attrs_get lstat file fileattrs =
     (case lstat file of Inr info \<Rightarrow> (SIGAR_OK, copy_stat_info info) | Inl errno \<Rightarrow> (errno, fileattrs))"

section \<open>Directory totals\<close>

record sigar_dir_stat =
  ds_total :: uint64
  ds_files :: uint64
  ds_subdirs :: uint64
  ds_symlinks :: uint64
  ds_chrdevs :: uint64
  ds_blkdevs :: uint64
  ds_sockets :: uint64
  ds_disk_usage :: uint64

definition zero_dir_stat :: sigar_dir_stat where
  "zero_dir_stat = \<lparr>ds_total = 0, ds_files = 0, ds_subdirs = 0, ds_symlinks = 0, ds_chrdevs = 0, ds_blkdevs = 0,
     ds_sockets = 0, ds_disk_usage = 0\<rparr>"

text \<open>The name buffer has \<open>SIGAR_PATH_MAX + 1 = 4097\<close> bytes. After \<open>strncpy\<close> the byte behind the copied
  path is NUL, so a slash is always appended; a directory entry is cut to the room left.\<close>

definition entry_path :: "string \<Rightarrow> string \<Rightarrow> string" where
  "entry_path dir d_name = dir @ CHR ''/'' # take (4095 - length dir) d_name"

definition count_file :: "sigar_file_type \<Rightarrow> sigar_dir_stat \<Rightarrow> sigar_dir_stat" where
  "count_file type dirstats =
     (case type of
        SIGAR_FILETYPE_REG \<Rightarrow> dirstats\<lparr>ds_files := ds_files dirstats + 1\<rparr>
      | SIGAR_FILETYPE_DIR \<Rightarrow> dirstats\<lparr>ds_subdirs := ds_subdirs dirstats + 1\<rparr>
      | SIGAR_FILETYPE_LNK \<Rightarrow> dirstats\<lparr>ds_symlinks := ds_symlinks dirstats + 1\<rparr>
      | SIGAR_FILETYPE_CHR \<Rightarrow> dirstats\<lparr>ds_chrdevs := ds_chrdevs dirstats + 1\<rparr>
      | SIGAR_FILETYPE_BLK \<Rightarrow> dirstats\<lparr>ds_blkdevs := ds_blkdevs dirstats + 1\<rparr>
      | SIGAR_FILETYPE_SOCK \<Rightarrow> dirstats\<lparr>ds_sockets := ds_sockets dirstats + 1\<rparr>
      | _ \<Rightarrow> dirstats\<lparr>ds_total := ds_total dirstats + 1\<rparr>)"

definition dir_total :: "sigar_dir_stat \<Rightarrow> sigar_dir_stat" where
  "dir_total dirstats = dirstats\<lparr>ds_total := ds_files dirstats + ds_subdirs dirstats + ds_symlinks dirstats
     + ds_chrdevs dirstats + ds_blkdevs dirstats + ds_sockets dirstats\<rparr>"

lemma entry_path_longer: "length dir \<le> 4095 \<Longrightarrow> length dir < length (entry_path dir d) \<and> length (entry_path dir d) \<le> 4096"
  by (simp add: entry_path_def)

function (sequential) dir_stat_get ::
  "directory \<Rightarrow> (string \<Rightarrow> status + stat_info) \<Rightarrow> string \<Rightarrow> sigar_dir_stat \<Rightarrow> bool \<Rightarrow> (status \<times> sigar_dir_stat) ub"
and dir_stat_loop ::
  "directory \<Rightarrow> (string \<Rightarrow> status + stat_info) \<Rightarrow> string \<Rightarrow> string list \<Rightarrow> sigar_dir_stat \<Rightarrow> bool \<Rightarrow> sigar_dir_stat ub" where
  "dir_stat_get opendir lstat dir dirstats recurse =
     (case opendir dir of
        Inl errno \<Rightarrow> Some (errno, dirstats)
      | Inr ents \<Rightarrow>
          if 4095 < length dir then None
          else (case dir_stat_loop opendir lstat dir ents dirstats recurse of
                  None \<Rightarrow> None
                | Some dirstats1 \<Rightarrow> Some (SIGAR_OK, dir_total dirstats1)))"
| "dir_stat_loop opendir lstat dir [] dirstats recurse = Some dirstats"
| "dir_stat_loop opendir lstat dir (d_name # ents) dirstats recurse =
     (if IS_DOTDIR d_name then dir_stat_loop opendir lstat dir ents dirstats recurse
      else (case lstat (entry_path dir d_name) of
              Inl _ \<Rightarrow> dir_stat_loop opendir lstat dir ents dirstats recurse
            | Inr info \<Rightarrow>
                (let type = filetype_from_mode (st_mode info);
                     dirstats1 = count_file type (dirstats\<lparr>ds_disk_usage := ds_disk_usage dirstats + st_size info\<rparr>)
                 in if type = SIGAR_FILETYPE_DIR \<and> recurse \<and> length dir \<le> 4095 then
                      (case dir_stat_get opendir lstat (entry_path dir d_name) dirstats1 recurse of
                         None \<Rightarrow> None
                       | Some (status, dirstats2) \<Rightarrow> dir_stat_loop opendir lstat dir ents dirstats2 recurse)
                    else dir_stat_loop opendir lstat dir ents dirstats1 recurse)))"
  by pat_completeness auto

termination
  by (relation "inv_image (less_than <*lex*> less_than <*lex*> less_than)
      (case_sum (\<lambda>(opendir, lstat, dir, dirstats, recurse). (4097 - length dir, 1 :: nat, 0 :: nat))
                (\<lambda>(opendir, lstat, dir, ents, dirstats, recurse). (4097 - length dir, 0, length ents)))")
    (auto dest: entry_path_longer [of _ "d_name" for d_name] intro: diff_less_mono2)

definition sigar_dir_stat_get ::
  "directory \<Rightarrow> (string \<Rightarrow> status + stat_info) \<Rightarrow> string \<Rightarrow> (status \<times> sigar_dir_stat) ub" where
  "sigar_dir_stat_get opendir lstat dir = dir_stat_get opendir lstat dir zero_dir_stat False"

definition sigar_dir_usage_get ::
  "directory \<Rightarrow> (string \<Rightarrow> status + stat_info) \<Rightarrow> string \<Rightarrow> (status \<times> sigar_dir_stat) ub" where
  "sigar_dir_usage_get opendir lstat dir = dir_stat_get opendir lstat dir zero_dir_stat True"


section \<open>A file system tree\<close>

text \<open>The reference: a file system is a tree of named nodes, and the calls of the walk are answered
  from it. A path is its components between slashes; \<open>readable\<close> says which directories may be
  opened, and reading one yields the two dot entries and its children.\<close>

datatype fsnode = FsNode (node_info: stat_info) (node_ents: "(string \<times> fsnode) list")

definition file_type :: "stat_info \<Rightarrow> sigar_file_type" where
  "file_type info = filetype_from_mode (st_mode info)"

fun splits :: "string \<Rightarrow> string list" where
  "splits [] = [[]]"
| "splits (c # cs) = (if c = CHR ''/'' then [] # splits cs else (c # hd (splits cs)) # tl (splits cs))"

definition path_comps :: "string \<Rightarrow> string list" where
  "path_comps path = filter (\<lambda>x. x \<noteq> []) (splits path)"

fun lookup_path :: "fsnode \<Rightarrow> string list \<Rightarrow> fsnode option" where
  "lookup_path node [] = Some node"
| "lookup_path node (x # xs) =
     (if file_type (node_info node) \<noteq> SIGAR_FILETYPE_DIR then None
      else case map_of (node_ents node) x of None \<Rightarrow> None | Some child \<Rightarrow> lookup_path child xs)"

definition lstat_of :: "fsnode \<Rightarrow> string \<Rightarrow> status + stat_info" where
  "lstat_of fs path =
     (case lookup_path fs (path_comps path) of None \<Rightarrow> Inl ENOENT | Some node \<Rightarrow> Inr (node_info node))"

definition opendir_of :: "(stat_info \<Rightarrow> bool) \<Rightarrow> fsnode \<Rightarrow> directory" where
  "opendir_of readable fs path =
     (case lookup_path fs (path_comps path) of
        None \<Rightarrow> Inl ENOENT
      | Some node \<Rightarrow>
          if file_type (node_info node) \<noteq> SIGAR_FILETYPE_DIR then Inl 20
          else if \<not> readable (node_info node) then Inl 13
          else Inr ([''.'', ''..''] @ map fst (node_ents node)))"

fun names_ok :: "fsnode \<Rightarrow> bool" where
  "names_ok (FsNode info ents) =
     (distinct (map fst ents) \<and>
      list_all (\<lambda>e. fst e \<noteq> [] \<and> CHR ''/'' \<notin> set (fst e) \<and> \<not> IS_DOTDIR (fst e) \<and> names_ok (snd e)) ents)"

fun path_depth :: "fsnode \<Rightarrow> nat" where
  "path_depth (FsNode info ents) = foldr (\<lambda>e. max (1 + length (fst e) + path_depth (snd e))) ents 0"

text \<open>Everything below a directory, in the order of the walk.\<close>

fun below :: "(stat_info \<Rightarrow> bool) \<Rightarrow> fsnode \<Rightarrow> stat_info list" where
  "below readable (FsNode info ents) =
     (if file_type info = SIGAR_FILETYPE_DIR \<and> readable info
      then concat (map (\<lambda>e. node_info (snd e) # below readable (snd e)) ents) else [])"

lemma splits_not_Nil [simp]: "splits s \<noteq> []"
  by (cases s) simp_all

lemma splits_slash: "splits (a @ CHR ''/'' # b) = splits a @ splits b"
  by (induction a) auto

lemma splits_name: "CHR ''/'' \<notin> set n \<Longrightarrow> splits n = [n]"
  by (induction n) auto

lemma path_comps_entry:
  assumes "n \<noteq> []" and "CHR ''/'' \<notin> set n" and "length dir + length n \<le> 4095"
  shows "path_comps (entry_path dir n) = path_comps dir @ [n]"
  using assms by (simp add: path_comps_def entry_path_def splits_slash splits_name)

lemma lookup_path_append:
  "lookup_path node (xs @ ys) = (case lookup_path node xs of None \<Rightarrow> None | Some n \<Rightarrow> lookup_path n ys)"
  by (induction node xs rule: lookup_path.induct) (auto split: option.splits)

section \<open>Counting\<close>

definition add_entry :: "stat_info \<Rightarrow> sigar_dir_stat \<Rightarrow> sigar_dir_stat" where
  "add_entry info s = count_file (file_type info) (s\<lparr>ds_disk_usage := ds_disk_usage s + st_size info\<rparr>)"

definition tally :: "stat_info list \<Rightarrow> sigar_dir_stat \<Rightarrow> sigar_dir_stat" where
  "tally = fold add_entry"

text \<open>The running total is overwritten at the end of every directory, so the counters are compared
  without it.\<close>

definition sans_total :: "sigar_dir_stat \<Rightarrow> sigar_dir_stat" where
  "sans_total s = s\<lparr>ds_total := 0\<rparr>"

lemma dir_total_of_sans: "dir_total (sans_total s) = dir_total s"
  by (simp add: sans_total_def dir_total_def)

lemma dir_total_sans: "sans_total s = sans_total t \<Longrightarrow> dir_total s = dir_total t"
  by (metis dir_total_of_sans)

lemma sans_dir_total [simp]: "sans_total (dir_total s) = sans_total s"
  by (simp add: sans_total_def dir_total_def)

lemma sans_add_entry: "sans_total (add_entry i (sans_total s)) = sans_total (add_entry i s)"
  by (cases "file_type i") (simp_all add: add_entry_def count_file_def sans_total_def)

lemma add_entry_sans: "sans_total s = sans_total t \<Longrightarrow> sans_total (add_entry i s) = sans_total (add_entry i t)"
  by (metis sans_add_entry)

lemma tally_simps [simp]: "tally [] s = s" "tally (i # is) s = tally is (add_entry i s)" "tally (is @ js) s = tally js (tally is s)"
  by (simp_all add: tally_def)

lemma tally_sans: "sans_total s = sans_total t \<Longrightarrow> sans_total (tally is s) = sans_total (tally is t)"
proof (induction "is" arbitrary: s t)
  case (Cons i "is")
  from Cons.IH [OF add_entry_sans [OF Cons.prems]] show ?case by simp
qed simp

definition count_type :: "sigar_file_type \<Rightarrow> stat_info list \<Rightarrow> uint64" where
  "count_type type is = of_nat (length (filter (\<lambda>i. file_type i = type) is))"

lemma count_type_Cons [simp]: "count_type t (i # is) = (if file_type i = t then 1 else 0) + count_type t is" "count_type t [] = 0"
  by (simp_all add: count_type_def)

lemma add_entry_counts:
  "ds_files (add_entry i s) = ds_files s + (if file_type i = SIGAR_FILETYPE_REG then 1 else 0)"
  "ds_subdirs (add_entry i s) = ds_subdirs s + (if file_type i = SIGAR_FILETYPE_DIR then 1 else 0)"
  "ds_symlinks (add_entry i s) = ds_symlinks s + (if file_type i = SIGAR_FILETYPE_LNK then 1 else 0)"
  "ds_chrdevs (add_entry i s) = ds_chrdevs s + (if file_type i = SIGAR_FILETYPE_CHR then 1 else 0)"
  "ds_blkdevs (add_entry i s) = ds_blkdevs s + (if file_type i = SIGAR_FILETYPE_BLK then 1 else 0)"
  "ds_sockets (add_entry i s) = ds_sockets s + (if file_type i = SIGAR_FILETYPE_SOCK then 1 else 0)"
  "ds_disk_usage (add_entry i s) = ds_disk_usage s + st_size i"
  by (cases "file_type i"; simp add: add_entry_def count_file_def)+

lemma tally_counts:
  "ds_files (tally is s) = ds_files s + count_type SIGAR_FILETYPE_REG is"
  "ds_subdirs (tally is s) = ds_subdirs s + count_type SIGAR_FILETYPE_DIR is"
  "ds_symlinks (tally is s) = ds_symlinks s + count_type SIGAR_FILETYPE_LNK is"
  "ds_chrdevs (tally is s) = ds_chrdevs s + count_type SIGAR_FILETYPE_CHR is"
  "ds_blkdevs (tally is s) = ds_blkdevs s + count_type SIGAR_FILETYPE_BLK is"
  "ds_sockets (tally is s) = ds_sockets s + count_type SIGAR_FILETYPE_SOCK is"
  "ds_disk_usage (tally is s) = ds_disk_usage s + sum_list (map st_size is)"
  by (induction "is" arbitrary: s) (simp_all add: add_entry_counts)

section \<open>The walk of a tree\<close>

declare dir_stat_get.simps [simp del]

lemma foldr_max_le: "e \<in> set es \<Longrightarrow> f e \<le> foldr (\<lambda>e. max (f e)) es (0 :: nat)"
  by (induction es) auto

lemma entry_lookup:
  assumes "lookup_path fs (path_comps dir) = Some (FsNode info ents)" and "file_type info = SIGAR_FILETYPE_DIR"
    and "names_ok (FsNode info ents)" and "(n, child) \<in> set ents" and "length dir + path_depth (FsNode info ents) \<le> 4095"
  shows "lookup_path fs (path_comps (entry_path dir n)) = Some child"
    and "length (entry_path dir n) + path_depth child \<le> 4095"
proof -
  have n: "n \<noteq> []" "CHR ''/'' \<notin> set n" using assms(3,4) by (auto simp: list_all_iff)
  have d: "1 + length n + path_depth child \<le> path_depth (FsNode info ents)"
    using foldr_max_le [OF assms(4), of "\<lambda>e. 1 + length (fst e) + path_depth (snd e)"] by simp
  have p: "path_comps (entry_path dir n) = path_comps dir @ [n]"
    using path_comps_entry [OF n] d assms(5) by simp
  have "map_of ents n = Some child" using assms(3,4) by simp
  then show "lookup_path fs (path_comps (entry_path dir n)) = Some child"
    using assms(1,2) by (simp add: p lookup_path_append)
  show "length (entry_path dir n) + path_depth child \<le> 4095"
    using d assms(5) by (simp add: entry_path_def)
qed

lemma below_leaf: "file_type (node_info child) \<noteq> SIGAR_FILETYPE_DIR \<Longrightarrow> below readable child = []"
  by (cases child) simp

lemma dir_loop_tallies:
  assumes "\<And>n child s. (n, child) \<in> set es \<Longrightarrow> \<exists>st s'. dir_stat_get opendir lstat (entry_path dir n) s True = Some (st, s')
      \<and> sans_total s' = sans_total (tally (below readable child) s)"
    and "\<And>n child. (n, child) \<in> set es \<Longrightarrow> lstat (entry_path dir n) = Inr (node_info child) \<and> \<not> IS_DOTDIR n"
    and "length dir \<le> 4095"
  shows "\<exists>s'. dir_stat_loop opendir lstat dir (map fst es) s True = Some s'
    \<and> sans_total s' = sans_total (tally (concat (map (\<lambda>e. node_info (snd e) # below readable (snd e)) es)) s)"
  using assms(1,2)
proof (induction es arbitrary: s)
  case (Cons e es)
  obtain n child where e: "e = (n, child)" by (cases e)
  let ?i = "node_info child" and ?rest = "concat (map (\<lambda>e. node_info (snd e) # below readable (snd e)) es)"
  have l: "lstat (entry_path dir n) = Inr ?i" "\<not> IS_DOTDIR n" using Cons.prems(2) e by auto
  obtain st s1 where get: "file_type ?i = SIGAR_FILETYPE_DIR \<Longrightarrow>
        dir_stat_get opendir lstat (entry_path dir n) (add_entry ?i s) True = Some (st, s1)"
      and s1: "sans_total s1 = sans_total (tally (below readable child) (add_entry ?i s))"
      and "file_type ?i \<noteq> SIGAR_FILETYPE_DIR \<Longrightarrow> s1 = add_entry ?i s"
  proof (cases "file_type ?i = SIGAR_FILETYPE_DIR")
    case True
    with Cons.prems(1) [of n child "add_entry ?i s"] e that show ?thesis by auto
  next
    case False
    with below_leaf [of child readable] that show ?thesis by auto
  qed
  note step = this
  have "\<exists>s'. dir_stat_loop opendir lstat dir (map fst es) s1 True = Some s' \<and> sans_total s' = sans_total (tally ?rest s1)"
    by (rule Cons.IH) (rule Cons.prems; simp)+
  then obtain s2 where
    s2: "dir_stat_loop opendir lstat dir (map fst es) s1 True = Some s2" "sans_total s2 = sans_total (tally ?rest s1)" by blast
  have "dir_stat_loop opendir lstat dir (map fst (e # es)) s True = Some s2"
    using l step s2(1) assms(3) by (auto simp: e Let_def add_entry_def file_type_def)
  moreover have "sans_total s2 = sans_total (tally ?rest (tally (below readable child) (add_entry ?i s)))"
    using s2(2) tally_sans [OF s1] by simp
  ultimately show ?case by (simp add: e)
qed simp

lemma dir_walk_tallies:
  assumes "lookup_path fs (path_comps dir) = Some node" and "names_ok node" and "length dir + path_depth node \<le> 4095"
  shows "\<exists>st s'. dir_stat_get (opendir_of readable fs) (lstat_of fs) dir s True = Some (st, s')
    \<and> sans_total s' = sans_total (tally (below readable node) s)
    \<and> (file_type (node_info node) = SIGAR_FILETYPE_DIR \<and> readable (node_info node) \<longrightarrow>
         st = SIGAR_OK \<and> s' = dir_total (tally (below readable node) s))"
  using assms
proof (induction node arbitrary: dir s)
  case (FsNode info ents)
  show ?case
  proof (cases "file_type info = SIGAR_FILETYPE_DIR \<and> readable info")
    case False
    with FsNode.prems(1) show ?thesis by (auto simp: dir_stat_get.simps opendir_of_def)
  next
    case True
    note entry = entry_lookup [OF FsNode.prems(1) _ FsNode.prems(2) _ FsNode.prems(3)]
    have ok: "(n, child) \<in> set ents \<Longrightarrow> names_ok child \<and> \<not> IS_DOTDIR n" for n child
      using FsNode.prems(2) by (auto simp: list_all_iff)
    have "\<exists>s'. dir_stat_loop (opendir_of readable fs) (lstat_of fs) dir (map fst ents) s True = Some s'
        \<and> sans_total s' = sans_total (tally (concat (map (\<lambda>e. node_info (snd e) # below readable (snd e)) ents)) s)"
    proof (rule dir_loop_tallies)
      fix n child s1 assume m: "(n, child) \<in> set ents"
      show "\<exists>st s'. dir_stat_get (opendir_of readable fs) (lstat_of fs) (entry_path dir n) s1 True = Some (st, s')
          \<and> sans_total s' = sans_total (tally (below readable child) s1)"
        using FsNode.IH [OF m _ entry(1) _ entry(2), of child n] ok m True by fastforce
    next
      fix n child assume m: "(n, child) \<in> set ents"
      then show "lstat_of fs (entry_path dir n) = Inr (node_info child) \<and> \<not> IS_DOTDIR n"
        using entry(1) [OF _ m] ok True by (simp add: lstat_of_def)
    qed (use FsNode.prems(3) in simp)
    then obtain s1 where s1: "dir_stat_loop (opendir_of readable fs) (lstat_of fs) dir (map fst ents) s True = Some s1"
      "sans_total s1 = sans_total (tally (below readable (FsNode info ents)) s)" using True by auto
    have "dir_stat_get (opendir_of readable fs) (lstat_of fs) dir s True = Some (SIGAR_OK, dir_total s1)"
      using FsNode.prems(1,3) True s1(1) by (simp add: dir_stat_get.simps opendir_of_def IS_DOTDIR_def)
    with s1(2) dir_total_sans [OF s1(2)] show ?thesis by simp
  qed
qed

section \<open>Permissions\<close>

text \<open>The octal digits of a mode, from its bits.\<close>

lemma mode_digits:
  "take_bit 9 n = 256 * of_bool (bit n 8) + 128 * of_bool (bit n 7) + 64 * of_bool (bit n 6) + 32 * of_bool (bit n 5) +
     16 * of_bool (bit n 4) + 8 * of_bool (bit n 3) + 4 * of_bool (bit n 2) + 2 * of_bool (bit n 1) + of_bool (bit n (0 :: nat))"
  for n :: nat
  using take_bit_Suc_from_most [of 8 n] take_bit_Suc_from_most [of 7 n] take_bit_Suc_from_most [of 6 n]
    take_bit_Suc_from_most [of 5 n] take_bit_Suc_from_most [of 4 n] take_bit_Suc_from_most [of 3 n]
    take_bit_Suc_from_most [of 2 n] take_bit_Suc_from_most [of 1 n, folded numeral_2_eq_2] take_bit_Suc_from_most [of 0 n]
  by (simp add: numeral_2_eq_2 [symmetric])

lemma bit_mode_bit: "bit (mode_bit mode s f perms) k \<longleftrightarrow> bit perms k \<or> (mode AND s \<noteq> 0 \<and> bit f k)"
  by (auto simp: mode_bit_def bit_or_iff)

lemma and_mode_bits:
  "(mode :: uint32) AND 0x100 \<noteq> 0 \<longleftrightarrow> bit mode 8" "mode AND 0x80 \<noteq> 0 \<longleftrightarrow> bit mode 7" "mode AND 0x40 \<noteq> 0 \<longleftrightarrow> bit mode 6"
  "mode AND 0x20 \<noteq> 0 \<longleftrightarrow> bit mode 5" "mode AND 0x10 \<noteq> 0 \<longleftrightarrow> bit mode 4" "mode AND 0x8 \<noteq> 0 \<longleftrightarrow> bit mode 3"
  "mode AND 0x4 \<noteq> 0 \<longleftrightarrow> bit mode 2" "mode AND 0x2 \<noteq> 0 \<longleftrightarrow> bit mode 1" "mode AND 0x1 \<noteq> 0 \<longleftrightarrow> bit mode 0"
  using and_exp_eq_0_iff_not_bit [of mode 8] and_exp_eq_0_iff_not_bit [of mode 7] and_exp_eq_0_iff_not_bit [of mode 6]
    and_exp_eq_0_iff_not_bit [of mode 5] and_exp_eq_0_iff_not_bit [of mode 4] and_exp_eq_0_iff_not_bit [of mode 3]
    and_exp_eq_0_iff_not_bit [of mode 2] and_exp_eq_0_iff_not_bit [of mode 1] and_exp_eq_0_iff_not_bit [of mode 0]
  by simp_all

lemma and_perm_bits:
  "(perms :: uint64) AND 0x400 \<noteq> 0 \<longleftrightarrow> bit perms 10" "perms AND 0x200 \<noteq> 0 \<longleftrightarrow> bit perms 9" "perms AND 0x100 \<noteq> 0 \<longleftrightarrow> bit perms 8"
  "perms AND 0x40 \<noteq> 0 \<longleftrightarrow> bit perms 6" "perms AND 0x20 \<noteq> 0 \<longleftrightarrow> bit perms 5" "perms AND 0x10 \<noteq> 0 \<longleftrightarrow> bit perms 4"
  "perms AND 0x4 \<noteq> 0 \<longleftrightarrow> bit perms 2" "perms AND 0x2 \<noteq> 0 \<longleftrightarrow> bit perms 1" "perms AND 0x1 \<noteq> 0 \<longleftrightarrow> bit perms 0"
  using and_exp_eq_0_iff_not_bit [of perms 10] and_exp_eq_0_iff_not_bit [of perms 9] and_exp_eq_0_iff_not_bit [of perms 8]
    and_exp_eq_0_iff_not_bit [of perms 6] and_exp_eq_0_iff_not_bit [of perms 5] and_exp_eq_0_iff_not_bit [of perms 4]
    and_exp_eq_0_iff_not_bit [of perms 2] and_exp_eq_0_iff_not_bit [of perms 1] and_exp_eq_0_iff_not_bit [of perms 0]
  by simp_all

lemma bit_unix_perms:
  "bit (sigar_unix_mode2perms mode) 10 = bit mode 8" "bit (sigar_unix_mode2perms mode) 9 = bit mode 7"
  "bit (sigar_unix_mode2perms mode) 8 = bit mode 6" "bit (sigar_unix_mode2perms mode) 6 = bit mode 5"
  "bit (sigar_unix_mode2perms mode) 5 = bit mode 4" "bit (sigar_unix_mode2perms mode) 4 = bit mode 3"
  "bit (sigar_unix_mode2perms mode) 2 = bit mode 2" "bit (sigar_unix_mode2perms mode) 1 = bit mode 1"
  "bit (sigar_unix_mode2perms mode) 0 = bit mode 0"
  by (simp_all add: sigar_unix_mode2perms_def Let_def bit_mode_bit and_mode_bits)

section \<open>Properties\<close>

lemma mod_div_mod: "0 < a \<Longrightarrow> n mod (a * (b * c)) div a mod b = n div a mod (b :: nat)"
proof -
  assume a: "0 < a"
  have "n mod (a * (b * c)) = a * (n div a mod (b * c)) + n mod a" by (rule mod_mult2_eq)
  then have "n mod (a * (b * c)) div a = n div a mod (b * c)" using a by simp
  then show ?thesis by (simp add: mod_mod_cancel)
qed

lemma octal_digits:
  assumes "n mod 512 = 64 * x + 8 * y + (z :: nat)" and "x < 8" and "y < 8" and "z < 8"
  shows "n div 64 mod 8 = x" and "n div 8 mod 8 = y" and "n mod 8 = z"
proof -
  have "n div 64 mod 8 = (64 * x + 8 * y + z) div 64 mod 8" using mod_div_mod [of 64 n 8 1] assms(1) by simp
  also have "64 * x + 8 * y + z = (8 * y + z) + 64 * x" by simp
  also have "\<dots> div 64 = x" using assms(3,4) by (subst div_mult_self2) simp_all
  also have "x mod 8 = x" using assms(2) by simp
  finally show "n div 64 mod 8 = x" .
  have "n div 8 mod 8 = (64 * x + 8 * y + z) div 8 mod 8" using mod_div_mod [of 8 n 8 8] assms(1) by simp
  also have "(64 * x + 8 * y + z) div 8 = 8 * x + y" using assms(4) by linarith
  finally show "n div 8 mod 8 = y" using assms(3) by simp
  have "n mod 8 = n mod 512 mod 8" by (simp add: mod_mod_cancel)
  also have "\<dots> = (z + 8 * (8 * x + y)) mod 8" using assms(1) by (simp add: algebra_simps)
  also have "\<dots> = z" using assms(4) by (subst mod_mult_self2) simp
  finally show "n mod 8 = z" .
qed

text \<open>permissions. The permissions \<open>sigar_file_attrs_get\<close> derives from a mode give back, through
  \<open>sigar_file_attrs_mode_get\<close>, the number whose decimal digits are the octal digits of the mode's
  nine permission bits, and through \<open>sigar_file_attrs_permissions_string_get\<close> the string of \<open>ls\<close>.\<close>

theorem file_permissions_octal:
  "sigar_file_attrs_mode_get (fa_permissions (copy_stat_info info)) =
     100 * (unat (st_mode info) div 64 mod 8) + 10 * (unat (st_mode info) div 8 mod 8) + unat (st_mode info) mod 8
   \<and> sigar_file_attrs_permissions_string_get (fa_permissions (copy_stat_info info)) =
     map (\<lambda>i. if bit (st_mode info) (8 - i) then perm_chars ! (i mod 3) else CHR ''-'') [0..<9]"
proof -
  let ?m = "st_mode info"
  note bits = and_perm_bits bit_unix_perms bit_unix_perms(8) [simplified] perm_modes_def upt_rec [of _ "numeral k" for k]
  have u: "bit (unat ?m) k = bit ?m k" for k by (simp add: bit_unsigned_iff)
  have "take_bit 9 (unat ?m) = unat ?m mod 512" by (simp add: take_bit_eq_mod)
  then have d: "unat ?m mod 512 = 256 * of_bool (bit ?m 8) + 128 * of_bool (bit ?m 7) + 64 * of_bool (bit ?m 6)
      + 32 * of_bool (bit ?m 5) + 16 * of_bool (bit ?m 4) + 8 * of_bool (bit ?m 3) + 4 * of_bool (bit ?m 2)
      + 2 * of_bool (bit ?m 1) + of_bool (bit ?m 0)" using mode_digits [of "unat ?m"] u by simp
  define x y z :: nat where xyz: "x = 4 * of_bool (bit ?m 8) + 2 * of_bool (bit ?m 7) + of_bool (bit ?m 6)"
    "y = 4 * of_bool (bit ?m 5) + 2 * of_bool (bit ?m 4) + of_bool (bit ?m 3)"
    "z = 4 * of_bool (bit ?m 2) + 2 * of_bool (bit ?m 1) + of_bool (bit ?m 0)"
  have less: "x < 8" "y < 8" "z < 8" by (simp_all add: xyz of_bool_def)
  have "unat ?m mod 512 = 64 * x + 8 * y + z" unfolding d xyz by (simp add: algebra_simps)
  note digits = octal_digits [OF this less]
  have "sigar_file_attrs_mode_get (sigar_unix_mode2perms ?m) =
      400 * of_bool (bit ?m 8) + 200 * of_bool (bit ?m 7) + 100 * of_bool (bit ?m 6)
      + 40 * of_bool (bit ?m 5) + 20 * of_bool (bit ?m 4) + 10 * of_bool (bit ?m 3) + 4 * of_bool (bit ?m 2)
      + 2 * of_bool (bit ?m 1) + of_bool (bit ?m 0)"
    by (simp add: sigar_file_attrs_mode_get_def perm_int_def bits)
  moreover have "sigar_file_attrs_permissions_string_get (sigar_unix_mode2perms ?m) =
      map (\<lambda>i. if bit ?m (8 - i) then perm_chars ! (i mod 3) else CHR ''-'') [0..<9]"
    by (simp add: sigar_file_attrs_permissions_string_get_def perm_chars_def bits)
  ultimately show ?thesis unfolding digits xyz by (simp add: copy_stat_info_def algebra_simps)
qed



definition example_info :: "uint32 \<Rightarrow> uint64 \<Rightarrow> stat_info" where
  "example_info mode sz = \<lparr>st_mode = mode, st_uid = 0, st_gid = 0, st_size = sz, st_ino = 0, st_dev = 0, st_rdev = 0, st_nlink = 1,
     st_atime = 0, st_mtime = 0, st_ctime = 0\<rparr>"

definition example_tree :: fsnode where
  "example_tree = FsNode (example_info 0x41ED 4096) [(''a'', FsNode (example_info 0x81A4 10) []),
     (''d'', FsNode (example_info 0x41ED 4096) [(''b'', FsNode (example_info 0x81A4 20) [])]),
     (''locked'', FsNode (example_info 0x4000 4096) [(''c'', FsNode (example_info 0x81A4 30) [])])]"


end
