(* ===== verification/Sigar_Fs.thy ===== *)
theory Sigar_Fs
  imports Sigar_Fileinfo Sigar_Table
begin

text \<open>
  File systems and the devices behind them: the classification of a file system type
  (\<open>sigar_fs_type_get\<close> of \<open>sigar.c\<close> with the Linux part of \<open>os/linux/linux_sigar.c\<close>), the list of
  mounted file systems, the NFS ping, the cached map from a directory to its device
  (\<open>sigar_iodev_get\<close> of \<open>sigar_util.c\<close>) and the directory the library was loaded from. The mount
  entries, \<open>stat\<close> and the clock are parameters.
\<close>

section \<open>File system types\<close>

text \<open>\<open>sigar_file_system_type_e\<close>, by number.\<close>

abbreviation (input) SIGAR_FSTYPE_UNKNOWN :: nat where "SIGAR_FSTYPE_UNKNOWN \<equiv> 0"
abbreviation (input) SIGAR_FSTYPE_NONE :: nat where "SIGAR_FSTYPE_NONE \<equiv> 1"
abbreviation (input) SIGAR_FSTYPE_LOCAL_DISK :: nat where "SIGAR_FSTYPE_LOCAL_DISK \<equiv> 2"
abbreviation (input) SIGAR_FSTYPE_NETWORK :: nat where "SIGAR_FSTYPE_NETWORK \<equiv> 3"
abbreviation (input) SIGAR_FSTYPE_CDROM :: nat where "SIGAR_FSTYPE_CDROM \<equiv> 5"
abbreviation (input) SIGAR_FSTYPE_SWAP :: nat where "SIGAR_FSTYPE_SWAP \<equiv> 6"
abbreviation (input) SIGAR_FSTYPE_MAX :: nat where "SIGAR_FSTYPE_MAX \<equiv> 7"

text \<open>\<open>flags\<close> is not set by this platform and left out.\<close>

record sigar_file_system =
  fsy_dir_name :: string
  fsy_dev_name :: string
  fsy_type_name :: string
  fsy_sys_type_name :: string
  fsy_options :: string
  fsy_type :: nat

definition fstype_names :: "string list" where
  "fstype_names = [''unknown'', ''none'', ''local'', ''remote'', ''ram'', ''cdrom'', ''swap'']"

text \<open>Both functions select a group of names by the first letter before they compare whole names
  or prefixes; the comparison decides.\<close>

definition sigar_os_fs_type_get :: "sigar_file_system \<Rightarrow> sigar_file_system" where
  "sigar_os_fs_type_get fsp =
     (let type = fsy_sys_type_name fsp in
      if strnEQ type ''ext'' 3 \<or> strEQ type ''gfs'' \<or> strEQ type ''hpfs'' \<or> strnEQ type ''jfs'' 3
        \<or> strnEQ type ''ocfs'' 4 \<or> strnEQ type ''psfs'' 4 \<or> strEQ type ''reiserfs'' \<or> strEQ type ''vzfs''
        \<or> strEQ type ''xfs'' \<or> strEQ type ''xiafs''
      then fsp\<lparr>fsy_type := SIGAR_FSTYPE_LOCAL_DISK\<rparr> else fsp)"

definition sigar_common_fs_type_get :: "sigar_file_system \<Rightarrow> sigar_file_system" where
  "sigar_common_fs_type_get fsp =
     (let type = fsy_sys_type_name fsp in
      if strnEQ type ''nfs'' 3 \<or> strEQ type ''smbfs'' \<or> strEQ type ''afs'' \<or> strEQ type ''cifs''
      then fsp\<lparr>fsy_type := SIGAR_FSTYPE_NETWORK\<rparr>
      else if strEQ type ''swap'' then fsp\<lparr>fsy_type := SIGAR_FSTYPE_SWAP\<rparr>
      else if strEQ type ''iso9660'' then fsp\<lparr>fsy_type := SIGAR_FSTYPE_CDROM\<rparr>
      else if strEQ type ''cvfs'' \<or> strEQ type ''msdos'' \<or> strEQ type ''minix'' \<or> strEQ type ''hpfs''
        \<or> strEQ type ''vxfs'' \<or> strEQ type ''vfat'' \<or> strEQ type ''zfs''
      then fsp\<lparr>fsy_type := SIGAR_FSTYPE_LOCAL_DISK\<rparr> else fsp)"

definition sigar_fs_type_get :: "sigar_file_system \<Rightarrow> sigar_file_system ub" where
  "sigar_fs_type_get fsp =
     (let fsp1 =
        (if fsy_type fsp \<noteq> 0 then fsp
         else let o1 = sigar_os_fs_type_get fsp in
              if fsy_type o1 \<noteq> 0 then o1
              else let c1 = sigar_common_fs_type_get o1 in
                   if fsy_type c1 \<noteq> 0 then c1 else c1\<lparr>fsy_type := SIGAR_FSTYPE_NONE\<rparr>);
          fsp2 = (if SIGAR_FSTYPE_MAX \<le> fsy_type fsp1 then fsp1\<lparr>fsy_type := SIGAR_FSTYPE_NONE\<rparr> else fsp1)
      in map_option (\<lambda>name. fsp2\<lparr>fsy_type_name := name\<rparr>) (cell fstype_names (fsy_type fsp2)))"

section \<open>Mounted file systems\<close>

text \<open>\<open>getmntent_r\<close> yields the entries of the mount table.\<close>

record mntent =
  mnt_fsname :: string
  mnt_dir :: string
  mnt_type :: string
  mnt_opts :: string

definition mount_entry :: "mntent \<Rightarrow> sigar_file_system ub" where
  "mount_entry ent =
     sigar_fs_type_get \<lparr>fsy_dir_name = sstrcpy 4096 (mnt_dir ent), fsy_dev_name = sstrcpy 4096 (mnt_fsname ent),
       fsy_type_name = [], fsy_sys_type_name = sstrcpy 256 (mnt_type ent), fsy_options = sstrcpy 256 (mnt_opts ent),
       fsy_type = SIGAR_FSTYPE_UNKNOWN\<rparr>"

fun mounts_loop :: "mntent list \<Rightarrow> sigar_file_system clist \<Rightarrow> sigar_file_system clist ub" where
  "mounts_loop [] fslist = Some fslist"
| "mounts_loop (ent # ents) fslist =
     (case mount_entry ent of
        None \<Rightarrow> None
      | Some fsp \<Rightarrow>
          (case clist_put sigar_file_system_list_grow fslist fsp of
             None \<Rightarrow> None
           | Some fslist1 \<Rightarrow> mounts_loop ents fslist1))"

definition sigar_file_system_list_get :: "(status + mntent list) \<Rightarrow> (status \<times> sigar_file_system clist option) ub" where
  "sigar_file_system_list_get mounted =
     (case mounted of
        Inl errno \<Rightarrow> Some (errno, None)
      | Inr ents \<Rightarrow> map_option (\<lambda>l. (SIGAR_OK, Some l)) (mounts_loop ents sigar_file_system_list_create))"

text \<open>The NFS server of a mount is pinged by its name before the colon; the device name is
  restored afterwards.\<close>

definition sigar_file_system_ping :: "(string \<Rightarrow> status) \<Rightarrow> sigar_file_system \<Rightarrow> status" where
  "sigar_file_system_ping rpc_ping fsp =
     (if fsy_type fsp = SIGAR_FSTYPE_NETWORK \<and> strEQ (fsy_sys_type_name fsp) ''nfs'' then
        (case split_at (CHR '':'') (fsy_dev_name fsp) of
           (host, Some _) \<Rightarrow> rpc_ping host
         | (_, None) \<Rightarrow> SIGAR_OK)
      else SIGAR_OK)"

section \<open>The device of a directory\<close>

record sigar_iodev =
  io_name :: string
  io_is_partition :: bool
  io_disk :: sigar_disk_usage

type_synonym iodev_cache = "sigar_iodev cache"

definition SIGAR_NAME_IS_DEV :: "string \<Rightarrow> bool" where
  "SIGAR_NAME_IS_DEV dev = strnEQ dev ''/dev/'' 5"

definition SIGAR_FSDEV_ID :: "stat_info \<Rightarrow> uint64" where
  "SIGAR_FSDEV_ID sb = (if st_mode sb AND 0xF000 = 0x6000 then st_rdev sb else push_bit 32 (st_ino sb) + st_dev sb)"

definition new_iodev :: "string \<Rightarrow> bool \<Rightarrow> sigar_iodev" where
  "new_iodev name part = \<lparr>io_name = sstrcpy 256 name, io_is_partition = part, io_disk = zero_disk_usage\<rparr>"

text \<open>Entries of the cache are shared by pointer, so writing one is a change of the table at its key,
  and \<open>entry->value\<close> is read from the table.\<close>

fun iodev_loop :: "(string \<Rightarrow> status + stat_info) \<Rightarrow> uint64 \<Rightarrow> sigar_file_system list \<Rightarrow> iodev_cache \<Rightarrow> iodev_cache" where
  "iodev_loop stat now [] c = c"
| "iodev_loop stat now (fsp # fsps) c =
     iodev_loop stat now fsps
       (if fsy_type fsp = SIGAR_FSTYPE_LOCAL_DISK then
          (case stat (fsy_dir_name fsp) of
             Inl _ \<Rightarrow> c
           | Inr sb \<Rightarrow>
               (case cache_get_now c (SIGAR_FSDEV_ID sb) now of
                  (Some _, c1) \<Rightarrow> c1
                | (None, c1) \<Rightarrow>
                    if SIGAR_NAME_IS_DEV (fsy_dev_name fsp)
                    then cache_set_value c1 (SIGAR_FSDEV_ID sb) (new_iodev (fsy_dev_name fsp) True) else c1))
        else c)"

definition iodev_path :: "string \<Rightarrow> string \<times> bool" where
  "iodev_path dirname =
     (if take 1 dirname \<noteq> ''/'' then (sstrcpy 4096 (''/dev/'' @ dirname), True)
      else (dirname, SIGAR_NAME_IS_DEV dirname))"

definition sigar_iodev_get ::
  "(string \<Rightarrow> status + stat_info) \<Rightarrow> (status + sigar_file_system list) \<Rightarrow> uint64 \<Rightarrow> iodev_cache option \<Rightarrow> string \<Rightarrow>
   sigar_iodev option \<times> iodev_cache" where
  "sigar_iodev_get stat fslist now fsdev dirname =
     (let c = (case fsdev of Some c \<Rightarrow> c | None \<Rightarrow> sigar_cache_new 15 now);
          (path, is_dev) = iodev_path dirname
      in case stat path of
           Inl _ \<Rightarrow> (None, c)
         | Inr sb \<Rightarrow>
             (let key = SIGAR_FSDEV_ID sb in
              case cache_get_now c key now of
                (Some iodev, c1) \<Rightarrow> (Some iodev, c1)
              | (None, c1) \<Rightarrow>
                  if is_dev then (Some (new_iodev path False), cache_set_value c1 key (new_iodev path False))
                  else (case fslist of
                          Inl _ \<Rightarrow> (None, c1)
                        | Inr fsps \<Rightarrow>
                            (let c2 = iodev_loop stat now fsps c1 in
                             case cache_stored c2 key of
                               Some iodev \<Rightarrow> (if io_name iodev \<noteq> [] then Some iodev else None, c2)
                             | None \<Rightarrow> (None, c2)))))"

section \<open>The directory of the library\<close>

definition proc_module_get_self :: "string option \<Rightarrow> string \<Rightarrow> string option \<times> bool" where
  "proc_module_get_self self_path name =
     (if CHR ''/'' \<notin> set name then (self_path, False)
      else let base = rev (takeWhile (\<lambda>c. c \<noteq> CHR ''/'') (rev name)) in
           if strnEQ base ''libsigar-'' 9 then (Some (take (length name - Suc (length base)) name), True)
           else (self_path, False))"

fun self_loop :: "string list \<Rightarrow> string option \<Rightarrow> string option" where
  "self_loop [] self_path = self_path"
| "self_loop (name # names) self_path =
     (case proc_module_get_self self_path name of (p, stop) \<Rightarrow> if stop then p else self_loop names p)"

definition sigar_get_self_path :: "string option \<Rightarrow> string list \<Rightarrow> string option \<Rightarrow> string" where
  "sigar_get_self_path env_path modules self_path =
     (case self_path of
        Some p \<Rightarrow> p
      | None \<Rightarrow>
          (case env_path of
             Some p \<Rightarrow> p
           | None \<Rightarrow> (case self_loop modules None of Some p \<Rightarrow> p | None \<Rightarrow> ''.'')))"

section \<open>Lemmas\<close>

definition sets_type :: "sigar_file_system \<Rightarrow> sigar_file_system \<Rightarrow> bool" where
  "sets_type fsp f \<longleftrightarrow> (\<exists>t \<le> 6. f = fsp\<lparr>fsy_type := t\<rparr>)"

lemma sets_type_intros:
  "sets_type fsp x \<Longrightarrow> sets_type fsp y \<Longrightarrow> sets_type fsp (if P then x else y)"
  "sets_type fsp (fsp\<lparr>fsy_type := 2\<rparr>)" "sets_type fsp (fsp\<lparr>fsy_type := 3\<rparr>)" "sets_type fsp (fsp\<lparr>fsy_type := 5\<rparr>)"
  "sets_type fsp (fsp\<lparr>fsy_type := 6\<rparr>)" "fsy_type fsp \<le> 6 \<Longrightarrow> sets_type fsp fsp"
proof -
  show "fsy_type fsp \<le> 6 \<Longrightarrow> sets_type fsp fsp" unfolding sets_type_def by (rule exI [of _ "fsy_type fsp"]) simp
qed (auto simp: sets_type_def intro: exI [of _ 2] exI [of _ 3] exI [of _ 5] exI [of _ 6])

lemma os_type_sets: "fsy_type fsp \<le> 6 \<Longrightarrow> sets_type fsp (sigar_os_fs_type_get fsp)"
  unfolding sigar_os_fs_type_get_def Let_def by (intro sets_type_intros)

lemma common_type_sets: "fsy_type fsp \<le> 6 \<Longrightarrow> sets_type fsp (sigar_common_fs_type_get fsp)"
  unfolding sigar_common_fs_type_get_def Let_def by (intro sets_type_intros)

lemma fs_type_get_ok:
  assumes "fsy_type fsp = 0"
  shows "\<exists>t. sigar_fs_type_get fsp = Some (fsp\<lparr>fsy_type := t, fsy_type_name := fstype_names ! t\<rparr>) \<and> 0 < t \<and> t < 7"
proof -
  obtain t where t: "t \<le> 6" "sigar_os_fs_type_get fsp = fsp\<lparr>fsy_type := t\<rparr>" using os_type_sets [of fsp] assms by (auto simp: sets_type_def)
  obtain u where u: "u \<le> 6" "sigar_common_fs_type_get (fsp\<lparr>fsy_type := t\<rparr>) = fsp\<lparr>fsy_type := t, fsy_type := u\<rparr>"
    using common_type_sets [of "fsp\<lparr>fsy_type := t\<rparr>"] t(1) by (auto simp: sets_type_def)
  have name: "cell fstype_names v = Some (fstype_names ! v)" if "v \<le> 6" for v
    using that by (simp add: cell_def fstype_names_def)
  show ?thesis
  proof (cases "t = 0")
    case True
    with assms t u name [of u] name [of 1] show ?thesis
      by (cases "u = 0") (auto simp: sigar_fs_type_get_def)
  next
    case False
    with assms t name [of t] show ?thesis by (auto simp: sigar_fs_type_get_def)
  qed
qed

lemma mounts_loop_fills:
  assumes "list_all2 (\<lambda>e f. mount_entry e = Some f) ents fsps"
  shows "mounts_loop ents l = clist_fill sigar_file_system_list_grow l fsps"
  using assms by (induction arbitrary: l rule: list_all2_induct) (auto split: option.splits)

text \<open>The file systems whose device is remembered under a key.\<close>

definition mounted_on :: "(string \<Rightarrow> status + stat_info) \<Rightarrow> uint64 \<Rightarrow> sigar_file_system \<Rightarrow> bool" where
  "mounted_on stat key fsp \<longleftrightarrow> fsy_type fsp = SIGAR_FSTYPE_LOCAL_DISK \<and> SIGAR_NAME_IS_DEV (fsy_dev_name fsp)
     \<and> (case stat (fsy_dir_name fsp) of Inl _ \<Rightarrow> False | Inr sb \<Rightarrow> SIGAR_FSDEV_ID sb = key)"

definition partition_of :: "sigar_file_system \<Rightarrow> sigar_iodev" where
  "partition_of fsp = new_iodev (fsy_dev_name fsp) True"

lemma iodev_loop_first:
  assumes "perm_ok (length fsps + n) c"
  shows "perm_ok n (iodev_loop stat now fsps c) \<and>
    cache_stored (iodev_loop stat now fsps c) k =
      (case cache_stored c k of Some v \<Rightarrow> Some v | None \<Rightarrow> map_option partition_of (List.find (mounted_on stat k) fsps))"
  using assms
proof (induction fsps arbitrary: c)
  case Nil
  then show ?case by (simp split: option.split)
next
  case (Cons fsp fsps)
  define c' where "c' = (if fsy_type fsp = SIGAR_FSTYPE_LOCAL_DISK then
          (case stat (fsy_dir_name fsp) of
             Inl _ \<Rightarrow> c
           | Inr sb \<Rightarrow>
               (case cache_get_now c (SIGAR_FSDEV_ID sb) now of
                  (Some _, c1) \<Rightarrow> c1
                | (None, c1) \<Rightarrow>
                    if SIGAR_NAME_IS_DEV (fsy_dev_name fsp)
                    then cache_set_value c1 (SIGAR_FSDEV_ID sb) (new_iodev (fsy_dev_name fsp) True) else c1))
        else c)"
  have ok: "perm_ok (length fsps + n) c" by (rule perm.ok_less [OF Cons.prems]) simp
  have "perm_ok (length fsps + n) c' \<and> cache_stored c' k =
      (case cache_stored c k of Some v \<Rightarrow> Some v | None \<Rightarrow> if mounted_on stat k fsp then Some (partition_of fsp) else None)"
  proof (cases "fsy_type fsp = SIGAR_FSTYPE_LOCAL_DISK")
    case False
    with ok show ?thesis by (simp add: c'_def mounted_on_def split: option.split)
  next
    case local: True
    show ?thesis
    proof (cases "stat (fsy_dir_name fsp)")
      case (Inl e)
      with local ok show ?thesis by (simp add: c'_def mounted_on_def split: option.split)
    next
      case (Inr sb)
      obtain r c1 where g: "cache_get_now c (SIGAR_FSDEV_ID sb) now = (r, c1)" by (cases "cache_get_now c (SIGAR_FSDEV_ID sb) now")
      have "perm_ok (Suc (length fsps + n)) c" using Cons.prems by simp
      from perm.get_law [OF this g] have c1: "r = cache_stored c (SIGAR_FSDEV_ID sb)" "cache_stored c1 = cache_stored c"
        "perm_ok (length fsps + n) c1" "cache_present c1 (SIGAR_FSDEV_ID sb)" by auto
      from perm.put_law [OF c1(3,4)] local Inr g c1 show ?thesis
        by (cases "SIGAR_FSDEV_ID sb = k"; cases r)
          (auto simp: c'_def mounted_on_def partition_of_def split: option.split)
    qed
  qed
  moreover have "iodev_loop stat now (fsp # fsps) c = iodev_loop stat now fsps c'" by (simp only: iodev_loop.simps c'_def)
  ultimately show ?case using Cons.IH [of c'] by (auto split: option.splits)
qed

lemma partition_named: "SIGAR_NAME_IS_DEV (fsy_dev_name f) \<Longrightarrow> io_name (partition_of f) \<noteq> []"
  by (cases "fsy_dev_name f") (auto simp: partition_of_def new_iodev_def sstrcpy_def SIGAR_NAME_IS_DEV_def strnEQ_def)

section \<open>Properties\<close>

text \<open>the list of file systems. However many mounts there are, the list holds one entry for each,
  in the order of the mount table and with its names, and every entry has got a type with the
  name of that type.\<close>

theorem file_system_list_of_mounts:
  "\<exists>l. sigar_file_system_list_get (Inr ents) = Some (SIGAR_OK, Some l) \<and> clist_wf l
    \<and> list_all2 (\<lambda>e f. fsy_dir_name f = sstrcpy 4096 (mnt_dir e) \<and> fsy_dev_name f = sstrcpy 4096 (mnt_fsname e)
        \<and> 0 < fsy_type f \<and> fsy_type f < SIGAR_FSTYPE_MAX \<and> fsy_type_name f = fstype_names ! fsy_type f) ents (clist_elems l)"
proof -
  have "\<exists>f. mount_entry e = Some f \<and> fsy_dir_name f = sstrcpy 4096 (mnt_dir e) \<and> fsy_dev_name f = sstrcpy 4096 (mnt_fsname e)
        \<and> 0 < fsy_type f \<and> fsy_type f < 7 \<and> fsy_type_name f = fstype_names ! fsy_type f" for e
    unfolding mount_entry_def
    using fs_type_get_ok [of "\<lparr>fsy_dir_name = sstrcpy 4096 (mnt_dir e), fsy_dev_name = sstrcpy 4096 (mnt_fsname e),
       fsy_type_name = [], fsy_sys_type_name = sstrcpy 256 (mnt_type e), fsy_options = sstrcpy 256 (mnt_opts e), fsy_type = 0\<rparr>"]
    by auto
  then obtain g where g: "mount_entry e = Some (g e) \<and> fsy_dir_name (g e) = sstrcpy 4096 (mnt_dir e)
        \<and> fsy_dev_name (g e) = sstrcpy 4096 (mnt_fsname e)
        \<and> 0 < fsy_type (g e) \<and> fsy_type (g e) < 7 \<and> fsy_type_name (g e) = fstype_names ! fsy_type (g e)" for e by metis
  have "list_all2 (\<lambda>e f. mount_entry e = Some f) ents (map g ents)" using g by (simp add: list.rel_map list.rel_refl)
  note f = mounts_loop_fills [OF this, of sigar_file_system_list_create]
  from fs_list.fill_create [of "map g ents"] f obtain l where
    "mounts_loop ents sigar_file_system_list_create = Some l" "clist_wf l" "clist_elems l = map g ents" by auto
  moreover have "list_all2 (\<lambda>e f. fsy_dir_name f = sstrcpy 4096 (mnt_dir e) \<and> fsy_dev_name f = sstrcpy 4096 (mnt_fsname e)
        \<and> 0 < fsy_type f \<and> fsy_type f < 7 \<and> fsy_type_name f = fstype_names ! fsy_type f) ents (map g ents)"
    using g by (simp add: list.rel_map list.rel_refl)
  ultimately show ?thesis by (auto simp: sigar_file_system_list_get_def)
qed

text \<open>C25: the device of a directory. For a directory that is not cached yet, \<open>sigar_iodev_get\<close> finds the
  device of the first local file system mounted on the same node (device and inode of the mount
  point), and nothing if there is none; the cache keeps every mapping it had, and the same
  question is afterwards answered from it whatever the mount table says then.\<close>

theorem iodev_of_first_local_mount:
  assumes "perm_ok (length fsps + 2) c" and "stat dirname = Inr sb"
    and "take 1 dirname = ''/''" and "\<not> SIGAR_NAME_IS_DEV dirname" and "cache_stored c (SIGAR_FSDEV_ID sb) = None"
  defines "found \<equiv> map_option partition_of (List.find (mounted_on stat (SIGAR_FSDEV_ID sb)) fsps)"
  shows "\<exists>c'. sigar_iodev_get stat (Inr fsps) now (Some c) dirname = (found, c')
    \<and> (\<forall>k. cache_stored c k \<noteq> None \<longrightarrow> cache_stored c' k = cache_stored c k)
    \<and> (found \<noteq> None \<longrightarrow> (\<forall>mounts later. fst (sigar_iodev_get stat mounts later (Some c') dirname) = found))"
proof -
  let ?k = "SIGAR_FSDEV_ID sb"
  obtain r c1 where g: "cache_get_now c ?k now = (r, c1)" by (cases "cache_get_now c ?k now")
  have "perm_ok (Suc (length fsps + 1)) c" using assms(1) by simp
  from perm.get_law [OF this g] have c1: "r = None" "cache_stored c1 = cache_stored c" "perm_ok (length fsps + 1) c1"
    using assms(5) by auto
  define c2 where "c2 = iodev_loop stat now fsps c1"
  note loop = iodev_loop_first [OF c1(3), of stat now, folded c2_def, unfolded c1(2)]
  have c2: "perm_ok (Suc 0) c2" "cache_stored c2 ?k = found" using loop [of ?k] assms(5) by (simp_all add: found_def)
  have named: "io_name d \<noteq> []" if "found = Some d" for d
  proof -
    from that obtain f where "List.find (mounted_on stat ?k) fsps = Some f" "d = partition_of f"
      by (auto simp: found_def)
    with partition_named [of f] show ?thesis by (auto simp: find_Some_iff mounted_on_def)
  qed
  have path: "iodev_path dirname = (dirname, False)" using assms(3,4) by (simp add: iodev_path_def)
  have "sigar_iodev_get stat (Inr fsps) now (Some c) dirname = (found, c2)"
    using g c1(1) assms(2) c2(2) named by (simp add: sigar_iodev_get_def path c2_def [symmetric] split: option.split)
  moreover have "cache_stored c2 k = cache_stored c k" if "cache_stored c k \<noteq> None" for k
    using loop [of k] that by (auto split: option.splits)
  moreover have "fst (sigar_iodev_get stat mounts later (Some c2) dirname) = found" if "found \<noteq> None" for mounts later
  proof -
    obtain q c3 where h: "cache_get_now c2 ?k later = (q, c3)" by (cases "cache_get_now c2 ?k later")
    with perm.get_law [OF c2(1) h] c2(2) that assms(2) show ?thesis
      by (auto simp: sigar_iodev_get_def path split: option.split)
  qed
  ultimately show ?thesis by blast
qed

definition example_mounts :: "sigar_file_system list" where
  "example_mounts =
     [\<lparr>fsy_dir_name = ''/proc'', fsy_dev_name = ''proc'', fsy_type_name = ''none'', fsy_sys_type_name = ''proc'', fsy_options = [], fsy_type = 1\<rparr>,
      \<lparr>fsy_dir_name = ''/home'', fsy_dev_name = ''/dev/sda1'', fsy_type_name = ''local'', fsy_sys_type_name = ''ext4'', fsy_options = [], fsy_type = 2\<rparr>]"

definition example_stat :: "string \<Rightarrow> status + stat_info" where
  "example_stat path = (if path = ''/home'' then Inr (example_info 0x41ED 4096) else Inl ENOENT)"

theorem iodev_of_first_local_mount_witness:
  "fst (sigar_iodev_get example_stat (Inr example_mounts) 7 (Some (sigar_cache_new 15 0)) ''/home'') = Some (new_iodev ''/dev/sda1'' True)"
proof -
  have "perm_ok (length example_mounts + 2) (sigar_cache_new 15 0 :: iodev_cache)"
    by (rule perm_new) (simp_all add: example_mounts_def)
  moreover have "example_stat ''/home'' = Inr (example_info 0x41ED 4096)" "take 1 ''/home'' = ''/''" "\<not> SIGAR_NAME_IS_DEV ''/home''"
    by (simp_all add: example_stat_def SIGAR_NAME_IS_DEV_def strnEQ_def)
  moreover have "cache_stored (sigar_cache_new 15 0 :: iodev_cache) (SIGAR_FSDEV_ID (example_info 0x41ED 4096)) = None"
    by (simp add: perm_new_content)
  ultimately have "fst (sigar_iodev_get example_stat (Inr example_mounts) 7 (Some (sigar_cache_new 15 0)) ''/home'') =
      map_option partition_of (List.find (mounted_on example_stat (SIGAR_FSDEV_ID (example_info 0x41ED 4096))) example_mounts)"
    using iodev_of_first_local_mount [of example_mounts "sigar_cache_new 15 0" example_stat "''/home''" "example_info 0x41ED 4096" 7]
    by auto
  also have "\<dots> = Some (new_iodev ''/dev/sda1'' True)"
    by (simp add: example_mounts_def mounted_on_def example_stat_def SIGAR_NAME_IS_DEV_def strnEQ_def partition_of_def)
  finally show ?thesis .
qed

end
