(* ===== verification/Sigar_Elf.thy ===== *)
theory Sigar_Elf
  imports Sigar_Prelude
begin

text \<open>
  The architecture of an executable from its ELF header (\<open>sigar_elf.c\<close>). A file is the list of its
  bytes, \<open>None\<close> when it cannot be opened; the header union has 64 bytes, with the class at byte 4,
  the byte order at byte 5 and the machine number in bytes 18 and 19 of both layouts.
\<close>

definition elf_machines :: "(nat \<times> string) list" where
  "elf_machines =
   [(0, ''none''), (1, ''m32''), (2, ''sparc''), (3, ''x86''), (4, ''68k''), (5, ''88k''), (7, ''860''),
    (8, ''mips''), (9, ''s370''), (10, ''mips_rs3_le''), (15, ''parisc''), (17, ''vpp500''),
    (18, ''sparc32plus''), (19, ''960''), (20, ''ppc''), (21, ''ppc64''), (22, ''s390''), (36, ''v800''),
    (37, ''fr20''), (38, ''rh32''), (39, ''rce''), (40, ''arm''), (41, ''fake_alpha''), (42, ''sh''),
    (43, ''sparcv9''), (44, ''tricore''), (45, ''arc''), (46, ''h8_300''), (47, ''h8_300h''), (48, ''h8s''),
    (49, ''h8_500''), (50, ''ia_64''), (51, ''mips_x''), (52, ''coldfire''), (53, ''68hc12''), (54, ''mma''),
    (55, ''pcp''), (56, ''ncpu''), (57, ''ndr1''), (58, ''starcore''), (59, ''me16''), (60, ''st100''),
    (61, ''tinyj''), (62, ''x86_64''), (63, ''pdsp''), (66, ''fx66''), (67, ''st9plus''), (68, ''st7''),
    (69, ''68hc16''), (70, ''68hc11''), (71, ''68hc08''), (72, ''68hc05''), (73, ''svx''), (74, ''st19''),
    (75, ''vax''), (76, ''cris''), (77, ''javelin''), (78, ''firepath''), (79, ''zsp''), (80, ''mmix''),
    (81, ''huany''), (82, ''prism''), (83, ''avr''), (84, ''fr30''), (85, ''d10v''), (86, ''d30v''),
    (87, ''v850''), (88, ''m32r''), (89, ''mn10300''), (90, ''mn10200''), (91, ''pj''), (92, ''openrisc''),
    (93, ''arc_a5''), (94, ''xtensa''), (113, ''altera_nios2''), (183, ''aarch64''), (188, ''tilepro''),
    (189, ''microblaze''), (191, ''tilegx''), (192, ''num''), (36902, ''alpha'')]"

definition elf_em_to_str :: "nat \<Rightarrow> string" where
  "elf_em_to_str em = (case map_of elf_machines em of Some name \<Rightarrow> name | None \<Rightarrow> ''unknown'')"

text \<open>\<open>None\<close> is the result -1.\<close>

definition elf_file_get_em :: "nat list option \<Rightarrow> nat option" where
  "elf_file_get_em file =
     (case file of
        None \<Rightarrow> None
      | Some hdr \<Rightarrow>
          if length hdr < 64 then None
          else if hdr ! 4 = 1 \<or> hdr ! 4 = 2 then
            (if hdr ! 5 = 1 then Some (hdr ! 18 + 256 * hdr ! 19)
             else if hdr ! 5 = 2 then Some (256 * hdr ! 18 + hdr ! 19)
             else None)
          else None)"

definition sigar_elf_file_get_arch :: "(string \<Rightarrow> nat list option) \<Rightarrow> string \<Rightarrow> string option" where
  "sigar_elf_file_get_arch files path = map_option elf_em_to_str (elf_file_get_em (files path))"

definition sigar_elf_file_guess_arch :: "(string \<Rightarrow> nat list option) \<Rightarrow> string \<Rightarrow> string option \<Rightarrow> string" where
  "sigar_elf_file_guess_arch files arch path =
     (case (case path of Some p \<Rightarrow> if p \<noteq> [] then elf_file_get_em (files p) else None | None \<Rightarrow> None) of
        Some em \<Rightarrow> elf_em_to_str em
      | None \<Rightarrow> arch)"

text \<open>The machine number of a header in either byte order is the 16-bit number that was written.\<close>

lemma elf_machine_read:
  assumes "length hdr = 64" and "hdr ! 4 \<in> {1, 2}"
    and "hdr ! 5 = 1 \<and> hdr ! 18 = m mod 256 \<and> hdr ! 19 = m div 256 \<or> hdr ! 5 = 2 \<and> hdr ! 18 = m div 256 \<and> hdr ! 19 = m mod 256"
  shows "elf_file_get_em (Some hdr) = Some m"
  using assms by (auto simp: elf_file_get_em_def)

lemma elf_names_distinct: "distinct (map fst elf_machines)"
  by code_simp

end
