(* ===== verification/Sigar_Signal.thy ===== *)
theory Sigar_Signal
  imports Sigar_Prelude
begin

text \<open>
  Signals (\<open>sigar_signal.c\<close>): sending one, and the number of a signal name, with the numbers of Linux on
  x86, where \<open>SIGEMT\<close> and \<open>SIGINFO\<close> do not exist.
\<close>

definition sigar_proc_kill :: "(32 word \<Rightarrow> int \<Rightarrow> status option) \<Rightarrow> 32 word \<Rightarrow> int \<Rightarrow> status" where
  "sigar_proc_kill kill pid signum = (case kill pid signum of Some errno \<Rightarrow> errno | None \<Rightarrow> SIGAR_OK)"

definition signal_table :: "(string \<times> int) list" where
  "signal_table =
   [(''ABRT'', 6), (''ALRM'', 14), (''BUS'', 7), (''CONT'', 18), (''CHLD'', 17), (''CLD'', 17), (''FPE'', 8), (''HUP'', 1),
    (''INT'', 2), (''ILL'', 4), (''IOT'', 6), (''IO'', 29), (''KILL'', 9), (''POLL'', 29), (''PIPE'', 13), (''PROF'', 27),
    (''PWR'', 30), (''QUIT'', 3), (''SEGV'', 11), (''SYS'', 31), (''STOP'', 19), (''STKFLT'', 16), (''TRAP'', 5), (''TERM'', 15),
    (''TSTP'', 20), (''TTIN'', 21), (''TTOU'', 22), (''URG'', 23), (''USR1'', 10), (''USR2'', 12), (''VTALRM'', 26),
    (''WINCH'', 28), (''XCPU'', 24), (''XFSZ'', 25)]"

text \<open>The switch on the first letter only selects which names are compared.\<close>

definition sigar_signum_get :: "string \<Rightarrow> int" where
  "sigar_signum_get name =
     (let name = (if strnEQ name ''SIG'' 3 then drop 3 name else name)
      in case map_of signal_table name of Some n \<Rightarrow> n | None \<Rightarrow> - 1)"

lemma signum_prefix:
  "\<not> strnEQ name ''SIG'' 3 \<Longrightarrow> sigar_signum_get (''SIG'' @ name) = sigar_signum_get name"
  by (simp add: sigar_signum_get_def strnEQ_def)

lemma signal_names_distinct: "distinct (map fst signal_table)"
  by code_simp

end
