(* ===== verification/Linux_Scan.thy ===== *)
theory Linux_Scan
  imports Sigar_Procfs Sigar_Double "HOL-Library.State_Monad"
begin

text \<open>
  Reading the text files of \<open>/proc\<close>. The Linux sources walk a buffer with one pointer that every
  conversion moves on (\<open>sigar_strtoull(ptr)\<close> is \<open>strtoull(ptr, &ptr, 10)\<close>), so a parser is a state
  transformer on the rest of the buffer and a sequence of conversions is a \<open>do\<close> block. The second
  half is the algebra of space-separated fields: what such a parser does with a line that was
  printed from a list of numbers and words.
\<close>

section \<open>Conversions\<close>

type_synonym 'a scan = "(string, 'a) state"

definition sigar_strtoull :: "uint64 scan" where
  "sigar_strtoull = State (\<lambda>ptr. case strtoull ptr of (v, rest, err) \<Rightarrow> (v, rest))"

text \<open>\<open>unsigned long\<close> has 64 bits, so \<open>strtoul\<close> is the same conversion.\<close>

definition sigar_strtoul :: "uint64 scan" where
  "sigar_strtoul = sigar_strtoull"

definition scan_token :: "unit scan" where
  "scan_token = State (\<lambda>ptr. ((), sigar_skip_token ptr))"

definition scan_tokens :: "nat \<Rightarrow> unit scan" where
  "scan_tokens count = State (\<lambda>ptr. ((), sigar_skip_multiple_token ptr count))"

definition scan_space :: "unit scan" where
  "scan_space = State (\<lambda>ptr. ((), skip_space ptr))"

text \<open>\<open>strtoul\<close> and \<open>strtoull\<close> in base 16 or with the base given by the prefix.\<close>

definition strtou :: "nat \<Rightarrow> string \<Rightarrow> uint64 \<times> string" where
  "strtou base s =
     (let (neg, t) = scan_sign (skip_space s);
          hex = (map tolower (take 2 t) = ''0x'' \<and> 0 < fst (scan_base 16 0 0 (drop 2 t)));
          (b, u) = (if (base = 0 \<or> base = 16) \<and> hex then (16, drop 2 t)
                    else if base \<noteq> 0 then (base, t)
                    else if take 1 t = ''0'' then (8, t) else (10, t));
          (n, v, r) = scan_base b 0 0 u
      in if n = 0 then (0, s)
         else if 2 ^ 64 \<le> v then (- 1, r)
         else (if neg then - of_nat v else of_nat v, r))"

text \<open>The conversion of a double to an unsigned 64-bit integer truncates and is undefined out of
  range.\<close>

definition u64_of_rat :: "rat \<Rightarrow> uint64 ub" where
  "u64_of_rat x = (if - 1 < x \<and> x < of_nat (2 ^ 64) then Some (if x < 0 then 0 else of_int \<lfloor>x\<rfloor>) else None)"

text \<open>\<open>SIGAR_TICK2MSEC\<close> and \<open>SIGAR_TICK2NSEC\<close> are computed in double precision.\<close>

definition tick_scale :: "rounding \<Rightarrow> nat \<Rightarrow> nat \<Rightarrow> uint64 \<Rightarrow> rat" where
  "tick_scale rnd unit ticks s = rnd (dbl_of_u64 rnd s * rnd (of_nat unit / of_nat ticks))"

definition SIGAR_TICK2MSEC :: "rounding \<Rightarrow> nat \<Rightarrow> uint64 \<Rightarrow> rat" where
  "SIGAR_TICK2MSEC rnd ticks s = tick_scale rnd 1000 ticks s"

definition SIGAR_TICK2NSEC :: "rounding \<Rightarrow> nat \<Rightarrow> uint64 \<Rightarrow> rat" where
  "SIGAR_TICK2NSEC rnd ticks s = tick_scale rnd 1000000000 ticks s"

section \<open>Fields\<close>

named_theorems scan_fields \<open>parsers on lines of fields\<close>

definition field_ok :: "string \<Rightarrow> bool" where
  "field_ok f \<longleftrightarrow> f \<noteq> [] \<and> list_all (\<lambda>c. \<not> isspace c) f"

definition fields_text :: "string list \<Rightarrow> string" where
  "fields_text fs = concat (map (\<lambda>f. CHR '' '' # f) fs)"

definition ends_field :: "string \<Rightarrow> bool" where
  "ends_field t \<longleftrightarrow> t = [] \<or> isspace (hd t)"

lemma fields_text_simps [simp]:
  "fields_text [] = []" "fields_text (f # fs) = CHR '' '' # f @ fields_text fs"
  "fields_text (fs @ gs) = fields_text fs @ fields_text gs"
  by (simp_all add: fields_text_def)

lemma isspace_blank [simp]: "isspace (CHR '' '')" "isspace (CHR 0x0A)"
  by (simp_all add: isspace_def)

lemma ends_field_Cons [simp]: "ends_field (c # t) = isspace c"
  by (simp add: ends_field_def)

lemma ends_fields [simp, scan_fields]: "ends_field t \<Longrightarrow> ends_field (fields_text fs @ t)" "ends_field [CHR 0x0A]" "ends_field []"
  by (cases fs; simp add: ends_field_def)+

lemma skip_word_field: "list_all (\<lambda>c. \<not> isspace c) f \<Longrightarrow> ends_field t \<Longrightarrow> skip_word (f @ t) = t"
proof (induction f)
  case Nil
  then show ?case by (cases t) (auto simp: ends_field_def)
qed simp

lemma skip_space_field: "field_ok f \<Longrightarrow> skip_space (f @ t) = f @ t"
  by (cases f) (auto simp: field_ok_def)

lemma skip_token_field [scan_fields]:
  "field_ok f \<Longrightarrow> ends_field t \<Longrightarrow> sigar_skip_token (CHR '' '' # f @ t) = t"
  "field_ok f \<Longrightarrow> ends_field t \<Longrightarrow> sigar_skip_token (f @ t) = t"
  by (simp_all add: sigar_skip_token_def skip_space_field skip_word_field field_ok_def)

lemma field_ok_dec [simp, scan_fields]: "field_ok (dec_digits n)"
  using dec_digits_isdigit isdigit_not_isspace by (auto simp: field_ok_def list_all_iff)

lemma ends_not_digit: "ends_field t \<Longrightarrow> \<not> starts_digit t"
  using isdigit_not_isspace by (cases t) (auto simp: ends_field_def starts_digit_def)

text \<open>Signed numbers: the conversion of a printed integer is the integer modulo \<open>2^64\<close>.\<close>

lemma dec_int_nat: "dec_int (int n) = dec_digits n"
  by (simp add: dec_int_def)

lemma field_ok_int [simp, scan_fields]: "field_ok (dec_int i)"
  using field_ok_dec by (auto simp: dec_int_def field_ok_def isspace_def)

lemma scan_int:
  assumes "\<bar>i\<bar> < 2 ^ 64" and "ends_field t"
  shows "strtoull (dec_int i @ t) = (of_int i, t, False)" and "strtoull (CHR '' '' # dec_int i @ t) = (of_int i, t, False)"
proof -
  have nd: "\<not> starts_digit t" using assms(2) by (rule ends_not_digit)
  define n where "n = nat \<bar>i\<bar>"
  have n: "n < 2 ^ 64" using assms(1) by (simp add: n_def nat_less_iff)
  have "scan_digits n t = (n, t)" using nd by (cases t) (auto simp: starts_digit_def)
  then have d: "scan_digits 0 (dec_digits n @ t) = (n, t)"
    by (simp add: scan_digits_append dec_digits_isdigit scan_digits_dec)
  have s: "scan_sign (skip_space (dec_int i @ t)) = (i < 0, dec_digits n @ t)"
  proof (cases "i < 0")
    case True
    then show ?thesis by (simp add: dec_int_def n_def isspace_def)
  next
    case False
    then show ?thesis using dec_digits_no_sign_space [of n t] by (simp add: dec_int_def n_def)
  qed
  have v: "(if i < 0 then - of_nat n else of_nat n) = (of_int i :: uint64)"
    by (simp add: n_def)
  show 1: "strtoull (dec_int i @ t) = (of_int i, t, False)"
    using n d v by (simp add: strtoull_def s)
  show "strtoull (CHR '' '' # dec_int i @ t) = (of_int i, t, False)"
    using n d v s by (simp add: strtoull_def)
qed

lemma run_strtoull_int [scan_fields]:
  assumes "\<bar>i\<bar> < 2 ^ 64" and "ends_field t"
  shows "run_state sigar_strtoull (CHR '' '' # dec_int i @ t) = (of_int i, t)"
    and "run_state sigar_strtoull (dec_int i @ t) = (of_int i, t)"
    and "run_state sigar_strtoul (CHR '' '' # dec_int i @ t) = (of_int i, t)"
    and "run_state sigar_strtoul (dec_int i @ t) = (of_int i, t)"
  using scan_int [OF assms] by (simp_all add: sigar_strtoull_def sigar_strtoul_def)

lemma run_strtoull_dec [scan_fields]:
  assumes "n < 2 ^ 64" and "ends_field t"
  shows "run_state sigar_strtoull (CHR '' '' # dec_digits n @ t) = (of_nat n, t)"
    and "run_state sigar_strtoull (dec_digits n @ t) = (of_nat n, t)"
    and "run_state sigar_strtoul (CHR '' '' # dec_digits n @ t) = (of_nat n, t)"
    and "run_state sigar_strtoul (dec_digits n @ t) = (of_nat n, t)"
  using run_strtoull_int [of "int n" t] assms by (simp_all add: dec_int_nat)

lemma run_scan_token [scan_fields]:
  "field_ok f \<Longrightarrow> ends_field t \<Longrightarrow> run_state scan_token (CHR '' '' # f @ t) = ((), t)"
  "field_ok f \<Longrightarrow> ends_field t \<Longrightarrow> run_state scan_token (f @ t) = ((), t)"
  by (simp_all add: scan_token_def scan_fields)

lemma run_scan_space: "run_state scan_space s = ((), skip_space s)"
  by (simp add: scan_space_def)

lemma run_scan_tokens: "run_state (scan_tokens n) s = ((), sigar_skip_multiple_token s n)"
  by (simp add: scan_tokens_def)

lemma skip_fields:
  assumes "list_all field_ok fs" and "ends_field t"
  shows "sigar_skip_multiple_token (fields_text fs @ t) (length fs) = t"
  using assms by (induction fs) (simp_all add: scan_fields)

section \<open>Decimal numbers with the base left open\<close>

lemma digit_val_10: "digit_val 10 c = (if isdigit c then Some (of_char c - 48) else None)"
  by (auto simp: digit_val_def hex_val_def isdigit_def Let_def)

lemma scan_base_10: "snd (scan_base 10 n a s) = scan_digits a s" "n \<le> fst (scan_base 10 n a s)"
proof (induction s arbitrary: n a)
  case (Cons c s)
  case 1
  show ?case using Cons(1) by (simp add: digit_val_10)
  case 2
  show ?case using Cons(2) [of "Suc n"] by (simp add: digit_val_10 Suc_leD)
qed simp_all

lemma scan_base_dec:
  assumes "\<not> starts_digit t"
  shows "\<exists>k > 0. scan_base 10 0 0 (dec_digits n @ t) = (k, n, t)"
proof -
  obtain d ds where d: "dec_digits n = d # ds" by (cases "dec_digits n") auto
  have "isdigit d" using dec_digits_isdigit [of d n] d by simp
  then have "scan_base 10 0 0 (dec_digits n @ t) = scan_base 10 1 (of_char d - 48) (ds @ t)" by (simp add: d digit_val_10)
  moreover have "1 \<le> fst (scan_base 10 1 (of_char d - 48) (ds @ t))" by (rule scan_base_10(2))
  moreover have "scan_digits n t = (n, t)" using assms by (cases t) (auto simp: starts_digit_def)
  then have "scan_digits 0 (dec_digits n @ t) = (n, t)"
    by (simp add: scan_digits_append dec_digits_isdigit scan_digits_dec)
  then have "snd (scan_base 10 0 0 (dec_digits n @ t)) = (n, t)" by (simp only: scan_base_10)
  ultimately show ?thesis by (metis One_nat_def Suc_le_lessD prod.collapse)
qed

lemma dec_digits_first: "n \<noteq> 0 \<Longrightarrow> hd (dec_digits n) \<noteq> CHR ''0''"
proof (induction n rule: dec_digits.induct)
  case (1 n)
  show ?case
  proof (cases "n < 10")
    case True
    then have "(of_char (digit_char n) :: nat) = 48 + n" by simp
    then have "digit_char n \<noteq> CHR ''0''" using 1(2) by auto
    with True show ?thesis by (simp add: dec_digits.simps [of n])
  next
    case False
    with 1 show ?thesis by (simp add: dec_digits.simps [of n])
  qed
qed

lemma strtou_dec:
  assumes "n < 2 ^ 64" and "\<not> starts_digit t" and "take 1 t \<noteq> ''x''" and "take 1 t \<noteq> ''X''"
  shows "strtou 0 (replicate pad (CHR '' '') @ dec_digits n @ t) = (of_nat n, t)"
proof -
  have "skip_space (replicate pad (CHR '' '') @ dec_digits n @ t) = skip_space (dec_digits n @ t)"
    by (induction pad) simp_all
  then have s: "scan_sign (skip_space (replicate pad (CHR '' '') @ dec_digits n @ t)) = (False, dec_digits n @ t)"
    using dec_digits_no_sign_space [of n t] by simp
  obtain d ds where d: "dec_digits n = d # ds" by (cases "dec_digits n") auto
  show ?thesis
  proof (cases "n = 0")
    case True
    have "digit_char 0 = CHR ''0''" by code_simp
    then have z: "dec_digits 0 = ''0''" by (simp add: dec_digits.simps)
    have "tolower c \<noteq> CHR ''x''" if c: "c \<noteq> CHR ''x''" "c \<noteq> CHR ''X''" for c
    proof
      assume x: "tolower c = CHR ''x''"
      then have u: "isupper c" using c(1) by (auto simp: tolower_def split: if_splits)
      then have "(of_char (tolower c) :: nat) = of_char c + 32" by (simp add: tolower_def isupper_def Let_def)
      then have "(of_char c :: nat) = of_char (CHR ''X'')" by (simp add: x)
      then have "c = CHR ''X''" by (simp only: of_char_eq_iff)
      with c(2) show False by simp
    qed
    then have "map tolower (take 2 (dec_digits n @ t)) \<noteq> ''0x''"
      using assms(3,4) by (cases t) (auto simp: True z)
    moreover have "scan_base 8 0 0 (''0'' @ t) = (1, 0, t)"
      using assms(2) by (cases t) (auto simp: digit_val_def hex_val_def starts_digit_def isdigit_def Let_def)
    ultimately show ?thesis using s by (auto simp: strtou_def True z simp del: scan_base.simps)
  next
    case False
    then have "d \<noteq> CHR ''0''" using dec_digits_first [of n] by (simp add: d)
    moreover have "isdigit d" using dec_digits_isdigit [of d n] d by simp
    ultimately have "map tolower (take 2 (dec_digits n @ t)) \<noteq> ''0x''" "take 1 (dec_digits n @ t) \<noteq> ''0''"
      by (auto simp: d tolower_def isdigit_def isupper_def Let_def)
    with s scan_base_dec [OF assms(2), of n] assms(1) show ?thesis by (auto simp: strtou_def)
  qed
qed

section \<open>A position in a line of integers\<close>

definition ints_from :: "int list \<Rightarrow> string \<Rightarrow> nat \<Rightarrow> string" where
  "ints_from is t j = fields_text (map dec_int (drop j is)) @ t"

definition ints_ok :: "int list \<Rightarrow> bool" where
  "ints_ok is = list_all (\<lambda>i. \<bar>i\<bar> < 2 ^ 64) is"

lemma ints_from_step:
  assumes "ints_ok is" and "ends_field t" and "j < length is"
  shows "run_state sigar_strtoull (ints_from is t j) = (of_int (is ! j), ints_from is t (Suc j))"
    and "run_state sigar_strtoul (ints_from is t j) = (of_int (is ! j), ints_from is t (Suc j))"
    and "run_state scan_token (ints_from is t j) = ((), ints_from is t (Suc j))"
    and "sigar_skip_token (ints_from is t j) = ints_from is t (Suc j)"
proof -
  have d: "drop j is = is ! j # drop (Suc j) is" using assms(3) by (simp add: Cons_nth_drop_Suc)
  have b: "\<bar>is ! j\<bar> < 2 ^ 64" using assms(1,3) by (simp add: ints_ok_def list_all_length)
  have e: "ends_field (ints_from is t (Suc j))" using assms(2) by (simp add: ints_from_def)
  have f: "ints_from is t j = CHR '' '' # dec_int (is ! j) @ ints_from is t (Suc j)" by (simp add: ints_from_def d)
  show "run_state sigar_strtoull (ints_from is t j) = (of_int (is ! j), ints_from is t (Suc j))"
    "run_state sigar_strtoul (ints_from is t j) = (of_int (is ! j), ints_from is t (Suc j))"
    "run_state scan_token (ints_from is t j) = ((), ints_from is t (Suc j))"
    "sigar_skip_token (ints_from is t j) = ints_from is t (Suc j)"
    unfolding f by (simp_all only: run_strtoull_int [OF b e] run_scan_token(1) [OF field_ok_int e] skip_token_field(1) [OF field_ok_int e])
qed

lemma ints_from_start: "ints_from is t 0 = fields_text (map dec_int is) @ t"
  by (simp add: ints_from_def)

end
