(* ===== verification/Linux_System.thy ===== *)
theory Linux_System
  imports Linux_Scan Sigar_Format Sigar_Calc
begin

text \<open>
  The Linux handle and the system-wide readings of \<open>os/linux/linux_sigar.c\<close>: opening, memory and
  swap, CPU times, load, uptime, kernel counters and CPU descriptions. \<open>fs\<close> gives the contents of a
  file for \<open>sigar_file2str\<close>, \<open>fopen\<close> the buffers \<open>fgets\<close> delivers from a file or an error number;
  \<open>cpuid\<close>, the clock, \<open>sysconf\<close> and the rounding of doubles are parameters.
\<close>

section \<open>The handle\<close>

record linux_proc_stat =
  lp_pid :: uint32
  lp_mtime :: uint64
  lp_vsize :: uint64
  lp_rss :: uint64
  lp_minor_faults :: uint64
  lp_major_faults :: uint64
  lp_ppid :: uint64
  lp_tty :: uint32
  lp_priority :: uint32
  lp_nice :: uint32
  lp_start_time :: uint64
  lp_utime :: uint64
  lp_stime :: uint64
  lp_name :: string
  lp_state :: char
  lp_processor :: uint32

datatype linux_iostat = IOSTAT_NONE | IOSTAT_PARTITIONS | IOSTAT_DISKSTATS | IOSTAT_SYS

record linux_sigar =
  ls_core :: sigar_core
  ls_pid :: pid
  ls_ncpu :: int
  ls_ticks :: nat
  ls_boot_time :: uint64
  ls_pagesize :: nat
  ls_ram :: int
  ls_proc_signal_offset :: int
  ls_last_proc_stat :: linux_proc_stat
  ls_iostat :: linux_iostat
  ls_proc_net :: "string option"
  ls_has_nptl :: bool

type_synonym lines_of = "string \<Rightarrow> status + string list"

text \<open>The paths \<open>set_proc_locations\<close> builds.\<close>

definition proc_file :: "string option \<Rightarrow> string \<Rightarrow> string" where
  "proc_file host name = sigar_proc_path host None (Some ''/proc/'') (Some name)"

fun space_count :: "string \<Rightarrow> nat" where
  "space_count [] = 0"
| "space_count (c # cs) = (if c = CHR '' '' then Suc (space_count cs) else space_count cs)"

definition get_proc_signal_offset :: "(string \<Rightarrow> file_read) \<Rightarrow> int" where
  "get_proc_signal_offset fs =
     (case sigar_file2str fs ''/proc/self/stat'' 8192 of
        (status, buffer) \<Rightarrow> if status \<noteq> SIGAR_OK then 1 else int (space_count buffer) - 38 + 1)"

definition sigar_pid_get :: "pid \<Rightarrow> linux_sigar \<Rightarrow> pid \<times> linux_sigar" where
  "sigar_pid_get getpid sigar = (getpid, sigar\<lparr>ls_pid := getpid\<rparr>)"

fun boot_time_loop :: "string list \<Rightarrow> uint64 option" where
  "boot_time_loop [] = None"
| "boot_time_loop (ptr # rest) =
     (if strnEQ ptr ''btime'' 5
      then Some (fst (run_state (do { scan_token; sigar_strtoul }) ptr)) else boot_time_loop rest)"

definition sigar_boot_time_get :: "string option \<Rightarrow> lines_of \<Rightarrow> uint64 \<Rightarrow> linux_sigar \<Rightarrow> status \<times> linux_sigar" where
  "sigar_boot_time_get host fopen now sigar =
     (case fopen (proc_file host ''stat'') of
        Inl errno \<Rightarrow> (errno, sigar)
      | Inr ls \<Rightarrow>
          (SIGAR_OK, sigar\<lparr>ls_boot_time := (case boot_time_loop ls of Some t \<Rightarrow> t | None \<Rightarrow> now)\<rparr>))"

text \<open>The number of bits of the page size after the first.\<close>

fun pagesize_loop :: "nat \<Rightarrow> nat \<Rightarrow> nat" where
  "pagesize_loop i shift = (if 0 < i div 2 then pagesize_loop (i div 2) (Suc shift) else shift)"

declare pagesize_loop.simps [simp del]

record linux_env =
  env_getpagesize :: nat
  env_clk_tck :: nat
  env_exists :: "string \<Rightarrow> bool"
  env_release :: string
  env_proc_net :: "string option"
  env_has_nptl :: bool

text \<open>\<open>kernel_rev\<close> is the number after the second character of the release.\<close>

definition sigar_os_open ::
  "string option \<Rightarrow> lines_of \<Rightarrow> uint64 \<Rightarrow> linux_env \<Rightarrow> linux_sigar \<Rightarrow> status \<times> linux_sigar" where
  "sigar_os_open host fopen now env fresh =
     (case sigar_boot_time_get host fopen now (fresh\<lparr>ls_pagesize := pagesize_loop (env_getpagesize env) 0\<rparr>) of
        (status, sigar) \<Rightarrow>
          if status \<noteq> SIGAR_OK then (status, sigar)
          else (SIGAR_OK, sigar\<lparr>
            ls_ticks := env_clk_tck env, ls_ram := - 1, ls_proc_signal_offset := - 1,
            ls_last_proc_stat := (ls_last_proc_stat sigar)\<lparr>lp_pid := - 1\<rparr>,
            ls_core := (ls_core sigar)\<lparr>s_lcpu := - 1\<rparr>,
            ls_iostat := (if env_exists env (proc_file host ''diskstats'') then IOSTAT_DISKSTATS
                          else if env_exists env (sigar_proc_path host None None (Some ''/sys/block'')) then IOSTAT_SYS
                          else if env_exists env (proc_file host ''partitions'') then IOSTAT_PARTITIONS
                          else IOSTAT_NONE),
            ls_proc_net := env_proc_net env,
            ls_has_nptl := (if 6 \<le> sint (atoi (drop 2 (env_release env))) then True else env_has_nptl env)\<rparr>))"

section \<open>Memory\<close>

text \<open>The write-back registers of \<open>/proc/mtrr\<close> are added up in an \<open>int\<close>.\<close>

fun mtrr_loop :: "string list \<Rightarrow> int \<Rightarrow> int ub" where
  "mtrr_loop [] mb = Some mb"
| "mtrr_loop (buffer # rest) mb =
     (case strstr buffer ''size='' of
        None \<Rightarrow> mtrr_loop rest mb
      | Some ptr \<Rightarrow>
          if strstr ptr ''write-back'' = None then mtrr_loop rest mb
          else (let mb1 = mb + sint (atoi (skip_space (drop 5 ptr)))
                in if mb1 < - (2 ^ 31) \<or> 2 ^ 31 \<le> mb1 then None else mtrr_loop rest mb1))"

text \<open>The difference is unsigned, so registers below the kernel's total are rejected as well.\<close>

definition get_ram :: "string option \<Rightarrow> lines_of \<Rightarrow> linux_sigar \<Rightarrow> sigar_mem \<Rightarrow> (status \<times> linux_sigar \<times> sigar_mem) ub" where
  "get_ram host fopen sigar mem =
     (if 0 < ls_ram sigar then Some (SIGAR_OK, sigar, mem\<lparr>mem_ram := of_int (ls_ram sigar)\<rparr>)
      else if ls_ram sigar = 0 then Some (ENOENT, sigar, mem)
      else (case fopen (proc_file host ''mtrr'') of
              Inl errno \<Rightarrow> Some (errno, sigar, mem)
            | Inr ls \<Rightarrow>
                (case mtrr_loop ls 0 of
                   None \<Rightarrow> None
                 | Some mb \<Rightarrow>
                     (let mb1 = (if (of_int mb :: uint64) - mem_total mem div (1024 * 1024) > 256 then 0 else mb)
                      in if mb1 = 0 then Some (ENOENT, sigar, mem)
                         else Some (SIGAR_OK, sigar\<lparr>ls_ram := mb1\<rparr>, mem\<lparr>mem_ram := of_int mb1\<rparr>)))))"

definition sigar_meminfo :: "string \<Rightarrow> string \<Rightarrow> uint64" where
  "sigar_meminfo buffer attr =
     (case strstr buffer attr of
        None \<Rightarrow> 0
      | Some ptr \<Rightarrow>
          (case strtou 0 (drop (length attr) ptr) of
             (val, tok) \<Rightarrow>
               (case dropWhile (\<lambda>c. c = CHR '' '') tok of
                  [] \<Rightarrow> val
                | c # _ \<Rightarrow> if c = CHR ''k'' then val * 1024 else if c = CHR ''M'' then val * (1024 * 1024) else val)))"

definition sigar_mem_get ::
  "rounding \<Rightarrow> string option \<Rightarrow> (string \<Rightarrow> file_read) \<Rightarrow> lines_of \<Rightarrow> linux_sigar \<Rightarrow> sigar_mem \<Rightarrow>
   (status \<times> linux_sigar \<times> sigar_mem) ub" where
  "sigar_mem_get rnd host fs fopen sigar mem =
     (case sigar_file2str fs (proc_file host ''meminfo'') 8192 of
        (status, buffer) \<Rightarrow>
          if status \<noteq> SIGAR_OK then Some (status, sigar, mem)
          else
            (let total = sigar_meminfo buffer ''MemTotal:'';
                 free = sigar_meminfo buffer ''MemFree:'';
                 used = total - free;
                 kern = sigar_meminfo buffer ''Buffers:'' + sigar_meminfo buffer ''Cached:'';
                 mem1 = mem\<lparr>mem_total := total, mem_free := free, mem_used := used,
                            mem_actual_free := free + kern, mem_actual_used := used - kern\<rparr>
             in case get_ram host fopen sigar (snd (sigar_mem_calc_ram rnd mem1)) of
                  None \<Rightarrow> None
                | Some (st, sigar1, mem2) \<Rightarrow> Some (SIGAR_OK, sigar1, mem2)))"

record sigar_swap =
  swap_total :: uint64
  swap_used :: uint64
  swap_free :: uint64
  swap_page_in :: uint64
  swap_page_out :: uint64

definition sigar_swap_get ::
  "string option \<Rightarrow> (string \<Rightarrow> file_read) \<Rightarrow> sigar_swap \<Rightarrow> status \<times> sigar_swap" where
  "sigar_swap_get host fs swap =
     (case sigar_file2str fs (proc_file host ''meminfo'') 8192 of
        (status, buffer) \<Rightarrow>
          if status \<noteq> SIGAR_OK then (status, swap)
          else
            (let total = sigar_meminfo buffer ''SwapTotal:'';
                 free = sigar_meminfo buffer ''SwapFree:'';
                 swap1 = swap\<lparr>swap_total := total, swap_free := free, swap_used := total - free,
                              swap_page_in := - 1, swap_page_out := - 1\<rparr>
             in case sigar_file2str fs (proc_file host ''vmstat'') 8192 of
                  (status1, vmstat) \<Rightarrow>
                    if status1 = SIGAR_OK then
                      (SIGAR_OK, case strstr vmstat (CHR 0x0A # ''pswpin'') of
                         None \<Rightarrow> swap1
                       | Some ptr \<Rightarrow>
                           fst (run_state (do { scan_token; page_in \<leftarrow> sigar_strtoull; scan_token; page_out \<leftarrow> sigar_strtoull;
                             State_Monad.return (swap1\<lparr>swap_page_in := page_in, swap_page_out := page_out\<rparr>) }) ptr))
                    else
                      (case sigar_file2str fs (proc_file host ''stat'') 8192 of
                         (status2, stat) \<Rightarrow>
                           if status2 \<noteq> SIGAR_OK then (status2, swap1)
                           else (SIGAR_OK, case strstr stat (CHR 0x0A # ''swap'') of
                                   None \<Rightarrow> swap1
                                 | Some ptr \<Rightarrow>
                                     fst (run_state (do { scan_token; page_in \<leftarrow> sigar_strtoull; page_out \<leftarrow> sigar_strtoull;
                                       State_Monad.return (swap1\<lparr>swap_page_in := page_in, swap_page_out := page_out\<rparr>) }) ptr)))))"

section \<open>CPU times\<close>

text \<open>A counter grows by a double: the sum is rounded and converted back.\<close>

definition add_ticks :: "rounding \<Rightarrow> nat \<Rightarrow> uint64 \<Rightarrow> uint64 \<Rightarrow> uint64 ub" where
  "add_ticks rnd ticks old t = u64_of_rat (rnd (dbl_of_u64 rnd old + SIGAR_TICK2MSEC rnd ticks t))"

text \<open>The eight columns of a line of \<open>/proc/stat\<close>; older kernels have only the first four or seven.\<close>

definition scan_cpu :: "(uint64 \<times> uint64 \<times> uint64 \<times> uint64 \<times> (uint64 \<times> uint64 \<times> uint64) option \<times> uint64 option) scan" where
  "scan_cpu = do {
     scan_token;
     user \<leftarrow> sigar_strtoull; nice \<leftarrow> sigar_strtoull; sys \<leftarrow> sigar_strtoull; idle \<leftarrow> sigar_strtoull;
     p1 \<leftarrow> State_Monad.get;
     extra \<leftarrow> (if take 1 p1 = '' '' then do {
                wait \<leftarrow> sigar_strtoull; irq \<leftarrow> sigar_strtoull; soft_irq \<leftarrow> sigar_strtoull;
                State_Monad.return (Some (wait, irq, soft_irq)) }
              else State_Monad.return None);
     p2 \<leftarrow> State_Monad.get;
     stolen \<leftarrow> (if take 1 p2 = '' '' then do { s \<leftarrow> sigar_strtoull; State_Monad.return (Some s) } else State_Monad.return None);
     State_Monad.return (user, nice, sys, idle, extra, stolen) }"

definition get_cpu_metrics :: "rounding \<Rightarrow> nat \<Rightarrow> sigar_cpu \<Rightarrow> string \<Rightarrow> sigar_cpu ub" where
  "get_cpu_metrics rnd ticks cpu line =
     (case fst (run_state scan_cpu line) of
        (user, nice, sys, idle, extra, stolen) \<Rightarrow>
          do {
            u \<leftarrow> add_ticks rnd ticks (cpu_user cpu) user;
            n \<leftarrow> add_ticks rnd ticks (cpu_nice cpu) nice;
            s \<leftarrow> add_ticks rnd ticks (cpu_sys cpu) sys;
            i \<leftarrow> add_ticks rnd ticks (cpu_idle cpu) idle;
            w \<leftarrow> (case extra of Some (wait, irq, soft_irq) \<Rightarrow> add_ticks rnd ticks (cpu_wait cpu) wait | None \<Rightarrow> Some (cpu_wait cpu));
            q \<leftarrow> (case extra of Some (wait, irq, soft_irq) \<Rightarrow> add_ticks rnd ticks (cpu_irq cpu) irq | None \<Rightarrow> Some (cpu_irq cpu));
            f \<leftarrow> (case extra of Some (wait, irq, soft_irq) \<Rightarrow> add_ticks rnd ticks (cpu_soft_irq cpu) soft_irq | None \<Rightarrow> Some (cpu_soft_irq cpu));
            t \<leftarrow> (case stolen of Some s \<Rightarrow> add_ticks rnd ticks (cpu_stolen cpu) s | None \<Rightarrow> Some (cpu_stolen cpu));
            Some \<lparr>cpu_user = u, cpu_sys = s, cpu_nice = n, cpu_idle = i, cpu_wait = w, cpu_irq = q, cpu_soft_irq = f,
                  cpu_stolen = t, cpu_total = u + n + s + i + w + q + f + t\<rparr> })"

definition zero_cpu :: sigar_cpu where
  "zero_cpu = \<lparr>cpu_user = 0, cpu_sys = 0, cpu_nice = 0, cpu_idle = 0, cpu_wait = 0, cpu_irq = 0, cpu_soft_irq = 0,
     cpu_stolen = 0, cpu_total = 0\<rparr>"

definition sigar_cpu_get ::
  "rounding \<Rightarrow> string option \<Rightarrow> (string \<Rightarrow> file_read) \<Rightarrow> linux_sigar \<Rightarrow> sigar_cpu \<Rightarrow> (status \<times> sigar_cpu) ub" where
  "sigar_cpu_get rnd host fs sigar cpu =
     (case sigar_file2str fs (proc_file host ''stat'') 8192 of
        (status, buffer) \<Rightarrow>
          if status \<noteq> SIGAR_OK then Some (status, cpu)
          else map_option (\<lambda>c. (SIGAR_OK, c)) (get_cpu_metrics rnd (ls_ticks sigar) zero_cpu buffer))"

text \<open>One element per line, or per socket when the times of logical processors are merged into the
  element before; merging with no logical processors divides by zero.\<close>

definition clist_last :: "'a clist \<Rightarrow> 'a option" where
  "clist_last l = (if l_number l = 0 \<or> length (l_data l) < l_number l then None else l_data l ! (l_number l - 1))"

definition clist_set_last :: "'a clist \<Rightarrow> 'a \<Rightarrow> 'a clist" where
  "clist_set_last l v = l\<lparr>l_data := (l_data l)[l_number l - 1 := Some v]\<rparr>"

fun cpu_list_loop :: "rounding \<Rightarrow> nat \<Rightarrow> bool \<Rightarrow> int \<Rightarrow> nat \<Rightarrow> string list \<Rightarrow> sigar_cpu clist \<Rightarrow> sigar_cpu clist ub" where
  "cpu_list_loop rnd ticks core_rollup lcpu i [] cpulist = Some cpulist"
| "cpu_list_loop rnd ticks core_rollup lcpu i (ptr # rest) cpulist =
     (if \<not> strnEQ ptr ''cpu'' 3 then Some cpulist
      else if core_rollup \<and> lcpu = 0 then None
      else if core_rollup \<and> int i mod lcpu \<noteq> 0 then
        do { cpu \<leftarrow> clist_last cpulist;
             cpu1 \<leftarrow> get_cpu_metrics rnd ticks cpu ptr;
             cpu_list_loop rnd ticks core_rollup lcpu (Suc i) rest (clist_set_last cpulist cpu1) }
      else
        do { cpu1 \<leftarrow> get_cpu_metrics rnd ticks zero_cpu ptr;
             cpulist1 \<leftarrow> clist_put sigar_cpu_list_grow cpulist cpu1;
             cpu_list_loop rnd ticks core_rollup lcpu (Suc i) rest cpulist1 })"

text \<open>With no such line the code parses a buffer it never filled.\<close>

definition sigar_cpu_list_get ::
  "rounding \<Rightarrow> string option \<Rightarrow> lines_of \<Rightarrow> (uint32 \<Rightarrow> cpuid_regs) \<Rightarrow> linux_sigar \<Rightarrow>
   (status \<times> sigar_cpu clist option \<times> linux_sigar) ub" where
  "sigar_cpu_list_get rnd host fopen cpuid sigar =
     (case sigar_cpu_core_rollup cpuid (ls_core sigar) of
        (core_rollup, core) \<Rightarrow>
          (let sigar1 = sigar\<lparr>ls_core := core\<rparr> in
           case fopen (proc_file host ''stat'') of
             Inl errno \<Rightarrow> Some (errno, None, sigar1)
           | Inr ls \<Rightarrow>
               (case sigar_skip_file_lines (Some ls) 1 of
                  (result, rest) \<Rightarrow>
                    if result \<noteq> SIGAR_OK then Some (- 1, None, sigar1)
                    else do { cpulist \<leftarrow> cpu_list_loop rnd (ls_ticks sigar1) core_rollup (s_lcpu core) 0
                                  (case rest of Some r \<Rightarrow> r | None \<Rightarrow> []) sigar_cpu_list_create;
                              if l_number cpulist = 0 then None else Some (SIGAR_OK, Some cpulist, sigar1) })))"

section \<open>Uptime, load and kernel counters\<close>

definition sigar_uptime_get :: "rounding \<Rightarrow> string option \<Rightarrow> (string \<Rightarrow> file_read) \<Rightarrow> dbl \<Rightarrow> status \<times> dbl" where
  "sigar_uptime_get rnd host fs uptime =
     (case sigar_file2str fs (proc_file host ''uptime'') 8192 of
        (status, buffer) \<Rightarrow> if status \<noteq> SIGAR_OK then (status, uptime) else (SIGAR_OK, fst (strtod rnd buffer)))"

definition scan_double :: "rounding \<Rightarrow> dbl scan" where
  "scan_double rnd = State (\<lambda>ptr. case strtod rnd ptr of (v, rest, err) \<Rightarrow> (v, rest))"

record sigar_loadavg =
  la_loadavg :: "dbl list"
  la_loadavg_result :: "status list"
  la_processor_queue :: uint32

definition u32_of_dbl :: "dbl \<Rightarrow> uint32 ub" where
  "u32_of_dbl x = (case x of Fin r \<Rightarrow> if - 1 < r \<and> r < of_nat (2 ^ 32) then Some (if r < 0 then 0 else of_int \<lfloor>r\<rfloor>) else None | _ \<Rightarrow> None)"

definition sigar_loadavg_get ::
  "rounding \<Rightarrow> string option \<Rightarrow> (string \<Rightarrow> file_read) \<Rightarrow> sigar_loadavg \<Rightarrow> (status \<times> sigar_loadavg) ub" where
  "sigar_loadavg_get rnd host fs loadavg =
     (case sigar_file2str fs (proc_file host ''loadavg'') 8192 of
        (status, buffer) \<Rightarrow>
          if status \<noteq> SIGAR_OK then Some (status, loadavg)
          else (case fst (run_state (do {
                  a \<leftarrow> scan_double rnd; b \<leftarrow> scan_double rnd; c \<leftarrow> scan_double rnd; q \<leftarrow> scan_double rnd;
                  State_Monad.return ([a, b, c], q) }) buffer) of
                  (avg, q) \<Rightarrow>
                    map_option (\<lambda>n. (SIGAR_OK, \<lparr>la_loadavg = avg, la_loadavg_result = [0, 0, 0], la_processor_queue = n\<rparr>)) (u32_of_dbl q)))"

record sigar_system_stats =
  ss_ctxt_switches :: uint64
  ss_irq :: uint64
  ss_soft_irq :: uint64

fun system_stats_loop :: "string list \<Rightarrow> sigar_system_stats \<Rightarrow> sigar_system_stats" where
  "system_stats_loop [] stats = stats"
| "system_stats_loop (ptr # rest) stats =
     (let v = fst (run_state (do { scan_token; sigar_strtoull }) ptr) in
      system_stats_loop rest
        (if strnEQ ptr ''ctxt'' 4 then stats\<lparr>ss_ctxt_switches := v\<rparr>
         else if strnEQ ptr ''intr'' 4 then stats\<lparr>ss_irq := v\<rparr>
         else if strnEQ ptr ''softirq'' 7 then stats\<lparr>ss_soft_irq := v\<rparr>
         else stats))"

definition sigar_system_stats_get :: "string option \<Rightarrow> lines_of \<Rightarrow> sigar_system_stats \<Rightarrow> status \<times> sigar_system_stats" where
  "sigar_system_stats_get host fopen stats =
     (case fopen (proc_file host ''stat'') of Inl errno \<Rightarrow> (errno, stats) | Inr ls \<Rightarrow> (SIGAR_OK, system_stats_loop ls stats))"

record sigar_thread_cpu =
  tc_user :: uint64
  tc_sys :: uint64
  tc_total :: uint64

definition sigar_thread_cpu_get ::
  "rounding \<Rightarrow> nat \<Rightarrow> uint64 \<times> uint64 \<Rightarrow> uint64 \<Rightarrow> sigar_thread_cpu \<Rightarrow> (status \<times> sigar_thread_cpu) ub" where
  "sigar_thread_cpu_get rnd ticks now_times tid cpu =
     (if tid \<noteq> 0 then Some (SIGAR_ENOTIMPL, cpu)
      else case now_times of (tms_utime, tms_stime) \<Rightarrow>
        do { u \<leftarrow> u64_of_rat (SIGAR_TICK2NSEC rnd ticks tms_utime);
             s \<leftarrow> u64_of_rat (SIGAR_TICK2NSEC rnd ticks tms_stime);
             t \<leftarrow> u64_of_rat (SIGAR_TICK2NSEC rnd ticks (tms_utime + tms_stime));
             Some (SIGAR_OK, \<lparr>tc_user = u, tc_sys = s, tc_total = t\<rparr>) })"

section \<open>CPU descriptions\<close>

record sigar_cpu_info =
  ci_vendor :: string
  ci_model :: string
  ci_mhz :: uint32
  ci_mhz_max :: uint32
  ci_mhz_min :: uint32
  ci_cache_size :: uint64
  ci_total_sockets :: int
  ci_total_cores :: int
  ci_cores_per_socket :: int

definition zero_cpu_info :: sigar_cpu_info where
  "zero_cpu_info = \<lparr>ci_vendor = [], ci_model = [], ci_mhz = 0, ci_mhz_max = 0, ci_mhz_min = 0, ci_cache_size = 0,
     ci_total_sockets = 0, ci_total_cores = 0, ci_cores_per_socket = 0\<rparr>"

definition cpu_info_strval :: "string \<Rightarrow> string option" where
  "cpu_info_strval ptr = (case strchr ptr (CHR '':'') of None \<Rightarrow> None | Some p \<Rightarrow> Some (skip_space (drop 1 p)))"

text \<open>\<open>None\<close> when there is no value, so that nothing is written; otherwise the string in the array.
  An empty value writes before the array, and one that fills the array is not terminated inside
  it; both are undefined.\<close>

definition cpu_info_strcpy :: "string \<Rightarrow> nat \<Rightarrow> string option ub" where
  "cpu_info_strcpy ptr len =
     (case cpu_info_strval ptr of
        None \<Rightarrow> Some None
      | Some p \<Rightarrow> if p = [] \<or> len \<le> length p then None else Some (Some (take (length p - 1) p)))"

text \<open>\<open>buf[len]\<close> is the byte after the array, that is the first byte of the next member: copying the
  vendor clears the model and copying the model clears the low byte of the clock rate.\<close>

definition set_vendor :: "sigar_cpu_info \<Rightarrow> string \<Rightarrow> sigar_cpu_info ub" where
  "set_vendor info ptr =
     (case cpu_info_strcpy ptr 128 of
        None \<Rightarrow> None
      | Some v \<Rightarrow>
          (let info1 = (case v of None \<Rightarrow> info | Some s \<Rightarrow> info\<lparr>ci_vendor := s, ci_model := []\<rparr>)
           in Some (if strEQ (ci_vendor info1) ''GenuineIntel'' then info1\<lparr>ci_vendor := ''Intel''\<rparr>
                    else if strEQ (ci_vendor info1) ''AuthenticAMD'' then info1\<lparr>ci_vendor := ''AMD''\<rparr>
                    else info1)))"

definition set_model :: "sigar_cpu_info \<Rightarrow> string \<Rightarrow> sigar_cpu_info ub" where
  "set_model info ptr =
     (case cpu_info_strcpy ptr 128 of
        None \<Rightarrow> None
      | Some v \<Rightarrow>
          (let info1 = (case v of None \<Rightarrow> info | Some s \<Rightarrow> info\<lparr>ci_model := s, ci_mhz := ci_mhz info AND NOT 0xFF\<rparr>)
           in map_option (\<lambda>m. info1\<lparr>ci_model := m\<rparr>) (sigar_cpu_model_adjust (ci_vendor info1) (ci_model info1))))"

text \<open>One line: \<open>None\<close> for undefined behaviour, otherwise whether the entry ends here, the flag and
  the entry.\<close>

definition cpu_info_line :: "string \<Rightarrow> bool \<Rightarrow> sigar_cpu_info \<Rightarrow> (bool \<times> bool \<times> sigar_cpu_info) ub" where
  "cpu_info_line ptr found info =
     (if strnEQ ptr ''processor'' 9 then Some (False, True, info)
      else if strnEQ ptr ''vendor'' 6 then map_option (\<lambda>i. (False, found, i)) (set_vendor info ptr)
      else if strnEQ ptr ''family'' 6 \<or> strnEQ ptr ''model name'' 10 then map_option (\<lambda>i. (False, found, i)) (set_model info ptr)
      else if strnEQ ptr ''cpu MHz'' 7 then
        map_option (\<lambda>v. (False, found, info\<lparr>ci_mhz := atoi v\<rparr>)) (cpu_info_strval ptr)
      else if strnEQ ptr ''cache size'' 10 then
        map_option (\<lambda>v. (False, found, info\<lparr>ci_cache_size := fst (run_state sigar_strtoul v)\<rparr>)) (cpu_info_strval ptr)
      else if take 1 ptr = [CHR 0x0A] then Some (True, found, info)
      else Some (False, found, info))"

fun cpu_info_lines :: "string list \<Rightarrow> bool \<Rightarrow> sigar_cpu_info \<Rightarrow> (bool \<times> sigar_cpu_info \<times> string list) ub" where
  "cpu_info_lines [] found info = Some (found, info, [])"
| "cpu_info_lines (ptr # rest) found info =
     (case cpu_info_line ptr found info of
        None \<Rightarrow> None
      | Some (stop, found1, info1) \<Rightarrow> if stop then Some (found1, info1, rest) else cpu_info_lines rest found1 info1)"

definition get_cpu_info :: "string list \<Rightarrow> (bool \<times> sigar_cpu_info \<times> string list) ub" where
  "get_cpu_info ls = cpu_info_lines ls False zero_cpu_info"

lemma cpu_info_lines_shorter: "cpu_info_lines ls found info = Some (f, i, rest) \<Longrightarrow> length rest \<le> length ls - 1"
proof (induction ls arbitrary: found info)
  case (Cons ptr ls)
  then show ?case by (fastforce split: option.splits if_splits)
qed simp

lemma get_cpu_info_shorter: "get_cpu_info ls = Some (True, i, rest) \<Longrightarrow> length rest < length ls"
  using cpu_info_lines_shorter [of ls False zero_cpu_info True i rest] by (cases ls) (auto simp: get_cpu_info_def)

definition c_div :: "int \<Rightarrow> int \<Rightarrow> int" where
  "c_div a b = (if (0 \<le> a) = (0 < b) then \<bar>a\<bar> div \<bar>b\<bar> else - (\<bar>a\<bar> div \<bar>b\<bar>))"

definition cpu_freq :: "(string \<Rightarrow> file_read) \<Rightarrow> nat \<Rightarrow> string \<Rightarrow> uint32 \<Rightarrow> uint32" where
  "cpu_freq fs num file old =
     (case sigar_file2str fs (''/sys/devices/system/cpu/cpu'' @ dec_digits num @ file) 4095 of
        (status, buffer) \<Rightarrow> if status = SIGAR_OK then of_int (c_div (sint (atoi buffer)) 1000) else old)"

definition get_cpuinfo_max_freq :: "(string \<Rightarrow> file_read) \<Rightarrow> nat \<Rightarrow> sigar_cpu_info \<Rightarrow> sigar_cpu_info" where
  "get_cpuinfo_max_freq fs num info = info\<lparr>ci_mhz_max := cpu_freq fs num ''/cpufreq/cpuinfo_max_freq'' (ci_mhz_max info)\<rparr>"

definition get_cpuinfo_min_freq :: "(string \<Rightarrow> file_read) \<Rightarrow> nat \<Rightarrow> sigar_cpu_info \<Rightarrow> sigar_cpu_info" where
  "get_cpuinfo_min_freq fs num info = info\<lparr>ci_mhz_min := cpu_freq fs num ''/cpufreq/cpuinfo_min_freq'' (ci_mhz_min info)\<rparr>"

definition sigar_cpu_socket_count :: "int \<Rightarrow> int \<Rightarrow> int ub" where
  "sigar_cpu_socket_count ncpu lcpu = (if ncpu < lcpu then Some ncpu else if lcpu = 0 then None else Some (c_div ncpu lcpu))"

text \<open>The element is written behind the last one before it is counted, and the list grows
  afterwards.\<close>

definition cpu_info_append :: "sigar_cpu_info clist \<Rightarrow> sigar_cpu_info \<Rightarrow> sigar_cpu_info clist ub" where
  "cpu_info_append l info =
     (if l_number l < length (l_data l)
      then (let l1 = l\<lparr>l_data := (l_data l)[l_number l := Some info], l_number := Suc (l_number l)\<rparr>
            in Some (if l_size l1 \<le> l_number l1 then sigar_cpu_info_list_grow l1 else l1))
      else None)"

function cpu_info_list_loop ::
  "(string \<Rightarrow> file_read) \<Rightarrow> bool \<Rightarrow> int \<Rightarrow> int \<Rightarrow> nat \<Rightarrow> string list \<Rightarrow> sigar_cpu_info clist \<Rightarrow> sigar_cpu_info clist ub" where
  "cpu_info_list_loop fs core_rollup ncpu lcpu i ls cpu_infos =
     (case get_cpu_info ls of
        None \<Rightarrow> None
      | Some (found, info, rest) \<Rightarrow>
          if \<not> found then Some cpu_infos
          else if core_rollup \<and> lcpu = 0 then None
          else if core_rollup \<and> int i mod lcpu \<noteq> 0 then cpu_info_list_loop fs core_rollup ncpu lcpu (Suc i) rest cpu_infos
          else
            (let info1 = get_cpuinfo_min_freq fs (l_number cpu_infos) (get_cpuinfo_max_freq fs (l_number cpu_infos) info)
             in case sigar_cpu_socket_count ncpu lcpu of
                  None \<Rightarrow> None
                | Some sockets \<Rightarrow>
                    (case cpu_info_append cpu_infos (info1\<lparr>ci_total_cores := ncpu, ci_cores_per_socket := lcpu, ci_total_sockets := sockets\<rparr>) of
                       None \<Rightarrow> None
                     | Some l1 \<Rightarrow> cpu_info_list_loop fs core_rollup ncpu lcpu (Suc i) rest l1)))"
  by pat_completeness auto
termination
  by (relation "measure (\<lambda>(fs, core_rollup, ncpu, lcpu, i, ls, l). length ls)") (auto dest: get_cpu_info_shorter)

declare cpu_info_list_loop.simps [simp del]

definition sigar_cpu_info_list_get ::
  "string option \<Rightarrow> (string \<Rightarrow> file_read) \<Rightarrow> lines_of \<Rightarrow> (uint32 \<Rightarrow> cpuid_regs) \<Rightarrow> int \<Rightarrow> linux_sigar \<Rightarrow>
   (status \<times> sigar_cpu_info clist option \<times> linux_sigar) ub" where
  "sigar_cpu_info_list_get host fs fopen cpuid nprocessors_conf sigar =
     (case sigar_cpu_core_rollup cpuid (ls_core sigar) of
        (core_rollup, core) \<Rightarrow>
          (let sigar1 = sigar\<lparr>ls_core := core\<rparr> in
           case fopen (proc_file host ''cpuinfo'') of
             Inl errno \<Rightarrow> Some (errno, None, sigar1)
           | Inr ls \<Rightarrow>
               (let sigar2 = sigar1\<lparr>ls_ncpu := nprocessors_conf\<rparr>
                in map_option (\<lambda>l. (SIGAR_OK, Some l, sigar2))
                     (cpu_info_list_loop fs core_rollup nprocessors_conf (s_lcpu core) 0 ls sigar_cpu_info_list_create))))"

section \<open>CPU times from the kernel's lines\<close>

lemma u64_of_rat_nat: "n < 2 ^ 64 \<Longrightarrow> u64_of_rat (of_nat n) = Some (of_nat n)"
proof -
  assume "n < 2 ^ 64"
  then have "(of_nat n :: rat) < of_nat (2 ^ 64)" by (simp only: of_nat_less_iff)
  moreover have "(- 1 :: rat) < of_nat n" by (rule less_le_trans [of _ 0]) simp_all
  ultimately show ?thesis by (simp only: u64_of_rat_def) simp
qed

lemma tick2msec_exact:
  assumes "exact_ints rnd" and "0 < ticks" and "1000 mod ticks = 0" and "n * (1000 div ticks) \<le> 2 ^ 53"
  shows "SIGAR_TICK2MSEC rnd ticks (of_nat n) = of_nat (n * (1000 div ticks))"
proof -
  define k where "k = 1000 div ticks"
  have k: "ticks * k = 1000" using assms(3) by (auto simp: k_def)
  then have k0: "0 < k" "k \<le> 1000" using assms(2) by (cases "k = 0"; simp) (simp add: k_def div_le_dividend)
  have "n \<le> n * k" using k0(1) by simp
  then have n: "n \<le> 2 ^ 53" using assms(4) unfolding k_def by (rule order_trans)
  then have u: "unat (of_nat n :: uint64) = n" by (simp add: unat_of_nat take_bit_nat_eq_self_iff)
  have "of_nat ticks * of_nat k = (1000 :: rat)" using k by (metis of_nat_mult of_nat_numeral)
  then have "(1000 :: rat) / of_nat ticks = of_nat k" using assms(2) by (auto simp: eq_divide_eq divide_eq_eq mult.commute)
  then have q: "rnd (1000 / of_nat ticks) = of_nat k" using exact_nat [OF assms(1), of k] k0(2) by simp
  have "rnd (of_nat n * of_nat k) = of_nat (n * k)"
    using exact_nat [OF assms(1), of "n * k"] assms(4) by (simp add: k_def)
  then show ?thesis
    using q exact_nat [OF assms(1) n] by (simp add: SIGAR_TICK2MSEC_def tick_scale_def dbl_of_u64_def u k_def)
qed

lemma add_ticks_exact:
  assumes "exact_ints rnd" and "0 < ticks" and "1000 mod ticks = 0" and "m + n * (1000 div ticks) \<le> 2 ^ 53"
  shows "add_ticks rnd ticks (of_nat m) (of_nat n) = Some (of_nat (m + n * (1000 div ticks)))"
proof -
  define j where "j = n * (1000 div ticks)"
  have l: "m + j \<le> 2 ^ 53" using assms(4) by (simp add: j_def)
  have t: "SIGAR_TICK2MSEC rnd ticks (of_nat n) = of_nat j"
    unfolding j_def using assms by (intro tick2msec_exact) simp_all
  have "unat (of_nat m :: uint64) = m" using l by (simp add: unat_of_nat take_bit_nat_eq_self_iff)
  then have m: "dbl_of_u64 rnd (of_nat m) = of_nat m" using exact_nat [OF assms(1), of m] l by (simp add: dbl_of_u64_def)
  have "rnd (of_nat m + of_nat j) = of_nat (m + j)" using exact_nat [OF assms(1) l] by simp
  then have "add_ticks rnd ticks (of_nat m) (of_nat n) = u64_of_rat (of_nat (m + j))"
    unfolding add_ticks_def t m by (simp only:)
  also have "\<dots> = Some (of_nat (m + j))" using l by (intro u64_of_rat_nat) simp
  finally show ?thesis unfolding j_def .
qed

text \<open>A line of \<open>/proc/stat\<close>: a label, then the eight counters and possibly more columns.\<close>

definition stat_line :: "string \<Rightarrow> nat list \<Rightarrow> string" where
  "stat_line label cols = label @ fields_text (map dec_digits cols) @ [CHR 0x0A]"

lemma scan_stat_line:
  assumes "field_ok label" and "list_all (\<lambda>n. n < 2 ^ 64) [u, n, s, i, w, q, f, t]"
  shows "fst (run_state scan_cpu (stat_line label ([u, n, s, i, w, q, f, t] @ cols))) =
    (of_nat u, of_nat n, of_nat s, of_nat i, Some (of_nat w, of_nat q, of_nat f), Some (of_nat t))"
  using assms by (simp add: scan_cpu_def stat_line_def scan_fields)

definition cpu_of :: "nat \<Rightarrow> nat list \<Rightarrow> sigar_cpu" where
  "cpu_of ticks cols =
     (let v = (\<lambda>k. of_nat (cols ! k * (1000 div ticks)) :: uint64) in
      \<lparr>cpu_user = v 0, cpu_sys = v 2, cpu_nice = v 1, cpu_idle = v 3, cpu_wait = v 4, cpu_irq = v 5, cpu_soft_irq = v 6,
       cpu_stolen = v 7, cpu_total = v 0 + v 1 + v 2 + v 3 + v 4 + v 5 + v 6 + v 7\<rparr>)"

definition cpu_cols_ok :: "nat \<Rightarrow> nat list \<Rightarrow> bool" where
  "cpu_cols_ok ticks cols \<longleftrightarrow> 8 \<le> length cols \<and> list_all (\<lambda>n. n * (1000 div ticks) \<le> 2 ^ 53) (take 8 cols)"

lemma eight_columns: "8 \<le> length cols \<Longrightarrow> \<exists>u n s i w q f t r. cols = [u, n, s, i, w, q, f, t] @ r"
proof -
  have "(8 :: nat) = Suc (Suc (Suc (Suc (Suc (Suc (Suc (Suc 0)))))))" by simp
  then show "8 \<le> length cols \<Longrightarrow> ?thesis" by (simp only: Suc_le_length_iff append.simps) blast
qed

lemma get_cpu_metrics_line:
  assumes "exact_ints rnd" and "0 < ticks" and "1000 mod ticks = 0" and "field_ok label" and "cpu_cols_ok ticks cols"
  shows "get_cpu_metrics rnd ticks zero_cpu (stat_line label cols) = Some (cpu_of ticks cols)"
proof -
  obtain u n s i w q f t r where c: "cols = [u, n, s, i, w, q, f, t] @ r"
    using eight_columns assms(5) unfolding cpu_cols_ok_def by blast
  define k where "k = 1000 div ticks"
  have "0 < k" using assms(2,3) unfolding k_def by (metis div_greater_zero_iff mod_less not_le zero_neq_numeral)
  then have le: "m \<le> m * k" for m :: nat by simp
  have b: "m * k \<le> 2 ^ 53" if "m \<in> {u, n, s, i, w, q, f, t}" for m
    using assms(5) that by (auto simp: c cpu_cols_ok_def k_def)
  have "m < 2 ^ 64" if "m \<in> {u, n, s, i, w, q, f, t}" for m using order_trans [OF le [of m] b [OF that]] by (rule le_less_trans) simp
  then have l: "list_all (\<lambda>n. n < 2 ^ 64) [u, n, s, i, w, q, f, t]" by simp
  have a: "add_ticks rnd ticks 0 (of_nat m) = Some (of_nat (m * k))" if "m \<in> {u, n, s, i, w, q, f, t}" for m
    using add_ticks_exact [OF assms(1-3), of 0 m] b [OF that] by (simp add: k_def)
  have v: "add_ticks rnd ticks 0 (of_nat u) = Some (of_nat (u * k))" "add_ticks rnd ticks 0 (of_nat n) = Some (of_nat (n * k))"
    "add_ticks rnd ticks 0 (of_nat s) = Some (of_nat (s * k))" "add_ticks rnd ticks 0 (of_nat i) = Some (of_nat (i * k))"
    "add_ticks rnd ticks 0 (of_nat w) = Some (of_nat (w * k))" "add_ticks rnd ticks 0 (of_nat q) = Some (of_nat (q * k))"
    "add_ticks rnd ticks 0 (of_nat f) = Some (of_nat (f * k))" "add_ticks rnd ticks 0 (of_nat t) = Some (of_nat (t * k))"
    by (rule a, simp)+
  show ?thesis
    unfolding get_cpu_metrics_def c scan_stat_line [OF assms(4) l]
    by (simp add: v zero_cpu_def cpu_of_def Let_def k_def [symmetric])
qed

definition cpu_line :: "nat \<times> nat list \<Rightarrow> string" where
  "cpu_line c = stat_line (''cpu'' @ dec_digits (fst c)) (snd c)"

lemma cpu_line_start: "strnEQ (cpu_line c) ''cpu'' 3"
  by (simp add: cpu_line_def stat_line_def strnEQ_def)

lemma cpu_line_metrics:
  assumes "exact_ints rnd" and "0 < ticks" and "1000 mod ticks = 0" and "cpu_cols_ok ticks (snd c)"
  shows "get_cpu_metrics rnd ticks zero_cpu (cpu_line c) = Some (cpu_of ticks (snd c))"
proof -
  have "field_ok (''cpu'' @ dec_digits (fst c))"
    using field_ok_dec [of "fst c"] by (auto simp: field_ok_def isspace_def)
  from get_cpu_metrics_line [OF assms(1-3) this assms(4)] show ?thesis by (simp only: cpu_line_def)
qed

lemma cpu_list_loop_fills:
  assumes "exact_ints rnd" and "0 < ticks" and "1000 mod ticks = 0"
    and "list_all (\<lambda>c. cpu_cols_ok ticks (snd c)) cpus" and "rest = [] \<or> \<not> strnEQ (hd rest) ''cpu'' 3"
  shows "cpu_list_loop rnd ticks False lcpu i (map cpu_line cpus @ rest) l =
    clist_fill sigar_cpu_list_grow l (map (\<lambda>c. cpu_of ticks (snd c)) cpus)"
  using assms(4)
proof (induction cpus arbitrary: i l)
  case Nil
  then show ?case using assms(5) by (cases rest) simp_all
next
  case (Cons c cpus)
  have "cpu_cols_ok ticks (snd c)" using Cons.prems by simp
  note m = cpu_line_metrics [OF assms(1-3) this]
  show ?case
    using Cons.IH Cons.prems
    by (cases "clist_put sigar_cpu_list_grow l (cpu_of ticks (snd c))") (simp_all add: cpu_line_start m)
qed

section \<open>Memory from the kernel's lines\<close>

lemma strstr_later: "(\<And>i. i < length a \<Longrightarrow> \<not> is_prefix t (drop i (a @ b))) \<Longrightarrow> t \<noteq> [] \<Longrightarrow> strstr (a @ b) t = strstr b t"
proof (induction a)
  case (Cons c a)
  have "\<not> is_prefix t ((c # a) @ b)" using Cons.prems(1) [of 0] by simp
  moreover have "strstr (a @ b) t = strstr b t"
    using Cons.prems by (intro Cons.IH) (use Cons.prems(1) [of "Suc _"] in auto)
  ultimately show ?case by simp
qed simp

text \<open>An entry of \<open>/proc/meminfo\<close>: name, number of blanks, kilobytes.\<close>

definition meminfo_line :: "string \<times> nat \<times> nat \<Rightarrow> string" where
  "meminfo_line e = (case e of (name, pad, kb) \<Rightarrow>
     name @ CHR '':'' # replicate pad (CHR '' '') @ dec_digits kb @ '' kB'' @ [CHR 0x0A])"

definition meminfo_ok :: "string \<times> nat \<times> nat \<Rightarrow> bool" where
  "meminfo_ok e = (case e of (name, pad, kb) \<Rightarrow> CHR '':'' \<notin> set name \<and> CHR 0x00 \<notin> set name \<and> kb < 2 ^ 54)"

definition is_suffix :: "string \<Rightarrow> string \<Rightarrow> bool" where
  "is_suffix s t \<longleftrightarrow> drop (length t - length s) t = s"

definition meminfo_value :: "(string \<times> nat \<times> nat) list \<Rightarrow> string \<Rightarrow> nat" where
  "meminfo_value es attr = (case List.find (\<lambda>e. is_suffix attr (fst e)) es of None \<Rightarrow> 0 | Some (name, pad, kb) \<Rightarrow> 1024 * kb)"

lemma prefix_upto_colon:
  assumes "is_prefix (attr @ '':'') s" and "CHR '':'' \<notin> set attr"
  shows "takeWhile (\<lambda>c. c \<noteq> CHR '':'') s = attr"
proof -
  obtain u where s: "s = attr @ CHR '':'' # u" using assms(1) by (auto simp: is_prefix_iff)
  have "takeWhile (\<lambda>c. c \<noteq> CHR '':'') (attr @ CHR '':'' # u) = attr @ takeWhile (\<lambda>c. c \<noteq> CHR '':'') (CHR '':'' # u)"
    using assms(2) by (intro takeWhile_append2) auto
  then show ?thesis by (simp add: s)
qed

text \<open>In a line, \<open>attr:\<close> starts nowhere unless the name ends in \<open>attr\<close>.\<close>

lemma meminfo_line_skipped:
  assumes "meminfo_ok e" and "\<not> is_suffix attr (fst e)" and "CHR '':'' \<notin> set attr" and "CHR 0x0A \<notin> set attr"
    and "i < length (meminfo_line e)"
  shows "\<not> is_prefix (attr @ '':'') (drop i (meminfo_line e @ rest))"
proof
  assume p: "is_prefix (attr @ '':'') (drop i (meminfo_line e @ rest))"
  obtain name pad kb where e: "e = (name, pad, kb)" by (cases e)
  define tail where "tail = replicate pad (CHR '' '') @ dec_digits kb @ '' kB''"
  have l: "meminfo_line e = name @ CHR '':'' # tail @ [CHR 0x0A]" by (simp add: e meminfo_line_def tail_def)
  have nt: "CHR '':'' \<notin> set tail" using dec_digits_isdigit [of "CHR '':''" kb] by (auto simp: tail_def isdigit_def)
  have n: "CHR '':'' \<notin> set name" using assms(1) by (simp add: e meminfo_ok_def)
  have t: "takeWhile (\<lambda>c. c \<noteq> CHR '':'') (drop i (meminfo_line e @ rest)) = attr" by (rule prefix_upto_colon [OF p assms(3)])
  show False
  proof (cases "i \<le> length name")
    case True
    then have "drop i (meminfo_line e @ rest) = drop i name @ CHR '':'' # tail @ CHR 0x0A # rest" by (simp add: l)
    moreover have "takeWhile (\<lambda>c. c \<noteq> CHR '':'') (drop i name @ CHR '':'' # tail @ CHR 0x0A # rest) = drop i name"
      using n by (subst takeWhile_append2) (auto dest: in_set_dropD)
    ultimately have "attr = drop i name" using t by simp
    then have "is_suffix attr name" using True by (simp add: is_suffix_def)
    with assms(2) show False by (simp add: e)
  next
    case False
    define u where "u = drop (i - Suc (length name)) tail"
    have "drop i (meminfo_line e @ rest) = u @ CHR 0x0A # rest"
      using False assms(5) by (simp add: l u_def drop_Cons')
    moreover have "CHR '':'' \<notin> set u" using nt by (auto simp: u_def dest: in_set_dropD)
    ultimately have "CHR 0x0A \<in> set (takeWhile (\<lambda>c. c \<noteq> CHR '':'') (drop i (meminfo_line e @ rest)))"
      by (simp add: takeWhile_append)
    with t assms(4) show False by simp
  qed
qed

lemma meminfo_line_found:
  assumes "meminfo_ok e" and "is_suffix attr (fst e)" and "CHR '':'' \<notin> set attr"
  shows "strstr (meminfo_line e @ rest) (attr @ '':'') =
    Some (attr @ CHR '':'' # replicate (fst (snd e)) (CHR '' '') @ dec_digits (snd (snd e)) @ '' kB'' @ [CHR 0x0A] @ rest)"
proof -
  obtain name pad kb where e: "e = (name, pad, kb)" by (cases e)
  define pre where "pre = take (length name - length attr) name"
  define tail where "tail = CHR '':'' # replicate pad (CHR '' '') @ dec_digits kb @ '' kB'' @ [CHR 0x0A] @ rest"
  have n: "name = pre @ attr"
    using assms(2) append_take_drop_id [of "length name - length attr" name] by (simp add: e is_suffix_def pre_def)
  have c: "CHR '':'' \<notin> set name" using assms(1) by (simp add: e meminfo_ok_def)
  have l: "meminfo_line e @ rest = pre @ (attr @ tail)" by (simp add: e meminfo_line_def tail_def n)
  have "\<not> is_prefix (attr @ '':'') (drop i (pre @ attr @ tail))" if i: "i < length pre" for i
  proof
    assume "is_prefix (attr @ '':'') (drop i (pre @ attr @ tail))"
    from prefix_upto_colon [OF this assms(3)] have "takeWhile (\<lambda>c. c \<noteq> CHR '':'') (drop i (pre @ attr @ tail)) = attr" .
    moreover have "takeWhile (\<lambda>c. c \<noteq> CHR '':'') ((drop i pre @ attr) @ tail) = (drop i pre @ attr) @ takeWhile (\<lambda>c. c \<noteq> CHR '':'') tail"
      using c n by (intro takeWhile_append2) (auto dest: in_set_dropD)
    ultimately have "drop i pre @ attr = attr" using i by (simp add: tail_def)
    with i show False by simp
  qed
  then have "strstr (pre @ (attr @ tail)) (attr @ '':'') = strstr (attr @ tail) (attr @ '':'')" by (intro strstr_later) simp_all
  moreover have "is_prefix (attr @ '':'') (attr @ tail)" by (simp add: is_prefix_iff tail_def)
  then have "strstr (attr @ tail) (attr @ '':'') = Some (attr @ tail)" by (cases "attr @ tail") (auto simp: tail_def)
  ultimately show ?thesis by (simp add: l) (simp add: tail_def e)
qed

lemma meminfo_reads:
  assumes "list_all meminfo_ok es" and "CHR '':'' \<notin> set attr" and "CHR 0x0A \<notin> set attr"
  shows "sigar_meminfo (concat (map meminfo_line es)) (attr @ '':'') = of_nat (meminfo_value es attr)"
  using assms(1)
proof (induction es)
  case Nil
  then show ?case by (cases attr) (simp_all add: sigar_meminfo_def meminfo_value_def)
next
  case (Cons e es)
  obtain name pad kb where e: "e = (name, pad, kb)" by (cases e)
  have ok: "meminfo_ok e" using Cons.prems by simp
  show ?case
  proof (cases "is_suffix attr name")
    case False
    then have "strstr (meminfo_line e @ concat (map meminfo_line es)) (attr @ '':'') = strstr (concat (map meminfo_line es)) (attr @ '':'')"
      using meminfo_line_skipped [OF ok _ assms(2,3)] by (intro strstr_later) (simp_all add: e)
    then have "sigar_meminfo (concat (map meminfo_line (e # es))) (attr @ '':'') = sigar_meminfo (concat (map meminfo_line es)) (attr @ '':'')"
      by (simp add: sigar_meminfo_def)
    with Cons False show ?thesis by (simp add: e meminfo_value_def)
  next
    case True
    have kb: "kb < 2 ^ 64" using ok by (simp add: e meminfo_ok_def)
    have "strtou 0 (replicate pad (CHR '' '') @ dec_digits kb @ '' kB'' @ [CHR 0x0A] @ concat (map meminfo_line es)) =
        (of_nat kb, '' kB'' @ [CHR 0x0A] @ concat (map meminfo_line es))"
      by (rule strtou_dec [OF kb]) (simp_all add: starts_digit_def isdigit_def)
    then show ?thesis
      using meminfo_line_found [OF ok _ assms(2), of "concat (map meminfo_line es)"] True
      by (simp add: e sigar_meminfo_def meminfo_value_def)
  qed
qed

lemma meminfo_no_NUL: "list_all meminfo_ok es \<Longrightarrow> CHR 0x00 \<notin> set (concat (map meminfo_line es))"
proof (induction es)
  case (Cons e es)
  have "CHR 0x00 \<notin> set (dec_digits n)" for n using dec_digits_isdigit [of "CHR 0x00" n] by (auto simp: isdigit_def)
  then have "CHR 0x00 \<notin> set (meminfo_line e)" using Cons.prems by (cases e) (auto simp: meminfo_line_def meminfo_ok_def)
  with Cons show ?case by simp
qed simp

lemma cstring_whole: "CHR 0x00 \<notin> set t \<Longrightarrow> length t \<le> n \<Longrightarrow> cstring (take n t) = t"
  by (simp add: cstring_def takeWhile_eq_all_conv) blast

section \<open>Properties\<close>

text \<open>memory. From a \<open>/proc/meminfo\<close> that fits the buffer, whatever entries it has and in whatever order,
  \<open>sigar_mem_get\<close> takes the total and the free memory in bytes and derives the used and the actually
  used and free memory, with buffers and page cache counted as free. (An attribute is taken from
  the first entry whose name ends in it.)\<close>

theorem mem_get_reads_meminfo:
  assumes "fs (proc_file host ''meminfo'') = Contents (concat (map meminfo_line es))"
    and "length (concat (map meminfo_line es)) \<le> 8191" and "list_all meminfo_ok es"
    and "ls_ram sigar \<noteq> 0" and "fopen (proc_file host ''mtrr'') = Inl errno"
  defines "value \<equiv> \<lambda>attr. of_nat (meminfo_value es attr) :: uint64"
  shows "\<exists>sigar' m. sigar_mem_get rnd host fs fopen sigar mem = Some (SIGAR_OK, sigar', m)
    \<and> mem_total m = value ''MemTotal'' \<and> mem_free m = value ''MemFree''
    \<and> mem_used m = value ''MemTotal'' - value ''MemFree''
    \<and> mem_actual_free m = value ''MemFree'' + value ''Buffers'' + value ''Cached''
    \<and> mem_actual_used m = value ''MemTotal'' - (value ''MemFree'' + value ''Buffers'' + value ''Cached'')"
proof -
  let ?t = "concat (map meminfo_line es)"
  have f: "sigar_file2str fs (proc_file host ''meminfo'') 8192 = (SIGAR_OK, ?t)"
    using cstring_whole [OF meminfo_no_NUL [OF assms(3)] assms(2)] by (simp add: sigar_file2str_def assms(1))
  have r: "sigar_meminfo ?t ''MemTotal:'' = value ''MemTotal''" "sigar_meminfo ?t ''MemFree:'' = value ''MemFree''"
      "sigar_meminfo ?t ''Buffers:'' = value ''Buffers''" "sigar_meminfo ?t ''Cached:'' = value ''Cached''"
    using meminfo_reads [OF assms(3), of "''MemTotal''"] meminfo_reads [OF assms(3), of "''MemFree''"]
      meminfo_reads [OF assms(3), of "''Buffers''"] meminfo_reads [OF assms(3), of "''Cached''"]
    by (simp_all add: value_def)
  define m2 where "m2 m = (if 0 < ls_ram sigar then m\<lparr>mem_ram := of_int (ls_ram sigar)\<rparr> else m)" for m :: sigar_mem
  have g: "get_ram host fopen sigar m = Some (if 0 < ls_ram sigar then 0 else errno, sigar, m2 m)" for m
    using assms(4,5) by (simp add: get_ram_def m2_def)
  have "mem_total (m2 m) = mem_total m" "mem_free (m2 m) = mem_free m" "mem_used (m2 m) = mem_used m"
      "mem_actual_free (m2 m) = mem_actual_free m" "mem_actual_used (m2 m) = mem_actual_used m" for m
    by (simp_all add: m2_def)
  then show ?thesis
    by (simp add: sigar_mem_get_def f r g sigar_mem_calc_ram_def Let_def algebra_simps)
qed

definition example_sigar :: linux_sigar where
  "example_sigar = \<lparr>ls_core = \<lparr>s_lcpu = - 1, s_cpu_list_cores = True, s_log_level = - 1, s_log_impl = False\<rparr>, ls_pid = 0, ls_ncpu = 1,
     ls_ticks = 100, ls_boot_time = 1000, ls_pagesize = 12, ls_ram = - 1, ls_proc_signal_offset = - 1,
     ls_last_proc_stat = \<lparr>lp_pid = - 1, lp_mtime = 0, lp_vsize = 0, lp_rss = 0, lp_minor_faults = 0, lp_major_faults = 0, lp_ppid = 0,
       lp_tty = 0, lp_priority = 0, lp_nice = 0, lp_start_time = 0, lp_utime = 0, lp_stime = 0, lp_name = [], lp_state = CHR ''S'',
       lp_processor = 0\<rparr>,
     ls_iostat = IOSTAT_DISKSTATS, ls_proc_net = None, ls_has_nptl = True\<rparr>"

definition example_meminfo :: "(string \<times> nat \<times> nat) list" where
  "example_meminfo = [(''MemTotal'', 7, 1000), (''MemFree'', 8, 300), (''Buffers'', 8, 20), (''Cached'', 9, 80), (''SwapCached'', 5, 7)]"

definition zero_mem :: sigar_mem where
  "zero_mem = \<lparr>mem_ram = 0, mem_total = 0, mem_used = 0, mem_free = 0, mem_actual_used = 0, mem_actual_free = 0,
     mem_used_percent = Fin 0, mem_free_percent = Fin 0\<rparr>"

theorem mem_get_reads_meminfo_witness:
  "\<exists>s m. sigar_mem_get (\<lambda>x. x) None (\<lambda>p. Contents (concat (map meminfo_line example_meminfo))) (\<lambda>p. Inl 2) example_sigar zero_mem =
     Some (0, s, m) \<and> mem_total m = 1024000 \<and> mem_actual_used m = 614400"
proof -
  let ?fs = "\<lambda>p :: string. Contents (concat (map meminfo_line example_meminfo))"
  have "length (concat (map meminfo_line example_meminfo)) \<le> 8191" by code_simp
  moreover have "list_all meminfo_ok example_meminfo" by code_simp
  moreover have v: "meminfo_value example_meminfo ''MemTotal'' = 1024000" "meminfo_value example_meminfo ''MemFree'' = 307200"
    "meminfo_value example_meminfo ''Buffers'' = 20480" "meminfo_value example_meminfo ''Cached'' = 81920"
    by code_simp+
  ultimately show ?thesis
    using mem_get_reads_meminfo [of ?fs None example_meminfo example_sigar "\<lambda>p. Inl 2" 2 "\<lambda>x. x" zero_mem]
    by (auto simp: example_sigar_def)
qed

text \<open>CPU times. With the clock rate a divisor of 1000 and counters whose milliseconds a double holds
  exactly, \<open>sigar_cpu_list_get\<close> reports exactly one entry for each processor line of \<open>/proc/stat\<close>, in
  order and whatever their number, with every counter converted to milliseconds and their sum as
  the total.\<close>

theorem cpu_list_one_per_line:
  assumes "exact_ints rnd" and "0 < ls_ticks sigar" and "1000 mod ls_ticks sigar = 0"
    and "\<not> fst (sigar_cpu_core_rollup cpuid (ls_core sigar))"
    and "fopen (proc_file host ''stat'') = Inr (first # map cpu_line cpus @ rest)" and "cpus \<noteq> []"
    and "rest = [] \<or> \<not> strnEQ (hd rest) ''cpu'' 3"
    and "list_all (\<lambda>c. cpu_cols_ok (ls_ticks sigar) (snd c)) cpus"
  shows "\<exists>l sigar'. sigar_cpu_list_get rnd host fopen cpuid sigar = Some (SIGAR_OK, Some l, sigar') \<and> clist_wf l
    \<and> clist_elems l = map (\<lambda>c. cpu_of (ls_ticks sigar) (snd c)) cpus"
proof -
  obtain core where c: "sigar_cpu_core_rollup cpuid (ls_core sigar) = (False, core)"
    using assms(4) by (cases "sigar_cpu_core_rollup cpuid (ls_core sigar)") auto
  have "\<exists>l. cpu_list_loop rnd (ls_ticks sigar) False (s_lcpu core) 0 (map cpu_line cpus @ rest) sigar_cpu_list_create = Some l
      \<and> clist_wf l \<and> clist_elems l = map (\<lambda>c. cpu_of (ls_ticks sigar) (snd c)) cpus"
    unfolding cpu_list_loop_fills [OF assms(1-3,8,7)] using cpu_list.fill_create by blast
  then obtain l where l: "cpu_list_loop rnd (ls_ticks sigar) False (s_lcpu core) 0 (map cpu_line cpus @ rest) sigar_cpu_list_create = Some l"
      "clist_wf l" "clist_elems l = map (\<lambda>c. cpu_of (ls_ticks sigar) (snd c)) cpus" by blast
  moreover have "l_number l \<noteq> 0" using l(3) assms(6) by (cases "l_number l") (auto simp: clist_elems_def)
  ultimately show ?thesis using assms(5) by (simp add: sigar_cpu_list_get_def c numeral_eq_Suc)
qed

theorem cpu_list_one_per_line_witness:
  "\<exists>l s. sigar_cpu_list_get (\<lambda>x. x) None (\<lambda>p. Inr [''cpu  7'', cpu_line (0, [3, 0, 2, 90, 1, 0, 0, 4]), cpu_line (1, [1, 1, 1, 1, 1, 1, 1, 1, 0])])
     (\<lambda>r. \<lparr>eax = 0, ebx = 0, ecx = 0, edx = 0\<rparr>) example_sigar = Some (0, Some l, s) \<and> map cpu_total (clist_elems l) = [1000, 80]"
proof -
  let ?cpus = "[(0, [3, 0, 2, 90, 1, 0, 0, 4]), (1, [1, 1, 1, 1, 1, 1, 1, 1, 0])] :: (nat \<times> nat list) list"
  let ?cpuid = "\<lambda>r :: uint32. \<lparr>eax = 0, ebx = 0, ecx = 0, edx = 0\<rparr>"
  have "\<not> fst (sigar_cpu_core_rollup ?cpuid (ls_core example_sigar))" by code_simp
  moreover have "list_all (\<lambda>c. cpu_cols_ok (ls_ticks example_sigar) (snd c)) ?cpus" by code_simp
  moreover have "map (\<lambda>c. cpu_total (cpu_of (ls_ticks example_sigar) (snd c))) ?cpus = [1000, 80]" by code_simp
  ultimately show ?thesis
    using cpu_list_one_per_line [OF id_exact, of example_sigar ?cpuid "\<lambda>p. Inr (''cpu  7'' # map cpu_line ?cpus @ [])" None "''cpu  7''" ?cpus "[]"]
    by (auto simp: example_sigar_def o_def)
qed

end
