(* ===== verification/Linux_Proc.thy ===== *)
theory Linux_Proc
  imports Linux_System Sigar_Types Sigar_Proc Sigar_Elf
begin

text \<open>
  Processes on Linux (\<open>os/linux/linux_sigar.c\<close>): the parsed \<open>/proc/<pid>/stat\<close> with its two-second
  memory of the last process, and the readings built on it; credentials, disk counters,
  environment, executable and loaded modules of a process, and the list of processes with the
  recognition of threads on old kernels.
\<close>

section \<open>The stat file of a process\<close>

text \<open>\<open>strrchr\<close>: what precedes and what follows the last occurrence.\<close>

definition split_last :: "char \<Rightarrow> string \<Rightarrow> (string \<times> string) option" where
  "split_last x s =
     (if x \<in> set s
      then let after = rev (takeWhile (\<lambda>c. c \<noteq> x) (rev s)) in Some (take (length s - Suc (length after)) s, after)
      else None)"

text \<open>The fields from the parent's pid on: parent, terminal, minor and major faults, user and system
  ticks, priority, nice, start, virtual size, resident pages, processor.\<close>

record raw_stat =
  raw_ppid :: uint64
  raw_tty :: uint64
  raw_minflt :: uint64
  raw_majflt :: uint64
  raw_utime :: uint64
  raw_stime :: uint64
  raw_priority :: uint64
  raw_nice :: uint64
  raw_start :: uint64
  raw_vsize :: uint64
  raw_rss :: uint64
  raw_processor :: uint64

definition scan_stat :: "raw_stat scan" where
  "scan_stat = do {
     ppid \<leftarrow> sigar_strtoul;
     scan_token; scan_token;
     tty \<leftarrow> sigar_strtoul;
     scan_token; scan_token;
     minflt \<leftarrow> sigar_strtoull;
     scan_token;
     majflt \<leftarrow> sigar_strtoull;
     scan_token;
     utime \<leftarrow> sigar_strtoull; stime \<leftarrow> sigar_strtoull;
     scan_token; scan_token;
     priority \<leftarrow> sigar_strtoul; nice \<leftarrow> sigar_strtoul;
     scan_token; scan_token;
     start \<leftarrow> sigar_strtoul;
     vsize \<leftarrow> sigar_strtoull; rss \<leftarrow> sigar_strtoull;
     scan_token; scan_token; scan_token; scan_token; scan_token; scan_token; scan_token;
     scan_token; scan_token; scan_token; scan_token; scan_token; scan_token; scan_token;
     processor \<leftarrow> sigar_strtoul;
     State_Monad.return \<lparr>raw_ppid = ppid, raw_tty = tty, raw_minflt = minflt, raw_majflt = majflt, raw_utime = utime, raw_stime = stime,
       raw_priority = priority, raw_nice = nice, raw_start = start, raw_vsize = vsize, raw_rss = rss, raw_processor = processor\<rparr> }"

text \<open>The state is the character after the name; behind an empty rest the buffer holds NULs. A clock
  rate of 0 divides by zero.\<close>

definition proc_stat_parse :: "rounding \<Rightarrow> linux_sigar \<Rightarrow> string \<Rightarrow> linux_proc_stat \<Rightarrow> (status \<times> linux_proc_stat) ub" where
  "proc_stat_parse rnd sigar buffer pstat =
     (case strchr buffer (CHR ''('') of
        None \<Rightarrow> Some (EINVAL, pstat)
      | Some ptr \<Rightarrow>
          (case split_last (CHR '')'') (drop 1 ptr) of
             None \<Rightarrow> Some (EINVAL, pstat)
           | Some (name, after) \<Rightarrow>
               if skip_space after = [] \<and> 8191 \<le> length buffer then None
               else
                 (let state = (case skip_space after of [] \<Rightarrow> CHR 0x00 | c # _ \<Rightarrow> c);
                      r = fst (run_state scan_stat (skip_space (drop 1 (skip_space after))))
                  in if ls_ticks sigar = 0 then None
                     else do {
                       utime \<leftarrow> u64_of_rat (SIGAR_TICK2MSEC rnd (ls_ticks sigar) (raw_utime r));
                       stime \<leftarrow> u64_of_rat (SIGAR_TICK2MSEC rnd (ls_ticks sigar) (raw_stime r));
                       Some (SIGAR_OK, pstat\<lparr>lp_name := take 127 name, lp_state := state,
                         lp_ppid := raw_ppid r, lp_tty := ucast (raw_tty r),
                         lp_minor_faults := raw_minflt r, lp_major_faults := raw_majflt r,
                         lp_utime := utime, lp_stime := stime,
                         lp_priority := ucast (raw_priority r), lp_nice := ucast (raw_nice r),
                         lp_start_time := (raw_start r div of_nat (ls_ticks sigar) + ls_boot_time sigar) * 1000,
                         lp_vsize := raw_vsize r, lp_rss := push_bit (ls_pagesize sigar) (raw_rss r),
                         lp_processor := ucast (raw_processor r)\<rparr>) })))"

text \<open>The last process is remembered before its file is read.\<close>

definition proc_stat_read ::
  "rounding \<Rightarrow> string option \<Rightarrow> (string \<Rightarrow> file_read) \<Rightarrow> uint64 \<Rightarrow> pid \<Rightarrow> linux_sigar \<Rightarrow> (status \<times> linux_sigar) ub" where
  "proc_stat_read rnd host fs now pid sigar =
     (let pstat = ls_last_proc_stat sigar in
      if lp_pid pstat = pid \<and> sint (now - lp_mtime pstat) < 2 then Some (SIGAR_OK, sigar)
      else
        (let pstat1 = pstat\<lparr>lp_pid := pid, lp_mtime := now\<rparr>;
             sigar1 = sigar\<lparr>ls_last_proc_stat := pstat1\<rparr>
         in case sigar_proc_file2str fs host 8192 pid ''/stat'' of
              None \<Rightarrow> None
            | Some (status, buffer) \<Rightarrow>
                if status \<noteq> SIGAR_OK then Some (status, sigar1)
                else map_option (\<lambda>(st, p). (st, sigar1\<lparr>ls_last_proc_stat := p\<rparr>)) (proc_stat_parse rnd sigar1 buffer pstat1)))"

section \<open>Memory, time, state\<close>

text \<open>The status of \<open>proc_stat_read\<close> is not looked at.\<close>

definition linux_proc_mem_get ::
  "rounding \<Rightarrow> string option \<Rightarrow> (string \<Rightarrow> file_read) \<Rightarrow> uint64 \<Rightarrow> pid \<Rightarrow> linux_sigar \<Rightarrow> sigar_proc_mem \<Rightarrow>
   (status \<times> sigar_proc_mem \<times> linux_sigar) ub" where
  "linux_proc_mem_get rnd host fs now pid sigar procmem =
     (case proc_stat_read rnd host fs now pid sigar of
        None \<Rightarrow> None
      | Some (st0, sigar1) \<Rightarrow>
          (let pstat = ls_last_proc_stat sigar1;
               mem1 = procmem\<lparr>pm_minor_faults := lp_minor_faults pstat, pm_major_faults := lp_major_faults pstat,
                 pm_page_faults := lp_minor_faults pstat + lp_major_faults pstat\<rparr>
           in case sigar_proc_file2str fs host 8192 pid ''/statm'' of
                None \<Rightarrow> None
              | Some (status, buffer) \<Rightarrow>
                  if status \<noteq> SIGAR_OK then Some (status, mem1, sigar1)
                  else
                    (case fst (run_state (do { a \<leftarrow> sigar_strtoull; b \<leftarrow> sigar_strtoull; c \<leftarrow> sigar_strtoull;
                                               State_Monad.return (a, b, c) }) buffer) of
                       (sz, resident, share) \<Rightarrow>
                         (let shift = push_bit (ls_pagesize sigar1) in
                          Some (SIGAR_OK, mem1\<lparr>pm_size := shift sz, pm_resident := shift resident, pm_share := shift share\<rparr>, sigar1)))))"

definition get_named_proc_token :: "string \<Rightarrow> string \<Rightarrow> uint64" where
  "get_named_proc_token buffer token =
     (case strstr buffer token of
        None \<Rightarrow> SIGAR_FIELD_NOTIMPL
      | Some ptr \<Rightarrow> fst (run_state (do { scan_token; sigar_strtoul }) ptr))"

definition sigar_proc_cumulative_disk_io_get ::
  "string option \<Rightarrow> (string \<Rightarrow> file_read) \<Rightarrow> pid \<Rightarrow> sigar_proc_cumulative_disk_io \<Rightarrow> (status \<times> sigar_proc_cumulative_disk_io) ub" where
  "sigar_proc_cumulative_disk_io_get host fs pid io =
     (case sigar_proc_file2str fs host 8192 pid ''/io'' of
        None \<Rightarrow> None
      | Some (status, buffer) \<Rightarrow>
          if status \<noteq> SIGAR_OK then Some (status, io)
          else (let r = get_named_proc_token buffer (CHR 0x0A # ''read_bytes'');
                    w = get_named_proc_token buffer (CHR 0x0A # ''write_bytes'')
                in Some (SIGAR_OK, \<lparr>cd_bytes_read = r, cd_bytes_written = w, cd_bytes_total = r + w\<rparr>)))"

definition two_ids :: "(uint32 \<times> uint32) scan" where
  "two_ids = do { scan_token; a \<leftarrow> sigar_strtoul; b \<leftarrow> sigar_strtoul; State_Monad.return (ucast a, ucast b) }"

text \<open>The group line is searched from where the user line has been read.\<close>

definition sigar_proc_cred_get ::
  "string option \<Rightarrow> (string \<Rightarrow> file_read) \<Rightarrow> pid \<Rightarrow> sigar_proc_cred \<Rightarrow> (status \<times> sigar_proc_cred) ub" where
  "sigar_proc_cred_get host fs pid proccred =
     (case sigar_proc_file2str fs host 8192 pid ''/status'' of
        None \<Rightarrow> None
      | Some (status, buffer) \<Rightarrow>
          if status \<noteq> SIGAR_OK then Some (status, proccred)
          else (case strstr buffer (CHR 0x0A # ''Uid:'') of
                  None \<Rightarrow> Some (ENOENT, proccred)
                | Some ptr \<Rightarrow>
                    (case run_state two_ids ptr of
                       ((uid, euid), ptr1) \<Rightarrow>
                         (let cred1 = proccred\<lparr>cr_uid := uid, cr_euid := euid\<rparr> in
                          case strstr ptr1 (CHR 0x0A # ''Gid:'') of
                            None \<Rightarrow> Some (ENOENT, cred1)
                          | Some ptr2 \<Rightarrow>
                              (case run_state two_ids ptr2 of
                                 ((gid, egid), _) \<Rightarrow> Some (SIGAR_OK, cred1\<lparr>cr_gid := gid, cr_egid := egid\<rparr>))))))"

definition linux_proc_time_get ::
  "rounding \<Rightarrow> string option \<Rightarrow> (string \<Rightarrow> file_read) \<Rightarrow> uint64 \<Rightarrow> pid \<Rightarrow> linux_sigar \<Rightarrow> sigar_proc_time \<Rightarrow>
   (status \<times> sigar_proc_time \<times> linux_sigar) ub" where
  "linux_proc_time_get rnd host fs now pid sigar proctime =
     (case proc_stat_read rnd host fs now pid sigar of
        None \<Rightarrow> None
      | Some (status, sigar1) \<Rightarrow>
          if status \<noteq> SIGAR_OK then Some (status, proctime, sigar1)
          else (let p = ls_last_proc_stat sigar1
                in Some (SIGAR_OK, \<lparr>pt_start_time = lp_start_time p, pt_user = lp_utime p, pt_sys = lp_stime p,
                           pt_total = lp_utime p + lp_stime p\<rparr>, sigar1)))"

definition proc_status_get ::
  "string option \<Rightarrow> (string \<Rightarrow> file_read) \<Rightarrow> pid \<Rightarrow> sigar_proc_state \<Rightarrow> (status \<times> sigar_proc_state) ub" where
  "proc_status_get host fs pid procstate =
     (case sigar_proc_file2str fs host 8192 pid ''/status'' of
        None \<Rightarrow> None
      | Some (status, buffer) \<Rightarrow>
          if status \<noteq> SIGAR_OK then Some (status, procstate)
          else Some (SIGAR_OK, procstate\<lparr>ps_threads := get_named_proc_token buffer (CHR 0x0A # ''Threads:'')\<rparr>))"

definition sigar_proc_fd_get :: "directory \<Rightarrow> string option \<Rightarrow> pid \<Rightarrow> (status \<times> uint64) ub" where
  "sigar_proc_fd_get opendir host pid = sigar_proc_fd_count opendir host pid"

text \<open>A name of 15 characters is taken as cut off and replaced by the first argument.\<close>

definition proc_full_name :: "(string \<Rightarrow> status + string) \<Rightarrow> string option \<Rightarrow> pid \<Rightarrow> string \<Rightarrow> string ub" where
  "proc_full_name cmdline host pid name =
     (if length name = 15 then
        (case sigar_procfs_args_get cmdline host pid \<lparr>l_number = 0, l_size = 0, l_data = []\<rparr> of
           None \<Rightarrow> None
         | Some (status, procargs) \<Rightarrow>
             if status = SIGAR_OK \<and> 1 \<le> l_number procargs then
               (case l_data procargs of Some a # _ \<Rightarrow> Some a | _ \<Rightarrow> None)
             else Some name)
      else Some name)"

definition linux_proc_state_get ::
  "rounding \<Rightarrow> string option \<Rightarrow> (string \<Rightarrow> file_read) \<Rightarrow> (string \<Rightarrow> status + string) \<Rightarrow> directory \<Rightarrow> (uint32 \<Rightarrow> cpuid_regs) \<Rightarrow>
   uint64 \<Rightarrow> pid \<Rightarrow> linux_sigar \<Rightarrow> sigar_proc_state \<Rightarrow> (status \<times> sigar_proc_state \<times> linux_sigar) ub" where
  "linux_proc_state_get rnd host fs cmdline opendir cpuid now pid sigar procstate =
     (case proc_stat_read rnd host fs now pid sigar of
        None \<Rightarrow> None
      | Some (status, sigar1) \<Rightarrow>
          if status \<noteq> SIGAR_OK then Some (status, procstate, sigar1)
          else do {
            let p = ls_last_proc_stat sigar1;
            name \<leftarrow> proc_full_name cmdline host pid (lp_name p);
            let (rollup, core) = sigar_cpu_core_rollup cpuid (ls_core sigar1);
            processor \<leftarrow> (if rollup then
                 (if s_lcpu core = 0 then None else Some (of_int (c_div (sint (lp_processor p)) (s_lcpu core))))
               else Some (lp_processor p));
            (st, state1) \<leftarrow> proc_status_get host fs pid
               (procstate\<lparr>ps_name := take 127 name, ps_state := lp_state p, ps_ppid := ucast (lp_ppid p), ps_tty := lp_tty p,
                  ps_priority := lp_priority p, ps_nice := lp_nice p, ps_processor := processor\<rparr>);
            (st_fd, fds) \<leftarrow> sigar_proc_fd_get opendir host pid;
            Some (SIGAR_OK, if st_fd = SIGAR_OK then state1\<lparr>ps_open_files := fds\<rparr> else state1, sigar1\<lparr>ls_core := core\<rparr>) })"

section \<open>Environment, executable, modules\<close>

datatype env_type = SIGAR_PROC_ENV_ALL | SIGAR_PROC_ENV_KEY string

type_synonym 'd env_getter = "'d \<Rightarrow> string \<Rightarrow> nat \<Rightarrow> string \<Rightarrow> nat \<Rightarrow> status \<times> 'd"

text \<open>The entries \<open>key=value\<close>, each followed by a NUL; a key of 128 or more characters is written
  outside its array.\<close>

function env_loop :: "'d env_getter \<Rightarrow> string \<Rightarrow> 'd \<Rightarrow> 'd ub" where
  "env_loop env_getter ptr d =
     (if ptr = [] then Some d
      else (case split_at (CHR ''='') (cstring ptr) of
              (_, None) \<Rightarrow> Some d
            | (key, Some val) \<Rightarrow>
                if 128 \<le> length key then None
                else (case env_getter d key (length key) val (length val) of
                        (status, d1) \<Rightarrow>
                          if status \<noteq> SIGAR_OK then Some d1
                          else env_loop env_getter (drop (length key + 1 + length val + 1) ptr) d1)))"
  by pat_completeness auto
termination
  by (relation "measure (\<lambda>(g, ptr, d). length ptr)") auto

declare env_loop.simps [simp del]

text \<open>\<open>environ\<close>: the open fails, or the read fails (\<open>None\<close>) or delivers bytes. A failing read and one that
  fills the buffer both put the terminating NUL outside of it.\<close>

definition sigar_proc_env_get ::
  "string option \<Rightarrow> (string \<Rightarrow> status + string option) \<Rightarrow> (string \<Rightarrow> string option) \<Rightarrow> linux_sigar \<Rightarrow> pid \<Rightarrow> env_type \<Rightarrow> 'd env_getter \<Rightarrow> 'd \<Rightarrow>
   (status \<times> 'd) ub" where
  "sigar_proc_env_get host environ getenv sigar pid type env_getter d =
     (case (type, pid = ls_pid sigar) of
        (SIGAR_PROC_ENV_KEY key, True) \<Rightarrow>
          Some (SIGAR_OK, case getenv key of Some value \<Rightarrow> snd (env_getter d key (length key) value (length value)) | None \<Rightarrow> d)
      | _ \<Rightarrow>
          (case sigar_proc_filename host 8192 pid ''/environ'' of
             None \<Rightarrow> None
           | Some name \<Rightarrow>
               (case environ name of
                  Inl errno \<Rightarrow> Some (if errno = ENOENT then ESRCH else errno, d)
                | Inr None \<Rightarrow> None
                | Inr (Some bytes) \<Rightarrow>
                    if 131072 \<le> length bytes then None
                    else map_option (\<lambda>d1. (SIGAR_OK, d1)) (env_loop env_getter bytes d))))"

definition proc_link :: "string option \<Rightarrow> (string \<Rightarrow> string option) \<Rightarrow> pid \<Rightarrow> string \<Rightarrow> string ub" where
  "proc_link host readlink pid file =
     (case sigar_proc_filename host 8192 pid file of
        None \<Rightarrow> None
      | Some name \<Rightarrow> Some (case readlink name of Some target \<Rightarrow> take 4096 target | None \<Rightarrow> []))"

definition sigar_proc_exe_get ::
  "string option \<Rightarrow> (string \<Rightarrow> string option) \<Rightarrow> (string \<Rightarrow> nat list option) \<Rightarrow> string \<Rightarrow> pid \<Rightarrow> (status \<times> sigar_proc_exe) ub" where
  "sigar_proc_exe_get host readlink files arch pid =
     do { cwd \<leftarrow> proc_link host readlink pid ''/cwd'';
          name \<leftarrow> proc_link host readlink pid ''/exe'';
          dir \<leftarrow> proc_link host readlink pid ''/root'';
          Some (SIGAR_OK, \<lparr>px_name = name, px_cwd = cwd, px_root = dir,
                  px_arch = sigar_elf_file_guess_arch files arch (Some name)\<rparr>) }"

type_synonym 'd module_getter = "'d \<Rightarrow> string \<Rightarrow> int \<Rightarrow> status \<times> 'd"

text \<open>A mapping of the same inode as the one before is skipped, and forgets that inode. The last
  character, the newline, is cut off.\<close>

fun modules_loop :: "'d module_getter \<Rightarrow> string list \<Rightarrow> uint64 \<Rightarrow> 'd \<Rightarrow> 'd" where
  "modules_loop module_getter [] last_inode d = d"
| "modules_loop module_getter (ptr # rest) last_inode d =
     (case run_state (do { scan_tokens 4; i \<leftarrow> sigar_strtoul; scan_space; State_Monad.return i }) ptr of
        (inode, name) \<Rightarrow>
          if inode = 0 \<or> inode = last_inode then modules_loop module_getter rest 0 d
          else (case module_getter d (take (length name - 1) name) (int (length name) - 1) of
                  (status, d1) \<Rightarrow> if status \<noteq> SIGAR_OK then d1 else modules_loop module_getter rest inode d1))"

definition sigar_proc_modules_get ::
  "string option \<Rightarrow> lines_of \<Rightarrow> pid \<Rightarrow> 'd module_getter \<Rightarrow> 'd \<Rightarrow> (status \<times> 'd) ub" where
  "sigar_proc_modules_get host fopen pid module_getter d =
     (case sigar_proc_filename host 8192 pid ''/maps'' of
        None \<Rightarrow> None
      | Some name \<Rightarrow>
          Some (case fopen name of Inl errno \<Rightarrow> (errno, d) | Inr ls \<Rightarrow> (SIGAR_OK, modules_loop module_getter ls 0 d)))"

section \<open>The list of processes\<close>

text \<open>The loop \<open>while ((n > 0) && P(buffer[n--]))\<close>.\<close>

function back_while :: "(char \<Rightarrow> bool) \<Rightarrow> string \<Rightarrow> int \<Rightarrow> int" where
  "back_while P buffer n = (if n \<le> 0 then n else if P (buffer ! nat n) then back_while P buffer (n - 1) else n - 1)"
  by pat_completeness auto
termination
  by (relation "measure (\<lambda>(P, buffer, n). nat n)") auto

declare back_while.simps [simp del]

fun back_fields :: "nat \<Rightarrow> string \<Rightarrow> int \<Rightarrow> int" where
  "back_fields 0 buffer n = n"
| "back_fields (Suc offset) buffer n =
     back_fields offset buffer (back_while (\<lambda>c. \<not> isdigit c) buffer (back_while isdigit buffer n))"

text \<open>A read of the whole buffer leaves no room for the terminating NUL.\<close>

definition proc_isthread :: "string option \<Rightarrow> (string \<Rightarrow> file_read) \<Rightarrow> int \<Rightarrow> string \<Rightarrow> bool ub" where
  "proc_isthread host fs offset pidstr =
     (case fs (opt_string host @ ''/proc/'' @ pidstr @ ''/stat'') of
        OpenFails \<Rightarrow> Some False
      | ReadFails _ \<Rightarrow> Some False
      | Contents bytes \<Rightarrow>
          if 8192 \<le> length bytes then None
          else
            (let buffer = bytes @ [CHR 0x00];
                 n = back_fields (nat offset) buffer (back_while (\<lambda>c. \<not> isdigit c) buffer (int (length bytes) - 1))
             in if n < 3 then Some False
                else Some (\<not> (buffer ! nat n = CHR ''1'' \<and> buffer ! (nat n + 1) = CHR ''7'' \<and> buffer ! (nat n + 2) = CHR '' ''))))"

fun linux_proc_list_loop ::
  "(string \<Rightarrow> bool ub) \<Rightarrow> bool \<Rightarrow> string list \<Rightarrow> pid clist \<Rightarrow> pid clist ub" where
  "linux_proc_list_loop isthread threadbadhack [] proclist = Some proclist"
| "linux_proc_list_loop isthread threadbadhack (d_name # ents) proclist =
     (if \<not> starts_digit d_name then linux_proc_list_loop isthread threadbadhack ents proclist
      else (case (if threadbadhack then isthread d_name else Some False) of
              None \<Rightarrow> None
            | Some True \<Rightarrow> linux_proc_list_loop isthread threadbadhack ents proclist
            | Some False \<Rightarrow>
                (case clist_put sigar_proc_list_grow proclist (ucast (fst (strtoull d_name))) of
                   None \<Rightarrow> None
                 | Some proclist1 \<Rightarrow> linux_proc_list_loop isthread threadbadhack ents proclist1)))"

definition sigar_os_proc_list_get ::
  "string option \<Rightarrow> (string \<Rightarrow> file_read) \<Rightarrow> directory \<Rightarrow> linux_sigar \<Rightarrow> pid clist \<Rightarrow> (status \<times> pid clist \<times> linux_sigar) ub" where
  "sigar_os_proc_list_get host fs opendir sigar proclist =
     (case opendir (opt_string host @ ''/proc/'') of
        Inl errno \<Rightarrow> Some (errno, proclist, sigar)
      | Inr ents \<Rightarrow>
          (let threadbadhack = (\<not> ls_has_nptl sigar);
               sigar1 = (if threadbadhack \<and> ls_proc_signal_offset sigar = - 1
                         then sigar\<lparr>ls_proc_signal_offset := get_proc_signal_offset fs\<rparr> else sigar)
           in map_option (\<lambda>l. (SIGAR_OK, l, sigar1))
                (linux_proc_list_loop (proc_isthread host fs (ls_proc_signal_offset sigar1)) threadbadhack ents proclist)))"

section \<open>Reading what the kernel writes\<close>

text \<open>The line of \<open>/proc/<pid>/stat\<close>: the pid, the name in parentheses, the state letter and the
  integers from the parent's pid on.\<close>

definition pid_stat_line :: "nat \<Rightarrow> string \<Rightarrow> char \<Rightarrow> int list \<Rightarrow> string" where
  "pid_stat_line pid comm state is = dec_digits pid @ '' ('' @ comm @ '') '' @ [state] @ fields_text (map dec_int is) @ [CHR 0x0A]"

definition comm_ok :: "string \<Rightarrow> char \<Rightarrow> bool" where
  "comm_ok comm state \<longleftrightarrow> CHR 0x00 \<notin> set comm \<and> \<not> isspace state \<and> state \<noteq> CHR '')'' \<and> state \<noteq> CHR 0x00"

lemma scan_stat_ints:
  assumes "ints_ok is" and "36 \<le> length is"
  shows "fst (run_state scan_stat (dec_int (is ! 0) @ ints_from is [CHR 0x0A] 1)) =
    \<lparr>raw_ppid = of_int (is ! 0), raw_tty = of_int (is ! 3), raw_minflt = of_int (is ! 6), raw_majflt = of_int (is ! 8),
     raw_utime = of_int (is ! 10), raw_stime = of_int (is ! 11), raw_priority = of_int (is ! 14), raw_nice = of_int (is ! 15),
     raw_start = of_int (is ! 18), raw_vsize = of_int (is ! 19), raw_rss = of_int (is ! 20), raw_processor = of_int (is ! 35)\<rparr>"
proof -
  have e: "ends_field (ints_from is [CHR 0x0A] 1)" by (simp add: ints_from_def)
  have "0 < length is" using assms(2) by linarith
  then have b: "\<bar>is ! 0\<bar> < 2 ^ 64" using assms(1) by (simp add: ints_ok_def list_all_length)
  note step = ints_from_step [OF assms(1) ends_fields(2)]
  show ?thesis
    using assms(2) by (simp add: scan_stat_def run_strtoull_int [OF b e] step del: One_nat_def)
qed

lemma dec_int_chars: "c \<in> set (dec_int i) \<Longrightarrow> isdigit c \<or> c = CHR ''-''"
  by (auto simp: dec_int_def dest: dec_digits_isdigit split: if_splits)

lemma int_fields_chars: "c \<in> set (fields_text (map dec_int is)) \<Longrightarrow> isdigit c \<or> c = CHR ''-'' \<or> c = CHR '' ''"
  by (induction "is") (auto dest: dec_int_chars)

lemma split_last_append: "x \<notin> set b \<Longrightarrow> split_last x (a @ x # b) = Some (a, b)"
proof -
  assume x: "x \<notin> set b"
  have "takeWhile (\<lambda>c. c \<noteq> x) (rev b @ x # rev a) = rev b @ takeWhile (\<lambda>c. c \<noteq> x) (x # rev a)"
    using x by (intro takeWhile_append2) auto
  then show ?thesis by (simp add: split_last_def)
qed

lemma pid_stat_pieces:
  assumes "comm_ok comm state" and "is \<noteq> []"
  shows "strchr (pid_stat_line pid comm state is) (CHR ''('') =
      Some (CHR ''('' # comm @ CHR '')'' # CHR '' '' # state # fields_text (map dec_int is) @ [CHR 0x0A])"
    and "split_last (CHR '')'') (comm @ CHR '')'' # CHR '' '' # state # fields_text (map dec_int is) @ [CHR 0x0A]) =
      Some (comm, CHR '' '' # state # fields_text (map dec_int is) @ [CHR 0x0A])"
    and "skip_space (CHR '' '' # state # fields_text (map dec_int is) @ [CHR 0x0A]) = state # fields_text (map dec_int is) @ [CHR 0x0A]"
    and "skip_space (fields_text (map dec_int is) @ [CHR 0x0A]) = dec_int (is ! 0) @ ints_from is [CHR 0x0A] 1"
    and "CHR 0x00 \<notin> set (pid_stat_line pid comm state is)"
proof -
  have d: "isdigit c \<Longrightarrow> c \<noteq> CHR ''('' \<and> c \<noteq> CHR '')'' \<and> c \<noteq> CHR 0x00" for c by (auto simp: isdigit_def)
  have "CHR ''('' \<notin> set (dec_digits pid @ '' '')" using dec_digits_isdigit d by fastforce
  from strchr_found [OF this] show "strchr (pid_stat_line pid comm state is) (CHR ''('') =
      Some (CHR ''('' # comm @ CHR '')'' # CHR '' '' # state # fields_text (map dec_int is) @ [CHR 0x0A])"
    by (simp add: pid_stat_line_def)
  have "CHR '')'' \<notin> set (CHR '' '' # state # fields_text (map dec_int is) @ [CHR 0x0A])"
    using assms(1) int_fields_chars [of "CHR '')''" "is"] d by (auto simp: comm_ok_def)
  from split_last_append [OF this] show "split_last (CHR '')'') (comm @ CHR '')'' # CHR '' '' # state # fields_text (map dec_int is) @ [CHR 0x0A]) =
      Some (comm, CHR '' '' # state # fields_text (map dec_int is) @ [CHR 0x0A])" .
  show "skip_space (CHR '' '' # state # fields_text (map dec_int is) @ [CHR 0x0A]) = state # fields_text (map dec_int is) @ [CHR 0x0A]"
    using assms(1) by (simp add: comm_ok_def)
  obtain i js where i: "is = i # js" using assms(2) by (cases "is") auto
  show "skip_space (fields_text (map dec_int is) @ [CHR 0x0A]) = dec_int (is ! 0) @ ints_from is [CHR 0x0A] 1"
    using skip_space_field [OF field_ok_int] by (simp add: i ints_from_def)
  show "CHR 0x00 \<notin> set (pid_stat_line pid comm state is)"
    using assms(1) int_fields_chars [of "CHR 0x00" "is"] d dec_digits_isdigit [of "CHR 0x00" pid]
    by (auto simp: pid_stat_line_def comm_ok_def)
qed

lemma u64_tick_exact:
  assumes "exact_ints rnd" and "0 < ticks" and "1000 mod ticks = 0" and "0 \<le> i" and "nat i * (1000 div ticks) \<le> 2 ^ 53"
  shows "u64_of_rat (SIGAR_TICK2MSEC rnd ticks (of_int i)) = Some (of_nat (nat i * (1000 div ticks)))"
proof -
  have "(of_int i :: uint64) = of_nat (nat i)" using assms(4) by simp
  then have "SIGAR_TICK2MSEC rnd ticks (of_int i) = of_nat (nat i * (1000 div ticks))"
    using tick2msec_exact [OF assms(1-3,5)] by simp
  moreover have "nat i * (1000 div ticks) < 2 ^ 64" using assms(5) by (rule le_less_trans) simp
  ultimately show ?thesis using u64_of_rat_nat by (simp only:)
qed

section \<open>Properties\<close>

lemma proc_stat_parse_line:
  assumes "exact_ints rnd" and "0 < ls_ticks sigar" and "1000 mod ls_ticks sigar = 0" and "comm_ok comm state"
    and "36 \<le> length is" and "ints_ok is"
    and "0 \<le> is ! 10" and "nat (is ! 10) * (1000 div ls_ticks sigar) \<le> 2 ^ 53"
    and "0 \<le> is ! 11" and "nat (is ! 11) * (1000 div ls_ticks sigar) \<le> 2 ^ 53"
  shows "proc_stat_parse rnd sigar (pid_stat_line n comm state is) pstat = Some (SIGAR_OK,
    \<lparr>lp_pid = lp_pid pstat, lp_mtime = lp_mtime pstat, lp_vsize = of_int (is ! 19), lp_rss = push_bit (ls_pagesize sigar) (of_int (is ! 20)),
     lp_minor_faults = of_int (is ! 6), lp_major_faults = of_int (is ! 8), lp_ppid = of_int (is ! 0), lp_tty = of_int (is ! 3),
     lp_priority = of_int (is ! 14), lp_nice = of_int (is ! 15),
     lp_start_time = (of_int (is ! 18) div of_nat (ls_ticks sigar) + ls_boot_time sigar) * 1000,
     lp_utime = of_nat (nat (is ! 10) * (1000 div ls_ticks sigar)), lp_stime = of_nat (nat (is ! 11) * (1000 div ls_ticks sigar)),
     lp_name = take 127 comm, lp_state = state, lp_processor = of_int (is ! 35)\<rparr>)"
proof -
  have ne: "is \<noteq> []" using assms(5) by auto
  note p = pid_stat_pieces [OF assms(4) ne]
  note r = scan_stat_ints [OF assms(6,5), unfolded One_nat_def]
  have ui: "ucast (of_int i :: uint64) = (of_int i :: uint32)" for i by (rule bit_word_eqI) (simp add: bit_simps bit_of_int_iff)
  have st: "\<not> isspace state" using assms(4) by (simp add: comm_ok_def)
  show ?thesis
    using u64_tick_exact [OF assms(1-3,7,8)] u64_tick_exact [OF assms(1-3,9,10)] assms(2)
    by (cases pstat) (simp add: proc_stat_parse_def Let_def p r ui st)
qed

text \<open>C22: the stat file of a process. When the process is not the remembered one, \<open>proc_stat_read\<close> recovers from
  the kernel's line every field it uses, for every process name (cut to 127 characters), also one
  with blanks, parentheses or newlines in it, and for any number of additional fields: the ticks
  as milliseconds, the start as milliseconds since the epoch, the resident set in bytes.\<close>

theorem proc_stat_read_kernel_line:
  assumes "exact_ints rnd" and "0 < ls_ticks sigar" and "1000 mod ls_ticks sigar = 0"
    and "lp_pid (ls_last_proc_stat sigar) \<noteq> pid"
    and "fs (opt_string host @ ''/proc/'' @ dec_digits (unat pid) @ ''/stat'') = Contents (pid_stat_line (unat pid) comm state is)"
    and "length (opt_string host) < 4000"
    and "length (pid_stat_line (unat pid) comm state is) \<le> 8191" and "comm_ok comm state"
    and "36 \<le> length is" and "ints_ok is"
    and "0 \<le> is ! 10" and "nat (is ! 10) * (1000 div ls_ticks sigar) \<le> 2 ^ 53"
    and "0 \<le> is ! 11" and "nat (is ! 11) * (1000 div ls_ticks sigar) \<le> 2 ^ 53"
  shows "\<exists>sigar'. proc_stat_read rnd host fs now pid sigar = Some (SIGAR_OK, sigar') \<and> ls_last_proc_stat sigar' =
    \<lparr>lp_pid = pid, lp_mtime = now, lp_vsize = of_int (is ! 19), lp_rss = push_bit (ls_pagesize sigar) (of_int (is ! 20)),
     lp_minor_faults = of_int (is ! 6), lp_major_faults = of_int (is ! 8), lp_ppid = of_int (is ! 0), lp_tty = of_int (is ! 3),
     lp_priority = of_int (is ! 14), lp_nice = of_int (is ! 15),
     lp_start_time = (of_int (is ! 18) div of_nat (ls_ticks sigar) + ls_boot_time sigar) * 1000,
     lp_utime = of_nat (nat (is ! 10) * (1000 div ls_ticks sigar)), lp_stime = of_nat (nat (is ! 11) * (1000 div ls_ticks sigar)),
     lp_name = take 127 comm, lp_state = state, lp_processor = of_int (is ! 35)\<rparr>"
proof -
  let ?line = "pid_stat_line (unat pid) comm state is"
  have ne: "is \<noteq> []" using assms(9) by auto
  note p = pid_stat_pieces [OF assms(8) ne]
  have f: "sigar_proc_file2str fs host 8192 pid ''/stat'' = Some (SIGAR_OK, ?line)"
    using cstring_whole [OF p(5) assms(7)] assms(5,6)
    by (simp add: sigar_proc_file2str_def sigar_file2str_def proc_filename_ok Let_def)
  define sigar1 where "sigar1 = sigar\<lparr>ls_last_proc_stat := (ls_last_proc_stat sigar)\<lparr>lp_pid := pid, lp_mtime := now\<rparr>\<rparr>"
  have e: "ls_ticks sigar1 = ls_ticks sigar" "ls_boot_time sigar1 = ls_boot_time sigar" "ls_pagesize sigar1 = ls_pagesize sigar"
    by (simp_all add: sigar1_def)
  note parse = proc_stat_parse_line [of rnd sigar1 comm state "is", unfolded e, OF assms(1-3,8-14), of "unat pid" "ls_last_proc_stat sigar1"]
  show ?thesis
    using assms(4) parse by (simp add: proc_stat_read_def Let_def f) (simp add: sigar1_def)
qed

definition example_ints :: "int list" where
  "example_ints = [1, 7, 7, 34816, -1, 4194304, 120, 0, 3, 0, 250, 30, 0, 0, 20, -5, 1, 0, 600, 1048576, 16] @ replicate 14 0 @ [3]"

theorem proc_stat_read_kernel_line_witness:
  "\<exists>s. proc_stat_read (\<lambda>x. x) None (\<lambda>p. Contents (pid_stat_line 7 ''a) (b'' (CHR ''S'') example_ints)) 50 7 example_sigar = Some (0, s)
     \<and> lp_name (ls_last_proc_stat s) = ''a) (b'' \<and> lp_utime (ls_last_proc_stat s) = 2500 \<and> lp_nice (ls_last_proc_stat s) = - 5
     \<and> lp_processor (ls_last_proc_stat s) = 3"
proof -
  let ?fs = "\<lambda>p :: string. Contents (pid_stat_line 7 ''a) (b'' (CHR ''S'') example_ints)"
  have s: "ls_ticks example_sigar = 100" "lp_pid (ls_last_proc_stat example_sigar) = - 1" by (simp_all add: example_sigar_def)
  have n: "unat (7 :: pid) = 7" by simp
  have "length (pid_stat_line 7 ''a) (b'' (CHR ''S'') example_ints) \<le> 8191" by code_simp
  moreover have "comm_ok ''a) (b'' (CHR ''S'')" "ints_ok example_ints" by code_simp+
  moreover have i: "36 \<le> length example_ints" "example_ints ! 10 = 250" "example_ints ! 11 = 30" "example_ints ! 15 = - 5" "example_ints ! 35 = 3"
    by (simp_all add: example_ints_def numeral_eq_Suc)
  ultimately show ?thesis
    using proc_stat_read_kernel_line [OF id_exact, of example_sigar 7 ?fs None "''a) (b''" "CHR ''S''" example_ints 50, unfolded n]
    by (auto simp: s opt_string_def)
qed

text \<open>a failed reading leaves stale data behind. When the stat file of a process cannot be read, the call
  fails, but the process is remembered as the last one: within the next two seconds the times of
  that process are reported, with success, as those of the process read before it.\<close>

theorem proc_stat_stale_after_failure:
  assumes "lp_pid (ls_last_proc_stat sigar) \<noteq> pid"
    and "sigar_proc_file2str fs host 8192 pid ''/stat'' = Some (st, buffer)" and "st \<noteq> SIGAR_OK" and "sint (later - now) < 2"
  shows "\<exists>sigar'. linux_proc_time_get rnd host fs now pid sigar t = Some (st, t, sigar')
    \<and> linux_proc_time_get rnd host fs' later pid sigar' t' = Some (SIGAR_OK,
        \<lparr>pt_start_time = lp_start_time (ls_last_proc_stat sigar), pt_user = lp_utime (ls_last_proc_stat sigar),
         pt_sys = lp_stime (ls_last_proc_stat sigar),
         pt_total = lp_utime (ls_last_proc_stat sigar) + lp_stime (ls_last_proc_stat sigar)\<rparr>, sigar')"
  using assms by (simp add: linux_proc_time_get_def proc_stat_read_def Let_def)

definition no_time :: sigar_proc_time where
  "no_time = \<lparr>pt_start_time = 0, pt_user = 0, pt_sys = 0, pt_total = 0\<rparr>"

theorem proc_stat_stale_after_failure_witness:
  "\<exists>s. linux_proc_time_get (\<lambda>x. x) None (\<lambda>p. OpenFails) 100 7 (example_sigar\<lparr>ls_last_proc_stat :=
        (ls_last_proc_stat example_sigar)\<lparr>lp_pid := 1, lp_utime := 40\<rparr>\<rparr>) no_time = Some (ESRCH, no_time, s)
     \<and> fst (the (linux_proc_time_get (\<lambda>x. x) None (\<lambda>p. OpenFails) 101 7 s no_time)) = 0"
proof -
  let ?s = "example_sigar\<lparr>ls_last_proc_stat := (ls_last_proc_stat example_sigar)\<lparr>lp_pid := 1, lp_utime := 40\<rparr>\<rparr>"
  have "sigar_proc_file2str (\<lambda>p. OpenFails) None 8192 7 ''/stat'' = Some (ESRCH, [])"
    by (simp add: sigar_proc_file2str_def sigar_file2str_def proc_filename_ok opt_string_def)
  moreover have "sint (101 - 100 :: uint64) < 2" by simp
  ultimately show ?thesis
    using proc_stat_stale_after_failure [of ?s 7 "\<lambda>p. OpenFails" None ESRCH "[]" 101 100 "\<lambda>x. x" no_time "\<lambda>p. OpenFails" no_time]
    by auto
qed

section \<open>Environment round trip\<close>

definition env_text :: "(string \<times> string) list \<Rightarrow> string" where
  "env_text kvs = concat (map (\<lambda>(k, v). k @ CHR ''='' # v @ [CHR 0x00]) kvs)"

definition env_ok :: "string \<times> string \<Rightarrow> bool" where
  "env_ok kv = (case kv of (k, v) \<Rightarrow> length k < 128 \<and> CHR ''='' \<notin> set k \<and> CHR 0x00 \<notin> set k \<and> CHR 0x00 \<notin> set v)"

lemma env_loop_entries:
  assumes "list_all env_ok kvs" and "\<And>d k kl v vl. fst (getter d k kl v vl) = SIGAR_OK"
  shows "env_loop getter (env_text kvs) d = Some (foldl (\<lambda>d (k, v). snd (getter d k (length k) v (length v))) d kvs)"
  using assms(1)
proof (induction kvs arbitrary: d)
  case Nil
  then show ?case by (simp add: env_text_def env_loop.simps)
next
  case (Cons kv kvs)
  obtain k v where kv: "kv = (k, v)" by (cases kv)
  have ok: "length k < 128" "CHR ''='' \<notin> set k" "CHR 0x00 \<notin> set (k @ CHR ''='' # v)" using Cons.prems by (simp_all add: kv env_ok_def)
  have t: "env_text (kv # kvs) = (k @ CHR ''='' # v) @ CHR 0x00 # env_text kvs" by (simp add: env_text_def kv)
  have c: "cstring (env_text (kv # kvs)) = k @ CHR ''='' # v" unfolding t by (rule cstring_append_NUL [OF ok(3)])
  obtain st d1 where g: "getter d k (length k) v (length v) = (st, d1)" by (cases "getter d k (length k) v (length v)")
  have "st = SIGAR_OK" using assms(2) [of d k "length k" v "length v"] g by simp
  then have "env_loop getter (env_text (kv # kvs)) d = env_loop getter (env_text kvs) d1"
    using ok(1) g by (subst env_loop.simps) (simp add: c split_at_append [OF ok(2)], simp add: t)
  then show ?case using Cons g by (simp add: kv)
qed

text \<open>C23: the environment. When the environment of another process consists of entries \<open>key=value\<close> whose keys
  fit their array and it does not fill the buffer, the callback gets every key and value with their
  lengths, in order and exactly once, as long as it asks to go on.\<close>

theorem proc_env_delivers_entries:
  assumes "pid \<noteq> ls_pid sigar" and "length (opt_string host) < 4000"
    and "environ (opt_string host @ ''/proc/'' @ dec_digits (unat pid) @ ''/environ'') = Inr (Some (env_text kvs))"
    and "length (env_text kvs) < 131072" and "list_all env_ok kvs"
    and "\<And>d k kl v vl. fst (getter d k kl v vl) = SIGAR_OK"
  shows "sigar_proc_env_get host environ getenv sigar pid type getter d =
    Some (SIGAR_OK, foldl (\<lambda>d (k, v). snd (getter d k (length k) v (length v))) d kvs)"
  using assms(1-4) env_loop_entries [OF assms(5,6)]
  by (cases type) (simp_all add: sigar_proc_env_get_def proc_filename_ok Let_def)

theorem proc_env_delivers_entries_witness:
  "sigar_proc_env_get None (\<lambda>p. Inr (Some (env_text [(''HOME'', ''/root''), (''OPT'', ''a=b'')]))) (\<lambda>k. None) example_sigar 7 SIGAR_PROC_ENV_ALL
     (\<lambda>d k kl v vl. (0, d @ [(k, v)])) [] = Some (0, [(''HOME'', ''/root''), (''OPT'', ''a=b'')])"
proof -
  let ?kvs = "[(''HOME'', ''/root''), (''OPT'', ''a=b'')]" and ?g = "\<lambda>d k kl v vl. (0 :: status, d @ [(k, v)])"
  have "length (env_text ?kvs) < 131072" "list_all env_ok ?kvs" by code_simp+
  then show ?thesis
    using proc_env_delivers_entries [of 7 example_sigar None "\<lambda>p. Inr (Some (env_text ?kvs))" ?kvs ?g "\<lambda>k. None" SIGAR_PROC_ENV_ALL "[]"]
    by (simp add: example_sigar_def opt_string_def)
qed

end
