(* ===== verification/Linux_Netconn.thy ===== *)
theory Linux_Netconn
  imports Linux_System Sigar_Netstat Sigar_Netif Sigar_Fileinfo
begin

text \<open>
  Connections in \<open>src/os/linux/linux_sigar.c\<close>: the tables under \<open>/proc/net\<close> with their hexadecimal
  addresses, the walk that hands each connection to a callback, the connection list, and the
  process that owns a port. Files, directories and \<open>stat\<close> are parameters. The theorems relate the
  walk to the list of connections the tables hold and read back what the kernel prints.
\<close>

unbundle bit_operations_syntax

section \<open>Hexadecimal fields\<close>

text \<open>\<open>char\<close> is signed on this platform.\<close>

definition schar :: "char \<Rightarrow> int" where
  "schar ch = (let n = int (of_char ch) in if n < 128 then n else n - 256)"

definition hex_nibble :: "char \<Rightarrow> uint32" where
  "hex_nibble ch =
     (if isdigit ch then word_of_int (schar ch - 48)
      else if isupper ch then word_of_int (schar ch - (65 - 10))
      else word_of_int (schar ch - (97 - 10)))"

text \<open>The terminating NUL may be read as a digit; what follows it in the buffer may not.\<close>

definition hex2int :: "string \<Rightarrow> nat \<Rightarrow> uint32 ub" where
  "hex2int x len =
     (if length x + 1 < len then None
      else Some (foldl (\<lambda>j ch. push_bit 4 j OR hex_nibble ch) 0 (take len (x @ [CHR 0x00]))))"

abbreviation (input) HEX_ENT_LEN :: nat where "HEX_ENT_LEN \<equiv> 8"

definition uint32_bytes :: "uint32 \<Rightarrow> nat list" where
  "uint32_bytes v = map (mem_byte v) [0..<4]"

definition convert_hex_address :: "sigar_net_address \<Rightarrow> string \<Rightarrow> nat \<Rightarrow> sigar_net_address ub" where
  "convert_hex_address address ptr len =
     (if HEX_ENT_LEN < len then do {
        w0 \<leftarrow> hex2int ptr HEX_ENT_LEN;
        w1 \<leftarrow> hex2int (drop 8 ptr) HEX_ENT_LEN;
        w2 \<leftarrow> hex2int (drop 16 ptr) HEX_ENT_LEN;
        w3 \<leftarrow> hex2int (drop 24 ptr) HEX_ENT_LEN;
        Some (address\<lparr>na_addr := uint32_bytes w0 @ uint32_bytes w1 @ uint32_bytes w2 @ uint32_bytes w3,
                      na_family := SIGAR_AF_INET6\<rparr>)
      } else do {
        w \<leftarrow> (if len = HEX_ENT_LEN then hex2int ptr HEX_ENT_LEN else Some 0);
        Some (address\<lparr>na_addr := uint32_bytes w @ drop 4 (na_addr address), na_family := SIGAR_AF_INET\<rparr>)
      })"

section \<open>A line of a connection table\<close>

definition SKIP_WHILE :: "char \<Rightarrow> unit scan" where
  "SKIP_WHILE c = State (\<lambda>p. ((), dropWhile (\<lambda>d. d = c) p))"

definition SKIP_PAST :: "char \<Rightarrow> unit scan" where
  "SKIP_PAST c = State (\<lambda>p. ((), dropWhile (\<lambda>d. d = c) (dropWhile (\<lambda>d. d \<noteq> c) p)))"

text \<open>An address is the pointer to its first digit and the number of characters before the colon.\<close>

definition scan_addr :: "(string \<times> nat) scan" where
  "scan_addr = State (\<lambda>p. ((p, length (takeWhile (\<lambda>d. d \<noteq> CHR '':'') p)), dropWhile (\<lambda>d. d \<noteq> CHR '':'') p))"

definition scan_port :: "uint64 scan" where
  "scan_port = State (\<lambda>p. case strtou 16 p of (v, rest) \<Rightarrow> (v AND 0xFFFF, rest))"

definition scan_end :: "((string \<times> nat) \<times> uint64) scan" where
  "scan_end = do {
     addr \<leftarrow> scan_addr;
     SKIP_WHILE (CHR '':'');
     port \<leftarrow> scan_port;
     SKIP_WHILE (CHR '' '');
     State_Monad.return (addr, port)
   }"

definition scan_ends :: "(((string \<times> nat) \<times> uint64) \<times> (string \<times> nat) \<times> uint64) scan" where
  "scan_ends = do {
     SKIP_WHILE (CHR '' '');
     SKIP_PAST (CHR '' '');
     l \<leftarrow> scan_end;
     r \<leftarrow> scan_end;
     State_Monad.return (l, r)
   }"

definition net_wanted :: "nat \<Rightarrow> uint64 \<Rightarrow> bool" where
  "net_wanted flags remote_port \<longleftrightarrow>
     remote_port \<noteq> 0 \<and> flags AND SIGAR_NETCONN_CLIENT \<noteq> 0 \<or> remote_port = 0 \<and> flags AND SIGAR_NETCONN_SERVER \<noteq> 0"

definition ptr_add :: "string \<Rightarrow> nat \<Rightarrow> string ub" where
  "ptr_add ptr n = (if n \<le> length ptr then Some (drop n ptr) else None)"

definition scan_uid_inode :: "(uint64 \<times> uint64) scan" where
  "scan_uid_inode = do {
     SKIP_WHILE (CHR '' '');
     SKIP_PAST (CHR '' '');
     SKIP_PAST (CHR '' '');
     uid \<leftarrow> sigar_strtoul;
     SKIP_WHILE (CHR '' '');
     SKIP_PAST (CHR '' '');
     inode \<leftarrow> sigar_strtoul;
     State_Monad.return (uid, inode)
   }"

text \<open>The rest of the line after the addresses. \<open>conn\<close> is the uninitialised local structure: only
  some of its bytes are written.\<close>

definition net_conn_fill ::
  "nat \<Rightarrow> ((string \<times> nat) \<times> uint64) \<times> (string \<times> nat) \<times> uint64 \<Rightarrow> string \<Rightarrow> sigar_net_connection \<Rightarrow> sigar_net_connection ub" where
  "net_conn_fill type ends ptr conn =
     (case ends of (((laddr, laddr_len), local_port), (raddr, raddr_len), remote_port) \<Rightarrow> do {
        local \<leftarrow> convert_hex_address (nc_local_address conn) laddr laddr_len;
        remote \<leftarrow> convert_hex_address (nc_remote_address conn) raddr raddr_len;
        state \<leftarrow> hex2int ptr 2;
        ptr1 \<leftarrow> map_option (dropWhile (\<lambda>d. d = CHR '' '')) (ptr_add ptr 2);
        send_queue \<leftarrow> hex2int ptr1 HEX_ENT_LEN;
        ptr2 \<leftarrow> ptr_add ptr1 (HEX_ENT_LEN + 1);
        receive_queue \<leftarrow> hex2int ptr2 HEX_ENT_LEN;
        ptr3 \<leftarrow> ptr_add ptr2 HEX_ENT_LEN;
        let (uid, inode) = fst (run_state scan_uid_inode ptr3);
        Some (conn\<lparr>nc_local_port := local_port, nc_local_address := local, nc_remote_port := remote_port,
                   nc_remote_address := remote, nc_uid := ucast uid, nc_inode := inode, nc_type := type,
                   nc_state := sint state, nc_send_queue := ucast send_queue, nc_receive_queue := ucast receive_queue\<rparr>)
      })"

definition net_line :: "nat \<Rightarrow> nat \<Rightarrow> sigar_net_connection \<Rightarrow> string \<Rightarrow> sigar_net_connection option ub" where
  "net_line flags type conn buffer =
     (case run_state scan_ends buffer of
        (ends, ptr) \<Rightarrow>
          if \<not> net_wanted flags (snd (snd ends)) then Some None
          else map_option Some (net_conn_fill type ends ptr conn))"

section \<open>Reading a table\<close>

type_synonym 'd conn_walker = "'d \<Rightarrow> sigar_net_connection \<Rightarrow> (status \<times> 'd) ub"

text \<open>\<open>ne_uninit file left\<close> is what the local structure holds when \<open>left\<close> lines of the file are left;
  \<open>ne_popen\<close> gives the output of a command.\<close>

record linux_net_env =
  ne_host :: "string option"
  ne_stat :: "string \<Rightarrow> status + stat_info"
  ne_fopen :: lines_of
  ne_popen :: "string \<Rightarrow> string list option"
  ne_opendir :: directory
  ne_uninit :: "string \<Rightarrow> nat \<Rightarrow> sigar_net_connection"

definition xproc_open :: "linux_net_env \<Rightarrow> string \<Rightarrow> string list option" where
  "xproc_open env command =
     (case ne_stat env command of
        Inr sb \<Rightarrow>
          if st_mode sb AND 0x40 \<noteq> 0 then ne_popen env command
          else (case ne_fopen env command of Inr ls \<Rightarrow> Some ls | Inl _ \<Rightarrow> None)
      | Inl _ \<Rightarrow> None)"

fun net_read_loop ::
  "'d conn_walker \<Rightarrow> nat \<Rightarrow> nat \<Rightarrow> (nat \<Rightarrow> sigar_net_connection) \<Rightarrow> string list \<Rightarrow> 'd \<Rightarrow> 'd ub" where
  "net_read_loop add_connection flags type uninit [] d = Some d"
| "net_read_loop add_connection flags type uninit (buffer # ls) d =
     (case net_line flags type (uninit (length ls)) buffer of
        None \<Rightarrow> None
      | Some None \<Rightarrow> net_read_loop add_connection flags type uninit ls d
      | Some (Some conn) \<Rightarrow>
          (case add_connection d conn of
             None \<Rightarrow> None
           | Some (cont, d1) \<Rightarrow>
               if cont \<noteq> SIGAR_OK then Some d1 else net_read_loop add_connection flags type uninit ls d1))"

text \<open>\<open>sizeof(gPROC_FS_ROOT)\<close> is the size of a pointer, so seven characters of the file name are
  dropped.\<close>

definition proc_net_read ::
  "linux_net_env \<Rightarrow> linux_sigar \<Rightarrow> 'd conn_walker \<Rightarrow> nat \<Rightarrow> string \<Rightarrow> nat \<Rightarrow> 'd \<Rightarrow> (status \<times> 'd) ub" where
  "proc_net_read env sigar add_connection flags fname type d =
     (let mirror = (case ls_proc_net sigar of
                      Some dir \<Rightarrow> xproc_open env (sstrcpy 8192 (dir @ ''/'' @ drop (8 - 1) fname))
                    | None \<Rightarrow> None)
      in case (case mirror of Some ls \<Rightarrow> Inr ls | None \<Rightarrow> ne_fopen env fname) of
           Inl errno \<Rightarrow> Some (errno, d)
         | Inr ls \<Rightarrow>
             (case sigar_skip_file_lines (Some ls) 1 of
                (result, fp) \<Rightarrow>
                  if result \<noteq> SIGAR_OK then Some (- 1, d)
                  else map_option (Pair SIGAR_OK)
                         (net_read_loop add_connection flags type (ne_uninit env fname) (case fp of Some rest \<Rightarrow> rest | None \<Rightarrow> []) d)))"

section \<open>The walk\<close>

text \<open>One protocol: the IPv4 table has to be there, the IPv6 table may be missing.\<close>

definition walk_protocol ::
  "linux_net_env \<Rightarrow> linux_sigar \<Rightarrow> 'd conn_walker \<Rightarrow> nat \<Rightarrow> nat \<Rightarrow> string \<Rightarrow> status \<times> 'd \<Rightarrow> (status \<times> 'd) ub" where
  "walk_protocol env sigar add_connection flags protocol name r =
     (if fst r \<noteq> SIGAR_OK \<or> flags AND protocol = 0 then Some r
      else do {
        (status, d) \<leftarrow> proc_net_read env sigar add_connection flags (proc_file (ne_host env) (''net/'' @ name)) protocol (snd r);
        if status \<noteq> SIGAR_OK then Some (status, d)
        else do {
          (status6, d6) \<leftarrow> proc_net_read env sigar add_connection flags (proc_file (ne_host env) (''net/'' @ name @ ''6'')) protocol d;
          Some (if status6 = SIGAR_OK \<or> status6 = ENOENT then SIGAR_OK else status6, d6)
        }
      })"

definition sigar_net_connection_walk ::
  "linux_net_env \<Rightarrow> linux_sigar \<Rightarrow> 'd conn_walker \<Rightarrow> nat \<Rightarrow> 'd \<Rightarrow> (status \<times> 'd) ub" where
  "sigar_net_connection_walk env sigar add_connection flags d = do {
     r1 \<leftarrow> walk_protocol env sigar add_connection flags SIGAR_NETCONN_TCP ''tcp'' (SIGAR_OK, d);
     r2 \<leftarrow> walk_protocol env sigar add_connection flags SIGAR_NETCONN_UDP ''udp'' r1;
     walk_protocol env sigar add_connection flags SIGAR_NETCONN_RAW ''raw'' r2
   }"

record net_conn_getter =
  cg_connlist :: "sigar_net_connection clist option"
  cg_conn :: sigar_net_connection
  cg_port :: uint64

definition proc_net_walker :: "net_conn_getter conn_walker" where
  "proc_net_walker getter conn =
     (case cg_connlist getter of
        Some connlist \<Rightarrow>
          map_option (\<lambda>l. (SIGAR_OK, getter\<lparr>cg_connlist := Some l\<rparr>)) (clist_put sigar_net_connection_list_grow connlist conn)
      | None \<Rightarrow>
          if cg_port getter = nc_local_port conn \<and> nc_remote_port conn = 0
          then Some (1, getter\<lparr>cg_conn := conn\<rparr>) else Some (SIGAR_OK, getter))"

definition zero_conn :: sigar_net_connection where
  "zero_conn = \<lparr>nc_local_port = 0, nc_local_address = null_address, nc_remote_port = 0, nc_remote_address = null_address,
     nc_uid = 0, nc_inode = 0, nc_type = 0, nc_state = 0, nc_send_queue = 0, nc_receive_queue = 0, nc_pid = 0\<rparr>"

definition sigar_net_connection_list_get ::
  "linux_net_env \<Rightarrow> linux_sigar \<Rightarrow> nat \<Rightarrow> (status \<times> sigar_net_connection clist) ub" where
  "sigar_net_connection_list_get env sigar flags = do {
     (status, getter) \<leftarrow> sigar_net_connection_walk env sigar proc_net_walker flags
        \<lparr>cg_connlist = Some sigar_net_connection_list_create, cg_conn = zero_conn, cg_port = 0\<rparr>;
     let connlist = (case cg_connlist getter of Some l \<Rightarrow> l | None \<Rightarrow> sigar_net_connection_list_create);
     Some (status, if status \<noteq> SIGAR_OK then sigar_net_connection_list_destroy connlist else connlist)
   }"

definition sigar_net_connection_get ::
  "linux_net_env \<Rightarrow> linux_sigar \<Rightarrow> sigar_net_connection \<Rightarrow> uint64 \<Rightarrow> nat \<Rightarrow> (status \<times> sigar_net_connection) ub" where
  "sigar_net_connection_get env sigar netconn port flags = do {
     (status, getter) \<leftarrow> sigar_net_connection_walk env sigar proc_net_walker flags
        \<lparr>cg_connlist = None, cg_conn = netconn, cg_port = port\<rparr>;
     Some (status, cg_conn getter)
   }"

section \<open>The process behind a port\<close>

definition path_buf :: "string \<Rightarrow> string ub" where
  "path_buf s = (if length s < 8192 then Some s else None)"

fun port_fd_loop :: "linux_net_env \<Rightarrow> uint64 \<Rightarrow> string \<Rightarrow> string list \<Rightarrow> bool ub" where
  "port_fd_loop env inode fd_name [] = Some False"
| "port_fd_loop env inode fd_name (d_name # ents) =
     (if \<not> starts_digit d_name then port_fd_loop env inode fd_name ents
      else (case path_buf (fd_name @ ''/'' @ d_name) of
              None \<Rightarrow> None
            | Some fd_ent_name \<Rightarrow>
                (case ne_stat env fd_ent_name of
                   Inl _ \<Rightarrow> port_fd_loop env inode fd_name ents
                 | Inr sb \<Rightarrow> if st_ino sb = inode then Some True else port_fd_loop env inode fd_name ents)))"

definition port_owner :: "linux_net_env \<Rightarrow> uint64 \<Rightarrow> string \<Rightarrow> bool ub" where
  "port_owner env inode pid_name =
     (case ne_stat env pid_name of
        Inl _ \<Rightarrow> Some False
      | Inr _ \<Rightarrow>
          (case path_buf (pid_name @ ''/fd'') of
             None \<Rightarrow> None
           | Some fd_name \<Rightarrow>
               (case ne_opendir env fd_name of
                  Inl _ \<Rightarrow> Some False
                | Inr fds \<Rightarrow> port_fd_loop env inode fd_name fds)))"

fun port_pid_loop :: "linux_net_env \<Rightarrow> uint64 \<Rightarrow> string list \<Rightarrow> pid ub" where
  "port_pid_loop env inode [] = Some 0"
| "port_pid_loop env inode (d_name # ents) =
     (if \<not> starts_digit d_name then port_pid_loop env inode ents
      else do {
        pid_name \<leftarrow> path_buf (opt_string (ne_host env) @ ''/proc/'' @ ''/'' @ d_name);
        found \<leftarrow> port_owner env inode pid_name;
        if found then Some (ucast (fst (strtoull d_name))) else port_pid_loop env inode ents
      })"

definition sigar_proc_port_get ::
  "linux_net_env \<Rightarrow> linux_sigar \<Rightarrow> nat \<Rightarrow> uint64 \<Rightarrow> (status \<times> pid) ub" where
  "sigar_proc_port_get env sigar protocol port = do {
     (status, netconn) \<leftarrow> sigar_net_connection_get env sigar zero_conn port (SIGAR_NETCONN_SERVER OR protocol);
     if status \<noteq> SIGAR_OK then Some (status, 0)
     else if nc_local_port netconn \<noteq> port then Some (SIGAR_OK, 0)
     else (case ne_opendir env (opt_string (ne_host env) @ ''/proc/'') of
             Inl errno \<Rightarrow> Some (errno, 0)
           | Inr ents \<Rightarrow> map_option (Pair SIGAR_OK) (port_pid_loop env (nc_inode netconn) ents))
   }"

text \<open>The tables are read anew for every listener: \<open>envs i\<close> is the system at the i-th reading.\<close>

fun listeners_loop ::
  "(nat \<Rightarrow> linux_net_env) \<Rightarrow> linux_sigar \<Rightarrow> nat \<Rightarrow> sigar_net_connection list \<Rightarrow> sigar_net_connection list ub" where
  "listeners_loop envs sigar i [] = Some []"
| "listeners_loop envs sigar i (conn # conns) = do {
     (status, pid) \<leftarrow> sigar_proc_port_get (envs i) sigar (SIGAR_NETCONN_TCP OR SIGAR_NETCONN_UDP) (nc_local_port conn);
     rest \<leftarrow> listeners_loop envs sigar (Suc i) conns;
     Some ((if status = SIGAR_OK then conn\<lparr>nc_pid := pid\<rparr> else conn) # rest)
   }"

definition sigar_net_connection_listeners_get ::
  "(nat \<Rightarrow> linux_net_env) \<Rightarrow> linux_sigar \<Rightarrow> (status \<times> sigar_net_connection clist) ub" where
  "sigar_net_connection_listeners_get envs sigar = do {
     (status, connlist) \<leftarrow> sigar_net_connection_list_get (envs 0) sigar (SIGAR_NETCONN_UDP OR SIGAR_NETCONN_TCP OR SIGAR_NETCONN_SERVER);
     if status \<noteq> SIGAR_OK then Some (status, connlist)
     else do {
       conns \<leftarrow> listeners_loop envs sigar 1 (clist_elems connlist);
       Some (SIGAR_OK, connlist\<lparr>l_data := map Some conns @ drop (l_number connlist) (l_data connlist)\<rparr>)
     }
   }"

section \<open>The tables as lists of connections\<close>

fun table_conns :: "nat \<Rightarrow> nat \<Rightarrow> (nat \<Rightarrow> sigar_net_connection) \<Rightarrow> string list \<Rightarrow> sigar_net_connection list ub" where
  "table_conns flags type uninit [] = Some []"
| "table_conns flags type uninit (buffer # ls) = do {
     c \<leftarrow> net_line flags type (uninit (length ls)) buffer;
     cs \<leftarrow> table_conns flags type uninit ls;
     Some (case c of None \<Rightarrow> cs | Some conn \<Rightarrow> conn # cs)
   }"

fun walk_until :: "'d conn_walker \<Rightarrow> sigar_net_connection list \<Rightarrow> 'd \<Rightarrow> 'd ub" where
  "walk_until add [] d = Some d"
| "walk_until add (c # cs) d = do { (cont, d1) \<leftarrow> add d c; if cont \<noteq> SIGAR_OK then Some d1 else walk_until add cs d1 }"

fun walk_tables :: "'d conn_walker \<Rightarrow> sigar_net_connection list list \<Rightarrow> 'd \<Rightarrow> 'd ub" where
  "walk_tables add [] d = Some d"
| "walk_tables add (t # ts) d = do { d1 \<leftarrow> walk_until add t d; walk_tables add ts d1 }"

lemma net_read_loop_conns:
  "table_conns flags type uninit ls = Some cs \<Longrightarrow> net_read_loop add flags type uninit ls d = walk_until add cs d"
proof (induction ls arbitrary: cs d)
  case (Cons l ls)
  then show ?case
    by (auto simp: Option.bind_eq_Some_conv split: option.splits prod.splits intro!: Option.bind_cong)
qed simp

definition net_table :: "linux_net_env \<Rightarrow> linux_sigar \<Rightarrow> nat \<Rightarrow> string \<Rightarrow> nat \<Rightarrow> (status + sigar_net_connection list) ub" where
  "net_table env sigar flags fname type =
     (let mirror = (case ls_proc_net sigar of
                      Some dir \<Rightarrow> xproc_open env (sstrcpy 8192 (dir @ ''/'' @ drop (8 - 1) fname))
                    | None \<Rightarrow> None)
      in case (case mirror of Some ls \<Rightarrow> Inr ls | None \<Rightarrow> ne_fopen env fname) of
           Inl errno \<Rightarrow> Some (Inl errno)
         | Inr [] \<Rightarrow> Some (Inl (- 1))
         | Inr (_ # ls) \<Rightarrow> map_option Inr (table_conns flags type (ne_uninit env fname) ls))"

lemma proc_net_read_table:
  "net_table env sigar flags fname type = Some (Inl st) \<Longrightarrow> proc_net_read env sigar add flags fname type d = Some (st, d)"
  "net_table env sigar flags fname type = Some (Inr cs) \<Longrightarrow>
     proc_net_read env sigar add flags fname type d = map_option (Pair SIGAR_OK) (walk_until add cs d)"
  by (auto simp: net_table_def proc_net_read_def Let_def numeral_2_eq_2 net_read_loop_conns split: sum.splits list.splits)

definition protocol_tables :: "linux_net_env \<Rightarrow> linux_sigar \<Rightarrow> nat \<Rightarrow> nat \<Rightarrow> string \<Rightarrow> (status \<times> sigar_net_connection list list) ub" where
  "protocol_tables env sigar flags protocol name =
     (if flags AND protocol = 0 then Some (SIGAR_OK, [])
      else do {
        t \<leftarrow> net_table env sigar flags (proc_file (ne_host env) (''net/'' @ name)) protocol;
        case t of
          Inl st \<Rightarrow> Some (st, [])
        | Inr cs \<Rightarrow> do {
            t6 \<leftarrow> net_table env sigar flags (proc_file (ne_host env) (''net/'' @ name @ ''6'')) protocol;
            case t6 of
              Inl st \<Rightarrow> Some (if st = ENOENT then SIGAR_OK else st, [cs])
            | Inr cs6 \<Rightarrow> Some (SIGAR_OK, [cs, cs6])
          }
      })"

definition tables_append :: "status \<times> 'a list \<Rightarrow> (status \<times> 'a list) ub \<Rightarrow> (status \<times> 'a list) ub" where
  "tables_append r next = (if fst r \<noteq> SIGAR_OK then Some r else map_option (\<lambda>(st, ts). (st, snd r @ ts)) next)"

definition net_tables :: "linux_net_env \<Rightarrow> linux_sigar \<Rightarrow> nat \<Rightarrow> (status \<times> sigar_net_connection list list) ub" where
  "net_tables env sigar flags = do {
     r1 \<leftarrow> protocol_tables env sigar flags SIGAR_NETCONN_TCP ''tcp'';
     r2 \<leftarrow> tables_append r1 (protocol_tables env sigar flags SIGAR_NETCONN_UDP ''udp'');
     tables_append r2 (protocol_tables env sigar flags SIGAR_NETCONN_RAW ''raw'')
   }"

lemma net_table_errno: "net_table env sigar flags f type = Some (Inl st) \<Longrightarrow> st = SIGAR_OK \<Longrightarrow> ne_fopen env f = Inl 0"
  by (auto simp: net_table_def Let_def split: option.splits sum.splits list.splits)

text \<open>A failing \<open>fopen\<close> sets \<open>errno\<close> to a positive number.\<close>

definition errno_set :: "linux_net_env \<Rightarrow> bool" where
  "errno_set env \<longleftrightarrow> (\<forall>f. ne_fopen env f \<noteq> Inl 0)"

lemma walk_tables_append: "walk_tables add (ts @ us) d = Option.bind (walk_tables add ts d) (walk_tables add us)"
proof (induction ts arbitrary: d)
  case (Cons t ts)
  then show ?case by (cases "walk_until add t d") simp_all
qed simp

lemma walk_protocol_tables:
  assumes "errno_set env" and "protocol_tables env sigar flags protocol name = Some (st, ts)"
  shows "walk_protocol env sigar add flags protocol name (SIGAR_OK, d) = map_option (Pair st) (walk_tables add ts d)"
proof (cases "flags AND protocol = 0")
  case True
  then show ?thesis using assms(2) by (simp add: walk_protocol_def protocol_tables_def)
next
  case False
  from assms(2) False obtain t where t: "net_table env sigar flags (proc_file (ne_host env) (''net/'' @ name)) protocol = Some t"
    by (auto simp: protocol_tables_def Option.bind_eq_Some_conv)
  show ?thesis
  proof (cases t)
    case (Inl e)
    then have "e \<noteq> SIGAR_OK" using net_table_errno [OF t [unfolded Inl]] assms(1) by (auto simp: errno_set_def)
    then show ?thesis using assms(2) False t Inl
      by (simp add: walk_protocol_def protocol_tables_def proc_net_read_table(1))
  next
    case (Inr cs)
    then obtain t6 where t6: "net_table env sigar flags (proc_file (ne_host env) (''net/'' @ name @ ''6'')) protocol = Some t6"
      using assms(2) False t by (auto simp: protocol_tables_def Option.bind_eq_Some_conv)
    show ?thesis using assms(2) False t Inr t6
      by (cases t6; cases "walk_until add cs d")
        (auto simp: walk_protocol_def protocol_tables_def proc_net_read_table Option.map_conv_bind_option Option.bind_assoc)
  qed
qed

lemma walk_protocol_error: "st \<noteq> SIGAR_OK \<Longrightarrow> walk_protocol env sigar add flags protocol name (st, d) = Some (st, d)"
  by (simp add: walk_protocol_def)

lemma walk_step:
  assumes "errno_set env" and "tables_append (st1, ts1) (protocol_tables env sigar flags protocol name) = Some (st2, ts2)"
  shows "Option.bind (map_option (Pair st1) (walk_tables add ts1 d)) (walk_protocol env sigar add flags protocol name)
    = map_option (Pair st2) (walk_tables add ts2 d)"
proof (cases "st1 = SIGAR_OK")
  case True
  with assms(2) obtain ts where p: "protocol_tables env sigar flags protocol name = Some (st2, ts)" "ts2 = ts1 @ ts"
    by (auto simp: tables_append_def)
  show ?thesis using walk_protocol_tables [OF assms(1) p(1)] True p(2)
    by (cases "walk_tables add ts1 d") (simp_all add: walk_tables_append)
next
  case False
  then show ?thesis using assms(2)
    by (cases "walk_tables add ts1 d") (simp_all add: tables_append_def walk_protocol_error)
qed

theorem walk_delivers_tables:
  assumes "errno_set env" and "net_tables env sigar flags = Some (st, ts)"
  shows "sigar_net_connection_walk env sigar add flags d = map_option (Pair st) (walk_tables add ts d)"
proof -
  from assms(2) obtain st1 ts1 st2 ts2 where
    1: "protocol_tables env sigar flags SIGAR_NETCONN_TCP ''tcp'' = Some (st1, ts1)" and
    2: "tables_append (st1, ts1) (protocol_tables env sigar flags SIGAR_NETCONN_UDP ''udp'') = Some (st2, ts2)" and
    3: "tables_append (st2, ts2) (protocol_tables env sigar flags SIGAR_NETCONN_RAW ''raw'') = Some (st, ts)"
    by (auto simp: net_tables_def Option.bind_eq_Some_conv)
  show ?thesis
    unfolding sigar_net_connection_walk_def walk_protocol_tables [OF assms(1) 1]
      Option.bind_assoc [symmetric] walk_step [OF assms(1) 2] walk_step [OF assms(1) 3] ..
qed

subsection \<open>Callbacks that never stop\<close>

lemma walk_until_all: "walk_until (\<lambda>d c. map_option (Pair SIGAR_OK) (f c d)) cs d = walk_all f cs d"
proof (induction cs arbitrary: d)
  case (Cons c cs)
  then show ?case by (cases "f c d") simp_all
qed simp

lemma walk_all_append: "walk_all f (cs @ ds) s = Option.bind (walk_all f cs s) (walk_all f ds)"
proof (induction cs arbitrary: s)
  case (Cons c cs)
  then show ?case by (cases "f c s") simp_all
qed simp

lemma walk_tables_all: "walk_tables (\<lambda>d c. map_option (Pair SIGAR_OK) (f c d)) ts d = walk_all f (concat ts) d"
proof (induction ts arbitrary: d)
  case (Cons t ts)
  then show ?case by (cases "walk_all f t d") (simp_all add: walk_until_all walk_all_append)
qed simp

text \<open>The statistics of \<open>Sigar_Netstat\<close> take the walk as a function from flags to a status and the
  connections delivered; on the tables this is that function.\<close>

definition linux_walk :: "linux_net_env \<Rightarrow> linux_sigar \<Rightarrow> nat \<Rightarrow> status \<times> sigar_net_connection list" where
  "linux_walk env sigar flags =
     (case net_tables env sigar flags of Some (st, ts) \<Rightarrow> (st, concat ts) | None \<Rightarrow> (- 1, []))"

lemma walk_is_linux_walk:
  assumes "errno_set env" and "net_tables env sigar flags \<noteq> None"
  shows "sigar_net_connection_walk env sigar (\<lambda>d c. map_option (Pair SIGAR_OK) (f c d)) flags d
    = map_option (Pair (fst (linux_walk env sigar flags))) (walk_all f (snd (linux_walk env sigar flags)) d)"
  using assms by (auto simp: linux_walk_def walk_delivers_tables walk_tables_all)

subsection \<open>The connection list\<close>

lemma list_walker_fill:
  "walk_until proc_net_walker cs \<lparr>cg_connlist = Some l, cg_conn = k, cg_port = p\<rparr>
    = map_option (\<lambda>l'. \<lparr>cg_connlist = Some l', cg_conn = k, cg_port = p\<rparr>) (clist_fill sigar_net_connection_list_grow l cs)"
proof (induction cs arbitrary: l)
  case (Cons c cs)
  then show ?case by (cases "clist_put sigar_net_connection_list_grow l c") (simp_all add: proc_net_walker_def)
qed simp

lemma list_walker_tables:
  assumes "clist_wf l"
  shows "\<exists>l'. walk_tables proc_net_walker ts \<lparr>cg_connlist = Some l, cg_conn = k, cg_port = p\<rparr>
      = Some \<lparr>cg_connlist = Some l', cg_conn = k, cg_port = p\<rparr> \<and> clist_wf l' \<and> clist_elems l' = clist_elems l @ concat ts"
  using assms
proof (induction ts arbitrary: l)
  case (Cons t ts)
  from connlist.fill_ok [OF Cons.prems] obtain l1 where
    l1: "clist_fill sigar_net_connection_list_grow l t = Some l1" "clist_wf l1" "clist_elems l1 = clist_elems l @ t" by blast
  from Cons.IH [OF l1(2)] l1 show ?case by (auto simp: list_walker_fill)
qed simp

lemma connection_list_tables:
  assumes "errno_set env" and "net_tables env sigar flags = Some (SIGAR_OK, ts)"
  shows "\<exists>l. sigar_net_connection_list_get env sigar flags = Some (SIGAR_OK, l) \<and> clist_wf l \<and> clist_elems l = concat ts"
proof -
  from list_walker_tables [OF connlist.create_wf, of ts zero_conn 0] obtain l where
    l: "walk_tables proc_net_walker ts \<lparr>cg_connlist = Some sigar_net_connection_list_create, cg_conn = zero_conn, cg_port = 0\<rparr>
      = Some \<lparr>cg_connlist = Some l, cg_conn = zero_conn, cg_port = 0\<rparr>" "clist_wf l" "clist_elems l = concat ts"
    by (auto simp: connlist.create_elems)
  then show ?thesis by (simp add: sigar_net_connection_list_get_def walk_delivers_tables [OF assms])
qed

subsection \<open>The connection of a port\<close>

definition listens_on :: "uint64 \<Rightarrow> sigar_net_connection \<Rightarrow> bool" where
  "listens_on port c \<longleftrightarrow> port = nc_local_port c \<and> nc_remote_port c = 0"

text \<open>The callback's answer only ends the table at hand, so a later table overwrites an earlier find.\<close>

definition last_listener :: "uint64 \<Rightarrow> sigar_net_connection list list \<Rightarrow> sigar_net_connection option" where
  "last_listener port ts = foldl (\<lambda>found t. case List.find (listens_on port) t of Some c \<Rightarrow> Some c | None \<Rightarrow> found) None ts"

lemma get_walker_find:
  "walk_until proc_net_walker cs \<lparr>cg_connlist = None, cg_conn = k, cg_port = p\<rparr>
    = Some \<lparr>cg_connlist = None, cg_conn = (case List.find (listens_on p) cs of Some c \<Rightarrow> c | None \<Rightarrow> k), cg_port = p\<rparr>"
  by (induction cs) (auto simp: proc_net_walker_def listens_on_def)

lemma last_listener_simps:
  "last_listener p [] = None"
  "last_listener p (ts @ [t]) = (case List.find (listens_on p) t of Some c \<Rightarrow> Some c | None \<Rightarrow> last_listener p ts)"
  by (simp_all add: last_listener_def split: option.split)

lemma get_walker_tables:
  "walk_tables proc_net_walker ts \<lparr>cg_connlist = None, cg_conn = k, cg_port = p\<rparr>
    = Some \<lparr>cg_connlist = None, cg_conn = (case last_listener p ts of Some c \<Rightarrow> c | None \<Rightarrow> k), cg_port = p\<rparr>"
proof (induction ts rule: rev_induct)
  case (snoc t ts)
  then show ?case
    by (cases "List.find (listens_on p) t") (simp_all add: walk_tables_append get_walker_find last_listener_simps)
qed (simp add: last_listener_simps)

lemma connection_get_tables:
  assumes "errno_set env" and "net_tables env sigar flags = Some (st, ts)"
  shows "sigar_net_connection_get env sigar netconn port flags =
    Some (st, case last_listener port ts of Some c \<Rightarrow> c | None \<Rightarrow> netconn)"
  by (simp add: sigar_net_connection_get_def walk_delivers_tables [OF assms] get_walker_tables)

lemma last_listener_listens: "last_listener p ts = Some c \<Longrightarrow> listens_on p c"
  by (induction ts rule: rev_induct) (auto simp: last_listener_simps find_Some_iff split: option.splits)

subsection \<open>The owner of a port\<close>

text \<open>A process owns a socket when one of the numeric entries of its descriptor directory has the
  socket's inode.\<close>

definition has_socket :: "linux_net_env \<Rightarrow> uint64 \<Rightarrow> string \<Rightarrow> bool" where
  "has_socket env inode d_name \<longleftrightarrow>
     (let dir = opt_string (ne_host env) @ ''/proc//'' @ d_name in
      (\<exists>sb. ne_stat env dir = Inr sb) \<and>
      (\<exists>fds. ne_opendir env (dir @ ''/fd'') = Inr fds \<and>
         (\<exists>fd \<in> set fds. starts_digit fd \<and> (\<exists>sb. ne_stat env (dir @ ''/fd/'' @ fd) = Inr sb \<and> st_ino sb = inode))))"

text \<open>Directory entries have at most 255 characters.\<close>

definition names_short :: "linux_net_env \<Rightarrow> bool" where
  "names_short env \<longleftrightarrow> length (opt_string (ne_host env)) \<le> 4096
     \<and> (\<forall>dir ents. ne_opendir env dir = Inr ents \<longrightarrow> list_all (\<lambda>d. length d \<le> 255) ents)"

lemma port_fd_loop_ok:
  assumes "list_all (\<lambda>d. length d \<le> 255) fds" and "length dir \<le> 5000"
  shows "port_fd_loop env inode dir fds =
    Some (\<exists>fd \<in> set fds. starts_digit fd \<and> (\<exists>sb. ne_stat env (dir @ ''/'' @ fd) = Inr sb \<and> st_ino sb = inode))"
  using assms by (induction fds) (auto simp: path_buf_def split: sum.split)

lemma port_owner_ok:
  assumes "names_short env" and "length d \<le> 255"
  shows "port_owner env inode (opt_string (ne_host env) @ ''/proc//'' @ d) = Some (has_socket env inode d)"
proof -
  have "length (opt_string (ne_host env)) \<le> 4096" using assms(1) by (simp add: names_short_def)
  then show ?thesis using assms port_fd_loop_ok [of _ "opt_string (ne_host env) @ ''/proc//'' @ d @ ''/fd''" env inode]
    by (auto simp: port_owner_def has_socket_def names_short_def path_buf_def Let_def split: sum.split)
qed

lemma port_pid_loop_ok:
  assumes "names_short env" and "list_all (\<lambda>d. length d \<le> 255) ents"
  shows "port_pid_loop env inode ents =
    Some (case List.find (\<lambda>d. starts_digit d \<and> has_socket env inode d) ents of
            Some d \<Rightarrow> ucast (fst (strtoull d)) | None \<Rightarrow> 0)"
  using assms(2)
proof (induction ents)
  case (Cons d ents)
  have "length (opt_string (ne_host env)) \<le> 4096" using assms(1) by (simp add: names_short_def)
  then show ?case using Cons port_owner_ok [OF assms(1), of d inode] by (auto simp: path_buf_def)
qed simp

text \<open>C28: the process behind a port. On every system whose tables can be read,
  \<open>sigar_proc_port_get\<close> takes the first listener on the port in the last table that has one (an
  IPv6 listener hides an IPv4 one, a UDP listener a TCP one) and returns the first process of
  \<open>/proc\<close> with a descriptor of that socket; 0 when there is no such process, and 0 without looking at the
  processes when no table has a listener.\<close>

theorem proc_port_owner:
  assumes "errno_set env" and "names_short env" and "port \<noteq> 0"
    and "net_tables env sigar (SIGAR_NETCONN_SERVER OR protocol) = Some (SIGAR_OK, ts)"
    and "ne_opendir env (opt_string (ne_host env) @ ''/proc/'') = Inr ents"
  shows "sigar_proc_port_get env sigar protocol port = Some (SIGAR_OK,
    case last_listener port ts of
      None \<Rightarrow> 0
    | Some c \<Rightarrow> (case List.find (\<lambda>d. starts_digit d \<and> has_socket env (nc_inode c) d) ents of
                  Some d \<Rightarrow> ucast (fst (strtoull d)) | None \<Rightarrow> 0))"
proof -
  have "list_all (\<lambda>d. length d \<le> 255) ents" using assms(2,5) by (auto simp: names_short_def)
  note pid = port_pid_loop_ok [OF assms(2) this]
  show ?thesis
  proof (cases "last_listener port ts")
    case None
    then show ?thesis using assms(3)
      by (simp add: sigar_proc_port_get_def connection_get_tables [OF assms(1,4)] zero_conn_def)
  next
    case (Some c)
    then have "nc_local_port c = port" using last_listener_listens [of port ts c] by (simp add: listens_on_def)
    then show ?thesis using Some assms(5)
      by (simp add: sigar_proc_port_get_def connection_get_tables [OF assms(1,4)] pid)
  qed
qed

end
