(* ===== verification/Linux_Nettable.thy ===== *)
theory Linux_Nettable
  imports Linux_Netconn
begin

text \<open>
  What the kernel prints in \<open>/proc/net/tcp\<close> and the tables like it, and that the walk of
  \<open>Linux_Netconn\<close> reads it back: hexadecimal fields of fixed width, lines, tables, and the
  connection list and statistics computed from them.
\<close>

unbundle bit_operations_syntax

section \<open>Hexadecimal fields of fixed width\<close>

fun hex_pad :: "nat \<Rightarrow> nat \<Rightarrow> string" where
  "hex_pad 0 v = []"
| "hex_pad (Suc n) v = hex_pad n (v div 16) @ [hex_digit (v mod 16)]"

lemma length_hex_pad [simp]: "length (hex_pad n v) = n"
  by (induction n arbitrary: v) simp_all

definition hex_chars :: "char set" where
  "hex_chars = set ''0123456789ABCDEF''"

lemma hex_digit_cases:
  "d < 16 \<Longrightarrow> hex_nibble (hex_digit d) = of_nat d"
  "d < 16 \<Longrightarrow> digit_val 16 (hex_digit d) = Some d"
  "d < 16 \<Longrightarrow> hex_digit d \<in> hex_chars"
proof -
  have *: "\<forall>d \<in> set [0..<16]. hex_nibble (hex_digit d) = of_nat d \<and> digit_val 16 (hex_digit d) = Some d
    \<and> hex_digit d \<in> hex_chars" unfolding hex_chars_def by code_simp
  assume "d < 16"
  then have "d \<in> set [0..<16]" by simp
  note r = * [rule_format, OF this]
  show "hex_nibble (hex_digit d) = of_nat d" using r by (rule conjunct1)
  show "digit_val 16 (hex_digit d) = Some d" using r [THEN conjunct2] by (rule conjunct1)
  show "hex_digit d \<in> hex_chars" using r [THEN conjunct2] by (rule conjunct2)
qed

lemma hex_pad_chars: "c \<in> set (hex_pad n v) \<Longrightarrow> c \<in> hex_chars"
proof (induction n arbitrary: v)
  case (Suc n)
  then show ?case using hex_digit_cases(3) [of "v mod 16"] by auto
qed simp

lemma hex_chars_plain:
  assumes "c \<in> hex_chars"
  shows "c \<noteq> CHR '':''" "c \<noteq> CHR '' ''" "\<not> isspace c" "c \<noteq> CHR ''-''" "c \<noteq> CHR ''+''" "tolower c \<noteq> CHR ''x''"
proof -
  have "list_all (\<lambda>c. c \<noteq> CHR '':'' \<and> c \<noteq> CHR '' '' \<and> \<not> isspace c \<and> c \<noteq> CHR ''-'' \<and> c \<noteq> CHR ''+'' \<and> tolower c \<noteq> CHR ''x'')
    ''0123456789ABCDEF''" by code_simp
  with assms show "c \<noteq> CHR '':''" "c \<noteq> CHR '' ''" "\<not> isspace c" "c \<noteq> CHR ''-''" "c \<noteq> CHR ''+''" "tolower c \<noteq> CHR ''x''"
    by (simp_all only: hex_chars_def list_all_iff not_False_eq_True)
qed

lemma hex_pad_plain:
  assumes "c \<in> set (hex_pad n v)"
  shows "c \<noteq> CHR '':''" "c \<noteq> CHR '' ''" "\<not> isspace c" "c \<noteq> CHR ''-''" "c \<noteq> CHR ''+''" "tolower c \<noteq> CHR ''x''"
  using hex_pad_chars [OF assms] hex_chars_plain by blast+

lemma nibble_step:
  assumes "d < 16"
  shows "push_bit 4 j OR (of_nat d :: uint32) = 16 * j + of_nat d"
proof -
  have "push_bit 4 j AND (of_nat d :: uint32) = 0"
  proof (rule bit_eqI)
    fix n
    show "bit (push_bit 4 j AND (of_nat d :: uint32)) n = bit (0 :: uint32) n"
    proof (cases "n < 4")
      case True
      then show ?thesis by (simp add: bit_simps)
    next
      case False
      have "take_bit 4 d = d" using assms by (simp add: take_bit_nat_eq_self_iff)
      then have "\<not> bit d n" using False by (metis bit_take_bit_iff)
      then show ?thesis by (simp add: bit_simps)
    qed
  qed
  then have "push_bit 4 j OR (of_nat d :: uint32) = push_bit 4 j + of_nat d" by (rule disjunctive_add_eq_or [symmetric])
  then show ?thesis by (simp add: push_bit_eq_mult mult.commute)
qed

lemma fold_hex_pad:
  "foldl (\<lambda>j ch. push_bit 4 j OR hex_nibble ch) 0 (hex_pad n v) = (of_nat (v mod 16 ^ n) :: uint32)"
proof (induction n arbitrary: v)
  case (Suc n)
  have "v mod 16 ^ Suc n = 16 * (v div 16 mod 16 ^ n) + v mod 16" by (simp add: mod_mult2_eq)
  then show ?case using Suc by (simp add: hex_digit_cases nibble_step)
qed simp

lemma hex2int_pad: "hex2int (hex_pad n v @ t) n = Some (of_nat (v mod 16 ^ n))"
  by (simp add: hex2int_def fold_hex_pad)

lemma hex2int_word: "hex2int (hex_pad 8 (unat w) @ t) 8 = Some w"
proof -
  have "unat w < 16 ^ 8" using unsigned_less [of w, where ?'a = nat] by simp
  then show ?thesis by (simp add: hex2int_pad)
qed

lemma scan_hex_pad:
  assumes "t = [] \<or> digit_val 16 (hd t) = None"
  shows "scan_base 16 k a (hex_pad n v @ t) = (k + n, a * 16 ^ n + v mod 16 ^ n, t)"
  using assms
proof (induction n arbitrary: v t)
  case 0
  then show ?case by (cases t) auto
next
  case (Suc n)
  have step: "scan_base 16 k a (hex_pad n w @ u) = scan_base 16 (k + n) (a * 16 ^ n + w mod 16 ^ n) u" for w u
  proof (induction n arbitrary: w u)
    case (Suc n)
    have "w mod (16 * 16 ^ n) = 16 * (w div 16 mod 16 ^ n) + w mod 16" by (simp add: mod_mult2_eq)
    with Suc show ?case by (simp add: hex_digit_cases algebra_simps)
  qed simp
  have "v mod (16 * 16 ^ n) = 16 * (v div 16 mod 16 ^ n) + v mod 16" by (simp add: mod_mult2_eq)
  then show ?case using Suc.prems by (cases t) (simp_all add: step hex_digit_cases algebra_simps)
qed

lemma strtou_hex_pad:
  assumes "v < 16 ^ n" and "1 < n" and "n \<le> 16" and "t = [] \<or> digit_val 16 (hd t) = None"
  shows "strtou 16 (hex_pad n v @ t) = (of_nat v, t)"
proof -
  obtain c d cs where h: "hex_pad n v = c # d # cs"
    using assms(2) length_hex_pad [of n v] by (cases "hex_pad n v"; cases "tl (hex_pad n v)") auto
  have cd: "c \<in> set (hex_pad n v)" "d \<in> set (hex_pad n v)" by (simp_all add: h)
  have "skip_space (hex_pad n v @ t) = hex_pad n v @ t" using hex_pad_plain(3) [OF cd(1)] by (simp add: h)
  then have s: "scan_sign (skip_space (hex_pad n v @ t)) = (False, hex_pad n v @ t)"
    using hex_pad_plain [OF cd(1)] by (simp add: h)
  have x: "map tolower (take 2 (hex_pad n v @ t)) \<noteq> ''0x''"
    using hex_pad_plain(6) [OF cd(2)] by (simp add: h)
  have "(16 :: nat) ^ n \<le> 16 ^ 16" using assms(3) by (intro power_increasing) simp_all
  with assms(1) have "v < 16 ^ 16" by (rule less_le_trans)
  then have "v < 2 ^ 64" by simp
  then show ?thesis using s x scan_hex_pad [OF assms(4), of 0 0 n v] assms(1,2)
    by (simp add: strtou_def Let_def)
qed

section \<open>A line of a table\<close>

text \<open>The kernel's format is \<open>%4d: %08X:%04X %08X:%04X %02X %08X:%08X %02X:%08lX %08X %5u %8d %lu\<close> and more
  fields; an IPv6 address is four such words. Timer and retransmission fields are skipped by the
  code and left open here.\<close>

record net_entry =
  te_pad :: nat
  te_sl :: nat
  te_local :: "uint32 list"
  te_lport :: "16 word"
  te_remote :: "uint32 list"
  te_rport :: "16 word"
  te_state :: "8 word"
  te_tx :: uint32
  te_rx :: uint32
  te_timer :: string
  te_retrnsmt :: string
  te_upad :: nat
  te_uid :: uint32
  te_tpad :: nat
  te_timeout :: nat
  te_inode :: uint64
  te_tail :: string

definition addr_text :: "uint32 list \<Rightarrow> string" where
  "addr_text ws = concat (map (\<lambda>w. hex_pad 8 (unat w)) ws)"

definition end_text :: "uint32 list \<Rightarrow> 16 word \<Rightarrow> string" where
  "end_text ws p = addr_text ws @ '':'' @ hex_pad 4 (unat p)"

definition entry_tail :: "net_entry \<Rightarrow> string" where
  "entry_tail e = hex_pad 2 (unat (te_state e)) @ '' '' @ hex_pad 8 (unat (te_tx e)) @ '':'' @ hex_pad 8 (unat (te_rx e)) @ '' '' @
     te_timer e @ '' '' @ te_retrnsmt e @ '' '' @ replicate (te_upad e) (CHR '' '') @ dec_digits (unat (te_uid e)) @ '' '' @
     replicate (te_tpad e) (CHR '' '') @ dec_digits (te_timeout e) @ '' '' @ dec_digits (unat (te_inode e)) @ te_tail e"

definition entry_line :: "net_entry \<Rightarrow> string" where
  "entry_line e = replicate (te_pad e) (CHR '' '') @ dec_digits (te_sl e) @ '': '' @
     end_text (te_local e) (te_lport e) @ '' '' @ end_text (te_remote e) (te_rport e) @ '' '' @ entry_tail e"

definition word_ok :: "string \<Rightarrow> bool" where
  "word_ok w \<longleftrightarrow> w \<noteq> [] \<and> list_all (\<lambda>c. c \<noteq> CHR '' '') w"

definition entry_ok :: "net_entry \<Rightarrow> bool" where
  "entry_ok e \<longleftrightarrow> length (te_local e) \<in> {1, 4} \<and> length (te_remote e) \<in> {1, 4}
     \<and> word_ok (te_timer e) \<and> word_ok (te_retrnsmt e) \<and> ends_field (te_tail e)"

definition address_of :: "sigar_net_address \<Rightarrow> uint32 list \<Rightarrow> sigar_net_address" where
  "address_of old ws =
     (if length ws = 4 then old\<lparr>na_addr := concat (map uint32_bytes ws), na_family := SIGAR_AF_INET6\<rparr>
      else old\<lparr>na_addr := uint32_bytes (ws ! 0) @ drop 4 (na_addr old), na_family := SIGAR_AF_INET\<rparr>)"

definition conn_of :: "nat \<Rightarrow> sigar_net_connection \<Rightarrow> net_entry \<Rightarrow> sigar_net_connection" where
  "conn_of type conn e = conn\<lparr>nc_local_port := ucast (te_lport e), nc_local_address := address_of (nc_local_address conn) (te_local e),
     nc_remote_port := ucast (te_rport e), nc_remote_address := address_of (nc_remote_address conn) (te_remote e),
     nc_uid := te_uid e, nc_inode := te_inode e, nc_type := type, nc_state := uint (te_state e),
     nc_send_queue := ucast (te_tx e), nc_receive_queue := ucast (te_rx e)\<rparr>"

text \<open>Bit 0 of the flags asks for clients, bit 1 for servers.\<close>

definition entry_wanted :: "nat \<Rightarrow> net_entry \<Rightarrow> bool" where
  "entry_wanted flags e = (if te_rport e = 0 then bit flags 1 else bit flags 0)"

lemma entry_wanted_iff: "entry_wanted flags e = net_wanted flags (ucast (te_rport e))"
proof -
  have "(ucast p = (0 :: uint64)) = (p = 0)" for p :: uint16 by transfer simp
  moreover have "(flags AND 1 \<noteq> 0) = bit flags 0" "(flags AND 2 \<noteq> 0) = bit flags 1"
    using and_exp_eq_0_iff_not_bit [of flags 0] and_exp_eq_0_iff_not_bit [of flags 1] by simp_all
  ultimately show ?thesis by (simp add: entry_wanted_def net_wanted_def)
qed

subsection \<open>Addresses\<close>

lemma addr_text_chars: "c \<in> set (addr_text ws) \<Longrightarrow> c \<noteq> CHR '':'' \<and> c \<noteq> CHR '' ''"
  using hex_pad_plain(1,2) [of c 8] by (auto simp: addr_text_def)

lemma length_addr_text: "length (addr_text ws) = 8 * length ws"
  by (induction ws) (simp_all add: addr_text_def)

lemma convert_addr:
  assumes "length ws \<in> {1, 4}"
  shows "convert_hex_address old (addr_text ws @ t) (8 * length ws) = Some (address_of old ws)"
proof -
  consider w where "ws = [w]" | a b c d where "ws = [a, b, c, d]"
    using assms by (auto simp: length_Suc_conv numeral_eq_Suc)
  then show ?thesis
  proof cases
    case 1
    then show ?thesis by (simp add: convert_hex_address_def addr_text_def hex2int_word address_of_def)
  next
    case 2
    have d: "drop 8 (hex_pad 8 v @ u) = u" for v u by simp
    have "drop 16 (hex_pad 8 (unat a) @ hex_pad 8 (unat b) @ u) = u" for u by simp
    moreover have "drop 24 (hex_pad 8 (unat a) @ hex_pad 8 (unat b) @ hex_pad 8 (unat c) @ u) = u" for u by simp
    ultimately show ?thesis using 2 by (simp add: convert_hex_address_def addr_text_def hex2int_word address_of_def)
  qed
qed

lemma port_masked: "(of_nat (unat p) :: uint64) AND 0xFFFF = ucast (p :: 16 word)"
proof -
  have "(0xFFFF :: uint64) = mask 16" by (simp add: mask_eq_exp_minus_1)
  then have "(of_nat (unat p) :: uint64) AND 0xFFFF = take_bit 16 (ucast p)" by (simp add: take_bit_eq_mask)
  also have "\<dots> = ucast p" by (rule bit_word_eqI) (auto simp: bit_simps dest: bit_imp_le_length)
  finally show ?thesis .
qed

lemma run_scan_end:
  assumes "t = [] \<or> hd t \<noteq> CHR '' ''"
  shows "run_state scan_end (end_text ws p @ CHR '' '' # t) = (((end_text ws p @ CHR '' '' # t, 8 * length ws), ucast p), t)"
proof -
  let ?h = "hex_pad 4 (unat p)"
  have a: "takeWhile (\<lambda>d. d \<noteq> CHR '':'') (addr_text ws @ CHR '':'' # u) = addr_text ws"
    "dropWhile (\<lambda>d. d \<noteq> CHR '':'') (addr_text ws @ CHR '':'' # u) = CHR '':'' # u" for u
    using addr_text_chars by (simp_all add: takeWhile_append dropWhile_append)
  have "unat p < 16 ^ 4" using unsigned_less [of p, where ?'a = nat] by simp
  moreover have "digit_val 16 (CHR '' '') = None" by code_simp
  ultimately have s: "strtou 16 (?h @ CHR '' '' # t) = (of_nat (unat p), CHR '' '' # t)" by (intro strtou_hex_pad) simp_all
  obtain c cs where c: "?h = c # cs" using length_hex_pad [of 4 "unat p"] by (cases ?h) simp_all
  then have "c \<noteq> CHR '':''" using hex_pad_plain(1) [of c 4 "unat p"] by simp
  then have h: "dropWhile (\<lambda>d. d = CHR '':'') (?h @ u) = ?h @ u" for u by (simp add: c)
  have t: "dropWhile (\<lambda>d. d = CHR '' '') t = t" using assms by (cases t) auto
  show ?thesis
    by (simp add: scan_end_def scan_addr_def SKIP_WHILE_def scan_port_def end_text_def a h s t length_addr_text
        port_masked [unfolded of_nat_unat])
qed

subsection \<open>The rest of the line\<close>

lemma blanks_skipped:
  "dropWhile (\<lambda>d. d = CHR '' '') (replicate n (CHR '' '') @ t) = dropWhile (\<lambda>d. d = CHR '' '') t"
  by (induction n) simp_all

lemma word_kept: "word_ok w \<Longrightarrow> dropWhile (\<lambda>d. d = CHR '' '') (w @ t) = w @ t"
  by (cases w) (auto simp: word_ok_def)

lemma word_past: "word_ok w \<Longrightarrow> dropWhile (\<lambda>d. d \<noteq> CHR '' '') (w @ CHR '' '' # t) = CHR '' '' # t"
  by (auto simp: word_ok_def list_all_iff dropWhile_append)

lemma word_ok_dec: "word_ok (dec_digits n)"
  using field_ok_dec [of n] by (auto simp: word_ok_def field_ok_def list_all_iff)

lemma word_ok_hex: "0 < n \<Longrightarrow> word_ok (hex_pad n v)"
  using hex_pad_plain(2) [of "CHR '' ''" n v] by (cases n) (auto simp: word_ok_def list_all_iff)

lemma run_uid_inode:
  assumes "word_ok timer" and "word_ok retr" and "ends_field tail" and "uid < 2 ^ 64" and "inode < 2 ^ 64"
  shows "fst (run_state scan_uid_inode (CHR '' '' # timer @ CHR '' '' # retr @ CHR '' '' # replicate k (CHR '' '') @ dec_digits uid @ CHR '' '' #
      replicate m (CHR '' '') @ dec_digits timeout @ CHR '' '' # dec_digits inode @ tail)) = (of_nat uid, of_nat inode)"
proof -
  note skip = blanks_skipped word_kept [OF assms(1)] word_past [OF assms(1)] word_kept [OF assms(2)] word_past [OF assms(2)]
    word_kept [OF word_ok_dec] word_past [OF word_ok_dec]
  show ?thesis
    using assms(3-5) by (simp add: scan_uid_inode_def SKIP_WHILE_def SKIP_PAST_def skip run_strtoull_dec)
qed

lemma net_conn_fill_entry:
  assumes "entry_ok e"
  shows "net_conn_fill type (((end_text (te_local e) (te_lport e) @ u, 8 * length (te_local e)), ucast (te_lport e)),
      (end_text (te_remote e) (te_rport e) @ v, 8 * length (te_remote e)), ucast (te_rport e)) (entry_tail e) conn
    = Some (conn_of type conn e)"
proof -
  have ok: "word_ok (te_timer e)" "word_ok (te_retrnsmt e)" "ends_field (te_tail e)"
    "length (te_local e) \<in> {1, 4}" "length (te_remote e) \<in> {1, 4}" using assms by (simp_all add: entry_ok_def)
  have uid: "unat (te_uid e) < 2 ^ 64" "unat (te_inode e) < 2 ^ 64"
    using unsigned_less [of "te_uid e", where ?'a = nat] unsigned_less [of "te_inode e", where ?'a = nat] by simp_all
  have addr: "convert_hex_address old (end_text (te_local e) (te_lport e) @ u) (8 * length (te_local e)) = Some (address_of old (te_local e))"
    "convert_hex_address old (end_text (te_remote e) (te_rport e) @ v) (8 * length (te_remote e)) = Some (address_of old (te_remote e))" for old
    using convert_addr [OF ok(4)] convert_addr [OF ok(5)] by (simp_all add: end_text_def)
  have st: "unat (te_state e) < 16 ^ 2" using unsigned_less [of "te_state e", where ?'a = nat] by simp
  then have state: "hex2int (hex_pad 2 (unat (te_state e)) @ t) 2 = Some (ucast (te_state e))" for t
    by (simp add: hex2int_pad)
  have sint: "sint (ucast (te_state e) :: uint32) = uint (te_state e)"
    using uint_bounded [of "te_state e"] order_trans [of "- 2147483648" 0 "uint (te_state e)"]
    by (simp add: signed_ucast_eq signed_take_bit_int_eq_self_iff)
  have down: "(ucast (ucast (te_uid e) :: uint64) :: uint32) = te_uid e" by (rule bit_word_eqI) (auto simp: bit_simps)
  have add: "ptr_add (hex_pad n w @ t) n = Some t" for n w t by (simp add: ptr_add_def)
  have add9: "ptr_add (hex_pad 8 w @ c # t) 9 = Some t" for w c t by (simp add: ptr_add_def)
  have keep: "dropWhile (\<lambda>d. d = CHR '' '') (hex_pad 8 w @ t) = hex_pad 8 w @ t" for w t
    by (rule word_kept [OF word_ok_hex]) simp
  show ?thesis
    using run_uid_inode [OF ok(1,2,3) uid]
    by (simp add: net_conn_fill_def entry_tail_def addr state add add9 keep hex2int_word conn_of_def sint down)
qed

lemma run_scan_ends:
  "run_state scan_ends (entry_line e) =
    ((((end_text (te_local e) (te_lport e) @ CHR '' '' # end_text (te_remote e) (te_rport e) @ CHR '' '' # entry_tail e, 8 * length (te_local e)),
       ucast (te_lport e)),
      (end_text (te_remote e) (te_rport e) @ CHR '' '' # entry_tail e, 8 * length (te_remote e)), ucast (te_rport e)), entry_tail e)"
proof -
  have first: "end_text ws p @ t \<noteq> [] \<and> hd (end_text ws p @ t) \<noteq> CHR '' ''" for ws p t
    using addr_text_chars [of "hd (addr_text ws)" ws] by (cases "addr_text ws") (auto simp: end_text_def)
  have keep: "dropWhile (\<lambda>d. d = CHR '' '') (end_text ws p @ t) = end_text ws p @ t" for ws p t
    using first [of ws p t] by (cases "end_text ws p @ t") auto
  have tl: "entry_tail e = [] \<or> hd (entry_tail e) \<noteq> CHR '' ''"
    using hex_pad_plain(2) [of "hd (hex_pad 2 (unat (te_state e)))" 2 "unat (te_state e)"] length_hex_pad [of 2 "unat (te_state e)"]
    by (cases "hex_pad 2 (unat (te_state e))") (auto simp: entry_tail_def)
  have "word_ok (dec_digits (te_sl e) @ '':'')" using word_ok_dec [of "te_sl e"] by (simp add: word_ok_def)
  from word_past [OF this] word_kept [OF this]
  have sl: "dropWhile (\<lambda>d. d \<noteq> CHR '' '') (dec_digits (te_sl e) @ '': '' @ t) = CHR '' '' # t"
    "dropWhile (\<lambda>d. d = CHR '' '') (dec_digits (te_sl e) @ '': '' @ t) = dec_digits (te_sl e) @ '': '' @ t" for t by simp_all
  have r: "run_state scan_end (end_text ws p @ CHR '' '' # end_text ws' p' @ t) =
      (((end_text ws p @ CHR '' '' # end_text ws' p' @ t, 8 * length ws), ucast p), end_text ws' p' @ t)" for ws p ws' p' t
    using first [of ws' p' t] by (intro run_scan_end) blast
  show ?thesis using tl
    by (simp add: scan_ends_def entry_line_def SKIP_WHILE_def SKIP_PAST_def blanks_skipped sl [simplified] keep r run_scan_end)
qed

lemma net_line_entry:
  assumes "entry_ok e"
  shows "net_line flags type conn (entry_line e) = Some (if entry_wanted flags e then Some (conn_of type conn e) else None)"
  using net_conn_fill_entry [OF assms] by (simp add: net_line_def run_scan_ends entry_wanted_iff)

subsection \<open>Tables\<close>

fun entry_conns :: "nat \<Rightarrow> nat \<Rightarrow> (nat \<Rightarrow> sigar_net_connection) \<Rightarrow> net_entry list \<Rightarrow> sigar_net_connection list" where
  "entry_conns flags type uninit [] = []"
| "entry_conns flags type uninit (e # es) =
     (if entry_wanted flags e then [conn_of type (uninit (length es)) e] else []) @ entry_conns flags type uninit es"

lemma table_conns_entries:
  "list_all entry_ok es \<Longrightarrow> table_conns flags type uninit (map entry_line es) = Some (entry_conns flags type uninit es)"
  by (induction es) (simp_all add: net_line_entry)

text \<open>The files of a protocol as the kernel presents them: the IPv4 table, and the IPv6 table unless
  the kernel is built without.\<close>

definition shows_table :: "linux_net_env \<Rightarrow> string \<Rightarrow> net_entry list \<Rightarrow> bool" where
  "shows_table env fname es \<longleftrightarrow> list_all entry_ok es \<and> (\<exists>header. ne_fopen env fname = Inr (header # map entry_line es))"

lemma net_table_entries:
  "ls_proc_net sigar = None \<Longrightarrow> shows_table env fname es \<Longrightarrow>
   net_table env sigar flags fname type = Some (Inr (entry_conns flags type (ne_uninit env fname) es))"
  by (auto simp: shows_table_def net_table_def table_conns_entries)

definition net_file :: "linux_net_env \<Rightarrow> string \<Rightarrow> string" where
  "net_file env name = proc_file (ne_host env) (''net/'' @ name)"

lemma tcp_tables:
  assumes "ls_proc_net sigar = None" and "flags \<in> {0x11, 0x12, 0x13}"
    and "shows_table env (net_file env ''tcp'') es"
    and "shows_table env (net_file env ''tcp6'') es6 \<or> es6 = [] \<and> ne_fopen env (net_file env ''tcp6'') = Inl ENOENT"
  shows "net_tables env sigar flags = Some (SIGAR_OK,
    entry_conns flags SIGAR_NETCONN_TCP (ne_uninit env (net_file env ''tcp'')) es #
    (if shows_table env (net_file env ''tcp6'') es6
     then [entry_conns flags SIGAR_NETCONN_TCP (ne_uninit env (net_file env ''tcp6'')) es6] else []))"
proof -
  have f: "flags AND 0x10 \<noteq> 0" "flags AND 0x20 = 0" "flags AND 0x40 = 0" using assms(2) by auto
  have t: "net_table env sigar flags (proc_file (ne_host env) (''net/'' @ ''tcp'')) 0x10
      = Some (Inr (entry_conns flags 0x10 (ne_uninit env (net_file env ''tcp'')) es))"
    using net_table_entries [OF assms(1,3)] by (simp add: net_file_def)
  have u: "protocol_tables env sigar flags 0x20 ''udp'' = Some (0, [])" "protocol_tables env sigar flags 0x40 ''raw'' = Some (0, [])"
    using f by (simp_all add: protocol_tables_def)
  from assms(4) show ?thesis
  proof
    assume a: "shows_table env (net_file env ''tcp6'') es6"
    have "net_table env sigar flags (proc_file (ne_host env) (''net/'' @ ''tcp'' @ ''6'')) 0x10
      = Some (Inr (entry_conns flags 0x10 (ne_uninit env (net_file env ''tcp6'')) es6))"
      using net_table_entries [OF assms(1) a] by (simp add: net_file_def)
    with a t f u show ?thesis by (simp add: net_tables_def tables_append_def protocol_tables_def)
  next
    assume a: "es6 = [] \<and> ne_fopen env (net_file env ''tcp6'') = Inl ENOENT"
    then have "net_table env sigar flags (proc_file (ne_host env) (''net/'' @ ''tcp'' @ ''6'')) 0x10 = Some (Inl ENOENT)"
      using assms(1) by (simp add: net_table_def net_file_def)
    moreover have "\<not> shows_table env (net_file env ''tcp6'') es6" using a by (simp add: shows_table_def)
    ultimately show ?thesis using t f u a by (simp add: net_tables_def tables_append_def protocol_tables_def)
  qed
qed


text \<open>Statistics over the tables: with both directions asked for, every entry is delivered.\<close>

lemma entry_conns_all:
  "entry_conns 0x13 type uninit es = map (\<lambda>(i, e). conn_of type (uninit i) e) (zip (rev [0..<length es]) es)"
  by (induction es) (simp_all add: entry_wanted_iff net_wanted_def)

lemma count_states:
  "length (filter (\<lambda>k. is_tcp k \<and> nc_state k = int i) (entry_conns 0x13 0x10 uninit es)) = length (filter (\<lambda>e. unat (te_state e) = i) es)"
proof (induction es)
  case (Cons e es)
  have "(uint (te_state e) = int i) = (unat (te_state e) = i)" by (metis nat_int uint_nat)
  with Cons show ?case by (simp add: entry_wanted_iff net_wanted_def is_tcp_def conn_of_def)
qed simp

text \<open>C27: from the text of the kernel to the statistics. When the TCP tables list states below
  \<open>SIGAR_TCP_UNKNOWN\<close>, walking them with the statistics callback succeeds and the counter of each
  state is the number of table entries in that state.\<close>

theorem tcp_states_of_kernel_tables:
  assumes "errno_set env" and "ls_proc_net sigar = None"
    and "shows_table env (net_file env ''tcp'') es"
    and "shows_table env (net_file env ''tcp6'') es6 \<or> es6 = [] \<and> ne_fopen env (net_file env ''tcp6'') = Inl ENOENT"
    and "list_all (\<lambda>e. unat (te_state e) < 14) (es @ es6)" and "length es + length es6 < 2 ^ 31"
  shows "\<exists>ns c. sigar_net_stat_get (linux_walk env sigar) now None 0x13 = Some (SIGAR_OK, ns, c)
    \<and> sigar_net_connection_walk env sigar (\<lambda>d k. map_option (Pair SIGAR_OK) (net_stat_walker now k d)) 0x13
        (zero_net_stat, sigar_cache_new 32 now) = Some (SIGAR_OK, ns, c)
    \<and> (\<forall>i < 14. ns_tcp_states ns ! i = of_nat (length (filter (\<lambda>e. unat (te_state e) = i) (es @ es6))))"
proof -
  let ?ks = "entry_conns 0x13 0x10 (ne_uninit env (net_file env ''tcp'')) es @
    entry_conns 0x13 0x10 (ne_uninit env (net_file env ''tcp6'')) es6"
  from tcp_tables [where flags = "0x13", OF assms(2) _ assms(3,4)] assms(4) obtain ts where
    ts: "net_tables env sigar 0x13 = Some (SIGAR_OK, ts)" "concat ts = ?ks"
    by (cases "shows_table env (net_file env ''tcp6'') es6") auto
  have w: "linux_walk env sigar 0x13 = (SIGAR_OK, ?ks)" using ts by (simp add: linux_walk_def)
  have ok1: "states_ok (entry_conns 0x13 0x10 u xs)" if "list_all (\<lambda>e. unat (te_state e) < 14) xs" for u xs
    using that
  proof (induction xs)
    case (Cons e xs)
    then have "unat (te_state e) < 14" by simp
    then have "int (unat (te_state e)) < int 14" by (simp only: of_nat_less_iff)
    then have "uint (te_state e) < 14" by (simp only: uint_nat [symmetric] of_nat_numeral)
    with Cons show ?case by (simp add: states_ok_def conn_of_def entry_wanted_iff net_wanted_def)
  qed (simp add: states_ok_def)
  then have ok: "states_ok ?ks" using assms(5) by (simp add: states_ok_def)
  have "length ?ks + 0 < 2 ^ 31" using assms(6) by (simp add: entry_conns_all)
  then have "listen_ready (length ?ks + 0) None" by (simp add: listen_ready_def)
  from net_stat_get_ok [where walk = "linux_walk env sigar" and flags = "0x13" and now = now, OF this w ok refl] obtain ns c where
    r: "sigar_net_stat_get (linux_walk env sigar) now None 0x13 = Some (SIGAR_OK, ns, c)"
      "\<forall>i < 14. ns_tcp_states ns ! i = of_nat (length (filter (\<lambda>k. is_tcp k \<and> nc_state k = int i) ?ks))" by blast
  have "sigar_net_connection_walk env sigar (\<lambda>d k. map_option (Pair SIGAR_OK) (net_stat_walker now k d)) 0x13
      (zero_net_stat, sigar_cache_new 32 now) = Some (SIGAR_OK, ns, c)"
    using walk_is_linux_walk [OF assms(1), of sigar "0x13" "net_stat_walker now"] ts(1) r(1)
    by (auto simp: sigar_net_stat_get_def w)
  with r show ?thesis by (auto simp: count_states)
qed

section \<open>Examples\<close>

definition example_entry :: "uint32 \<Rightarrow> 16 word \<Rightarrow> 16 word \<Rightarrow> 8 word \<Rightarrow> uint64 \<Rightarrow> net_entry" where
  "example_entry addr lport rport st inode = \<lparr>te_pad = 3, te_sl = 0, te_local = [addr], te_lport = lport, te_remote = [0], te_rport = rport,
     te_state = st, te_tx = 0, te_rx = 0, te_timer = ''00:00000000'', te_retrnsmt = ''00000000'', te_upad = 5, te_uid = 0, te_tpad = 8,
     te_timeout = 0, te_inode = inode, te_tail = '' 1''\<rparr>"

definition example_entries :: "net_entry list" where
  "example_entries = [example_entry 0x0100007F 80 0 10 4711, example_entry 0x0100007F 80 40000 1 4712]"

definition example_stat_info :: "uint64 \<Rightarrow> stat_info" where
  "example_stat_info ino = \<lparr>st_mode = 0, st_uid = 0, st_gid = 0, st_size = 0, st_ino = ino, st_dev = 0, st_rdev = 0, st_nlink = 1,
     st_atime = 0, st_mtime = 0, st_ctime = 0\<rparr>"

definition example_env :: linux_net_env where
  "example_env = \<lparr>ne_host = None,
     ne_stat = (\<lambda>p. if p \<in> {''/proc//1'', ''/proc//42''} then Inr (example_stat_info 1)
                    else if p = ''/proc//42/fd/3'' then Inr (example_stat_info 4711) else Inl ENOENT),
     ne_fopen = (\<lambda>p. if p = ''/proc/net/tcp'' then Inr (''header'' # map entry_line example_entries) else Inl ENOENT),
     ne_popen = (\<lambda>_. None),
     ne_opendir = (\<lambda>p. if p = ''/proc/'' then Inr [''self'', ''1'', ''42''] else if p = ''/proc//1/fd'' then Inr [''0'']
                       else if p = ''/proc//42/fd'' then Inr [''.'', ''3''] else Inl ENOENT),
     ne_uninit = (\<lambda>_ _. zero_conn)\<rparr>"

lemma example_files:
  "ne_fopen example_env (net_file example_env ''tcp'') = Inr (''header'' # map entry_line example_entries)"
  "ne_fopen example_env (net_file example_env ''tcp6'') = Inl ENOENT" "errno_set example_env" "ls_proc_net example_sigar = None"
  by (simp_all add: example_env_def net_file_def proc_file_def opt_string_def errno_set_def example_sigar_def sigar_proc_path_def)

lemma example_shows: "shows_table example_env (net_file example_env ''tcp'') example_entries"
  unfolding shows_table_def example_files
  by (simp add: example_entries_def example_entry_def entry_ok_def word_ok_def)


theorem tcp_states_of_kernel_tables_witness:
  "\<exists>ns c. sigar_net_stat_get (linux_walk example_env example_sigar) 7 None 0x13 = Some (0, ns, c)
    \<and> ns_tcp_states ns ! 1 = 1 \<and> ns_tcp_states ns ! 10 = 1 \<and> ns_tcp_states ns ! 2 = 0"
proof -
  have s: "list_all (\<lambda>e. unat (te_state e) < 14) (example_entries @ [])" "length example_entries + length ([] :: net_entry list) < 2 ^ 31"
    by (simp_all add: example_entries_def example_entry_def)
  from tcp_states_of_kernel_tables [where now = 7, OF example_files(3,4) example_shows disjI2 s] example_files(2) obtain ns c where
    "sigar_net_stat_get (linux_walk example_env example_sigar) 7 None 0x13 = Some (0, ns, c)"
    and "\<forall>i < 14. ns_tcp_states ns ! i = of_nat (length (filter (\<lambda>e. unat (te_state e) = i) (example_entries @ [])))" by blast
  then show ?thesis by (intro exI [of _ ns] exI [of _ c]) (simp add: example_entries_def example_entry_def)
qed

theorem proc_port_owner_witness:
  "sigar_proc_port_get example_env example_sigar 0x10 80 = Some (0, 42)"
proof -
  let ?c = "conn_of 0x10 zero_conn (example_entry 0x0100007F 80 0 10 4711)"
  have "entry_conns 0x12 0x10 (ne_uninit example_env (net_file example_env ''tcp'')) example_entries = [?c]"
    by (simp add: example_entries_def example_entry_def entry_wanted_iff net_wanted_def example_env_def)
  moreover have "\<not> shows_table example_env (net_file example_env ''tcp6'') []" by (simp add: shows_table_def example_files)
  ultimately have t: "net_tables example_env example_sigar (0x02 OR 0x10) = Some (0, [[?c]])"
    using tcp_tables [where flags = "0x12" and ?es6.0 = "[]", OF example_files(4) _ example_shows] example_files(2) by simp
  have n: "names_short example_env" by (auto simp: names_short_def example_env_def opt_string_def split: if_splits)
  have o: "ne_opendir example_env (opt_string (ne_host example_env) @ ''/proc/'') = Inr [''self'', ''1'', ''42'']"
    by (simp add: example_env_def opt_string_def)
  have l: "last_listener 80 [[?c]] = Some ?c" by (simp add: last_listener_def listens_on_def conn_of_def example_entry_def)
  have i: "nc_inode ?c = 4711" by (simp add: conn_of_def example_entry_def)
  have h: "\<not> starts_digit ''self''" "starts_digit ''1''" "starts_digit ''42''" "starts_digit ''0''" "starts_digit ''3''"
    by (simp_all add: starts_digit_def isdigit_def)
  have s: "\<not> has_socket example_env 4711 ''1''" "has_socket example_env 4711 ''42''"
    by (simp_all add: has_socket_def example_env_def opt_string_def example_stat_info_def h)
  have "fst (strtoull ''42'') = 42" by code_simp
  with proc_port_owner [OF example_files(3) n _ t o, of 80] show ?thesis
    by (simp add: l i h s)
qed

end
