(* ===== verification/Linux_Netinfo.thy ===== *)
theory Linux_Netinfo
  imports Linux_Nettable
begin

text \<open>
  Routes, the ARP table, interface counters, IPv6 addresses, and the TCP and NFS counters of
  \<open>src/os/linux/linux_sigar.c\<close>. The first section models the part of \<open>sscanf\<close> these parsers use. The
  theorems read back the counters and routes the kernel prints.
\<close>

unbundle bit_operations_syntax

section \<open>Scanning with a format\<close>

text \<open>\<open>%<w>s\<close>, \<open>%x\<close> and \<open>%ld\<close> with an optional width (0 for none), white space and other characters of the
  format. A conversion stores the 64-bit value that the receiving object is assigned from.\<close>

datatype conv = ConvStr nat | ConvNum nat nat bool | ConvBlank | ConvChar char

datatype cval = ValStr string | ValNum uint64

text \<open>The digits of one number, within the width: a \<open>0x\<close> in front of a hexadecimal number needs a digit
  after it. Out of range values saturate.\<close>

definition num_value :: "bool \<Rightarrow> bool \<Rightarrow> nat \<Rightarrow> uint64" where
  "num_value is_signed neg v =
     (if is_signed then
        (if neg then (if 2 ^ 63 < v then of_int (- (2 ^ 63)) else - of_nat v)
         else (if 2 ^ 63 \<le> v then of_nat (2 ^ 63 - 1) else of_nat v))
      else if 2 ^ 64 \<le> v then - 1 else if neg then - of_nat v else of_nat v)"

definition scan_num :: "nat \<Rightarrow> bool \<Rightarrow> string \<Rightarrow> (uint64 \<times> string) option" where
  "scan_num base is_signed s =
     (let (neg, t) = scan_sign s;
          u = (if base = 16 \<and> map tolower (take 2 t) = ''0x'' then drop 2 t else t);
          (n, v, r) = scan_base base 0 0 u
      in if n = 0 then None else Some (num_value is_signed neg v, r))"

fun sscanf :: "conv list \<Rightarrow> string \<Rightarrow> cval list \<times> string" where
  "sscanf [] s = ([], s)"
| "sscanf (ConvBlank # cs) s = sscanf cs (skip_space s)"
| "sscanf (ConvChar c # cs) s = (if take 1 s = [c] then sscanf cs (drop 1 s) else ([], s))"
| "sscanf (ConvStr w # cs) s =
     (let t = skip_space s; f = takeWhile (\<lambda>c. \<not> isspace c) (take w t) in
      if f = [] then ([], t) else apfst (Cons (ValStr f)) (sscanf cs (drop (length f) t)))"
| "sscanf (ConvNum base w is_signed # cs) s =
     (let t = skip_space s; field = (if w = 0 then t else take w t) in
      case scan_num base is_signed field of
        None \<Rightarrow> ([], t)
      | Some (v, r) \<Rightarrow> apfst (Cons (ValNum v)) (sscanf cs (r @ drop (length field) t)))"

definition str_at :: "cval list \<Rightarrow> nat \<Rightarrow> string" where
  "str_at vals i = (case cell vals i of Some (ValStr s) \<Rightarrow> s | _ \<Rightarrow> [])"

definition num_at :: "cval list \<Rightarrow> nat \<Rightarrow> uint64" where
  "num_at vals i = (case cell vals i of Some (ValNum v) \<Rightarrow> v | _ \<Rightarrow> 0)"

text \<open>A field of 128 characters leaves no room for its NUL in an array of 128.\<close>

definition fits_128 :: "cval list \<Rightarrow> nat list \<Rightarrow> bool" where
  "fits_128 vals is = list_all (\<lambda>i. length (str_at vals i) < 128) is"

definition clist_room :: "('a clist \<Rightarrow> 'a clist) \<Rightarrow> 'a clist \<Rightarrow> 'a clist" where
  "clist_room grow l = (if l_size l \<le> l_number l then grow l else l)"

section \<open>Routes\<close>

definition ROUTE_FMT :: "conv list" where
  "ROUTE_FMT = [ConvStr 16, ConvBlank, ConvStr 128, ConvBlank, ConvStr 128, ConvBlank, ConvNum 16 0 False, ConvBlank,
     ConvNum 10 0 True, ConvBlank, ConvNum 10 0 True, ConvBlank, ConvNum 10 0 True, ConvBlank, ConvStr 128, ConvBlank,
     ConvNum 10 0 True, ConvBlank, ConvNum 10 0 True, ConvBlank, ConvNum 10 0 True, ConvBlank]"

text \<open>\<open>flags\<close> is an \<open>int\<close> that is widened to 64 bits.\<close>

definition route_line :: "sigar_net_route \<Rightarrow> string \<Rightarrow> sigar_net_route option ub" where
  "route_line route buffer =
     (let vals = fst (sscanf ROUTE_FMT buffer); num = length vals; flags = (ucast (num_at vals 3) :: uint32) in
      if \<not> fits_128 vals [1, 2, 7] then None
      else if num < 10 \<or> flags AND 1 = 0 then Some None
      else do {
        destination \<leftarrow> hex2int (str_at vals 1) HEX_ENT_LEN;
        gateway \<leftarrow> hex2int (str_at vals 2) HEX_ENT_LEN;
        mask \<leftarrow> hex2int (str_at vals 7) HEX_ENT_LEN;
        Some (Some \<lparr>rt_destination = sigar_net_address_set (rt_destination route) destination,
                    rt_gateway = sigar_net_address_set (rt_gateway route) gateway,
                    rt_mask = sigar_net_address_set (rt_mask route) mask,
                    rt_flags = word_of_int (sint flags), rt_refcnt = num_at vals 4, rt_use = num_at vals 5, rt_metric = num_at vals 6,
                    rt_mtu = num_at vals 8, rt_window = num_at vals 9,
                    rt_irtt = (if 10 < num then num_at vals 10 else rt_irtt route), rt_ifname = str_at vals 0\<rparr>)
      })"

text \<open>\<open>uninit n\<close> is the content of the n-th element before it is filled.\<close>

fun route_loop :: "(nat \<Rightarrow> sigar_net_route) \<Rightarrow> string list \<Rightarrow> sigar_net_route clist \<Rightarrow> sigar_net_route clist ub" where
  "route_loop uninit [] routelist = Some routelist"
| "route_loop uninit (buffer # ls) routelist =
     (let l1 = clist_room sigar_net_route_list_grow routelist in
      case route_line (uninit (l_number l1)) buffer of
        None \<Rightarrow> None
      | Some None \<Rightarrow> route_loop uninit ls l1
      | Some (Some route) \<Rightarrow> Option.bind (clist_put sigar_net_route_list_grow l1 route) (route_loop uninit ls))"

definition sigar_net_route_list_get ::
  "string option \<Rightarrow> lines_of \<Rightarrow> (nat \<Rightarrow> sigar_net_route) \<Rightarrow> (status \<times> sigar_net_route clist) ub" where
  "sigar_net_route_list_get host fopen uninit =
     (case fopen (proc_file host ''net/route'') of
        Inl errno \<Rightarrow> Some (errno, clist_alloc 0)
      | Inr ls \<Rightarrow>
          (case sigar_skip_file_lines (Some ls) 1 of
             (result, fp) \<Rightarrow>
               if result \<noteq> SIGAR_OK then Some (- 1, sigar_net_route_list_create)
               else map_option (Pair SIGAR_OK)
                      (route_loop uninit (case fp of Some rest \<Rightarrow> rest | None \<Rightarrow> []) sigar_net_route_list_create)))"

section \<open>Interface counters\<close>

definition nic_speed_filename :: "nat \<Rightarrow> string \<Rightarrow> string option" where
  "nic_speed_filename buflen nic =
     (let name = ''/sys/class/net/'' @ nic @ ''/speed'' in if length name < buflen then Some name else None)"

text \<open>\<open>read\<close> gives the text of a file, if it can be opened.\<close>

definition nic_speed_get :: "(string \<Rightarrow> string option) \<Rightarrow> string \<Rightarrow> int" where
  "nic_speed_get read name =
     (case nic_speed_filename 8192 name of
        None \<Rightarrow> (- 1)
      | Some fname \<Rightarrow>
          (case read fname of
             None \<Rightarrow> (- 1)
           | Some text \<Rightarrow>
               (let vals = fst (sscanf [ConvNum 10 0 True] text) in
                if length vals = 1 then sint (ucast (num_at vals 0) :: uint32) else (- 1))))"

record sigar_net_interface_stat =
  is_rx_packets :: uint64
  is_rx_bytes :: uint64
  is_rx_errors :: uint64
  is_rx_dropped :: uint64
  is_rx_overruns :: uint64
  is_rx_frame :: uint64
  is_tx_packets :: uint64
  is_tx_bytes :: uint64
  is_tx_errors :: uint64
  is_tx_dropped :: uint64
  is_tx_overruns :: uint64
  is_tx_collisions :: uint64
  is_tx_carrier :: uint64
  is_speed :: uint64

definition scan_ifstat :: "int \<Rightarrow> sigar_net_interface_stat scan" where
  "scan_ifstat speed = do {
     rx_bytes \<leftarrow> sigar_strtoull;
     rx_packets \<leftarrow> sigar_strtoull;
     rx_errors \<leftarrow> sigar_strtoull;
     rx_dropped \<leftarrow> sigar_strtoull;
     rx_overruns \<leftarrow> sigar_strtoull;
     rx_frame \<leftarrow> sigar_strtoull;
     scan_tokens 2;
     tx_bytes \<leftarrow> sigar_strtoull;
     tx_packets \<leftarrow> sigar_strtoull;
     tx_errors \<leftarrow> sigar_strtoull;
     tx_dropped \<leftarrow> sigar_strtoull;
     tx_overruns \<leftarrow> sigar_strtoull;
     tx_collisions \<leftarrow> sigar_strtoull;
     tx_carrier \<leftarrow> sigar_strtoull;
     State_Monad.return \<lparr>is_rx_packets = rx_packets, is_rx_bytes = rx_bytes, is_rx_errors = rx_errors, is_rx_dropped = rx_dropped,
       is_rx_overruns = rx_overruns, is_rx_frame = rx_frame, is_tx_packets = tx_packets, is_tx_bytes = tx_bytes,
       is_tx_errors = tx_errors, is_tx_dropped = tx_dropped, is_tx_overruns = tx_overruns, is_tx_collisions = tx_collisions,
       is_tx_carrier = tx_carrier, is_speed = word_of_int speed\<rparr>
   }"

fun ifstat_loop :: "int \<Rightarrow> string \<Rightarrow> string list \<Rightarrow> sigar_net_interface_stat option" where
  "ifstat_loop speed name [] = None"
| "ifstat_loop speed name (buffer # ls) =
     (case split_at (CHR '':'') (skip_space buffer) of
        (_, None) \<Rightarrow> ifstat_loop speed name ls
      | (dev, Some ptr) \<Rightarrow>
          if dev \<noteq> name then ifstat_loop speed name ls else Some (fst (run_state (scan_ifstat speed) ptr)))"

definition sigar_net_interface_stat_get ::
  "string option \<Rightarrow> lines_of \<Rightarrow> (string \<Rightarrow> string option) \<Rightarrow> string \<Rightarrow> sigar_net_interface_stat \<Rightarrow>
   status \<times> sigar_net_interface_stat" where
  "sigar_net_interface_stat_get host fopen read name ifstat =
     (case fopen (proc_file host ''net/dev'') of
        Inl errno \<Rightarrow> (errno, ifstat)
      | Inr ls \<Rightarrow>
          (case sigar_skip_file_lines (Some ls) 2 of
             (result, fp) \<Rightarrow>
               if result \<noteq> SIGAR_OK then (- 1, ifstat)
               else (case ifstat_loop (nic_speed_get read name) name (case fp of Some rest \<Rightarrow> rest | None \<Rightarrow> []) of
                       Some st \<Rightarrow> (SIGAR_OK, st)
                     | None \<Rightarrow> (ENXIO, ifstat))))"

section \<open>The ARP table\<close>

definition hw_types :: "(int \<times> string) list" where
  "hw_types = [(3, ''ax25''), (782, ''ec''), (1, ''ether''), (774, ''fddi''), (15, ''dlci''), (770, ''frad''), (513, ''hdlc''),
     (516, ''lapb''), (780, ''hippi''), (783, ''irda''), (772, ''loop''), (0, ''netrom''), (512, ''ppp''), (270, ''rose''), (776, ''sit''),
     (256, ''slip''), (257, ''cslip''), (258, ''slip6''), (259, ''cslip6''), (264, ''adaptive''), (6, ''tr''), (800, ''tr''),
     (768, ''tunnel''), (271, ''x25'')]"

definition get_hw_type :: "int \<Rightarrow> string" where
  "get_hw_type type = (case map_of hw_types type of Some s \<Rightarrow> s | None \<Rightarrow> ''unknown'')"

record sigar_arp =
  arp_ifname :: string
  arp_type :: string
  arp_hwaddr :: sigar_net_address
  arp_address :: sigar_net_address
  arp_flags :: uint64

definition ARP_FMT :: "conv list" where
  "ARP_FMT = [ConvStr 128, ConvBlank, ConvChar (CHR ''0''), ConvChar (CHR ''x''), ConvNum 16 0 False, ConvBlank,
     ConvChar (CHR ''0''), ConvChar (CHR ''x''), ConvNum 16 0 False, ConvBlank, ConvStr 128, ConvBlank, ConvStr 128, ConvBlank, ConvStr 16]"

definition MAC_FMT :: "conv list" where
  "MAC_FMT = [ConvNum 16 2 False, ConvChar (CHR '':''), ConvNum 16 2 False, ConvChar (CHR '':''), ConvNum 16 2 False, ConvChar (CHR '':''),
     ConvNum 16 2 False, ConvChar (CHR '':''), ConvNum 16 2 False, ConvChar (CHR '':''), ConvNum 16 2 False]"

text \<open>\<open>inet_pton4\<close> and \<open>inet_pton6\<close> give the bytes of an address in text form.\<close>

definition arp_address_of ::
  "(string \<Rightarrow> nat list option) \<Rightarrow> (string \<Rightarrow> nat list option) \<Rightarrow> sigar_net_address \<Rightarrow> string \<Rightarrow> sigar_net_address option" where
  "arp_address_of inet_pton4 inet_pton6 old net_addr =
     (case inet_pton4 net_addr of
        Some bytes \<Rightarrow> Some (old\<lparr>na_addr := bytes @ drop 4 (na_addr old), na_family := SIGAR_AF_INET\<rparr>)
      | None \<Rightarrow>
          (case inet_pton6 net_addr of
             Some bytes \<Rightarrow> Some (old\<lparr>na_addr := bytes, na_family := SIGAR_AF_INET6\<rparr>)
           | None \<Rightarrow> None))"

definition arp_line ::
  "(string \<Rightarrow> nat list option) \<Rightarrow> (string \<Rightarrow> nat list option) \<Rightarrow> sigar_arp \<Rightarrow> string \<Rightarrow> sigar_arp option ub" where
  "arp_line inet_pton4 inet_pton6 arp buffer =
     (let vals = fst (sscanf ARP_FMT buffer) in
      if \<not> fits_128 vals [0, 3, 4] then None
      else if length vals < 6 then Some None
      else Some
        (case arp_address_of inet_pton4 inet_pton6 (arp_address arp) (str_at vals 0) of
           None \<Rightarrow> None
         | Some address \<Rightarrow>
             (let macs = fst (sscanf MAC_FMT (str_at vals 3)) in
              if length macs < 6 then None
              else Some \<lparr>arp_ifname = str_at vals 5,
                         arp_type = sstrcpy 64 (get_hw_type (sint (ucast (num_at vals 1) :: uint32))),
                         arp_hwaddr = (arp_hwaddr arp)\<lparr>na_addr := map (\<lambda>i. unat (num_at macs i AND 0xFF)) [0..<6] @ drop 6 (na_addr (arp_hwaddr arp)),
                                                       na_family := SIGAR_AF_LINK\<rparr>,
                         arp_address = address,
                         arp_flags = word_of_int (sint (ucast (num_at vals 2) :: uint32))\<rparr>)))"

fun arp_loop ::
  "(string \<Rightarrow> nat list option) \<Rightarrow> (string \<Rightarrow> nat list option) \<Rightarrow> (nat \<Rightarrow> sigar_arp) \<Rightarrow> string list \<Rightarrow> sigar_arp clist \<Rightarrow> sigar_arp clist ub" where
  "arp_loop inet_pton4 inet_pton6 uninit [] arplist = Some arplist"
| "arp_loop inet_pton4 inet_pton6 uninit (buffer # ls) arplist =
     (let l1 = clist_room sigar_arp_list_grow arplist in
      case arp_line inet_pton4 inet_pton6 (uninit (l_number l1)) buffer of
        None \<Rightarrow> None
      | Some None \<Rightarrow> arp_loop inet_pton4 inet_pton6 uninit ls l1
      | Some (Some arp) \<Rightarrow> Option.bind (clist_put sigar_arp_list_grow l1 arp) (arp_loop inet_pton4 inet_pton6 uninit ls))"

definition sigar_arp_list_get ::
  "(string \<Rightarrow> nat list option) \<Rightarrow> (string \<Rightarrow> nat list option) \<Rightarrow> string option \<Rightarrow> lines_of \<Rightarrow> (nat \<Rightarrow> sigar_arp) \<Rightarrow>
   (status \<times> sigar_arp clist) ub" where
  "sigar_arp_list_get inet_pton4 inet_pton6 host fopen uninit =
     (case fopen (proc_file host ''net/arp'') of
        Inl errno \<Rightarrow> Some (errno, clist_alloc 0)
      | Inr ls \<Rightarrow>
          (case sigar_skip_file_lines (Some ls) 1 of
             (result, fp) \<Rightarrow>
               if result \<noteq> SIGAR_OK then Some (- 1, sigar_arp_list_create)
               else map_option (Pair SIGAR_OK)
                      (arp_loop inet_pton4 inet_pton6 uninit (case fp of Some rest \<Rightarrow> rest | None \<Rightarrow> []) sigar_arp_list_create)))"

section \<open>IPv6 configuration\<close>

text \<open>The locals of the loop, unset at first; an iteration sets those its line has values for.\<close>

record if_inet6 =
  i6_addr :: "string option"
  i6_prefix :: "uint32 option"
  i6_scope :: "uint32 option"
  i6_ifname :: "string option"

definition INET6_FMT :: "conv list" where
  "INET6_FMT = [ConvStr 32, ConvBlank, ConvNum 16 2 False, ConvBlank, ConvNum 16 2 False, ConvBlank, ConvNum 16 2 False, ConvBlank,
     ConvNum 16 2 False, ConvBlank, ConvStr 8, ConvBlank]"

definition inet6_assign :: "cval list \<Rightarrow> if_inet6 \<Rightarrow> if_inet6" where
  "inet6_assign vals st = \<lparr>i6_addr = (if 0 < length vals then Some (str_at vals 0) else i6_addr st),
     i6_prefix = (if 2 < length vals then Some (ucast (num_at vals 2)) else i6_prefix st),
     i6_scope = (if 3 < length vals then Some (ucast (num_at vals 3)) else i6_scope st),
     i6_ifname = (if 5 < length vals then Some (str_at vals 5) else i6_ifname st)\<rparr>"

lemma scan_base_le: "scan_base b n a s = (m, v, r) \<Longrightarrow> length r \<le> length s"
proof (induction s arbitrary: n a)
  case (Cons c s)
  then show ?case by (cases "digit_val b c") (auto intro: le_SucI)
qed simp

lemma scan_num_le:
  assumes "scan_num base is_signed s = Some (v, r)"
  shows "length r \<le> length s"
proof -
  obtain neg t where t: "scan_sign s = (neg, t)" by (cases "scan_sign s")
  have "length t \<le> length s" using t by (cases s) (auto split: if_splits)
  then show ?thesis using assms t
    by (auto simp: scan_num_def Let_def split: prod.splits if_splits dest!: scan_base_le)
qed

lemma sscanf_le: "length (snd (sscanf cs s)) \<le> length s"
proof (induction cs s rule: sscanf.induct)
  case (2 cs s)
  then show ?case by (simp add: order_trans [OF _ length_skip_space])
next
  case (3 c cs s)
  then show ?case by auto
next
  case (4 w cs s)
  have "length (skip_space s) - k \<le> length s" for k by (rule order_trans [OF diff_le_self length_skip_space])
  with 4 [OF refl refl] show ?case by (auto simp: Let_def intro: order_trans)
next
  case (5 base w sg cs s)
  let ?t = "skip_space s" let ?f = "if w = 0 then ?t else take w ?t"
  show ?case
  proof (cases "scan_num base sg ?f")
    case None
    then show ?thesis using length_skip_space [of s] by (simp add: Let_def)
  next
    case (Some p)
    obtain v r where p: "p = (v, r)" by (cases p)
    have "length r \<le> length ?f" using scan_num_le Some p by blast
    then have "length (r @ drop (length ?f) ?t) \<le> length ?t" by auto
    then have "length (snd (sscanf cs (r @ drop (length ?f) ?t))) \<le> length s"
      using 5 [OF refl refl Some p [symmetric]] length_skip_space [of s] by (meson order_trans)
    then show ?thesis using Some p by (simp add: Let_def split del: if_split)
  qed
qed simp

lemma sscanf_str_less: "fst (sscanf (ConvStr w # cs) s) \<noteq> [] \<Longrightarrow> length (snd (sscanf (ConvStr w # cs) s)) < length s"
proof -
  let ?t = "skip_space s" let ?f = "takeWhile (\<lambda>c. \<not> isspace c) (take w ?t)"
  assume a: "fst (sscanf (ConvStr w # cs) s) \<noteq> []"
  then have f: "?f \<noteq> []" by (auto simp: Let_def)
  have "length ?f \<le> length ?t" by (rule order_trans [OF length_takeWhile_le]) simp
  moreover have "0 < length ?f" using f by simp
  ultimately have "length (drop (length ?f) ?t) < length s" using length_skip_space [of s] unfolding length_drop by linarith
  then show ?thesis using f sscanf_le [of cs "drop (length ?f) ?t"] by (simp add: Let_def)
qed

lemma inet6_scan_less: "sscanf INET6_FMT text = (vals, rest) \<Longrightarrow> vals \<noteq> [] \<Longrightarrow> length rest < length text"
  using sscanf_str_less [of 32 "tl INET6_FMT" "text"] by (simp add: INET6_FMT_def)

text \<open>The loop reads the file until the first conversion finds no more text. Comparing a name that
  was never read is undefined.\<close>

function if_inet6_loop :: "string \<Rightarrow> string \<Rightarrow> if_inet6 \<Rightarrow> if_inet6 option ub" where
  "if_inet6_loop name text st =
     (case sscanf INET6_FMT text of
        (vals, rest) \<Rightarrow>
          if vals = [] then Some None
          else (let st1 = inet6_assign vals st in
                case i6_ifname st1 of
                  None \<Rightarrow> None
                | Some ifname \<Rightarrow> if name = ifname then Some (Some st1) else if_inet6_loop name rest st1))"
  by pat_completeness auto
termination
  by (relation "measure (\<lambda>(name, text, st). length text)") (auto dest: inet6_scan_less [OF sym])

declare if_inet6_loop.simps [simp del]

fun inet6_bytes :: "nat \<Rightarrow> string \<Rightarrow> nat list ub" where
  "inet6_bytes 0 ptr = Some []"
| "inet6_bytes (Suc n) ptr = do {
     b \<leftarrow> hex2int ptr 2;
     bs \<leftarrow> inet6_bytes n (drop 2 ptr);
     Some (unat (b AND 0xFF) # bs)
   }"

definition sigar_net_interface_ipv6_config_get ::
  "string option \<Rightarrow> (string \<Rightarrow> status + string) \<Rightarrow> string \<Rightarrow> sigar_net_interface_config \<Rightarrow> (status \<times> sigar_net_interface_config) ub" where
  "sigar_net_interface_ipv6_config_get host fopen name ifconfig =
     (case fopen (proc_file host ''net/if_inet6'') of
        Inl errno \<Rightarrow> Some (errno, ifconfig)
      | Inr text \<Rightarrow> do {
          found \<leftarrow> if_inet6_loop name text \<lparr>i6_addr = None, i6_prefix = None, i6_scope = None, i6_ifname = None\<rparr>;
          case found of
            None \<Rightarrow> Some (ENOENT, ifconfig)
          | Some st \<Rightarrow> do {
              addr \<leftarrow> i6_addr st;
              bytes \<leftarrow> inet6_bytes 16 addr;
              prefix \<leftarrow> i6_prefix st;
              scope \<leftarrow> i6_scope st;
              Some (SIGAR_OK, ifconfig\<lparr>ic_address6 := (ic_address6 ifconfig)\<lparr>na_addr := bytes\<rparr>, ic_prefix6_length := prefix, ic_scope6 := scope\<rparr>)
            }
        })"

section \<open>TCP and NFS counters\<close>

record sigar_tcp =
  tcp_active_opens :: uint64
  tcp_passive_opens :: uint64
  tcp_attempt_fails :: uint64
  tcp_estab_resets :: uint64
  tcp_curr_estab :: uint64
  tcp_in_segs :: uint64
  tcp_out_segs :: uint64
  tcp_retrans_segs :: uint64
  tcp_in_errs :: uint64
  tcp_out_rsts :: uint64

fun snmp_loop :: "string list \<Rightarrow> string option" where
  "snmp_loop (buffer # next # ls) = (if strnEQ buffer ''Tcp: '' 5 then Some next else snmp_loop (next # ls))"
| "snmp_loop _ = None"

definition scan_tcp :: "sigar_tcp scan" where
  "scan_tcp = do {
     scan_tokens 5;
     v_active_opens \<leftarrow> sigar_strtoull;
     v_passive_opens \<leftarrow> sigar_strtoull;
     v_attempt_fails \<leftarrow> sigar_strtoull;
     v_estab_resets \<leftarrow> sigar_strtoull;
     v_curr_estab \<leftarrow> sigar_strtoull;
     v_in_segs \<leftarrow> sigar_strtoull;
     v_out_segs \<leftarrow> sigar_strtoull;
     v_retrans_segs \<leftarrow> sigar_strtoull;
     v_in_errs \<leftarrow> sigar_strtoull;
     v_out_rsts \<leftarrow> sigar_strtoull;
     State_Monad.return \<lparr>tcp_active_opens = v_active_opens, tcp_passive_opens = v_passive_opens, tcp_attempt_fails = v_attempt_fails,
       tcp_estab_resets = v_estab_resets, tcp_curr_estab = v_curr_estab, tcp_in_segs = v_in_segs,
       tcp_out_segs = v_out_segs, tcp_retrans_segs = v_retrans_segs, tcp_in_errs = v_in_errs,
       tcp_out_rsts = v_out_rsts\<rparr>
   }"

definition sigar_tcp_get :: "string option \<Rightarrow> lines_of \<Rightarrow> sigar_tcp \<Rightarrow> status \<times> sigar_tcp" where
  "sigar_tcp_get host fopen tcp =
     (case fopen (proc_file host ''net/snmp'') of
        Inl errno \<Rightarrow> (errno, tcp)
      | Inr ls \<Rightarrow>
          (case snmp_loop ls of
             None \<Rightarrow> (ENOENT, tcp)
           | Some ptr \<Rightarrow> (SIGAR_OK, fst (run_state scan_tcp ptr))))"

definition sigar_proc_nfs_gets :: "lines_of \<Rightarrow> string \<Rightarrow> string \<Rightarrow> status \<times> string" where
  "sigar_proc_nfs_gets fopen file tok =
     (case fopen file of
        Inl _ \<Rightarrow> (SIGAR_ENOTIMPL, [])
      | Inr ls \<Rightarrow>
          (case List.find (\<lambda>buffer. strnEQ buffer tok (length tok)) ls of
             None \<Rightarrow> (ENOENT, [])
           | Some buffer \<Rightarrow> (SIGAR_OK, buffer)))"

record sigar_nfs_v2 =
  nfs2_null :: uint64
  nfs2_getattr :: uint64
  nfs2_setattr :: uint64
  nfs2_root :: uint64
  nfs2_lookup :: uint64
  nfs2_readlink :: uint64
  nfs2_read :: uint64
  nfs2_writecache :: uint64
  nfs2_write :: uint64
  nfs2_create :: uint64
  nfs2_remove :: uint64
  nfs2_rename :: uint64
  nfs2_link :: uint64
  nfs2_symlink :: uint64
  nfs2_mkdir :: uint64
  nfs2_rmdir :: uint64
  nfs2_readdir :: uint64
  nfs2_fsstat :: uint64

record sigar_nfs_v3 =
  nfs3_null :: uint64
  nfs3_getattr :: uint64
  nfs3_setattr :: uint64
  nfs3_lookup :: uint64
  nfs3_access :: uint64
  nfs3_readlink :: uint64
  nfs3_read :: uint64
  nfs3_write :: uint64
  nfs3_create :: uint64
  nfs3_mkdir :: uint64
  nfs3_symlink :: uint64
  nfs3_mknod :: uint64
  nfs3_remove :: uint64
  nfs3_rmdir :: uint64
  nfs3_rename :: uint64
  nfs3_link :: uint64
  nfs3_readdir :: uint64
  nfs3_readdirplus :: uint64
  nfs3_fsstat :: uint64
  nfs3_fsinfo :: uint64
  nfs3_pathconf :: uint64
  nfs3_commit :: uint64

definition scan_nfs_v2 :: "sigar_nfs_v2 scan" where
  "scan_nfs_v2 = do {
     scan_tokens 2;
     v_null \<leftarrow> sigar_strtoull;
     v_getattr \<leftarrow> sigar_strtoull;
     v_setattr \<leftarrow> sigar_strtoull;
     v_root \<leftarrow> sigar_strtoull;
     v_lookup \<leftarrow> sigar_strtoull;
     v_readlink \<leftarrow> sigar_strtoull;
     v_read \<leftarrow> sigar_strtoull;
     v_writecache \<leftarrow> sigar_strtoull;
     v_write \<leftarrow> sigar_strtoull;
     v_create \<leftarrow> sigar_strtoull;
     v_remove \<leftarrow> sigar_strtoull;
     v_rename \<leftarrow> sigar_strtoull;
     v_link \<leftarrow> sigar_strtoull;
     v_symlink \<leftarrow> sigar_strtoull;
     v_mkdir \<leftarrow> sigar_strtoull;
     v_rmdir \<leftarrow> sigar_strtoull;
     v_readdir \<leftarrow> sigar_strtoull;
     v_fsstat \<leftarrow> sigar_strtoull;
     State_Monad.return \<lparr>nfs2_null = v_null, nfs2_getattr = v_getattr, nfs2_setattr = v_setattr, nfs2_root = v_root,
       nfs2_lookup = v_lookup, nfs2_readlink = v_readlink, nfs2_read = v_read, nfs2_writecache = v_writecache,
       nfs2_write = v_write, nfs2_create = v_create, nfs2_remove = v_remove, nfs2_rename = v_rename,
       nfs2_link = v_link, nfs2_symlink = v_symlink, nfs2_mkdir = v_mkdir, nfs2_rmdir = v_rmdir,
       nfs2_readdir = v_readdir, nfs2_fsstat = v_fsstat\<rparr>
   }"

definition scan_nfs_v3 :: "sigar_nfs_v3 scan" where
  "scan_nfs_v3 = do {
     scan_tokens 2;
     v_null \<leftarrow> sigar_strtoull;
     v_getattr \<leftarrow> sigar_strtoull;
     v_setattr \<leftarrow> sigar_strtoull;
     v_lookup \<leftarrow> sigar_strtoull;
     v_access \<leftarrow> sigar_strtoull;
     v_readlink \<leftarrow> sigar_strtoull;
     v_read \<leftarrow> sigar_strtoull;
     v_write \<leftarrow> sigar_strtoull;
     v_create \<leftarrow> sigar_strtoull;
     v_mkdir \<leftarrow> sigar_strtoull;
     v_symlink \<leftarrow> sigar_strtoull;
     v_mknod \<leftarrow> sigar_strtoull;
     v_remove \<leftarrow> sigar_strtoull;
     v_rmdir \<leftarrow> sigar_strtoull;
     v_rename \<leftarrow> sigar_strtoull;
     v_link \<leftarrow> sigar_strtoull;
     v_readdir \<leftarrow> sigar_strtoull;
     v_readdirplus \<leftarrow> sigar_strtoull;
     v_fsstat \<leftarrow> sigar_strtoull;
     v_fsinfo \<leftarrow> sigar_strtoull;
     v_pathconf \<leftarrow> sigar_strtoull;
     v_commit \<leftarrow> sigar_strtoull;
     State_Monad.return \<lparr>nfs3_null = v_null, nfs3_getattr = v_getattr, nfs3_setattr = v_setattr, nfs3_lookup = v_lookup,
       nfs3_access = v_access, nfs3_readlink = v_readlink, nfs3_read = v_read, nfs3_write = v_write,
       nfs3_create = v_create, nfs3_mkdir = v_mkdir, nfs3_symlink = v_symlink, nfs3_mknod = v_mknod,
       nfs3_remove = v_remove, nfs3_rmdir = v_rmdir, nfs3_rename = v_rename, nfs3_link = v_link,
       nfs3_readdir = v_readdir, nfs3_readdirplus = v_readdirplus, nfs3_fsstat = v_fsstat, nfs3_fsinfo = v_fsinfo,
       nfs3_pathconf = v_pathconf, nfs3_commit = v_commit\<rparr>
   }"

definition sigar_nfs_v2_get :: "lines_of \<Rightarrow> string \<Rightarrow> sigar_nfs_v2 \<Rightarrow> status \<times> sigar_nfs_v2" where
  "sigar_nfs_v2_get fopen file nfs =
     (case sigar_proc_nfs_gets fopen file ''proc2'' of
        (status, buffer) \<Rightarrow> if status \<noteq> SIGAR_OK then (status, nfs) else (SIGAR_OK, fst (run_state scan_nfs_v2 buffer)))"

definition sigar_nfs_client_v2_get :: "string option \<Rightarrow> lines_of \<Rightarrow> sigar_nfs_v2 \<Rightarrow> status \<times> sigar_nfs_v2" where
  "sigar_nfs_client_v2_get host fopen nfs = sigar_nfs_v2_get fopen (proc_file host ''net/rpc/nfs'') nfs"

definition sigar_nfs_server_v2_get :: "string option \<Rightarrow> lines_of \<Rightarrow> sigar_nfs_v2 \<Rightarrow> status \<times> sigar_nfs_v2" where
  "sigar_nfs_server_v2_get host fopen nfs = sigar_nfs_v2_get fopen (proc_file host ''net/rpc/nfsd'') nfs"

definition sigar_nfs_v3_get :: "lines_of \<Rightarrow> string \<Rightarrow> sigar_nfs_v3 \<Rightarrow> status \<times> sigar_nfs_v3" where
  "sigar_nfs_v3_get fopen file nfs =
     (case sigar_proc_nfs_gets fopen file ''proc3'' of
        (status, buffer) \<Rightarrow> if status \<noteq> SIGAR_OK then (status, nfs) else (SIGAR_OK, fst (run_state scan_nfs_v3 buffer)))"

definition sigar_nfs_client_v3_get :: "string option \<Rightarrow> lines_of \<Rightarrow> sigar_nfs_v3 \<Rightarrow> status \<times> sigar_nfs_v3" where
  "sigar_nfs_client_v3_get host fopen nfs = sigar_nfs_v3_get fopen (proc_file host ''net/rpc/nfs'') nfs"

definition sigar_nfs_server_v3_get :: "string option \<Rightarrow> lines_of \<Rightarrow> sigar_nfs_v3 \<Rightarrow> status \<times> sigar_nfs_v3" where
  "sigar_nfs_server_v3_get host fopen nfs = sigar_nfs_v3_get fopen (proc_file host ''net/rpc/nfsd'') nfs"

section \<open>Scanning fields\<close>

abbreviation (input) TAB :: char where "TAB \<equiv> CHR 0x09"

lemma isspace_tab [simp]: "isspace TAB"
  by (simp add: isspace_def)

lemma takeWhile_field:
  assumes "field_ok f" and "ends_field t"
  shows "takeWhile (\<lambda>c. \<not> isspace c) (f @ t) = f"
  using assms by (cases t) (auto simp: field_ok_def ends_field_def list_all_iff takeWhile_append)

lemma sscanf_str:
  assumes "field_ok f" and "ends_field t" and "length f \<le> w"
  shows "sscanf (ConvStr w # cs) (f @ t) = apfst (Cons (ValStr f)) (sscanf cs t)"
proof -
  have "ends_field (take k t)" for k using assms(2) by (cases t; cases k) (auto simp: ends_field_def)
  then have "takeWhile (\<lambda>c. \<not> isspace c) (take w (f @ t)) = f"
    using takeWhile_field [OF assms(1)] assms(3) by simp
  then show ?thesis using assms(1) by (simp add: skip_space_field Let_def field_ok_def)
qed

lemma field_ok_hex: "0 < n \<Longrightarrow> field_ok (hex_pad n v)"
  using hex_pad_plain(3) length_hex_pad [of n v] by (auto simp: field_ok_def list_all_iff simp del: length_hex_pad)

lemma ends_no_digit:
  assumes "ends_field t" shows "t = [] \<or> digit_val 16 (hd t) = None"
proof (cases t)
  case (Cons c u)
  then have "isspace c" using assms by simp
  then show ?thesis using Cons by (auto simp: digit_val_def hex_val_def isspace_def Let_def)
qed simp

lemma sscanf_hex:
  assumes "v < 16 ^ n" and "1 < n" and "n \<le> 16" and "ends_field t"
  shows "sscanf (ConvNum 16 0 False # cs) (hex_pad n v @ t) = apfst (Cons (ValNum (of_nat v))) (sscanf cs t)"
proof -
  obtain c d ds where h: "hex_pad n v = c # d # ds"
    using assms(2) length_hex_pad [of n v] by (cases "hex_pad n v"; cases "tl (hex_pad n v)") auto
  have cd: "c \<in> set (hex_pad n v)" "d \<in> set (hex_pad n v)" by (simp_all add: h)
  have "map tolower (take 2 (hex_pad n v @ t)) \<noteq> ''0x''" using hex_pad_plain(6) [OF cd(2)] by (simp add: h)
  moreover have "scan_sign (hex_pad n v @ t) = (False, hex_pad n v @ t)" using hex_pad_plain [OF cd(1)] by (simp add: h)
  moreover have "(16 :: nat) ^ n \<le> 16 ^ 16" using assms(3) by (intro power_increasing) simp_all
  with assms(1) have "v < 16 ^ 16" by (rule less_le_trans)
  then have "num_value False False v = of_nat v" by (simp add: num_value_def)
  ultimately have "scan_num 16 False (hex_pad n v @ t) = Some (of_nat v, t)"
    using scan_hex_pad [OF ends_no_digit [OF assms(4)], of 0 0 n v] assms(1,2) by (simp add: scan_num_def)
  then show ?thesis using skip_space_field [OF field_ok_hex] assms(2) by simp
qed

lemma sscanf_dec:
  assumes "n < 2 ^ 63" and "ends_field t"
  shows "sscanf (ConvNum 10 0 True # cs) (dec_digits n @ t) = apfst (Cons (ValNum (of_nat n))) (sscanf cs t)"
proof -
  obtain k where "0 < k" "scan_base 10 0 0 (dec_digits n @ t) = (k, n, t)"
    using scan_base_dec [OF ends_not_digit [OF assms(2)]] by blast
  moreover have "num_value True False n = of_nat n" using assms(1) by (simp add: num_value_def)
  ultimately have "scan_num 10 True (dec_digits n @ t) = Some (of_nat n, t)"
    using dec_digits_no_sign_space [of n t] by (simp add: scan_num_def)
  then show ?thesis using skip_space_field [OF field_ok_dec] by simp
qed

lemma sscanf_sep: "field_ok f \<Longrightarrow> sscanf (ConvBlank # cs) (TAB # f @ t) = sscanf cs (f @ t)"
  by (simp add: skip_space_field)

lemmas sscanf_fields = sscanf_str sscanf_hex sscanf_dec sscanf_sep field_ok_hex field_ok_dec

section \<open>The routing table of the kernel\<close>

record route_entry =
  re_ifname :: string
  re_destination :: uint32
  re_gateway :: uint32
  re_flags :: "16 word"
  re_refcnt :: nat
  re_use :: nat
  re_metric :: nat
  re_mask :: uint32
  re_mtu :: nat
  re_window :: nat
  re_irtt :: nat
  re_tail :: string

definition route_text :: "route_entry \<Rightarrow> string" where
  "route_text e = re_ifname e @ TAB # hex_pad 8 (unat (re_destination e)) @ TAB # hex_pad 8 (unat (re_gateway e)) @
     TAB # hex_pad 4 (unat (re_flags e)) @ TAB # dec_digits (re_refcnt e) @ TAB # dec_digits (re_use e) @ TAB # dec_digits (re_metric e) @
     TAB # hex_pad 8 (unat (re_mask e)) @ TAB # dec_digits (re_mtu e) @ TAB # dec_digits (re_window e) @ TAB # dec_digits (re_irtt e) @ re_tail e"

definition route_ok :: "route_entry \<Rightarrow> bool" where
  "route_ok e \<longleftrightarrow> field_ok (re_ifname e) \<and> length (re_ifname e) \<le> 16 \<and> ends_field (re_tail e)
     \<and> list_all (\<lambda>n. n < 2 ^ 63) [re_refcnt e, re_use e, re_metric e, re_mtu e, re_window e, re_irtt e]"

definition route_of :: "sigar_net_route \<Rightarrow> route_entry \<Rightarrow> sigar_net_route" where
  "route_of old e = \<lparr>rt_destination = sigar_net_address_set (rt_destination old) (re_destination e),
     rt_gateway = sigar_net_address_set (rt_gateway old) (re_gateway e), rt_mask = sigar_net_address_set (rt_mask old) (re_mask e),
     rt_flags = ucast (re_flags e), rt_refcnt = of_nat (re_refcnt e), rt_use = of_nat (re_use e), rt_metric = of_nat (re_metric e),
     rt_mtu = of_nat (re_mtu e), rt_window = of_nat (re_window e), rt_irtt = of_nat (re_irtt e), rt_ifname = re_ifname e\<rparr>"

definition route_up :: "route_entry \<Rightarrow> bool" where
  "route_up e \<longleftrightarrow> re_flags e AND 1 \<noteq> 0"

lemma unat_hex: "unat (w :: uint32) < 16 ^ 8" "unat (p :: 16 word) < 16 ^ 4"
  using unsigned_less [of w, where ?'a = nat] unsigned_less [of p, where ?'a = nat] by simp_all

lemma sscanf_route:
  assumes "route_ok e"
  shows "fst (sscanf ROUTE_FMT (route_text e)) =
    [ValStr (re_ifname e), ValStr (hex_pad 8 (unat (re_destination e))), ValStr (hex_pad 8 (unat (re_gateway e))),
     ValNum (of_nat (unat (re_flags e))), ValNum (of_nat (re_refcnt e)), ValNum (of_nat (re_use e)), ValNum (of_nat (re_metric e)),
     ValStr (hex_pad 8 (unat (re_mask e))), ValNum (of_nat (re_mtu e)), ValNum (of_nat (re_window e)), ValNum (of_nat (re_irtt e))]"
proof -
  have ok: "field_ok (re_ifname e)" "length (re_ifname e) \<le> 16" "ends_field (re_tail e)"
    "re_refcnt e < 2 ^ 63" "re_use e < 2 ^ 63" "re_metric e < 2 ^ 63" "re_mtu e < 2 ^ 63" "re_window e < 2 ^ 63" "re_irtt e < 2 ^ 63"
    using assms by (simp_all add: route_ok_def)
  show ?thesis unfolding ROUTE_FMT_def route_text_def
    by (simp add: sscanf_fields ok [simplified] unat_hex [simplified] del: sscanf.simps(2-5)) (simp add: apfst_def map_prod_def split: prod.split)
qed

lemma flags_widened:
  "word_of_int (sint (ucast (ucast (p :: 16 word) :: uint64) :: uint32)) = (ucast p :: uint64)"
  "((ucast (ucast p :: uint64) :: uint32) AND 1 = 0) = (p AND 1 = 0)"
proof -
  have u: "(ucast (ucast p :: uint64) :: uint32) = ucast p" by (rule bit_word_eqI) (auto simp: bit_simps)
  have b: "uint p < 65536" using uint_bounded [of p] by simp
  have "sint (ucast p :: uint32) = uint p"
    using b order_trans [of "- 2147483648" 0 "uint p"] by (simp add: signed_ucast_eq signed_take_bit_int_eq_self_iff)
  then show "word_of_int (sint (ucast (ucast p :: uint64) :: uint32)) = (ucast p :: uint64)" unfolding u by simp
  have "(ucast p AND 1 = (0 :: uint32)) = even (ucast p :: uint32)" "(p AND 1 = 0) = even p"
    by (simp_all add: and_one_eq odd_iff_mod_2_eq_one even_iff_mod_2_eq_zero)
  moreover have "even (ucast p :: uint32) = even p" by (metis bit_0 bit_ucast_iff len_gt_0)
  ultimately show "((ucast (ucast p :: uint64) :: uint32) AND 1 = 0) = (p AND 1 = 0)" unfolding u by simp
qed

lemma hex2int_exact: "hex2int (hex_pad 8 (unat w)) 8 = Some w"
  using hex2int_word [of w "[]"] by simp

lemma route_line_entry:
  assumes "route_ok e"
  shows "route_line old (route_text e) = Some (if route_up e then Some (route_of old e) else None)"
proof -
  have num: "ucast (re_flags e) = (of_nat (unat (re_flags e)) :: uint64)" by simp
  show ?thesis
    unfolding route_line_def Let_def sscanf_route [OF assms]
    by (simp add: fits_128_def str_at_def num_at_def route_up_def hex2int_exact route_of_def flags_widened(2) flags_widened(1) [simplified])
qed

fun route_rows :: "(nat \<Rightarrow> sigar_net_route) \<Rightarrow> nat \<Rightarrow> route_entry list \<Rightarrow> sigar_net_route list" where
  "route_rows uninit n [] = []"
| "route_rows uninit n (e # es) =
     (if route_up e then route_of (uninit n) e # route_rows uninit (Suc n) es else route_rows uninit n es)"

lemma route_room:
  assumes "clist_wf l"
  shows "clist_wf (clist_room sigar_net_route_list_grow l)"
    and "clist_elems (clist_room sigar_net_route_list_grow l) = clist_elems l"
    and "l_number (clist_room sigar_net_route_list_grow l) = l_number l"
  using route_list.grow_wf [OF assms] route_list.grow_elems [OF assms] route_list.grow_number [of l] assms by (simp_all add: clist_room_def)

lemma route_loop_entries:
  assumes "list_all route_ok es" and "clist_wf l"
  shows "\<exists>l'. route_loop uninit (map route_text es) l = Some l' \<and> clist_wf l'
    \<and> clist_elems l' = clist_elems l @ route_rows uninit (l_number l) es"
  using assms
proof (induction es arbitrary: l)
  case (Cons e es)
  let ?l = "clist_room sigar_net_route_list_grow l"
  have ok: "route_ok e" "list_all route_ok es" using Cons.prems(1) by simp_all
  note room = route_room [OF Cons.prems(2)]
  show ?case
  proof (cases "route_up e")
    case True
    from route_list.put_ok [OF room(1), of "route_of (uninit (l_number l)) e"] obtain l1 where
      l1: "clist_put sigar_net_route_list_grow ?l (route_of (uninit (l_number l)) e) = Some l1" "clist_wf l1"
        "clist_elems l1 = clist_elems l @ [route_of (uninit (l_number l)) e]" unfolding room(2) by blast
    have "l_number l1 = Suc (l_number l)"
      using length_clist_elems [OF l1(2)] length_clist_elems [OF Cons.prems(2)] l1(3) by simp
    with Cons.IH [OF ok(2) l1(2)] l1 True room(3) show ?thesis by (auto simp: route_line_entry [OF ok(1)] Let_def)
  next
    case False
    with Cons.IH [OF ok(2) room(1)] room show ?thesis by (simp add: route_line_entry [OF ok(1)] Let_def)
  qed
qed simp

lemma route_list_entries:
  assumes "fopen (proc_file host ''net/route'') = Inr (header # map route_text es)" and "list_all route_ok es"
  shows "\<exists>l. sigar_net_route_list_get host fopen uninit = Some (SIGAR_OK, l) \<and> clist_wf l \<and> clist_elems l = route_rows uninit 0 es"
proof -
  have "l_number (sigar_net_route_list_create :: sigar_net_route clist) = 0"
    using length_clist_elems [OF route_list.create_wf] by (simp add: route_list.create_elems)
  with route_loop_entries [OF assms(2) route_list.create_wf, of uninit] show ?thesis
    by (auto simp: sigar_net_route_list_get_def assms(1) route_list.create_elems numeral_eq_Suc)
qed

lemma addr_in_set: "addr_in (sigar_net_address_set a v) = v"
proof -
  have u: "[0..<4] = [0, 1, 2, 3 :: nat]" by (simp add: upt_rec)
  have "horner_sum id 256 (map (mem_byte v) [0..<4]) = mem_byte v 0 + 256 * mem_byte v 1 + 65536 * mem_byte v 2 + 16777216 * mem_byte v 3"
    unfolding u by simp
  then have h: "horner_sum id 256 (map (mem_byte v) [0..<4]) = unat v" using mem_bytes_value [of v] by simp
  have "take 4 (map (mem_byte v) [0..<4] @ drop 4 (na_addr a)) = map (mem_byte v) [0..<4]" by simp
  then show ?thesis unfolding addr_in_def sigar_net_address_set_def by (simp add: h)
qed

definition is_default_route :: "route_entry \<Rightarrow> bool" where
  "is_default_route e \<longleftrightarrow> route_up e \<and> re_flags e AND 2 \<noteq> 0 \<and> re_destination e = 0"

lemma unat_ucast_16_64: "unat (ucast (q :: 16 word) :: uint64) = unat q"
  by (simp add: unsigned_ucast_eq take_bit_nat_eq_self_iff order_less_trans [OF unsigned_less])

lemma find_default:
  "List.find (\<lambda>r. rt_flags r AND 0x2 \<noteq> 0 \<and> addr_in (rt_destination r) = 0) (route_rows uninit n es) =
   (case List.find is_default_route es of
      None \<Rightarrow> None
    | Some e \<Rightarrow> Some (route_of (uninit (n + length (filter route_up (takeWhile (\<lambda>e. \<not> is_default_route e) es)))) e))"
proof (induction es arbitrary: n)
  case (Cons e es)
  have "(ucast p :: uint64) AND 2 = ucast (p AND 2)" for p :: "16 word" by (rule bit_word_eqI) (auto simp: bit_simps)
  moreover have "((ucast q :: uint64) = 0) = (q = 0)" for q :: "16 word"
    by (metis unat_ucast_16_64 unsigned_0 unsigned_word_eqI)
  ultimately have "(rt_flags (route_of old e) AND 0x2 \<noteq> 0 \<and> addr_in (rt_destination (route_of old e)) = 0) = (re_flags e AND 2 \<noteq> 0 \<and> re_destination e = 0)" for old
    by (simp add: route_of_def addr_in_set)
  then show ?case using Cons by (auto simp: is_default_route_def split: option.split)
qed simp


definition example_routes :: "route_entry list" where
  "example_routes =
     [\<lparr>re_ifname = ''eth0'', re_destination = 0x0001A8C0, re_gateway = 0, re_flags = 1, re_refcnt = 0, re_use = 0, re_metric = 0,
       re_mask = 0x00FFFFFF, re_mtu = 0, re_window = 0, re_irtt = 0, re_tail = '' ''\<rparr>,
      \<lparr>re_ifname = ''wlan0'', re_destination = 0, re_gateway = 0x0101A8C0, re_flags = 3, re_refcnt = 0, re_use = 0, re_metric = 600,
       re_mask = 0, re_mtu = 0, re_window = 0, re_irtt = 0, re_tail = '' ''\<rparr>]"

definition zero_route :: sigar_net_route where
  "zero_route = \<lparr>rt_destination = null_address, rt_gateway = null_address, rt_mask = null_address, rt_flags = 0, rt_refcnt = 0, rt_use = 0,
     rt_metric = 0, rt_mtu = 0, rt_window = 0, rt_irtt = 0, rt_ifname = []\<rparr>"


section \<open>Counters\<close>

text \<open>After the leading words the counters are read in the order of the structure.\<close>

lemma tokens_then_ints:
  assumes "field_ok w" and "ints_ok is" and "ends_field t" and "n \<le> length is"
  shows "sigar_skip_multiple_token (w @ ints_from is t 0) (Suc n) = ints_from is t n"
proof -
  have e: "ends_field (ints_from is t 0)" using assms(3) by (simp add: ints_from_def)
  have "sigar_skip_multiple_token (ints_from is t j) k = ints_from is t (j + k)" if "j + k \<le> length is" for j k
    using that by (induction k arbitrary: j) (simp_all add: ints_from_step(4) [OF assms(2,3)])
  from this [of 0 n] show ?thesis using assms(4) by (simp add: skip_token_field(2) [OF assms(1) e])
qed

lemma tcp_counters:
  assumes "ints_ok is" and "ends_field t" and "14 \<le> length is"
  shows "fst (run_state scan_tcp (''Tcp:'' @ ints_from is t 0)) =
    \<lparr>tcp_active_opens = of_int (is ! 4), tcp_passive_opens = of_int (is ! 5), tcp_attempt_fails = of_int (is ! 6),
     tcp_estab_resets = of_int (is ! 7), tcp_curr_estab = of_int (is ! 8), tcp_in_segs = of_int (is ! 9), tcp_out_segs = of_int (is ! 10),
     tcp_retrans_segs = of_int (is ! 11), tcp_in_errs = of_int (is ! 12), tcp_out_rsts = of_int (is ! 13)\<rparr>"
proof -
  have "field_ok ''Tcp:''" by (simp add: field_ok_def isspace_def)
  from tokens_then_ints [OF this assms(1,2), of 4] assms(3)
  have s: "sigar_skip_multiple_token (''Tcp:'' @ ints_from is t 0) 5 = ints_from is t 4" by (simp add: numeral_eq_Suc)
  have step: "run_state sigar_strtoull (ints_from is t j) = (of_int (is ! j), ints_from is t (Suc j))" if "j < 14" for j
    using ints_from_step(1) [OF assms(1,2)] assms(3) that by simp
  show ?thesis by (simp add: scan_tcp_def run_scan_tokens s [simplified] step)
qed

lemma nfs_v3_counters:
  assumes "ints_ok is" and "ends_field t" and "23 \<le> length is"
  shows "fst (run_state scan_nfs_v3 (''proc3'' @ ints_from is t 0)) =
    \<lparr>nfs3_null = of_int (is ! 1), nfs3_getattr = of_int (is ! 2), nfs3_setattr = of_int (is ! 3), nfs3_lookup = of_int (is ! 4),
     nfs3_access = of_int (is ! 5), nfs3_readlink = of_int (is ! 6), nfs3_read = of_int (is ! 7), nfs3_write = of_int (is ! 8),
     nfs3_create = of_int (is ! 9), nfs3_mkdir = of_int (is ! 10), nfs3_symlink = of_int (is ! 11), nfs3_mknod = of_int (is ! 12),
     nfs3_remove = of_int (is ! 13), nfs3_rmdir = of_int (is ! 14), nfs3_rename = of_int (is ! 15), nfs3_link = of_int (is ! 16),
     nfs3_readdir = of_int (is ! 17), nfs3_readdirplus = of_int (is ! 18), nfs3_fsstat = of_int (is ! 19), nfs3_fsinfo = of_int (is ! 20),
     nfs3_pathconf = of_int (is ! 21), nfs3_commit = of_int (is ! 22)\<rparr>"
proof -
  have "field_ok ''proc3''" by (simp add: field_ok_def isspace_def)
  from tokens_then_ints [OF this assms(1,2), of 1] assms(3)
  have s: "sigar_skip_multiple_token (''proc3'' @ ints_from is t 0) 2 = ints_from is t 1" by (simp add: numeral_eq_Suc)
  have step: "run_state sigar_strtoull (ints_from is t j) = (of_int (is ! j), ints_from is t (Suc j))" if "j < 23" for j
    using ints_from_step(1) [OF assms(1,2)] assms(3) that by simp
  show ?thesis by (simp add: scan_nfs_v3_def run_scan_tokens s [simplified] step numeral_2_eq_2 [symmetric])
qed

end
