(* ===== verification/Linux_Disk.thy ===== *)
theory Linux_Disk
  imports Linux_Netinfo Sigar_Fs
begin

text \<open>
  Disk statistics of \<open>src/os/linux/linux_sigar.c\<close>: the counters of a device from \<open>/sys/block\<close>,
  \<open>/proc/diskstats\<close> or \<open>/proc/partitions\<close>, the rates against the previous sample that is kept with the
  device in the cache of \<open>Sigar_Fs\<close>, and the usage of a file system. The name array of a cached device
  may hold characters after a NUL, because \<open>get_iostat_sys\<close> cuts it in place.
\<close>

unbundle bit_operations_syntax

section \<open>Arithmetic\<close>

fun dbl_mult :: "rounding \<Rightarrow> dbl \<Rightarrow> rat \<Rightarrow> dbl" where
  "dbl_mult rnd (Fin x) k = Fin (rnd (x * k))"
| "dbl_mult rnd PInf k = (if k = 0 then NaN else if 0 < k then PInf else NInf)"
| "dbl_mult rnd NInf k = (if k = 0 then NaN else if 0 < k then NInf else PInf)"
| "dbl_mult rnd NaN k = NaN"

fun dbl_div :: "rounding \<Rightarrow> dbl \<Rightarrow> dbl \<Rightarrow> dbl" where
  "dbl_div rnd (Fin x) (Fin y) = dbl_div_fin rnd x y"
| "dbl_div rnd NaN _ = NaN"
| "dbl_div rnd _ NaN = NaN"
| "dbl_div rnd (Fin x) _ = Fin 0"
| "dbl_div rnd PInf (Fin y) = (if y < 0 then NInf else PInf)"
| "dbl_div rnd NInf (Fin y) = (if y < 0 then PInf else NInf)"
| "dbl_div rnd _ _ = NaN"

fun u64_of_dbl :: "dbl \<Rightarrow> uint64 ub" where
  "u64_of_dbl (Fin x) = u64_of_rat x"
| "u64_of_dbl _ = None"

text \<open>\<open>SIGAR_DISK_STATS_INIT\<close> is one chain of assignments: the value goes from the unsigned \<open>ios\<close> through the
  two \<open>double\<close> fields back to the unsigned counters.\<close>

definition SIGAR_DISK_STATS_INIT :: "rounding \<Rightarrow> sigar_disk_usage \<Rightarrow> sigar_disk_usage ub" where
  "SIGAR_DISK_STATS_INIT rnd disk =
     (let ios = SIGAR_FIELD_NOTIMPL; service_time = dbl_of_u64 rnd ios; queue = service_time in
      map_option (\<lambda>v. disk\<lparr>du_ios := ios, du_service_time := Fin service_time, du_queue := Fin queue, du_time := v, du_qtime := v,
                           du_wtime := v, du_rtime := v, du_write_bytes := v, du_read_bytes := v, du_writes := v, du_reads := v,
                           du_snaptime := 0\<rparr>)
        (u64_of_rat queue))"

section \<open>Devices\<close>

definition major :: "uint64 \<Rightarrow> uint32" where
  "major x = ucast ((drop_bit 1 (drop_bit 31 x) AND 0xFFFFF000) OR (drop_bit 8 x AND 0xFFF))"

definition minor :: "uint64 \<Rightarrow> uint32" where
  "minor x = ucast ((drop_bit 12 x AND 0xFFFFFF00) OR (x AND 0xFF))"

record disk_env =
  dk_host :: "string option"
  dk_stat :: "string \<Rightarrow> status + stat_info"
  dk_mounts :: "status + sigar_file_system list"
  dk_now :: uint64
  dk_fopen :: lines_of
  dk_fs :: "string \<Rightarrow> file_read"
  dk_statvfs :: "string \<Rightarrow> status + statvfs"

text \<open>The device of a path and the key of its entry in the cache: the pointer the code keeps is the
  entry's value, so a change of the structure is a change of the cache at that key.\<close>

definition disk_iodev :: "disk_env \<Rightarrow> iodev_cache option \<Rightarrow> string \<Rightarrow> sigar_iodev option \<times> iodev_cache" where
  "disk_iodev env fsdev dirname = sigar_iodev_get (dk_stat env) (dk_mounts env) (dk_now env) fsdev dirname"

definition iodev_key :: "disk_env \<Rightarrow> string \<Rightarrow> uint64" where
  "iodev_key env dirname = (case dk_stat env (fst (iodev_path dirname)) of Inr sb \<Rightarrow> SIGAR_FSDEV_ID sb | Inl _ \<Rightarrow> 0)"

type_synonym iostat = "(status \<times> sigar_disk_usage \<times> sigar_iodev option \<times> iodev_cache) ub"

subsection \<open>sysfs\<close>

text \<open>The search for the first digit of the name does not stop at its end; \<open>scan_sys\<close> reads the second and
  the fourth number of the file.\<close>

definition scan_sys :: "(uint64 \<times> uint64) scan" where
  "scan_sys = do {
     scan_token;
     reads \<leftarrow> sigar_strtoull;
     scan_token;
     writes \<leftarrow> sigar_strtoull;
     State_Monad.return (reads, writes)
   }"

definition get_iostat_sys :: "disk_env \<Rightarrow> iodev_cache option \<Rightarrow> string \<Rightarrow> sigar_disk_usage \<Rightarrow> iostat" where
  "get_iostat_sys env fsdev dirname disk =
     (case disk_iodev env fsdev dirname of
        (None, c) \<Rightarrow> Some (ENXIO, disk, None, c)
      | (Some iodev, c) \<Rightarrow>
          (let before = takeWhile (\<lambda>ch. \<not> isdigit ch) (io_name iodev);
               digits = drop (length before) (io_name iodev)
           in if digits = [] then None
              else
                (let partition = (ucast (fst (strtou 0 (cstring digits))) :: uint32);
                     iodev1 = iodev\<lparr>io_name := before @ CHR 0x00 # tl digits\<rparr>;
                     name = (if SIGAR_NAME_IS_DEV (cstring (io_name iodev)) then drop 5 (cstring before) else cstring before);
                     path = sstrcpy 1025 (sigar_proc_path (dk_host env) None None (Some ''/sys/block'') @ ''/'' @ name @ ''/'' @
                              name @ dec_int (sint partition) @ ''/stat'');
                     c1 = cache_set_value c (iodev_key env dirname) iodev1
                 in case sigar_file2str (dk_fs env) path 1025 of
                      (status, dev) \<Rightarrow>
                        if status \<noteq> SIGAR_OK then Some (status, disk, Some iodev1, c1)
                        else (case fst (run_state scan_sys dev) of
                                (reads, writes) \<Rightarrow>
                                  Some (SIGAR_OK, disk\<lparr>du_reads := reads, du_writes := writes, du_read_bytes := SIGAR_FIELD_NOTIMPL,
                                          du_write_bytes := SIGAR_FIELD_NOTIMPL, du_queue := Fin (- 1)\<rparr>, Some iodev1, c1)))))"

subsection \<open>/proc/diskstats\<close>

definition DSTAT_FMT :: "conv list" where
  "DSTAT_FMT = [ConvNum 10 0 False, ConvBlank, ConvNum 10 0 False, ConvBlank, ConvNum 10 0 False, ConvBlank, ConvNum 10 0 False, ConvBlank,
     ConvNum 10 0 False, ConvBlank, ConvNum 10 0 False, ConvBlank, ConvNum 10 0 False, ConvBlank, ConvNum 10 0 False, ConvBlank,
     ConvNum 10 0 False, ConvBlank, ConvNum 10 0 False, ConvBlank, ConvNum 10 0 False]"

text \<open>With fewer than seven numbers and not four, variables are used that were never set.\<close>

definition dstat_assign :: "cval list \<Rightarrow> sigar_disk_usage \<Rightarrow> sigar_disk_usage ub" where
  "dstat_assign vals disk =
     (let num = length vals; v = num_at vals in
      if num = 11 then
        Some (disk\<lparr>du_rtime := v 3, du_wtime := v 7, du_time := v 9, du_qtime := v 10, du_ios := v 8,
                   du_reads := v 0, du_writes := v 4, du_read_bytes := v 2 * 512, du_write_bytes := v 6 * 512\<rparr>)
      else if num = 4 then
        Some (disk\<lparr>du_time := SIGAR_FIELD_NOTIMPL, du_qtime := SIGAR_FIELD_NOTIMPL,
                   du_reads := v 0, du_writes := v 2, du_read_bytes := v 1 * 512, du_write_bytes := v 3 * 512\<rparr>)
      else if 7 \<le> num then
        Some (disk\<lparr>du_reads := v 0, du_writes := v 4, du_read_bytes := v 2 * 512, du_write_bytes := v 6 * 512\<rparr>)
      else None)"

definition scan_device :: "(uint64 \<times> uint64) scan" where
  "scan_device = do { ma \<leftarrow> sigar_strtoul; mi \<leftarrow> sigar_strtoul; State_Monad.return (ma, mi) }"

fun dstat_loop :: "uint32 \<Rightarrow> uint32 \<Rightarrow> string list \<Rightarrow> sigar_disk_usage \<Rightarrow> sigar_disk_usage \<Rightarrow> (status \<times> sigar_disk_usage \<times> sigar_disk_usage) ub" where
  "dstat_loop ma mi [] disk device_usage = Some (ENOENT, disk, device_usage)"
| "dstat_loop ma mi (buffer # ls) disk device_usage =
     (case run_state scan_device buffer of
        ((dev_major, dev_minor), ptr) \<Rightarrow>
          if dev_major = ucast ma \<and> (dev_minor = ucast mi \<or> dev_minor = 0) then
            (case dstat_assign (fst (sscanf DSTAT_FMT (sigar_skip_token ptr))) disk of
               None \<Rightarrow> None
             | Some disk1 \<Rightarrow>
                 if dev_minor = ucast mi then Some (SIGAR_OK, disk1, device_usage)
                 else dstat_loop ma mi ls disk1 disk1)
          else dstat_loop ma mi ls disk device_usage)"

definition get_iostat_proc_dstat ::
  "disk_env \<Rightarrow> iodev_cache option \<Rightarrow> string \<Rightarrow> sigar_disk_usage \<Rightarrow> sigar_disk_usage \<Rightarrow>
   (status \<times> sigar_disk_usage \<times> sigar_iodev option \<times> iodev_cache \<times> sigar_disk_usage) ub" where
  "get_iostat_proc_dstat env fsdev dirname disk device_usage =
     (case disk_iodev env fsdev dirname of
        (None, c) \<Rightarrow> Some (ENXIO, disk, None, c, device_usage)
      | (Some iodev, c) \<Rightarrow>
          (case dk_stat env (cstring (io_name iodev)) of
             Inl errno \<Rightarrow> Some (errno, disk, Some iodev, c, device_usage)
           | Inr sb \<Rightarrow>
               (case dk_fopen env (proc_file (dk_host env) ''diskstats'') of
                  Inl errno \<Rightarrow> Some (errno, disk, Some iodev, c, device_usage)
                | Inr ls \<Rightarrow>
                    map_option (\<lambda>(status, disk1, device_usage1). (status, disk1, Some iodev, c, device_usage1))
                      (dstat_loop (major (st_rdev sb)) (minor (st_rdev sb)) ls disk device_usage))))"

subsection \<open>/proc/partitions\<close>

definition scan_partition :: "sigar_disk_usage \<Rightarrow> sigar_disk_usage scan" where
  "scan_partition disk = do {
     scan_token;
     scan_token;
     reads \<leftarrow> sigar_strtoull;
     scan_token;
     rsect \<leftarrow> sigar_strtoull;
     rtime \<leftarrow> sigar_strtoull;
     writes \<leftarrow> sigar_strtoull;
     scan_token;
     wsect \<leftarrow> sigar_strtoull;
     wtime \<leftarrow> sigar_strtoull;
     scan_token;
     time \<leftarrow> sigar_strtoull;
     qtime \<leftarrow> sigar_strtoull;
     State_Monad.return (disk\<lparr>du_reads := reads, du_read_bytes := rsect * 512, du_rtime := rtime, du_writes := writes,
       du_write_bytes := wsect * 512, du_wtime := wtime, du_time := time, du_qtime := qtime\<rparr>)
   }"

fun procp_loop :: "uint32 \<Rightarrow> uint32 \<Rightarrow> string list \<Rightarrow> sigar_disk_usage \<Rightarrow> status \<times> sigar_disk_usage" where
  "procp_loop ma mi [] disk = (ENOENT, disk)"
| "procp_loop ma mi (buffer # ls) disk =
     (case run_state scan_device buffer of
        ((dev_major, dev_minor), ptr) \<Rightarrow>
          if dev_major = ucast ma \<and> dev_minor = ucast mi then (SIGAR_OK, fst (run_state (scan_partition disk) ptr))
          else procp_loop ma mi ls disk)"

definition get_iostat_procp :: "disk_env \<Rightarrow> iodev_cache option \<Rightarrow> string \<Rightarrow> sigar_disk_usage \<Rightarrow> iostat" where
  "get_iostat_procp env fsdev dirname disk =
     (case disk_iodev env fsdev dirname of
        (None, c) \<Rightarrow> Some (ENXIO, disk, None, c)
      | (Some iodev, c) \<Rightarrow>
          (case dk_stat env (cstring (io_name iodev)) of
             Inl errno \<Rightarrow> Some (errno, disk, Some iodev, c)
           | Inr sb \<Rightarrow>
               (case dk_fopen env (proc_file (dk_host env) ''partitions'') of
                  Inl errno \<Rightarrow> Some (errno, disk, Some iodev, c)
                | Inr ls \<Rightarrow>
                    (case sigar_skip_file_lines (Some ls) 1 of
                       (result, fp) \<Rightarrow>
                         if result \<noteq> SIGAR_OK then Some (- 1, disk, Some iodev, c)
                         else (case procp_loop (major (st_rdev sb)) (minor (st_rdev sb)) (case fp of Some rest \<Rightarrow> rest | None \<Rightarrow> []) disk of
                                 (status, disk1) \<Rightarrow> Some (status, disk1, Some iodev, c))))))"

section \<open>Usage of a disk\<close>

text \<open>\<open>HZ\<close> is 100 on this platform.\<close>

definition disk_rates :: "rounding \<Rightarrow> uint64 \<Rightarrow> sigar_disk_usage \<Rightarrow> sigar_disk_usage \<Rightarrow> sigar_disk_usage" where
  "disk_rates rnd snaptime prev disk =
     (let interval = (if du_snaptime prev \<noteq> 0 then snaptime - du_snaptime prev else snaptime);
          per = dbl_of_u64 rnd interval;
          ios = (du_reads disk - du_reads prev) + (du_writes disk - du_writes prev);
          tput = dbl_div_fin rnd (rnd (dbl_of_u64 rnd ios * 100)) per;
          util = dbl_mult rnd (dbl_div_fin rnd (dbl_of_u64 rnd (du_time disk - du_time prev)) per) 100;
          service_time = (if du_time disk = SIGAR_FIELD_NOTIMPL then Fin (- 1)
                          else if tput \<noteq> Fin 0 then dbl_div rnd util tput else Fin 0);
          queue = (if du_qtime disk = SIGAR_FIELD_NOTIMPL then Fin (- 1)
                   else dbl_div rnd (dbl_div_fin rnd (dbl_of_u64 rnd (du_qtime disk - du_qtime prev)) per) (Fin 1000))
      in disk\<lparr>du_snaptime := snaptime, du_service_time := service_time, du_queue := queue\<rparr>)"

text \<open>\<open>init\<close> is the structure \<open>SIGAR_DISK_STATS_INIT\<close> leaves: the macro converts a value out of range, so C does
  not say what it is.\<close>

definition sigar_disk_usage_get ::
  "rounding \<Rightarrow> sigar_disk_usage \<Rightarrow> disk_env \<Rightarrow> linux_sigar \<Rightarrow> iodev_cache option \<Rightarrow> string \<Rightarrow>
   (status \<times> sigar_disk_usage \<times> iodev_cache option) ub" where
  "sigar_disk_usage_get rnd init env sigar fsdev name = do {
     (status, disk, iodev, c, device_usage) \<leftarrow>
       (case ls_iostat sigar of
          IOSTAT_SYS \<Rightarrow> map_option (\<lambda>(st, d, io, c). (st, d, io, Some c, init)) (get_iostat_sys env fsdev name init)
        | IOSTAT_DISKSTATS \<Rightarrow> map_option (\<lambda>(st, d, io, c, du). (st, d, io, Some c, du)) (get_iostat_proc_dstat env fsdev name init init)
        | IOSTAT_PARTITIONS \<Rightarrow> map_option (\<lambda>(st, d, io, c). (st, d, io, Some c, init)) (get_iostat_procp env fsdev name init)
        | IOSTAT_NONE \<Rightarrow> Some (ENOENT, init, None, fsdev, init));
     case (status = SIGAR_OK, iodev) of
       (True, Some io) \<Rightarrow>
         (case sigar_uptime_get rnd (dk_host env) (dk_fs env) NaN of
            (up, uptime) \<Rightarrow>
              if up \<noteq> SIGAR_OK then None
              else do {
                snaptime \<leftarrow> u64_of_dbl uptime;
                let is_part = (io_is_partition io \<and> ls_iostat sigar = IOSTAT_DISKSTATS);
                let measured = disk_rates rnd snaptime (io_disk io) (if is_part then device_usage else disk);
                Some (SIGAR_OK,
                      if is_part then disk\<lparr>du_service_time := du_service_time measured, du_queue := du_queue measured\<rparr> else measured,
                      map_option (\<lambda>t. cache_set_value t (iodev_key env name) (io\<lparr>io_disk := measured\<rparr>)) c)
              })
     | _ \<Rightarrow> Some (status, disk, c)
   }"

definition sigar_file_system_usage_get ::
  "rounding \<Rightarrow> sigar_disk_usage \<Rightarrow> disk_env \<Rightarrow> linux_sigar \<Rightarrow> iodev_cache option \<Rightarrow> string \<Rightarrow> sigar_file_system_usage \<Rightarrow>
   (status \<times> sigar_file_system_usage \<times> iodev_cache option) ub" where
  "sigar_file_system_usage_get rnd init env sigar fsdev dirname fsusage =
     (case sigar_statvfs (dk_statvfs env) dirname fsusage of
        (status, fsusage1) \<Rightarrow>
          if status \<noteq> SIGAR_OK then Some (status, fsusage1, fsdev)
          else
            (let fsusage2 = fsusage1\<lparr>fs_use_percent := sigar_file_system_usage_calc_used rnd fsusage1\<rparr> in
             map_option (\<lambda>(_, disk, c). (SIGAR_OK, fsusage2\<lparr>fs_disk := disk\<rparr>, c))
               (sigar_disk_usage_get rnd init env sigar fsdev dirname)))"

section \<open>Initialisation and sysfs\<close>

text \<open>In a binary format with fewer than 64 bits of precision the largest unsigned number rounds up to
  \<open>2^64\<close>, and the initialisation is undefined.\<close>

lemma disk_stats_init_undefined:
  assumes "rnd (of_nat (2 ^ 64 - 1)) = of_nat (2 ^ 64)"
  shows "SIGAR_DISK_STATS_INIT rnd disk = None"
proof -
  have "unat (- 1 :: uint64) = 2 ^ 64 - 1" by (simp add: unsigned_minus_1_eq_mask mask_eq_exp_minus_1)
  then have "dbl_of_u64 rnd SIGAR_FIELD_NOTIMPL = of_nat (2 ^ 64)" using assms by (simp only: dbl_of_u64_def)
  then show ?thesis by (simp add: SIGAR_DISK_STATS_INIT_def Let_def u64_of_rat_def)
qed

lemma cached_iodev:
  assumes "perm_ok (Suc n) c" and "dk_stat env (fst (iodev_path dirname)) = Inr sb" and "cache_stored c (iodev_key env dirname) = Some io"
  shows "\<exists>c1. disk_iodev env (Some c) dirname = (Some io, c1) \<and> perm_ok n c1 \<and> cache_stored c1 = cache_stored c
    \<and> cache_present c1 (iodev_key env dirname)"
proof -
  obtain r c1 where g: "cache_get_now c (SIGAR_FSDEV_ID sb) (dk_now env) = (r, c1)" by (cases "cache_get_now c (SIGAR_FSDEV_ID sb) (dk_now env)")
  have k: "iodev_key env dirname = SIGAR_FSDEV_ID sb" using assms(2) by (simp add: iodev_key_def)
  from perm.get_law [OF assms(1) g] assms(3) have "r = Some io" "perm_ok n c1" "cache_stored c1 = cache_stored c"
    "cache_present c1 (SIGAR_FSDEV_ID sb)" by (simp_all add: k)
  with g assms(2) show ?thesis
    by (simp add: k disk_iodev_def sigar_iodev_get_def Let_def split_def)
qed

text \<open>disk statistics from \<open>/sys\<close> work once. The name of the cached device is cut at its first digit in
  place; when no other digit follows, the next call for the same device searches a digit past
  the end of the array.\<close>

theorem sys_iostat_second_call:
  assumes "perm_ok 2 c" and "dk_stat env (fst (iodev_path dirname)) = Inr sb" and "cache_stored c (iodev_key env dirname) = Some io"
    and "io_name io = before @ d # rest" and "isdigit d" and "list_all (\<lambda>ch. \<not> isdigit ch) (before @ rest)"
  shows "\<exists>st disk1 io1 c1. get_iostat_sys env (Some c) dirname disk = Some (st, disk1, Some io1, c1)
    \<and> get_iostat_sys env (Some c1) dirname disk1 = None"
proof -
  let ?k = "iodev_key env dirname"
  have "perm_ok (Suc 1) c" using assms(1) by (simp add: numeral_2_eq_2)
  from cached_iodev [OF this assms(2,3)] obtain c1 where
    c1: "disk_iodev env (Some c) dirname = (Some io, c1)" "perm_ok 1 c1" "cache_present c1 ?k" by blast
  have b: "takeWhile (\<lambda>ch. \<not> isdigit ch) (io_name io) = before" "drop (length before) (io_name io) = d # rest"
    using assms(4-6) by (auto simp: takeWhile_append list_all_iff)
  define io1 where "io1 = io\<lparr>io_name := before @ CHR 0x00 # rest\<rparr>"
  define c2 where "c2 = cache_set_value c1 ?k io1"
  from perm.put_law [OF c1(2,3)] have c2: "perm_ok 1 c2" "cache_stored c2 ?k = Some io1" by (simp_all add: c2_def)
  have n: "\<not> length (io_name io) \<le> length before" by (simp add: assms(4))
  have first: "\<exists>st disk1. get_iostat_sys env (Some c) dirname disk = Some (st, disk1, Some io1, c2)"
    by (auto simp: get_iostat_sys_def c1(1) b n Let_def io1_def c2_def split: prod.split)
  from cached_iodev [of 0 c2 env dirname sb io1] c2 assms(2) obtain c3 where
    c3: "disk_iodev env (Some c2) dirname = (Some io1, c3)" by auto
  have "\<not> isdigit (CHR 0x00)" by (simp add: isdigit_def)
  then have t: "takeWhile (\<lambda>ch. \<not> isdigit ch) (io_name io1) = io_name io1"
    using assms(6) by (auto simp: io1_def takeWhile_eq_all_conv list_all_iff)
  have "get_iostat_sys env (Some c2) dirname disk1 = None" for disk1 by (simp add: get_iostat_sys_def c3 Let_def t)
  with first show ?thesis by blast
qed

section \<open>Rows of /proc/diskstats\<close>

fun num_fmt :: "nat \<Rightarrow> conv list" where
  "num_fmt 0 = [ConvNum 10 0 False]"
| "num_fmt (Suc k) = ConvNum 10 0 False # ConvBlank # num_fmt k"

lemma DSTAT_FMT_nums: "DSTAT_FMT = num_fmt 10"
  by (simp add: DSTAT_FMT_def numeral_eq_Suc)

lemma sscanf_num_skip: "sscanf (num_fmt k) (skip_space s) = sscanf (num_fmt k) s"
  by (cases k) (simp_all add: skip_space_idem)

lemma sscanf_unsigned:
  assumes "n < 2 ^ 64" and "ends_field t"
  shows "sscanf (ConvNum 10 0 False # cs) (CHR '' '' # dec_digits n @ t) = apfst (Cons (ValNum (of_nat n))) (sscanf cs t)"
proof -
  obtain k where "0 < k" "scan_base 10 0 0 (dec_digits n @ t) = (k, n, t)"
    using scan_base_dec [OF ends_not_digit [OF assms(2)]] by blast
  moreover have "num_value False False n = of_nat n" using assms(1) by (simp add: num_value_def)
  ultimately have "scan_num 10 False (dec_digits n @ t) = Some (of_nat n, t)"
    using dec_digits_no_sign_space [of n t] by (simp add: scan_num_def)
  then show ?thesis using skip_space_field [OF field_ok_dec, of n t] by simp
qed

lemma sscanf_nums:
  assumes "Suc k \<le> length ns" and "list_all (\<lambda>n. n < 2 ^ 64) ns" and "ends_field t"
  shows "fst (sscanf (num_fmt k) (fields_text (map dec_digits ns) @ t)) = map (\<lambda>n. ValNum (of_nat n)) (take (Suc k) ns)"
  using assms(1,2)
proof (induction k arbitrary: ns)
  case 0
  then obtain n ms where ns: "ns = n # ms" by (cases ns) auto
  have "n < 2 ^ 64" "ends_field (fields_text (map dec_digits ms) @ t)" using 0 ns assms(3) by simp_all
  from sscanf_unsigned [OF this, of "[]"] show ?case by (simp add: ns del: sscanf.simps(5))
next
  case (Suc k)
  then obtain n ms where ns: "ns = n # ms" by (cases ns) auto
  have n: "n < 2 ^ 64" "ends_field (fields_text (map dec_digits ms) @ t)" using Suc.prems ns assms(3) by simp_all
  have "fst (sscanf (num_fmt k) (fields_text (map dec_digits ms) @ t)) = map (\<lambda>n. ValNum (of_nat n)) (take (Suc k) ms)"
    using Suc.IH [of ms] Suc.prems ns by simp
  then show ?case using sscanf_unsigned [OF n, of "ConvBlank # num_fmt k"]
    by (simp add: ns sscanf_num_skip del: sscanf.simps(5))
qed

record dstat_row =
  dr_pads :: "nat \<times> nat"
  dr_major :: uint32
  dr_minor :: uint32
  dr_name :: string
  dr_counts :: "nat list"

definition row_text :: "dstat_row \<Rightarrow> string" where
  "row_text r = replicate (fst (dr_pads r)) (CHR '' '') @ dec_digits (unat (dr_major r)) @ CHR '' '' # replicate (snd (dr_pads r)) (CHR '' '') @
     dec_digits (unat (dr_minor r)) @ CHR '' '' # dr_name r @ fields_text (map dec_digits (dr_counts r)) @ [CHR 0x0A]"

definition row_ok :: "dstat_row \<Rightarrow> bool" where
  "row_ok r \<longleftrightarrow> field_ok (dr_name r) \<and> 11 \<le> length (dr_counts r) \<and> list_all (\<lambda>n. n < 2 ^ 64) (dr_counts r)"

definition row_counts :: "dstat_row \<Rightarrow> sigar_disk_usage \<Rightarrow> sigar_disk_usage" where
  "row_counts r disk = (let v = (\<lambda>i. of_nat (dr_counts r ! i)) in
     disk\<lparr>du_rtime := v 3, du_wtime := v 7, du_time := v 9, du_qtime := v 10, du_ios := v 8,
          du_reads := v 0, du_writes := v 4, du_read_bytes := v 2 * 512, du_write_bytes := v 6 * 512\<rparr>)"

lemma strtoull_pad: "ends_field t \<Longrightarrow> n < 2 ^ 64 \<Longrightarrow>
    run_state sigar_strtoul (replicate k (CHR '' '') @ dec_digits n @ t) = (of_nat n, t)"
proof -
  have "skip_space (replicate k (CHR '' '') @ s) = skip_space s" for s by (induction k) simp_all
  then have "strtoull (replicate k (CHR '' '') @ dec_digits n @ t) = strtoull (dec_digits n @ t)" if "starts_digit (snd (scan_sign (skip_space (dec_digits n @ t))))"
    using that by (auto simp: strtoull_def Let_def split: prod.split)
  moreover assume a: "ends_field t" "n < 2 ^ 64"
  moreover have "starts_digit (snd (scan_sign (skip_space (dec_digits n @ t))))"
    using dec_digits_no_sign_space [of n t] starts_digit_dec by simp
  ultimately show ?thesis using run_strtoull_dec(2) [OF a(2,1)] by (simp add: sigar_strtoul_def sigar_strtoull_def)
qed

lemma unat_lt_64: "unat (w :: uint32) < 2 ^ 64"
  using unsigned_less [of w, where ?'a = nat] by simp

lemma run_row:
  assumes "row_ok r"
  shows "run_state scan_device (row_text r) = ((ucast (dr_major r), ucast (dr_minor r)),
    CHR '' '' # dr_name r @ fields_text (map dec_digits (dr_counts r)) @ [CHR 0x0A])"
proof -
  have sp: "CHR '' '' # replicate k (CHR '' '') = replicate (Suc k) (CHR '' '')" for k by simp
  have e: "ends_field (CHR '' '' # t)" for t by simp
  note m = strtoull_pad [OF e unat_lt_64]
  have "run_state sigar_strtoul (CHR '' '' # replicate k (CHR '' '') @ dec_digits (unat w) @ CHR '' '' # t) = (ucast (w :: uint32), CHR '' '' # t)" for k w t
    using m [of "Suc k" w] by simp
  with m show ?thesis by (simp add: scan_device_def row_text_def)
qed

lemma dstat_assign_row:
  assumes "row_ok r"
  shows "dstat_assign (fst (sscanf DSTAT_FMT (sigar_skip_token (CHR '' '' # dr_name r @ fields_text (map dec_digits (dr_counts r)) @ [CHR 0x0A])))) disk
    = Some (row_counts r disk)"
proof -
  have ok: "field_ok (dr_name r)" "Suc 10 \<le> length (dr_counts r)" "list_all (\<lambda>n. n < 2 ^ 64) (dr_counts r)"
    using assms by (simp_all add: row_ok_def)
  have "sigar_skip_token (CHR '' '' # dr_name r @ fields_text (map dec_digits (dr_counts r)) @ [CHR 0x0A])
      = fields_text (map dec_digits (dr_counts r)) @ [CHR 0x0A]"
    using ok(1) by (intro skip_token_field) simp_all
  moreover have l: "length (map (\<lambda>n. ValNum (of_nat n)) (take (Suc 10) (dr_counts r))) = 11" using ok(2) by simp
  moreover have "num_at (map (\<lambda>n. ValNum (of_nat n)) (take (Suc 10) (dr_counts r))) i = of_nat (dr_counts r ! i)" if "i < 11" for i
    using that ok(2) by (simp add: num_at_def cell_def)
  ultimately show ?thesis
    using sscanf_nums [OF ok(2,3) ends_fields(2)] by (simp add: DSTAT_FMT_nums dstat_assign_def row_counts_def Let_def)
qed

text \<open>The row of the device, and the last row with minor number 0 of the same driver before it.\<close>

fun find_row :: "uint32 \<Rightarrow> uint32 \<Rightarrow> dstat_row list \<Rightarrow> dstat_row option" where
  "find_row ma mi rows = List.find (\<lambda>r. dr_major r = ma \<and> dr_minor r = mi) rows"

definition rows_before :: "uint32 \<Rightarrow> uint32 \<Rightarrow> dstat_row list \<Rightarrow> dstat_row list" where
  "rows_before ma mi rows =
     filter (\<lambda>r. dr_major r = ma \<and> dr_minor r = 0) (takeWhile (\<lambda>r. \<not> (dr_major r = ma \<and> dr_minor r = mi)) rows)"

lemma ucast_eq_32: "((ucast (a :: uint32) :: uint64) = ucast b) = (a = b)" "((ucast a :: uint64) = 0) = (a = 0)"
  by (metis unat_ucast_32_64 unsigned_word_eqI, metis unat_ucast_32_64 unsigned_0 unsigned_word_eqI)

lemma dstat_loop_rows:
  assumes "list_all row_ok rows" and "find_row ma mi rows = Some r"
  shows "\<exists>d. dstat_loop ma mi (map row_text rows) disk device_usage =
    Some (SIGAR_OK, row_counts r d, if rows_before ma mi rows = [] then device_usage else row_counts (last (rows_before ma mi rows)) disk)"
  using assms
proof (induction rows arbitrary: disk device_usage)
  case (Cons q rows)
  have ok: "row_ok q" "list_all row_ok rows" using Cons.prems(1) by simp_all
  note run = run_row [OF ok(1)] dstat_assign_row [OF ok(1)]
  have same: "row_counts x (row_counts y d) = row_counts x d" for x y d by (simp add: row_counts_def Let_def)
  consider "dr_major q = ma \<and> dr_minor q = mi" | "dr_major q = ma \<and> dr_minor q = 0 \<and> mi \<noteq> 0" | "\<not> (dr_major q = ma \<and> (dr_minor q = mi \<or> dr_minor q = 0))"
    by auto
  then show ?case
  proof cases
    case 1
    then have "r = q" using Cons.prems(2) by simp
    with 1 show ?thesis by (intro exI [of _ disk]) (simp add: run run [simplified] ucast_eq_32 rows_before_def)
  next
    case 2
    then have f: "find_row ma mi rows = Some r" using Cons.prems(2) by auto
    from Cons.IH [OF ok(2) f, of "row_counts q disk" "row_counts q disk"] 2 show ?thesis
      by (auto simp: run ucast_eq_32 rows_before_def same split: if_splits)
  next
    case 3
    then have f: "find_row ma mi rows = Some r" using Cons.prems(2) by auto
    from Cons.IH [OF ok(2) f, of disk device_usage] 3 show ?thesis
      by (auto simp: run ucast_eq_32 rows_before_def)
  qed
qed simp

text \<open>In exact arithmetic the service time is the busy time per operation and the queue the weighted
  time in seconds per unit of the interval.\<close>

lemma disk_rates_exact:
  assumes "du_time disk \<noteq> SIGAR_FIELD_NOTIMPL" and "du_qtime disk \<noteq> SIGAR_FIELD_NOTIMPL" and "du_snaptime prev \<noteq> 0"
    and "snaptime \<noteq> du_snaptime prev" and "ios = du_reads disk - du_reads prev + (du_writes disk - du_writes prev)"
  shows "du_service_time (disk_rates (\<lambda>x. x) snaptime prev disk) =
      Fin (if ios = 0 then 0 else of_nat (unat (du_time disk - du_time prev)) / of_nat (unat ios))"
    and "du_queue (disk_rates (\<lambda>x. x) snaptime prev disk) =
      Fin (of_nat (unat (du_qtime disk - du_qtime prev)) / of_nat (unat (snaptime - du_snaptime prev)) / 1000)"
proof -
  define q where "q = (of_nat (unat (snaptime - du_snaptime prev)) :: rat)"
  have "snaptime - du_snaptime prev \<noteq> 0" using assms(4) by simp
  then have "unat (snaptime - du_snaptime prev) \<noteq> 0" by (metis unsigned_0 unsigned_word_eqI)
  then have q: "q \<noteq> 0" unfolding q_def by (simp only: of_nat_eq_0_iff not_False_eq_True)
  have q': "unsigned (snaptime - du_snaptime prev) = q" by (simp add: q_def)
  have "(unat ios = 0) = (ios = 0)" by (metis unsigned_0 unsigned_word_eqI)
  then have i: "(of_nat (unat ios) = (0 :: rat)) = (ios = 0)" by (simp only: of_nat_eq_0_iff)
  show "du_service_time (disk_rates (\<lambda>x. x) snaptime prev disk) =
      Fin (if ios = 0 then 0 else of_nat (unat (du_time disk - du_time prev)) / of_nat (unat ios))"
    using assms(1,3) q i
    by (simp add: disk_rates_def Let_def dbl_of_u64_def dbl_div_fin_def q' assms(5) [symmetric])
  show "du_queue (disk_rates (\<lambda>x. x) snaptime prev disk) =
      Fin (of_nat (unat (du_qtime disk - du_qtime prev)) / of_nat (unat (snaptime - du_snaptime prev)) / 1000)"
    using assms(2,3) q by (simp add: disk_rates_def Let_def dbl_of_u64_def dbl_div_fin_def q')
qed


section \<open>Examples\<close>

definition example_row :: dstat_row where
  "example_row = \<lparr>dr_pads = (3, 6), dr_major = 8, dr_minor = 0, dr_name = ''sda'', dr_counts = [100, 2, 800, 30, 50, 4, 160, 60, 0, 70, 90]\<rparr>"

definition example_disk_env :: disk_env where
  "example_disk_env = \<lparr>dk_host = None,
     dk_stat = (\<lambda>p. if p = ''/dev/sda'' then Inr ((example_stat_info 5)\<lparr>st_mode := 0x61B0, st_rdev := 0x800\<rparr>)
                    else if p = ''/dev/sda1'' then Inr ((example_stat_info 6)\<lparr>st_mode := 0x61B0, st_rdev := 0x801\<rparr>) else Inl ENOENT),
     dk_mounts = Inr [], dk_now = 0,
     dk_fopen = (\<lambda>p. if p = ''/proc/diskstats'' then Inr [row_text example_row] else Inl ENOENT),
     dk_fs = (\<lambda>p. if p = ''/proc/uptime'' then Contents ''123'' else OpenFails),
     dk_statvfs = (\<lambda>p. Inl ENOENT)\<rparr>"


definition example_sys_cache :: iodev_cache where
  "example_sys_cache = cache_set_value (snd (cache_get_now (sigar_cache_new 15 0) 0x801 0)) 0x801 (new_iodev ''/dev/sda1'' False)"

theorem sys_iostat_second_call_witness:
  "\<exists>st disk1 io1 c1. get_iostat_sys example_disk_env (Some example_sys_cache) ''/dev/sda1'' zero_disk_usage = Some (st, disk1, Some io1, c1)
    \<and> get_iostat_sys example_disk_env (Some c1) ''/dev/sda1'' disk1 = None"
proof -
  let ?sb = "(example_stat_info 6)\<lparr>st_mode := 0x61B0, st_rdev := 0x801\<rparr>"
  obtain r c0 where g: "cache_get_now (sigar_cache_new 15 0 :: iodev_cache) 0x801 0 = (r, c0)"
    by (cases "cache_get_now (sigar_cache_new 15 0 :: iodev_cache) 0x801 0")
  have "perm_ok (Suc 2) (sigar_cache_new 15 0 :: iodev_cache)" by (rule perm_new) simp_all
  from perm.get_law [OF this g] have c0: "perm_ok 2 c0" "cache_present c0 0x801" by simp_all
  from perm.put_law [OF this, of "new_iodev ''/dev/sda1'' False"] g
  have c: "perm_ok 2 example_sys_cache" "cache_stored example_sys_cache 0x801 = Some (new_iodev ''/dev/sda1'' False)"
    by (simp_all add: example_sys_cache_def)
  have path: "dk_stat example_disk_env (fst (iodev_path ''/dev/sda1'')) = Inr ?sb"
    by (simp add: iodev_path_def example_disk_env_def)
  then have "iodev_key example_disk_env ''/dev/sda1'' = 0x801" by (simp add: iodev_key_def SIGAR_FSDEV_ID_def)
  with c(2) have st: "cache_stored example_sys_cache (iodev_key example_disk_env ''/dev/sda1'') = Some (new_iodev ''/dev/sda1'' False)" by simp
  have "io_name (new_iodev ''/dev/sda1'' False) = ''/dev/sda'' @ CHR ''1'' # []" by (simp add: new_iodev_def sstrcpy_def)
  from sys_iostat_second_call [OF c(1) path st this] show ?thesis by (simp add: isdigit_def)
qed

end
