(* ===== verification/Linux_Vendor.thy ===== *)
theory Linux_Vendor
  imports Linux_Disk Sigar_Proc
begin

text \<open>
  System description and the life of a handle: \<open>generic_vendor_parse\<close> to \<open>sigar_os_is_in_container\<close> of
  \<open>src/os/linux/linux_sigar.c\<close>, \<open>sigar_sys_info_get\<close>, \<open>sigar_open\<close> and \<open>sigar_close\<close> of \<open>src/sigar.c\<close>. Two loops of the
  vendor parsers may run forever; they are defined with \<open>partial_function\<close>, so a result has two
  layers: \<open>None\<close> when the call does not return, \<open>Some None\<close> when it returns after undefined behaviour.
\<close>

section \<open>Data\<close>

record sigar_sys_info =
  si_name :: string
  si_version :: string
  si_arch :: string
  si_machine :: string
  si_description :: string
  si_patch_level :: string
  si_vendor :: string
  si_vendor_version :: string
  si_vendor_name :: string
  si_vendor_code_name :: string
  si_uuid :: string

definition zero_sys_info :: sigar_sys_info where
  "zero_sys_info = \<lparr>si_name = [], si_version = [], si_arch = [], si_machine = [], si_description = [], si_patch_level = [], si_vendor = [],
     si_vendor_version = [], si_vendor_name = [], si_vendor_code_name = [], si_uuid = []\<rparr>"

abbreviation (input) SIGAR_SYS_INFO_LEN :: nat where "SIGAR_SYS_INFO_LEN \<equiv> 256"

section \<open>Release files\<close>

definition version_char :: "char \<Rightarrow> bool" where
  "version_char c \<longleftrightarrow> isdigit c \<or> c = CHR ''.''"

text \<open>The search for a version number. After trailing blanks the pointer steps over the terminating NUL,
  and the byte behind it is 0 unless the text fills the buffer (\<open>room\<close>). A number that is too long is
  searched again from the same place, with its length added once more.\<close>

partial_function (option) generic_loop :: "bool \<Rightarrow> string \<Rightarrow> nat \<Rightarrow> sigar_sys_info \<Rightarrow> sigar_sys_info ub option" where
  "generic_loop room line len info =
     (if line = [] then Some (Some info)
      else
        (let line1 = skip_space line in
         if line1 = [] then Some (if room then Some info else None)
         else if \<not> isdigit (hd line1) then generic_loop room (tl line1) len info
         else
           (let run = takeWhile version_char line1; len1 = len + length run in
            if SIGAR_SYS_INFO_LEN < len1 then generic_loop room line1 len1 info
            else if len1 = SIGAR_SYS_INFO_LEN then Some None
            else Some (Some (info\<lparr>si_vendor_version := take len1 line1\<rparr>)))))"

definition generic_vendor_parse :: "string \<Rightarrow> sigar_sys_info \<Rightarrow> sigar_sys_info ub option" where
  "generic_vendor_parse line info = generic_loop (length line < 8190) line 0 info"

definition strchr_from :: "char \<Rightarrow> string \<Rightarrow> string option" where
  "strchr_from c s = snd (split_at c s)"

definition redhat_code_name :: "string \<Rightarrow> sigar_sys_info \<Rightarrow> sigar_sys_info ub" where
  "redhat_code_name line info =
     (case strchr_from (CHR ''('') line of
        None \<Rightarrow> Some info
      | Some start \<Rightarrow>
          (case split_at (CHR '')'') start of
             (_, None) \<Rightarrow> Some info
           | (name, Some _) \<Rightarrow> if length name < SIGAR_SYS_INFO_LEN then Some (info\<lparr>si_vendor_code_name := name\<rparr>) else None))"

definition redhat_vendor :: "string \<Rightarrow> sigar_sys_info \<Rightarrow> sigar_sys_info" where
  "redhat_vendor line info =
     (if strnEQ line ''Red Hat Enterprise Linux '' 25
      then info\<lparr>si_vendor_version := ''Enterprise Linux '' @ take 1 (si_vendor_version info)\<rparr>
      else if strnEQ line ''CentOS'' 6 then info\<lparr>si_vendor := ''CentOS''\<rparr>
      else if strnEQ line ''Scientific Linux'' 16 then info\<lparr>si_vendor := ''Scientific Linux''\<rparr>
      else info)"

definition redhat_vendor_parse :: "string \<Rightarrow> sigar_sys_info \<Rightarrow> sigar_sys_info ub option" where
  "redhat_vendor_parse line info =
     map_option (\<lambda>r. Option.bind r (\<lambda>info1. map_option (redhat_vendor line) (redhat_code_name line info1))) (generic_vendor_parse line info)"

subsection \<open>Files of keys and values\<close>

definition is_quote :: "char \<Rightarrow> bool" where
  "is_quote c \<longleftrightarrow> c = CHR 0x27 \<or> c = CHR 0x22"

definition unquote :: "string \<Rightarrow> string" where
  "unquote val = (if val \<noteq> [] \<and> is_quote (hd val) then drop 1 (if is_quote (last val) then butlast val else val) else val)"

text \<open>Without an equals sign in the rest of the data the loop goes on at the same place.\<close>

partial_function (option) kv_loop ::
  "(string \<Rightarrow> string \<Rightarrow> sigar_sys_info \<Rightarrow> sigar_sys_info) \<Rightarrow> string \<Rightarrow> sigar_sys_info \<Rightarrow> sigar_sys_info ub option" where
  "kv_loop func ptr info =
     (if ptr = [] then Some (Some info)
      else
        (case split_at (CHR ''='') ptr of
           (_, None) \<Rightarrow> kv_loop func ptr info
         | (key, Some val) \<Rightarrow>
             if 255 < length key then Some None
             else (let line = fst (split_at (CHR 0x0A) val) in
                   kv_loop func (drop (length line + 1) val) (func key (unquote line) info))))"

definition kv_parse ::
  "(string \<Rightarrow> string \<Rightarrow> sigar_sys_info \<Rightarrow> sigar_sys_info) \<Rightarrow> string \<Rightarrow> sigar_sys_info \<Rightarrow> sigar_sys_info ub option" where
  "kv_parse func data info = kv_loop func data info"

definition lsb_parse :: "string \<Rightarrow> string \<Rightarrow> sigar_sys_info \<Rightarrow> sigar_sys_info" where
  "lsb_parse key val info =
     (if key = ''DISTRIB_ID'' then info\<lparr>si_vendor := sstrcpy SIGAR_SYS_INFO_LEN val\<rparr>
      else if key = ''DISTRIB_RELEASE'' then info\<lparr>si_vendor_version := sstrcpy SIGAR_SYS_INFO_LEN val\<rparr>
      else if key = ''DISTRIB_CODENAME'' then info\<lparr>si_vendor_code_name := sstrcpy SIGAR_SYS_INFO_LEN val\<rparr>
      else info)"

definition lsb_vendor_parse :: "string \<Rightarrow> sigar_sys_info \<Rightarrow> sigar_sys_info ub option" where
  "lsb_vendor_parse data info = kv_parse lsb_parse data info"

definition xen_parse :: "string \<Rightarrow> string \<Rightarrow> sigar_sys_info \<Rightarrow> sigar_sys_info" where
  "xen_parse key val info =
     (if key = ''PRODUCT_VERSION'' then info\<lparr>si_vendor_version := sstrcpy SIGAR_SYS_INFO_LEN val\<rparr>
      else if key = ''KERNEL_VERSION'' then info\<lparr>si_version := sstrcpy SIGAR_SYS_INFO_LEN val\<rparr>
      else info)"

definition xen_vendor_parse :: "string \<Rightarrow> sigar_sys_info \<Rightarrow> sigar_sys_info ub option" where
  "xen_vendor_parse data info =
     map_option (map_option (\<lambda>i. i\<lparr>si_description := sstrcpy 512 (''XenServer '' @ si_vendor_version i)\<rparr>)) (kv_parse xen_parse data info)"

subsection \<open>The vendor\<close>

datatype vendor_parser = GENERIC | REDHAT | LSB | XEN

definition linux_vendors :: "(string \<times> string \<times> vendor_parser) list" where
  "linux_vendors =
     [(''Fedora'', ''/etc/fedora-release'', GENERIC), (''SuSE'', ''/etc/SuSE-release'', GENERIC), (''Gentoo'', ''/etc/gentoo-release'', GENERIC),
      (''Slackware'', ''/etc/slackware-version'', GENERIC), (''Mandrake'', ''/etc/mandrake-release'', GENERIC),
      (''VMware'', ''/proc/vmware/version'', GENERIC), (''XenSource'', ''/etc/xensource-inventory'', XEN),
      (''Oracle'', ''/etc/oracle-release'', GENERIC), (''Red Hat'', ''/etc/redhat-release'', REDHAT), (''lsb'', ''/etc/lsb-release'', LSB),
      (''Debian'', ''/etc/debian_version'', GENERIC)]"

fun vendor_parse :: "vendor_parser \<Rightarrow> string \<Rightarrow> sigar_sys_info \<Rightarrow> sigar_sys_info ub option" where
  "vendor_parse GENERIC = generic_vendor_parse"
| "vendor_parse REDHAT = redhat_vendor_parse"
| "vendor_parse LSB = lsb_vendor_parse"
| "vendor_parse XEN = xen_vendor_parse"

text \<open>\<open>override\<close> is the file and the vendor name of the environment, when both are set.\<close>

definition vendor_choice ::
  "(string \<Rightarrow> bool) \<Rightarrow> (string \<times> string) option \<Rightarrow> (string \<times> string \<times> vendor_parser) option" where
  "vendor_choice exists override =
     (case override of
        Some (release_file, vendor_name) \<Rightarrow>
          map_option (\<lambda>(name, _, p). (name, release_file, p)) (List.find (\<lambda>(name, _, _). name = vendor_name) linux_vendors)
      | None \<Rightarrow> List.find (\<lambda>(_, file, _). exists file) linux_vendors)"

definition vendor_describe :: "sigar_sys_info \<Rightarrow> sigar_sys_info" where
  "vendor_describe info =
     (if si_description info = [] then info\<lparr>si_description := sstrcpy 512 (si_vendor info @ '' '' @ si_vendor_version info)\<rparr> else info)"

definition get_linux_vendor_info ::
  "(string \<Rightarrow> bool) \<Rightarrow> (string \<times> string) option \<Rightarrow> (string \<Rightarrow> file_read) \<Rightarrow> sigar_sys_info \<Rightarrow> (status \<times> sigar_sys_info) ub option" where
  "get_linux_vendor_info exists override fs info =
     (case vendor_choice exists override of
        None \<Rightarrow> Some (Some (ENOENT, info))
      | Some (name, file, parser) \<Rightarrow>
          (case sigar_file2str fs file 8191 of
             (status, data) \<Rightarrow>
               if status \<noteq> SIGAR_OK then Some (Some (status, info))
               else map_option (map_option (\<lambda>i. (SIGAR_OK, vendor_describe i)))
                      (vendor_parse parser data (info\<lparr>si_vendor := sstrcpy SIGAR_SYS_INFO_LEN name\<rparr>))))"

definition sigar_os_sys_info_get ::
  "(string \<Rightarrow> bool) \<Rightarrow> (string \<times> string) option \<Rightarrow> (string \<Rightarrow> file_read) \<Rightarrow> sigar_sys_info \<Rightarrow> (status \<times> sigar_sys_info) ub option" where
  "sigar_os_sys_info_get exists override fs info =
     map_option (map_option (\<lambda>(_, i). (SIGAR_OK, i))) (get_linux_vendor_info exists override fs info)"

section \<open>Identity of the machine and containers\<close>

text \<open>\<open>fgets\<close> of the first line of a text, which keeps the newline.\<close>

definition first_line :: "nat \<Rightarrow> string \<Rightarrow> string" where
  "first_line n s = take (n - 1) (case split_at (CHR 0x0A) s of (l, Some _) \<Rightarrow> l @ [CHR 0x0A] | (l, None) \<Rightarrow> l)"

definition sigar_sys_info_get_uuid :: "(string \<Rightarrow> string option) \<Rightarrow> directory \<Rightarrow> status \<times> string" where
  "sigar_sys_info_get_uuid read opendir =
     (case read ''/etc/machine-id'' of
        Some body \<Rightarrow> if body \<noteq> [] then (SIGAR_OK, first_line (SIGAR_SYS_INFO_LEN - 1) body) else (SIGAR_ENOTIMPL, [])
      | None \<Rightarrow>
          (case opendir ''/dev/disk/by-uuid'' of
             Inl _ \<Rightarrow> (SIGAR_ENOTIMPL, [])
           | Inr ents \<Rightarrow>
               (case List.find (\<lambda>d_name. length d_name = 36 \<or> length d_name = 22) ents of
                  None \<Rightarrow> (SIGAR_ENOTIMPL, [])
                | Some fs_uuid \<Rightarrow> (SIGAR_OK, take (SIGAR_SYS_INFO_LEN - length fs_uuid - 1) fs_uuid))))"

fun container_loop :: "string list \<Rightarrow> bool" where
  "container_loop [] = False"
| "container_loop (buffer # ls) =
     (if strstr buffer ''='' \<noteq> None then container_loop ls
      else if strstr buffer '':/docker/'' \<noteq> None then True else container_loop ls)"

definition sigar_os_is_in_container :: "lines_of \<Rightarrow> bool" where
  "sigar_os_is_in_container fopen = (case fopen ''/proc//1/cgroup'' of Inl _ \<Rightarrow> False | Inr ls \<Rightarrow> container_loop ls)"

record utsname =
  u_sysname :: string
  u_release :: string
  u_machine :: string

definition sigar_sys_info_get_uname :: "utsname \<Rightarrow> sigar_sys_info \<Rightarrow> sigar_sys_info" where
  "sigar_sys_info_get_uname name sysinfo = sysinfo\<lparr>si_version := sstrcpy SIGAR_SYS_INFO_LEN (u_release name),
     si_vendor_name := sstrcpy SIGAR_SYS_INFO_LEN (u_sysname name), si_name := sstrcpy SIGAR_SYS_INFO_LEN (u_sysname name),
     si_machine := sstrcpy SIGAR_SYS_INFO_LEN (u_machine name), si_arch := sstrcpy SIGAR_SYS_INFO_LEN (u_machine name),
     si_patch_level := ''unknown''\<rparr>"

record vendor_env =
  ve_exists :: "string \<Rightarrow> bool"
  ve_override :: "(string \<times> string) option"
  ve_fs :: "string \<Rightarrow> file_read"
  ve_uname :: utsname
  ve_read :: "string \<Rightarrow> string option"
  ve_opendir :: directory

definition sigar_sys_info_get :: "vendor_env \<Rightarrow> (status \<times> sigar_sys_info) ub option" where
  "sigar_sys_info_get env =
     map_option (map_option (\<lambda>(_, i). (SIGAR_OK, i\<lparr>si_uuid := snd (sigar_sys_info_get_uuid (ve_read env) (ve_opendir env))\<rparr>)))
       (sigar_os_sys_info_get (ve_exists env) (ve_override env) (ve_fs env) (sigar_sys_info_get_uname (ve_uname env) zero_sys_info))"

section \<open>The handle\<close>

record sigar_handle =
  h_os :: linux_sigar
  h_arch :: string
  h_ifconf_buf :: "string option"
  h_self_path :: "string option"
  h_pids :: "pid clist option"
  h_fsdev :: "iodev_cache option"
  h_proc_cpu :: "sigar_proc_cpu cache option"
  h_net_listen :: "listen_cache option"
  h_net_services_tcp :: "string cache option"
  h_net_services_udp :: "string cache option"
  h_proc_io :: "sigar_cached_proc_disk_io cache option"

definition reset_handle :: "bool \<Rightarrow> sigar_handle \<Rightarrow> sigar_handle" where
  "reset_handle list_sockets h = h\<lparr>
     h_os := (h_os h)\<lparr>ls_pid := 0, ls_core := (ls_core (h_os h))\<lparr>s_cpu_list_cores := \<not> list_sockets, s_log_level := - 1, s_log_impl := False\<rparr>\<rparr>,
     h_ifconf_buf := None, h_self_path := None, h_pids := None, h_fsdev := None, h_proc_cpu := None, h_net_listen := None,
     h_net_services_tcp := None, h_net_services_udp := None, h_proc_io := None\<rparr>"

text \<open>\<open>fresh\<close> is the memory of the new handle.\<close>

definition sigar_open ::
  "string option \<Rightarrow> lines_of \<Rightarrow> uint64 \<Rightarrow> linux_env \<Rightarrow> bool \<Rightarrow> vendor_env \<Rightarrow> sigar_handle \<Rightarrow> (status \<times> sigar_handle) ub option" where
  "sigar_open host fopen now lenv list_sockets venv fresh =
     (case sigar_os_open host fopen now lenv (h_os fresh) of
        (status, os) \<Rightarrow>
          (let h = fresh\<lparr>h_os := os\<rparr>;
               h1 = (if status = SIGAR_OK then reset_handle list_sockets h else h)
           in map_option (map_option (\<lambda>(st, sysinfo). (st, if st = SIGAR_OK then h1\<lparr>h_arch := si_arch sysinfo\<rparr> else h1)))
                (sigar_sys_info_get venv)))"

text \<open>What \<open>sigar_close\<close> gives back to the allocator, in order.\<close>

datatype released =
    IfconfBuf | SelfPath | Pids | Fsdev "sigar_iodev freed list" | ProcCpu "sigar_proc_cpu freed list" | NetListen "sigar_net_address freed list"
  | ServicesTcp "string freed list" | ServicesUdp "string freed list" | ProcIo "sigar_cached_proc_disk_io freed list" | Handle

definition release :: "('a \<Rightarrow> released) \<Rightarrow> 'a option \<Rightarrow> released list" where
  "release f p = (case p of None \<Rightarrow> [] | Some x \<Rightarrow> [f x])"

definition sigar_os_close :: "status \<times> released list" where
  "sigar_os_close = (SIGAR_OK, [Handle])"

definition sigar_close :: "sigar_handle \<Rightarrow> status \<times> released list" where
  "sigar_close sigar = (case sigar_os_close of (status, freed) \<Rightarrow> (status,
     release (\<lambda>_. IfconfBuf) (h_ifconf_buf sigar) @ release (\<lambda>_. SelfPath) (h_self_path sigar) @ release (\<lambda>_. Pids) (h_pids sigar) @
     release (\<lambda>c. Fsdev (sigar_cache_destroy c)) (h_fsdev sigar) @ release (\<lambda>c. ProcCpu (sigar_cache_destroy c)) (h_proc_cpu sigar) @
     release (\<lambda>c. NetListen (sigar_cache_destroy c)) (h_net_listen sigar) @
     release (\<lambda>c. ServicesTcp (sigar_cache_destroy c)) (h_net_services_tcp sigar) @
     release (\<lambda>c. ServicesUdp (sigar_cache_destroy c)) (h_net_services_udp sigar) @
     release (\<lambda>c. ProcIo (sigar_cache_destroy c)) (h_proc_io sigar) @ freed))"

section \<open>Where the loops return\<close>

text \<open>The entries of a file of keys and values: \<open>None\<close> where the loop hangs, \<open>Some None\<close> where a key is too
  long for its array.\<close>

function kv_items :: "string \<Rightarrow> (string \<times> string) list ub option" where
  "kv_items ptr =
     (if ptr = [] then Some (Some [])
      else
        (case split_at (CHR ''='') ptr of
           (_, None) \<Rightarrow> None
         | (key, Some val) \<Rightarrow>
             if 255 < length key then Some None
             else (let line = fst (split_at (CHR 0x0A) val) in
                   map_option (map_option (Cons (key, unquote line))) (kv_items (drop (length line + 1) val)))))"
  by pat_completeness auto
termination
  by (relation "measure length") (auto dest!: split_at_Some [OF sym])

declare kv_items.simps [simp del]

lemma kv_loop_equals_sign:
  assumes "kv_loop func ptr info = Some r"
  shows "ptr = [] \<or> CHR ''='' \<in> set ptr"
proof (rule kv_loop.raw_induct [where P = "\<lambda>func ptr info r. ptr = [] \<or> CHR ''='' \<in> set ptr", OF _ assms])
  fix kv func ptr info r
  assume IH: "\<And>f p i r. kv f p i = Some r \<Longrightarrow> p = [] \<or> CHR ''='' \<in> set p"
    and *: "(if ptr = [] then Some (Some info)
      else (case split_at (CHR ''='') ptr of
           (_, None) \<Rightarrow> kv func ptr info
         | (key, Some val) \<Rightarrow>
             if 255 < length key then Some None
             else (let line = fst (split_at (CHR 0x0A) val) in
                   kv func (drop (length line + 1) val) (func key (unquote line) info)))) = Some r"
  show "ptr = [] \<or> CHR ''='' \<in> set ptr"
  proof (cases "split_at (CHR ''='') ptr")
    case (Pair a b)
    show ?thesis
    proof (cases b)
      case None
      then show ?thesis using IH [of func ptr info r] * Pair by (cases "ptr = []") simp_all
    next
      case (Some v)
      then show ?thesis using split_at_Some [of "CHR ''=''" ptr a v] Pair by simp
    qed
  qed
qed

lemma kv_loop_hangs: "ptr \<noteq> [] \<Longrightarrow> CHR ''='' \<notin> set ptr \<Longrightarrow> kv_loop func ptr info = None"
  using kv_loop_equals_sign [of func ptr info] by (cases "kv_loop func ptr info") auto

text \<open>The parser is the fold over the entries, for every text, and does not return where there are none.\<close>

lemma kv_parse_meaning:
  "kv_parse func data info = map_option (map_option (\<lambda>items. fold (\<lambda>(k, v). func k v) items info)) (kv_items data)"
  unfolding kv_parse_def
proof (induction data arbitrary: info rule: kv_items.induct)
  case (1 ptr)
  show ?case
  proof (cases "ptr = []")
    case True
    then show ?thesis by (simp add: kv_loop.simps kv_items.simps)
  next
    case ne: False
    obtain key b where s: "split_at (CHR ''='') ptr = (key, b)" by (cases "split_at (CHR ''='') ptr")
    show ?thesis
    proof (cases b)
      case None
      then have "CHR ''='' \<notin> set ptr" using s split_at_None [of "CHR ''=''" ptr key] split_at_fst_notin [of "CHR ''=''" ptr] by simp
      then show ?thesis using ne s None kv_loop_hangs by (simp add: kv_items.simps [of ptr])
    next
      case (Some val)
      define line where "line = fst (split_at (CHR 0x0A) val)"
      have loop: "kv_loop func ptr info = (if 255 < length key then Some None
          else kv_loop func (drop (length line + 1) val) (func key (unquote line) info))"
        by (subst kv_loop.simps) (simp add: ne s Some Let_def line_def)
      have items: "kv_items ptr = (if 255 < length key then Some None
          else map_option (map_option (Cons (key, unquote line))) (kv_items (drop (length line + 1) val)))"
        by (subst kv_items.simps) (simp add: ne s Some Let_def line_def)
      show ?thesis
      proof (cases "255 < length key")
        case True
        then show ?thesis by (simp add: loop items)
      next
        case False
        from 1 [OF ne s [symmetric] Some False line_def] False show ?thesis
          by (simp add: loop items option.map_comp comp_def)
      qed
    qed
  qed
qed

definition kv_line :: "string \<times> string \<Rightarrow> string" where
  "kv_line kv = fst kv @ ''='' @ snd kv @ [CHR 0x0A]"

definition kv_ok :: "string \<times> string \<Rightarrow> bool" where
  "kv_ok kv \<longleftrightarrow> CHR ''='' \<notin> set (fst kv) \<and> length (fst kv) \<le> 255 \<and> CHR 0x0A \<notin> set (snd kv)"

lemma kv_items_lines:
  assumes "list_all kv_ok kvs" and "CHR ''='' \<notin> set tail"
  shows "kv_items (concat (map kv_line kvs) @ tail) =
    (if tail = [] then Some (Some (map (\<lambda>(k, v). (k, unquote v)) kvs)) else None)"
  using assms(1)
proof (induction kvs)
  case Nil
  then show ?case using split_at_none [OF assms(2)] by (simp add: kv_items.simps)
next
  case (Cons kv kvs)
  obtain k v where kv: "kv = (k, v)" by (cases kv)
  let ?t = "concat (map kv_line kvs) @ tail"
  have ok: "CHR ''='' \<notin> set k" "length k \<le> 255" "CHR 0x0A \<notin> set v" using Cons.prems by (simp_all add: kv kv_ok_def)
  have "concat (map kv_line (kv # kvs)) @ tail = k @ CHR ''='' # v @ CHR 0x0A # ?t" by (simp add: kv_line_def kv)
  moreover have "kv_items (k @ CHR ''='' # v @ CHR 0x0A # ?t) = map_option (map_option (Cons (k, unquote v))) (kv_items ?t)"
    using ok by (subst kv_items.simps) (simp add: split_at_append)
  ultimately show ?case using Cons by (simp add: kv del: concat.simps list.map) simp
qed

subsection \<open>The first number of a release file\<close>

definition first_number :: "string \<Rightarrow> string" where
  "first_number line = takeWhile version_char (dropWhile (\<lambda>c. \<not> isdigit c) line)"

lemma first_number_skip: "first_number (skip_space line) = first_number line"
  by (induction line) (auto simp: first_number_def dest: isdigit_not_isspace)

lemma first_number_tl: "line \<noteq> [] \<Longrightarrow> \<not> isdigit (hd line) \<Longrightarrow> first_number (tl line) = first_number line"
  by (cases line) (auto simp: first_number_def)

lemma first_number_hd: "line \<noteq> [] \<Longrightarrow> isdigit (hd line) \<Longrightarrow> first_number line = takeWhile version_char line"
  by (cases line) (auto simp: first_number_def)

lemma generic_loop_bounded:
  assumes "generic_loop room line len info = Some r"
  shows "length (first_number line) \<le> 256"
proof (rule generic_loop.raw_induct [where P = "\<lambda>room line len info r. length (first_number line) \<le> 256", OF _ assms])
  fix g room line len info r
  let ?l = "skip_space line" let ?run = "takeWhile version_char ?l"
  assume IH: "\<And>room line len info r. g room line len info = Some r \<Longrightarrow> length (first_number line) \<le> 256"
    and *: "(if line = [] then Some (Some info)
      else
        (let line1 = skip_space line in
         if line1 = [] then Some (if room then Some info else None)
         else if \<not> isdigit (hd line1) then g room (tl line1) len info
         else
           (let run = takeWhile version_char line1; len1 = len + length run in
            if SIGAR_SYS_INFO_LEN < len1 then g room line1 len1 info
            else if len1 = SIGAR_SYS_INFO_LEN then Some None
            else Some (Some (info\<lparr>si_vendor_version := take len1 line1\<rparr>))))) = Some r"
  have e: "length (first_number []) \<le> 256" by (simp add: first_number_def)
  consider "?l = []" | "?l \<noteq> []" "\<not> isdigit (hd ?l)" | "?l \<noteq> []" "isdigit (hd ?l)" "256 < len + length ?run"
    | "?l \<noteq> []" "isdigit (hd ?l)" "len + length ?run \<le> 256" by linarith
  then show "length (first_number line) \<le> 256"
  proof cases
    case 1
    then show ?thesis using e first_number_skip [of line] by simp
  next
    case 2
    moreover from 2 have "line \<noteq> []" by auto
    ultimately have "g room (tl ?l) len info = Some r" using * by (simp add: Let_def)
    from IH [OF this] show ?thesis using first_number_tl [OF 2] first_number_skip [of line] by simp
  next
    case 3
    moreover from 3 have "line \<noteq> []" by auto
    ultimately have "g room ?l (len + length ?run) info = Some r" using * by (simp add: Let_def)
    from IH [OF this] show ?thesis using first_number_skip [of line] by simp
  next
    case 4
    then show ?thesis using first_number_hd [OF 4(1,2)] first_number_skip [of line] by simp
  qed
qed

lemma generic_loop_number:
  assumes "first_number line \<noteq> []" and "length (first_number line) < 256"
  shows "generic_loop room line 0 info = Some (Some (info\<lparr>si_vendor_version := first_number line\<rparr>))"
  using assms
proof (induction line rule: length_induct)
  case (1 line)
  let ?l = "skip_space line"
  have l: "?l \<noteq> []" "line \<noteq> []" using 1(2) first_number_skip [of line] by (auto simp: first_number_def)
  show ?case
  proof (cases "isdigit (hd ?l)")
    case True
    then have f: "first_number line = takeWhile version_char ?l" using first_number_hd [OF l(1)] first_number_skip [of line] by simp
    have "take (length (takeWhile version_char ?l)) ?l = takeWhile version_char ?l" by (metis takeWhile_eq_take)
    then show ?thesis using l True 1(3) f by (subst generic_loop.simps) (simp add: Let_def)
  next
    case False
    have "length (tl ?l) < length line" using l length_skip_space [of line] by (cases ?l) (auto simp: less_eq_Suc_le [symmetric] simp del: length_skip_space)
    moreover have f: "first_number (tl ?l) = first_number line" using first_number_tl [OF l(1) False] first_number_skip [of line] by simp
    ultimately have "generic_loop room (tl ?l) 0 info = Some (Some (info\<lparr>si_vendor_version := first_number line\<rparr>))"
      using 1(1) [rule_format, of "tl ?l"] 1(2,3) by simp
    then show ?thesis using l False by (subst generic_loop.simps) (simp add: Let_def)
  qed
qed

text \<open>A release file without parser of its own: the version is the first number of the text, with its
  dots; a number of more than 256 characters keeps the call from returning.\<close>

lemma generic_vendor_parse_number:
  assumes "first_number line \<noteq> []"
  shows "length (first_number line) < 256 \<Longrightarrow> generic_vendor_parse line info = Some (Some (info\<lparr>si_vendor_version := first_number line\<rparr>))"
    and "256 < length (first_number line) \<Longrightarrow> generic_vendor_parse line info = None"
  using generic_loop_number [OF assms] generic_loop_bounded [of "length line < 8190" line 0 info]
  by (auto simp: generic_vendor_parse_def not_le [symmetric] simp del: not_None_eq intro: ccontr)


section \<open>Opening and closing\<close>

lemma sys_info_of_lsb:
  assumes "vendor_choice (ve_exists venv) (ve_override venv) = Some (name, file, LSB)"
    and "sigar_file2str (ve_fs venv) file 8191 = (SIGAR_OK, concat (map kv_line kvs) @ tail)"
    and "list_all kv_ok kvs" and "CHR ''='' \<notin> set tail"
  shows "\<exists>info. sigar_sys_info_get venv = (if tail = [] then Some (Some (SIGAR_OK, info)) else None)
    \<and> si_arch info = take 255 (u_machine (ve_uname venv))"
proof -
  have arch: "si_arch (fold (\<lambda>(k, v). lsb_parse k v) items i) = si_arch i" for items i
    by (induction items arbitrary: i) (auto simp: lsb_parse_def)
  have "si_arch (vendor_describe i) = si_arch i" for i by (simp add: vendor_describe_def)
  note facts = assms arch this sigar_sys_info_get_def sigar_os_sys_info_get_def get_linux_vendor_info_def lsb_vendor_parse_def
    kv_parse_meaning kv_items_lines sigar_sys_info_get_uname_def sstrcpy_def
  show ?thesis
  proof (cases "tail = []")
    case True
    then have "kv_items (concat (map kv_line kvs)) = Some (Some (map (\<lambda>(k, v). (k, unquote v)) kvs))"
      using kv_items_lines [OF assms(3,4)] by simp
    with True facts show ?thesis by simp
  next
    case False
    have "\<exists>info :: sigar_sys_info. si_arch info = take 255 (u_machine (ve_uname venv))"
      by (intro exI [of _ "zero_sys_info\<lparr>si_arch := take 255 (u_machine (ve_uname venv))\<rparr>"]) simp
    with False facts show ?thesis by auto
  qed
qed

text \<open>C31: opening the library returns only if the release file allows it. On a system described by
  \<open>/etc/lsb-release\<close> with entries \<open>KEY=value\<close>, one per line, and then a text without equals sign,
  \<open>sigar_open\<close> never returns when that text is not empty, be it a blank line or a comment; otherwise
  it returns OK, with the machine name as architecture.\<close>

theorem sigar_open_returns_iff:
  assumes "vendor_choice (ve_exists venv) (ve_override venv) = Some (name, file, LSB)"
    and "sigar_file2str (ve_fs venv) file 8191 = (SIGAR_OK, concat (map kv_line kvs) @ tail)"
    and "list_all kv_ok kvs" and "CHR ''='' \<notin> set tail"
  shows "\<exists>h. sigar_open host fopen now lenv sockets venv fresh = (if tail = [] then Some (Some (SIGAR_OK, h)) else None)
    \<and> h_arch h = take 255 (u_machine (ve_uname venv))"
proof -
  obtain st os where os: "sigar_os_open host fopen now lenv (h_os fresh) = (st, os)" by (cases "sigar_os_open host fopen now lenv (h_os fresh)")
  from sys_info_of_lsb [OF assms] obtain info where
    i: "sigar_sys_info_get venv = (if tail = [] then Some (Some (SIGAR_OK, info)) else None)" "si_arch info = take 255 (u_machine (ve_uname venv))" by blast
  define h where "h = (if st = SIGAR_OK then reset_handle sockets (fresh\<lparr>h_os := os\<rparr>) else fresh\<lparr>h_os := os\<rparr>)\<lparr>h_arch := si_arch info\<rparr>"
  have "h_arch h = take 255 (u_machine (ve_uname venv))" by (simp add: h_def i(2))
  moreover have "sigar_open host fopen now lenv sockets venv fresh = (if tail = [] then Some (Some (SIGAR_OK, h)) else None)"
    by (simp add: sigar_open_def os i(1) Let_def h_def)
  ultimately show ?thesis by blast
qed

definition example_uname :: utsname where
  "example_uname = \<lparr>u_sysname = ''Linux'', u_release = ''3.13.0'', u_machine = ''x86_64''\<rparr>"

definition example_vendor :: "string \<Rightarrow> vendor_env" where
  "example_vendor body = \<lparr>ve_exists = (\<lambda>f. f = ''/etc/lsb-release''), ve_override = None,
     ve_fs = (\<lambda>f. if f = ''/etc/lsb-release'' then Contents body else OpenFails), ve_uname = example_uname, ve_read = (\<lambda>f. None),
     ve_opendir = (\<lambda>d. Inl ENOENT)\<rparr>"

definition example_lenv :: linux_env where
  "example_lenv = \<lparr>env_getpagesize = 4096, env_clk_tck = 100, env_exists = (\<lambda>f. True), env_release = ''3.13.0'', env_proc_net = None,
     env_has_nptl = False\<rparr>"

definition example_handle :: sigar_handle where
  "example_handle = \<lparr>h_os = example_sigar, h_arch = [], h_ifconf_buf = None, h_self_path = None, h_pids = None, h_fsdev = None,
     h_proc_cpu = None, h_net_listen = None, h_net_services_tcp = None, h_net_services_udp = None, h_proc_io = None\<rparr>"

lemma example_choice: "vendor_choice (ve_exists (example_vendor body)) (ve_override (example_vendor body)) = Some (''lsb'', ''/etc/lsb-release'', LSB)"
  by (simp add: vendor_choice_def example_vendor_def linux_vendors_def)

theorem sigar_open_returns_iff_witness:
  "sigar_open None (\<lambda>f. Inl 2) 0 example_lenv False (example_vendor (''DISTRIB_ID=Ubuntu'' @ [CHR 0x0A, CHR 0x0A])) example_handle = None
   \<and> (\<exists>h. sigar_open None (\<lambda>f. Inl 2) 0 example_lenv False (example_vendor (''DISTRIB_ID=Ubuntu'' @ [CHR 0x0A])) example_handle = Some (Some (0, h)) \<and> h_arch h = ''x86_64'')"
proof -
  let ?kvs = "[(''DISTRIB_ID'', ''Ubuntu'')]"
  have ok: "list_all kv_ok ?kvs" by (simp add: kv_ok_def)
  have f: "sigar_file2str (ve_fs (example_vendor (concat (map kv_line ?kvs) @ tail))) ''/etc/lsb-release'' 8191 = (0, concat (map kv_line ?kvs) @ tail)"
    if "tail \<in> {[], [CHR 0x0A]}" for tail
    using that by (auto simp: example_vendor_def sigar_file2str_def cstring_def kv_line_def)
  have "\<exists>h. sigar_open None (\<lambda>f. Inl 2) 0 example_lenv False (example_vendor (concat (map kv_line ?kvs) @ tail)) example_handle =
        (if tail = [] then Some (Some (0, h)) else None) \<and> h_arch h = ''x86_64''" if "tail \<in> {[], [CHR 0x0A]}" for tail
    using sigar_open_returns_iff [OF example_choice f [OF that] ok, of None "\<lambda>f. Inl 2" 0 example_lenv False example_handle] that
    by (auto simp: example_vendor_def example_uname_def)
  from this [of "[CHR 0x0A]"] this [of "[]"] show ?thesis by (simp add: kv_line_def)
qed

text \<open>a failed open is reported as success. When \<open>/proc/stat\<close> cannot be opened, \<open>sigar_os_open\<close> returns an
  error, but \<open>sigar_open\<close> goes on to the system description and returns its status OK, with the
  caches of the handle left as the allocator gave them.\<close>

theorem sigar_open_masks_failure:
  assumes "fopen (proc_file host ''stat'') = Inl errno" and "errno \<noteq> SIGAR_OK" and "sigar_sys_info_get venv = Some (Some (SIGAR_OK, info))"
  shows "fst (sigar_os_open host fopen now lenv (h_os fresh)) = errno
    \<and> (\<exists>h. sigar_open host fopen now lenv sockets venv fresh = Some (Some (SIGAR_OK, h))
        \<and> h_fsdev h = h_fsdev fresh \<and> h_proc_cpu h = h_proc_cpu fresh \<and> h_pids h = h_pids fresh)"
  using assms by (simp add: sigar_open_def sigar_os_open_def sigar_boot_time_get_def)

theorem sigar_open_masks_failure_witness:
  "\<exists>h. sigar_open None (\<lambda>f. Inl 13) 0 example_lenv False (example_vendor []) example_handle = Some (Some (0, h)) \<and> h_pids h = None"
proof -
  have "sigar_file2str (ve_fs (example_vendor [])) ''/etc/lsb-release'' 8191 = (0, concat (map kv_line []) @ [])"
    by (simp add: example_vendor_def sigar_file2str_def cstring_def)
  from sys_info_of_lsb [OF example_choice this] obtain info where "sigar_sys_info_get (example_vendor []) = Some (Some (0, info))" by auto
  from sigar_open_masks_failure [where fopen = "\<lambda>f. Inl 13" and host = None and errno = 13 and now = 0 and lenv = example_lenv
      and fresh = example_handle and sockets = False, OF _ _ this]
  show ?thesis by (auto simp: example_handle_def)
qed

lemma close_after_open: "sigar_close (reset_handle sockets h) = (SIGAR_OK, [Handle])"
  by (simp add: sigar_close_def sigar_os_close_def reset_handle_def release_def)

lemma set_release: "x \<in> set (release f p) \<longleftrightarrow> (\<exists>y. p = Some y \<and> x = f y)"
  by (auto simp: release_def split: option.splits)

lemma close_releases:
  assumes "sigar_close h = (SIGAR_OK, freed)"
  shows "Handle \<in> set freed" and "(Pids \<in> set freed) = (\<exists>pids. h_pids h = Some pids)"
    and "(\<exists>xs. Fsdev xs \<in> set freed) = (\<exists>c. h_fsdev h = Some c)"
  using assms by (auto simp: sigar_close_def sigar_os_close_def set_release)

end
