(* ===== verification/Freebsd_System.thy ===== *)
theory Freebsd_System
  imports Linux_Vendor
begin

text \<open>
  The handle and the system-wide readings of \<open>src/os/freebsd/freebsd_sigar.c\<close>, for a FreeBSD 7 build on
  amd64: opening, kernel memory, virtual memory counters, memory, swap, CPU times and descriptions,
  uptime, load, and the system description. A \<open>sysctl\<close> node is a parameter that holds its value or the
  error number; \<open>kvm_read\<close> is a function from a kernel address to a value or an error number, one for
  each type that is read.
\<close>

section \<open>The handle\<close>

abbreviation (input) SIGAR_EPERM_KMEM :: status where "SIGAR_EPERM_KMEM \<equiv> 40013"
abbreviation (input) SIGAR_EPROC_NOENT :: status where "SIGAR_EPROC_NOENT \<equiv> 40002"

record timeval =
  tv_sec :: uint64
  tv_usec :: uint64

record kinfo_proc =
  ki_pid :: pid
  ki_ppid :: pid
  ki_pri_user :: "8 word"
  ki_nice :: "8 word"
  ki_comm :: string
  ki_stat :: nat
  ki_ruid :: uint32
  ki_rgid :: uint32
  ki_svuid :: uint32
  ki_svgid :: uint32
  ki_rssize :: uint64
  ki_tsize :: uint64
  ki_dsize :: uint64
  ki_ssize :: uint64
  ki_flag :: uint64
  ki_fd :: uint64
  ki_start :: timeval
  ki_ru_utime :: timeval
  ki_ru_stime :: timeval

text \<open>The platform part of \<open>sigar_t\<close>. \<open>fb_kmem\<close> says whether \<open>kvm_open\<close> succeeded; \<open>fb_pinfo\<close> is None while the
  buffer is not allocated and \<open>Some None\<close> while it was never filled.\<close>

record freebsd_sigar =
  fb_core :: sigar_core
  fb_ncpu :: int
  fb_boot_time :: uint64
  fb_ticks :: nat
  fb_pagesize :: uint32
  fb_last_getprocs :: uint64
  fb_last_pid :: pid
  fb_pinfo :: "kinfo_proc option option"
  fb_argmax :: nat
  fb_kmem :: bool
  fb_koffsets :: "uint64 list"
  fb_proc_mounted :: bool

type_synonym 'a kvm = "uint64 \<Rightarrow> status + 'a"

definition freebsd_kread :: "freebsd_sigar \<Rightarrow> 'a kvm \<Rightarrow> uint64 \<Rightarrow> status + 'a" where
  "freebsd_kread sigar kvm_read offset = (if \<not> fb_kmem sigar then Inl SIGAR_EPERM_KMEM else kvm_read offset)"

text \<open>The values \<open>kvm_nlist\<close> finds for \<open>_cp_time\<close> and \<open>_cnt\<close>.\<close>

definition get_koffsets :: "uint64 \<times> uint64 \<Rightarrow> freebsd_sigar \<Rightarrow> status \<times> freebsd_sigar" where
  "get_koffsets klist sigar =
     (if \<not> fb_kmem sigar then (SIGAR_EPERM_KMEM, sigar)
      else (SIGAR_OK, sigar\<lparr>fb_koffsets := [fst klist, snd klist]\<rparr>))"

record freebsd_boot =
  bo_ncpu :: "status + int"
  bo_boottime :: "status + timeval"
  bo_kvm_open :: bool
  bo_curproc :: bool
  bo_nlist :: "uint64 \<times> uint64"
  bo_getpagesize :: uint32

definition freebsd_os_open :: "freebsd_boot \<Rightarrow> freebsd_sigar \<Rightarrow> status + freebsd_sigar" where
  "freebsd_os_open env fresh =
     (case bo_ncpu env of
        Inl errno \<Rightarrow> Inl errno
      | Inr ncpu \<Rightarrow>
          (case bo_boottime env of
             Inl errno \<Rightarrow> Inl errno
           | Inr boottime \<Rightarrow>
               (let s1 = snd (get_koffsets (bo_nlist env) (fresh\<lparr>fb_kmem := bo_kvm_open env, fb_proc_mounted := bo_curproc env\<rparr>))
                in Inr (s1\<lparr>fb_ncpu := ncpu, fb_core := (fb_core s1)\<lparr>s_lcpu := - 1\<rparr>, fb_argmax := 0, fb_boot_time := tv_sec boottime,
                           fb_pagesize := bo_getpagesize env, fb_ticks := 100, fb_last_pid := - 1, fb_pinfo := None\<rparr>))))"

datatype freebsd_released = Pinfo | Kmem | FreebsdHandle

definition freebsd_os_close :: "freebsd_sigar \<Rightarrow> status \<times> freebsd_released list" where
  "freebsd_os_close sigar =
     (SIGAR_OK, (if fb_pinfo sigar \<noteq> None then [Pinfo] else []) @ (if fb_kmem sigar then [Kmem] else []) @ [FreebsdHandle])"

definition freebsd_os_error_string :: "status \<Rightarrow> string option" where
  "freebsd_os_error_string err =
     (if err = SIGAR_EPERM_KMEM then Some ''Failed to open /dev/kmem for reading''
      else if err = SIGAR_EPROC_NOENT then Some ''/proc filesystem is not mounted''
      else None)"

section \<open>Memory and swap\<close>

text \<open>The members of \<open>struct vmmeter\<close> that are used; all are \<open>unsigned int\<close>.\<close>

record vmmeter =
  v_swapin :: uint32
  v_swapout :: uint32
  v_vnodein :: uint32
  v_vnodeout :: uint32
  v_free_count :: uint32
  v_inactive_count :: uint32
  v_cache_count :: uint32

definition vm_stat :: "(string \<Rightarrow> uint32 option) \<Rightarrow> string \<Rightarrow> uint32" where
  "vm_stat sysctl_u32 name = (case sysctl_u32 (''vm.stats.vm.'' @ name) of Some v \<Rightarrow> v | None \<Rightarrow> 0)"

text \<open>Kernel memory first; if it cannot be read, the counters one by one, where a counter that is not
  found stays zero. The result is always OK.\<close>

definition sigar_vmstat :: "vmmeter kvm \<Rightarrow> (string \<Rightarrow> uint32 option) \<Rightarrow> freebsd_sigar \<Rightarrow> (status \<times> vmmeter) ub" where
  "sigar_vmstat kvm_read sysctl_u32 sigar =
     map_option (\<lambda>offset.
       (case freebsd_kread sigar kvm_read offset of
          Inr vmstat \<Rightarrow> (SIGAR_OK, vmstat)
        | Inl _ \<Rightarrow>
            (SIGAR_OK, \<lparr>v_swapin = vm_stat sysctl_u32 ''v_swapin'', v_swapout = vm_stat sysctl_u32 ''v_swapout'',
               v_vnodein = vm_stat sysctl_u32 ''v_vnodein'', v_vnodeout = vm_stat sysctl_u32 ''v_vnodeout'',
               v_free_count = vm_stat sysctl_u32 ''v_free_count'', v_inactive_count = vm_stat sysctl_u32 ''v_inactive_count'',
               v_cache_count = vm_stat sysctl_u32 ''v_cache_count''\<rparr>)))
       (if fb_kmem sigar then cell (fb_koffsets sigar) 1 else Some 0)"

record freebsd_vm =
  vm_pagesize :: "status + uint32"
  vm_physmem :: "status + uint64"
  vm_kvm :: "vmmeter kvm"
  vm_sysctl :: "string \<Rightarrow> uint32 option"

definition freebsd_mem_get :: "rounding \<Rightarrow> freebsd_vm \<Rightarrow> freebsd_sigar \<Rightarrow> sigar_mem \<Rightarrow> (status \<times> sigar_mem \<times> freebsd_sigar) ub" where
  "freebsd_mem_get rnd vm sigar0 mem =
     (case vm_pagesize vm of
        Inl errno \<Rightarrow> Some (errno, mem, sigar0)
      | Inr pagesize \<Rightarrow>
          (let sigar = sigar0\<lparr>fb_pagesize := pagesize\<rparr> in
           case vm_physmem vm of
             Inl errno \<Rightarrow> Some (errno, mem, sigar)
           | Inr physmem \<Rightarrow>
               map_option (\<lambda>(status, vmstat).
                 (let kern = (if status = SIGAR_OK
                              then ucast (v_cache_count vmstat + v_inactive_count vmstat) * scast pagesize else 0 :: uint64);
                      free = (if status = SIGAR_OK then ucast (v_free_count vmstat) * scast pagesize else mem_free mem);
                      used = physmem - free
                  in (SIGAR_OK, snd (sigar_mem_calc_ram rnd (mem\<lparr>mem_total := physmem, mem_free := free, mem_used := used,
                        mem_actual_free := free + kern, mem_actual_used := used - kern\<rparr>)), sigar)))
                 (sigar_vmstat (vm_kvm vm) (vm_sysctl vm) sigar)))"

record xswdev =
  xsw_nblks :: uint32
  xsw_used :: uint32
  xsw_flags :: uint32

record kvm_swap =
  ksw_total :: uint32
  ksw_used :: uint32
  ksw_flags :: uint32

definition zero_kvm_swap :: kvm_swap where
  "zero_kvm_swap = \<lparr>ksw_total = 0, ksw_used = 0, ksw_flags = 0\<rparr>"

text \<open>A difference of two \<open>int\<close>s; overflow is undefined.\<close>

definition c_int_sub :: "uint32 \<Rightarrow> uint32 \<Rightarrow> uint32 ub" where
  "c_int_sub a b = (let d = sint a - sint b in if - (2 ^ 31) \<le> d \<and> d < 2 ^ 31 then Some (word_of_int d) else None)"

text \<open>\<open>vm.swap_info.\<close>\<open>n\<close> for n = 0, 1, ...: the loop ends only at an error, of which \<open>ENOENT\<close> is the end of
  the list.\<close>

partial_function (option) swap_info_loop ::
  "(nat \<Rightarrow> status + xswdev) \<Rightarrow> uint32 \<Rightarrow> nat \<Rightarrow> nat \<Rightarrow> kvm_swap list \<Rightarrow> kvm_swap \<Rightarrow>
   (status + (nat \<times> kvm_swap list \<times> kvm_swap)) ub option" where
  "swap_info_loop swap_info dmmax swap_max unswdev swap_ary tot =
     (case swap_info unswdev of
        Inl errno \<Rightarrow> Some (Some (if errno = ENOENT then Inr (unswdev, swap_ary, tot) else Inl errno))
      | Inr xsd \<Rightarrow>
          (case c_int_sub (xsw_nblks xsd) dmmax of
             None \<Rightarrow> Some None
           | Some ttl \<Rightarrow>
               if unswdev + 1 < swap_max \<and> length swap_ary \<le> unswdev then Some None
               else swap_info_loop swap_info dmmax swap_max (Suc unswdev)
                      (if unswdev + 1 < swap_max
                       then swap_ary[unswdev := \<lparr>ksw_total = ttl, ksw_used = xsw_used xsd, ksw_flags = xsw_flags xsd\<rparr>]
                       else swap_ary)
                      (tot\<lparr>ksw_total := ksw_total tot + ttl, ksw_used := ksw_used tot + xsw_used xsd\<rparr>)))"

record freebsd_swap =
  sw_dmmax :: "status + uint32"
  sw_mib :: "status option"
  sw_info :: "nat \<Rightarrow> status + xswdev"
  sw_kvm :: "status + kvm_swap"

text \<open>The last cell receives the totals.\<close>

definition getswapinfo_sysctl :: "freebsd_swap \<Rightarrow> kvm_swap list \<Rightarrow> nat \<Rightarrow> (status \<times> kvm_swap list) ub option" where
  "getswapinfo_sysctl env swap_ary swap_max =
     (case sw_dmmax env of
        Inl errno \<Rightarrow> Some (Some (errno, swap_ary))
      | Inr dmmax \<Rightarrow>
          (case sw_mib env of
             Some errno \<Rightarrow> Some (Some (errno, swap_ary))
           | None \<Rightarrow>
               map_option (\<lambda>res. Option.bind res (\<lambda>r.
                 (case r of
                    Inl errno \<Rightarrow> Some (errno, swap_ary)
                  | Inr (unswdev, ary, tot) \<Rightarrow>
                      (let ti = int (if swap_max \<le> unswdev then swap_max else Suc unswdev) - 1 in
                       if ti < 0 then Some (SIGAR_OK, ary)
                       else if nat ti < length ary then Some (SIGAR_OK, ary[nat ti := tot]) else None))))
                 (swap_info_loop (sw_info env) dmmax swap_max 0 swap_ary zero_kvm_swap)))"

text \<open>The products of \<open>unsigned int\<close> page counts with the \<open>int\<close> page size are 32-bit products.\<close>

definition swap_fill :: "freebsd_vm \<Rightarrow> freebsd_sigar \<Rightarrow> kvm_swap \<Rightarrow> sigar_swap \<Rightarrow> (status \<times> sigar_swap) ub" where
  "swap_fill vm sigar kswap swap =
     (if ksw_total kswap = 0 then Some (SIGAR_OK, swap\<lparr>swap_total := 0, swap_used := 0, swap_free := 0\<rparr>)
      else
        (let total = ucast (ksw_total kswap * fb_pagesize sigar);
             used = ucast (ksw_used kswap * fb_pagesize sigar);
             swap1 = swap\<lparr>swap_total := total, swap_used := used, swap_free := total - used\<rparr>
         in map_option (\<lambda>(status, vmstat).
              (SIGAR_OK,
               if status = SIGAR_OK
               then swap1\<lparr>swap_page_in := ucast (v_swapin vmstat + v_vnodein vmstat),
                          swap_page_out := ucast (v_swapout vmstat + v_vnodeout vmstat)\<rparr>
               else swap1\<lparr>swap_page_in := - 1, swap_page_out := - 1\<rparr>))
              (sigar_vmstat (vm_kvm vm) (vm_sysctl vm) sigar)))"

definition freebsd_swap_get :: "freebsd_vm \<Rightarrow> freebsd_swap \<Rightarrow> freebsd_sigar \<Rightarrow> sigar_swap \<Rightarrow> (status \<times> sigar_swap) ub option" where
  "freebsd_swap_get vm env sigar swap =
     map_option (\<lambda>res. Option.bind res (\<lambda>(status, kswap).
       if status = SIGAR_OK then swap_fill vm sigar (hd kswap) swap
       else if \<not> fb_kmem sigar then Some (SIGAR_EPERM_KMEM, swap)
       else (case sw_kvm env of
               Inl errno \<Rightarrow> Some (errno, swap)
             | Inr kswap1 \<Rightarrow> swap_fill vm sigar kswap1 swap)))
       (getswapinfo_sysctl env [zero_kvm_swap] 1)"

section \<open>CPU times\<close>

text \<open>The indices \<open>CP_USER\<close>, \<open>CP_NICE\<close>, \<open>CP_SYS\<close>, \<open>CP_INTR\<close>, \<open>CP_IDLE\<close> of the five states.\<close>

definition cp_time_cpu :: "rounding \<Rightarrow> nat \<Rightarrow> uint64 list \<Rightarrow> sigar_cpu ub" where
  "cp_time_cpu rnd ticks cp_time =
     do { t0 \<leftarrow> cell cp_time 0; t1 \<leftarrow> cell cp_time 1; t2 \<leftarrow> cell cp_time 2; t3 \<leftarrow> cell cp_time 3; t4 \<leftarrow> cell cp_time 4;
          user \<leftarrow> u64_of_rat (SIGAR_TICK2MSEC rnd ticks t0);
          nice \<leftarrow> u64_of_rat (SIGAR_TICK2MSEC rnd ticks t1);
          sys \<leftarrow> u64_of_rat (SIGAR_TICK2MSEC rnd ticks t2);
          idle \<leftarrow> u64_of_rat (SIGAR_TICK2MSEC rnd ticks t4);
          irq \<leftarrow> u64_of_rat (SIGAR_TICK2MSEC rnd ticks t3);
          Some \<lparr>cpu_user = user, cpu_sys = sys, cpu_nice = nice, cpu_idle = idle, cpu_wait = 0, cpu_irq = irq,
                cpu_soft_irq = 0, cpu_stolen = 0, cpu_total = user + nice + sys + idle + irq\<rparr> }"

record freebsd_cpu_env =
  ce_cp_time :: "status + uint64 list"
  ce_kvm :: "uint64 list kvm"
  ce_maxcpus :: "status + nat"
  ce_cp_times :: "nat \<Rightarrow> status + uint64 list"

definition freebsd_cpu_get :: "rounding \<Rightarrow> freebsd_cpu_env \<Rightarrow> freebsd_sigar \<Rightarrow> (status + sigar_cpu) ub" where
  "freebsd_cpu_get rnd env sigar =
     (case (case ce_cp_time env of
              Inr cp_time \<Rightarrow> Some (Inr cp_time)
            | Inl _ \<Rightarrow> map_option (freebsd_kread sigar (ce_kvm env)) (if fb_kmem sigar then cell (fb_koffsets sigar) 0 else Some 0)) of
        None \<Rightarrow> None
      | Some (Inl status) \<Rightarrow> Some (Inl status)
      | Some (Inr cp_time) \<Rightarrow> map_option Inr (cp_time_cpu rnd (fb_ticks sigar) cp_time))"

function cp_times_loop :: "rounding \<Rightarrow> nat \<Rightarrow> uint64 list \<Rightarrow> sigar_cpu clist \<Rightarrow> sigar_cpu clist ub" where
  "cp_times_loop rnd ticks cpts cpulist =
     (if length cpts < 5 then Some cpulist
      else do { cpu \<leftarrow> cp_time_cpu rnd ticks cpts;
                cpulist1 \<leftarrow> clist_put sigar_cpu_list_grow cpulist cpu;
                cp_times_loop rnd ticks (drop 5 cpts) cpulist1 })"
  by pat_completeness auto
termination
  by (relation "measure (\<lambda>(rnd, ticks, cpts, cpulist). length cpts)") auto

declare cp_times_loop.simps [simp del]

definition sigar_cp_times_get :: "rounding \<Rightarrow> freebsd_cpu_env \<Rightarrow> freebsd_sigar \<Rightarrow> sigar_cpu clist \<Rightarrow> (status \<times> sigar_cpu clist) ub" where
  "sigar_cp_times_get rnd env sigar cpulist =
     (case ce_maxcpus env of
        Inl errno \<Rightarrow> Some (errno, cpulist)
      | Inr maxcpu \<Rightarrow>
          (case ce_cp_times env (maxcpu * 5) of
             Inl errno \<Rightarrow> Some (errno, cpulist)
           | Inr cpts \<Rightarrow> map_option (\<lambda>l. (SIGAR_OK, l)) (cp_times_loop rnd (fb_ticks sigar) cpts cpulist)))"

text \<open>Without the per-CPU times all of the time is the first CPU's and the others get zeros. The first
  cell is taken without a test of the room; after a failure it is counted but not written.\<close>

definition freebsd_cpu_list_get :: "rounding \<Rightarrow> freebsd_cpu_env \<Rightarrow> freebsd_sigar \<Rightarrow> (status \<times> sigar_cpu clist) ub" where
  "freebsd_cpu_list_get rnd env sigar =
     (case sigar_cp_times_get rnd env sigar sigar_cpu_list_create of
        None \<Rightarrow> None
      | Some (status, cpulist) \<Rightarrow>
          if status = SIGAR_OK then Some (SIGAR_OK, cpulist)
          else
            (case freebsd_cpu_get rnd env sigar of
               None \<Rightarrow> None
             | Some (Inl status1) \<Rightarrow> Some (status1, cpulist\<lparr>l_number := Suc (l_number cpulist)\<rparr>)
             | Some (Inr cpu) \<Rightarrow>
                 if length (l_data cpulist) \<le> l_number cpulist then None
                 else map_option (\<lambda>l. (SIGAR_OK, l))
                   (clist_fill sigar_cpu_list_grow
                      (cpulist\<lparr>l_data := (l_data cpulist)[l_number cpulist := Some cpu], l_number := Suc (l_number cpulist)\<rparr>)
                      (replicate (nat (fb_ncpu sigar - 1)) zero_cpu))))"

section \<open>Uptime, load, descriptions\<close>

text \<open>\<open>boot_time\<close> is unsigned, so the difference is.\<close>

definition freebsd_uptime_get :: "rounding \<Rightarrow> uint64 \<Rightarrow> freebsd_sigar \<Rightarrow> status \<times> dbl" where
  "freebsd_uptime_get rnd now sigar = (SIGAR_OK, Fin (dbl_of_u64 rnd (now - fb_boot_time sigar)))"

text \<open>\<open>getloadavg\<close> delivers up to three samples.\<close>

definition freebsd_loadavg_get :: "dbl list \<Rightarrow> sigar_loadavg \<Rightarrow> status \<times> sigar_loadavg" where
  "freebsd_loadavg_get samples loadavg =
     (SIGAR_OK, loadavg\<lparr>la_processor_queue := - 1, la_loadavg := take 3 samples @ drop (length (take 3 samples)) (la_loadavg loadavg)\<rparr>)"

definition freebsd_system_stats_get :: status where
  "freebsd_system_stats_get = SIGAR_ENOTIMPL"

definition freebsd_sys_info_get_uuid :: status where
  "freebsd_sys_info_get_uuid = SIGAR_ENOTIMPL"

record freebsd_cpu_ids =
  cp_freq :: "uint32 option"
  cp_model :: "string option"
  cp_hw_model :: "string option"

text \<open>\<open>hw.model\<close> by name, then by number.\<close>

definition cpu_model_text :: "freebsd_cpu_ids \<Rightarrow> string" where
  "cpu_model_text ids =
     (case cp_model ids of Some m \<Rightarrow> m | None \<Rightarrow> (case cp_hw_model ids of Some m \<Rightarrow> m | None \<Rightarrow> ''Unknown''))"

text \<open>The vendor array is set only if the model has a blank; otherwise its contents \<open>uninit\<close> are what the
  stack held.\<close>

definition split_model :: "string \<Rightarrow> string \<Rightarrow> string \<times> string" where
  "split_model uninit model =
     (case strchr model (CHR '' '') of
        None \<Rightarrow> (uninit, model)
      | Some ptr \<Rightarrow>
          (if strstr model ''Intel'' \<noteq> None then ''Intel'' else if strstr model ''AMD'' \<noteq> None then ''AMD'' else ''Unknown'',
           sstrcpy 128 (tl ptr)))"

definition cpu_mhz :: "uint32 option \<Rightarrow> string \<Rightarrow> uint32" where
  "cpu_mhz freq model =
     (case freq of None \<Rightarrow> sigar_cpu_mhz_from_model model
      | Some f \<Rightarrow> if f = - 1 then sigar_cpu_mhz_from_model model else f div 1000000)"

fun freebsd_cpu_info_loop :: "nat \<Rightarrow> sigar_cpu_info \<Rightarrow> sigar_cpu_info clist \<Rightarrow> sigar_cpu_info clist ub" where
  "freebsd_cpu_info_loop 0 info cpu_infos = Some cpu_infos"
| "freebsd_cpu_info_loop (Suc n) info cpu_infos =
     (case clist_put sigar_cpu_info_list_grow cpu_infos info of
        None \<Rightarrow> None
      | Some l \<Rightarrow> freebsd_cpu_info_loop n info l)"

definition freebsd_cpu_info_list_get ::
  "(uint32 \<Rightarrow> cpuid_regs) \<Rightarrow> string \<Rightarrow> freebsd_cpu_ids \<Rightarrow> freebsd_sigar \<Rightarrow> (status \<times> sigar_cpu_info clist \<times> freebsd_sigar) ub" where
  "freebsd_cpu_info_list_get cpuid uninit ids sigar =
     (let core = snd (sigar_cpu_core_count cpuid (fb_core sigar));
          sigar1 = sigar\<lparr>fb_core := core\<rparr>;
          text = cpu_model_text ids;
          mhz = cpu_mhz (cp_freq ids) text;
          (vendor, model) = split_model uninit text
      in if fb_ncpu sigar \<le> 0 then Some (SIGAR_OK, sigar_cpu_info_list_create, sigar1)
         else do {
           adjusted \<leftarrow> sigar_cpu_model_adjust (sstrcpy 128 vendor) (sstrcpy 128 model);
           sockets \<leftarrow> sigar_cpu_socket_count (fb_ncpu sigar) (s_lcpu core);
           l \<leftarrow> freebsd_cpu_info_loop (nat (fb_ncpu sigar))
                  \<lparr>ci_vendor = sstrcpy 128 vendor, ci_model = adjusted, ci_mhz = mhz, ci_mhz_max = 0, ci_mhz_min = 0,
                   ci_cache_size = SIGAR_FIELD_NOTIMPL, ci_total_sockets = sockets, ci_total_cores = fb_ncpu sigar,
                   ci_cores_per_socket = s_lcpu core\<rparr>
                  sigar_cpu_info_list_create;
           Some (SIGAR_OK, l, sigar1) })"

text \<open>The release \<open>7.0-STABLE\<close> is split at its first hyphen.\<close>

definition freebsd_os_sys_info_get :: "sigar_sys_info \<Rightarrow> status \<times> sigar_sys_info" where
  "freebsd_os_sys_info_get sysinfo =
     (let s1 = sysinfo\<lparr>si_name := ''FreeBSD'', si_vendor_name := ''FreeBSD'', si_vendor := ''FreeBSD'',
                      si_vendor_version := sstrcpy SIGAR_SYS_INFO_LEN (si_version sysinfo)\<rparr>;
          s2 = (case split_at (CHR ''-'') (si_vendor_version s1) of
                  (_, None) \<Rightarrow> s1
                | (version, Some rest) \<Rightarrow> s1\<lparr>si_vendor_version := version, si_vendor_code_name := sstrcpy SIGAR_SYS_INFO_LEN rest\<rparr>)
      in (SIGAR_OK, s2\<lparr>si_description := take 255 (si_name s2 @ '' '' @ si_version s2)\<rparr>))"

definition freebsd_os_is_in_container :: int where
  "freebsd_os_is_in_container = 0"

section \<open>Swap devices\<close>

definition pages_of :: "uint32 \<Rightarrow> xswdev \<Rightarrow> nat" where
  "pages_of dmmax d = unat (xsw_nblks d) - unat dmmax"

definition dev_ok :: "uint32 \<Rightarrow> xswdev \<Rightarrow> bool" where
  "dev_ok dmmax d \<longleftrightarrow> unat dmmax \<le> unat (xsw_nblks d) \<and> unat (xsw_nblks d) < 2 ^ 31"

lemma int_sub_pages:
  assumes "dev_ok dmmax d"
  shows "c_int_sub (xsw_nblks d) dmmax = Some (of_nat (pages_of dmmax d))"
proof -
  have b: "unat dmmax < 2 ^ 31" "unat (xsw_nblks d) < 2 ^ 31" "unat dmmax \<le> unat (xsw_nblks d)" using assms by (auto simp: dev_ok_def)
  have "sint (xsw_nblks d) - sint dmmax = int (pages_of dmmax d)"
    using b sint_unat_small [of dmmax] sint_unat_small [of "xsw_nblks d"] by (simp add: pages_of_def of_nat_diff)
  moreover have "pages_of dmmax d < 2 ^ 31" using b by (simp add: pages_of_def)
  then have "int (pages_of dmmax d) < 2 ^ 31" by (metis of_nat_less_iff of_nat_numeral of_nat_power)
  ultimately show ?thesis by (simp add: c_int_sub_def Let_def)
qed

text \<open>With one cell for the totals nothing else is stored, and the loop adds up the devices from the
  current one on.\<close>

lemma swap_info_loop_sums:
  assumes "list_all (dev_ok dmmax) ds" and "\<forall>i < length ds. swap_info (n + i) = Inr (ds ! i)" and "swap_info (n + length ds) = Inl ENOENT"
  shows "swap_info_loop swap_info dmmax 1 n ary tot =
    Some (Some (Inr (n + length ds, ary,
      tot\<lparr>ksw_total := ksw_total tot + of_nat (sum_list (map (pages_of dmmax) ds)),
          ksw_used := ksw_used tot + sum_list (map xsw_used ds)\<rparr>)))"
  using assms
proof (induction ds arbitrary: n tot)
  case Nil
  then show ?case by (subst swap_info_loop.simps) simp
next
  case (Cons d ds)
  have "swap_info n = Inr d" using Cons.prems(2) [rule_format, of 0] by simp
  moreover have "\<forall>i < length ds. swap_info (Suc n + i) = Inr (ds ! i)"
    using Cons.prems(2) [rule_format, of "Suc i" for i] by simp
  moreover have "list_all (dev_ok dmmax) ds" "swap_info (Suc n + length ds) = Inl ENOENT" using Cons.prems(1,3) by simp_all
  ultimately show ?case using Cons.IH [of "Suc n"] Cons.prems(1)
    by (subst swap_info_loop.simps) (simp add: int_sub_pages add.assoc)
qed

text \<open>If every number has a device the loop does not return.\<close>

definition endless :: "(nat \<Rightarrow> status + xswdev) \<Rightarrow> uint32 \<Rightarrow> bool" where
  "endless swap_info dmmax \<longleftrightarrow> (\<forall>n. \<exists>d. swap_info n = Inr d \<and> dev_ok dmmax d)"

lemma swap_info_loop_returns:
  assumes "swap_info_loop s d m n ary tot = Some r"
  shows "m = 1 \<longrightarrow> \<not> endless s d"
proof (rule swap_info_loop.raw_induct [where P = "\<lambda>s d m n ary tot r. m = 1 \<longrightarrow> \<not> endless s d", OF _ assms])
  fix f s d m n ary tot r
  assume IH: "\<And>s d m n ary tot r. f s d m n ary tot = Some r \<Longrightarrow> m = 1 \<longrightarrow> \<not> endless s d"
    and eq: "(case s n of Inl errno \<Rightarrow> Some (Some (if errno = ENOENT then Inr (n, ary, tot) else Inl errno))
      | Inr xsd \<Rightarrow> (case c_int_sub (xsw_nblks xsd) d of None \<Rightarrow> Some None
          | Some ttl \<Rightarrow> if n + 1 < m \<and> length ary \<le> n then Some None
             else f s d m (Suc n) (if n + 1 < m then ary[n := \<lparr>ksw_total = ttl, ksw_used = xsw_used xsd, ksw_flags = xsw_flags xsd\<rparr>] else ary)
                    (tot\<lparr>ksw_total := ksw_total tot + ttl, ksw_used := ksw_used tot + xsw_used xsd\<rparr>))) = Some r"
  show "m = 1 \<longrightarrow> \<not> endless s d"
  proof (intro impI notI)
    assume m: "m = 1" and e: "endless s d"
    then obtain x where "s n = Inr x" "dev_ok d x" unfolding endless_def by blast
    with eq m have "f s d m (Suc n) ary
        (tot\<lparr>ksw_total := ksw_total tot + of_nat (pages_of d x), ksw_used := ksw_used tot + xsw_used x\<rparr>) = Some r"
      by (simp add: int_sub_pages)
    from IH [OF this] m e show False by simp
  qed
qed

lemma vmstat_defined: "(fb_kmem sigar \<longrightarrow> 1 < length (fb_koffsets sigar)) \<Longrightarrow> \<exists>v. sigar_vmstat k s sigar = Some (SIGAR_OK, v)"
  by (auto simp: sigar_vmstat_def cell_def split: sum.split)

text \<open>C36: the swap figures of FreeBSD. For a list of swap devices that ends with \<open>ENOENT\<close>, \<open>sigar_swap_get\<close>
  returns, and the total and the used bytes are the pages of all devices (each less the first \<open>dmmax\<close>
  pages) times the page size, but only modulo 4 GiB, because the products are 32 bits wide; free
  is their wrapping difference.\<close>

theorem freebsd_swap_modulo_4G:
  assumes "sw_dmmax env = Inr dmmax" and "sw_mib env = None" and "list_all (dev_ok dmmax) ds"
    and "\<forall>i < length ds. sw_info env i = Inr (ds ! i)" and "sw_info env (length ds) = Inl ENOENT"
    and "sum_list (map (pages_of dmmax) ds) < 2 ^ 32" and "sum_list (map (pages_of dmmax) ds) \<noteq> 0"
    and "sum_list (map (\<lambda>d. unat (xsw_used d)) ds) < 2 ^ 32" and "fb_kmem sigar \<longrightarrow> 1 < length (fb_koffsets sigar)"
  shows "\<exists>s. freebsd_swap_get vm env sigar swap = Some (Some (SIGAR_OK, s))
    \<and> unat (swap_total s) = sum_list (map (pages_of dmmax) ds) * unat (fb_pagesize sigar) mod 2 ^ 32
    \<and> unat (swap_used s) = sum_list (map (\<lambda>d. unat (xsw_used d)) ds) * unat (fb_pagesize sigar) mod 2 ^ 32
    \<and> swap_free s = swap_total s - swap_used s"
proof -
  let ?p = "sum_list (map (pages_of dmmax) ds)" and ?u = "sum_list (map xsw_used ds)"
  let ?tot = "\<lparr>ksw_total = of_nat ?p, ksw_used = ?u, ksw_flags = 0\<rparr>"
  have "of_nat (sum_list (map (\<lambda>d. unat (xsw_used d)) ds)) = ?u" by (induction ds) simp_all
  then have u: "unat ?u = sum_list (map (\<lambda>d. unat (xsw_used d)) ds)" 
    using assms(8) by (simp add: unat_of_nat take_bit_nat_eq_self_iff flip: \<open>of_nat _ = ?u\<close>)
  have p: "unat (of_nat ?p :: uint32) = ?p" using assms(6) by (simp add: unat_of_nat take_bit_nat_eq_self_iff)
  have nz: "(of_nat ?p :: uint32) \<noteq> 0" using p assms(7) by (metis unat_0)
  have "getswapinfo_sysctl env [zero_kvm_swap] 1 = Some (Some (SIGAR_OK, [?tot]))"
    using assms(1,2) swap_info_loop_sums [where n = 0 and ds = ds and swap_info = "sw_info env" and dmmax = dmmax
        and ary = "[zero_kvm_swap]" and tot = zero_kvm_swap] assms(3-5)
    by (cases "length ds") (simp_all add: getswapinfo_sysctl_def zero_kvm_swap_def Let_def)
  moreover obtain v where "sigar_vmstat (vm_kvm vm) (vm_sysctl vm) sigar = Some (SIGAR_OK, v)" using vmstat_defined [OF assms(9)] by blast
  ultimately show ?thesis using nz by (auto simp: freebsd_swap_get_def swap_fill_def Let_def unat_word_ariths u p)
qed

definition example_swapdev :: xswdev where
  "example_swapdev = \<lparr>xsw_nblks = 524320, xsw_used = 100, xsw_flags = 0\<rparr>"

definition example_swap_env :: freebsd_swap where
  "example_swap_env = \<lparr>sw_dmmax = Inr 32, sw_mib = None, sw_info = (\<lambda>i. if i < 2 then Inr example_swapdev else Inl ENOENT),
     sw_kvm = Inl 1\<rparr>"

definition example_vm :: freebsd_vm where
  "example_vm = \<lparr>vm_pagesize = Inr 4096, vm_physmem = Inr 8589934592, vm_kvm = (\<lambda>a. Inl 1), vm_sysctl = (\<lambda>n. Some 7)\<rparr>"

definition example_freebsd :: freebsd_sigar where
  "example_freebsd = \<lparr>fb_core = \<lparr>s_lcpu = - 1, s_cpu_list_cores = False, s_log_level = 0, s_log_impl = False\<rparr>, fb_ncpu = 2,
     fb_boot_time = 1000, fb_ticks = 100, fb_pagesize = 4096, fb_last_getprocs = 0, fb_last_pid = - 1, fb_pinfo = None,
     fb_argmax = 0, fb_kmem = False, fb_koffsets = [], fb_proc_mounted = False\<rparr>"

text \<open>Two devices of 2 GiB each, of which 100 pages are in use, are reported as a total of 0 bytes.\<close>

theorem freebsd_swap_modulo_4G_witness:
  "\<exists>s. freebsd_swap_get example_vm example_swap_env example_freebsd \<lparr>swap_total = 0, swap_used = 0, swap_free = 0, swap_page_in = 0, swap_page_out = 0\<rparr>
      = Some (Some (SIGAR_OK, s)) \<and> swap_total s = 0 \<and> unat (swap_used s) = 819200 \<and> swap_free s = - swap_used s"
proof -
  let ?ds = "[example_swapdev, example_swapdev]"
  have "\<forall>i < length ?ds. sw_info example_swap_env i = Inr (?ds ! i)"
    by (auto simp: example_swap_env_def less_Suc_eq numeral_2_eq_2)
  moreover have "list_all (dev_ok 32) ?ds" by (simp add: dev_ok_def example_swapdev_def)
  ultimately show ?thesis
    using freebsd_swap_modulo_4G [of example_swap_env 32 ?ds example_freebsd example_vm
        "\<lparr>swap_total = 0, swap_used = 0, swap_free = 0, swap_page_in = 0, swap_page_out = 0\<rparr>"]
    by (auto simp: example_swap_env_def example_swapdev_def example_freebsd_def pages_of_def unat_eq_0)
qed

section \<open>Memory and CPUs\<close>

lemma calc_ram_keeps:
  "mem_total (snd (sigar_mem_calc_ram rnd m)) = mem_total m" "mem_free (snd (sigar_mem_calc_ram rnd m)) = mem_free m"
  "mem_used (snd (sigar_mem_calc_ram rnd m)) = mem_used m" "mem_actual_free (snd (sigar_mem_calc_ram rnd m)) = mem_actual_free m"
  "mem_actual_used (snd (sigar_mem_calc_ram rnd m)) = mem_actual_used m"
  by (simp_all add: sigar_mem_calc_ram_def Let_def)

text \<open>Used and free memory always add up to the physical memory, with and without the pages the kernel
  can give back.\<close>

lemma freebsd_mem_adds_up:
  assumes "freebsd_mem_get rnd vm sigar mem = Some (SIGAR_OK, m, s)" and "vm_pagesize vm \<noteq> Inl 0" and "vm_physmem vm \<noteq> Inl 0"
  shows "mem_used m + mem_free m = mem_total m" and "mem_actual_used m + mem_actual_free m = mem_total m"
    and "vm_physmem vm = Inr (mem_total m)"
  using assms by (auto simp: freebsd_mem_get_def calc_ram_keeps Let_def split: sum.splits option.splits)

fun chunks :: "nat \<Rightarrow> 'a list \<Rightarrow> 'a list list" where
  "chunks 0 xs = []"
| "chunks (Suc n) xs = take 5 xs # chunks n (drop 5 xs)"

lemma cell_take: "i < n \<Longrightarrow> cell (take n xs) i = cell xs i"
  by (auto simp: cell_def)

lemma chunk_cpu: "cp_time_cpu rnd ticks (take 5 ts) = cp_time_cpu rnd ticks ts"
  by (simp add: cp_time_cpu_def cell_take)

text \<open>The per-CPU times come in groups of five; the list gets one CPU for each whole group, in order.\<close>

lemma cp_times_loop_groups:
  assumes "list_all2 (\<lambda>t c. cp_time_cpu rnd ticks t = Some c) (chunks (length ts div 5) ts) cs"
  shows "cp_times_loop rnd ticks ts l = clist_fill sigar_cpu_list_grow l cs"
  using assms
proof (induction "length ts div 5" arbitrary: ts cs l)
  case 0
  then have "length ts < 5" by simp
  with 0 show ?case by (simp add: cp_times_loop.simps [of rnd ticks ts])
next
  case (Suc n)
  then have "5 \<le> length ts" by (metis Zero_not_Suc div_less not_less)
  moreover have "n = length (drop 5 ts) div 5" using Suc.hyps(2) \<open>5 \<le> length ts\<close> by (simp add: le_div_geq)
  moreover obtain c cs' where cs: "cs = c # cs'" "cp_time_cpu rnd ticks (take 5 ts) = Some c"
      "list_all2 (\<lambda>t c. cp_time_cpu rnd ticks t = Some c) (chunks n (drop 5 ts)) cs'"
    using Suc.prems unfolding Suc.hyps(2) [symmetric] by (auto simp: list_all2_Cons1)
  ultimately show ?case using Suc.hyps(1) [of "drop 5 ts" cs'] chunk_cpu [of rnd ticks ts]
    by (simp add: cp_times_loop.simps [of rnd ticks ts] split: option.split)
qed

end
