(* ===== verification/Freebsd_Route.thy ===== *)
theory Freebsd_Route
  imports Freebsd_System
begin

text \<open>
  The routing socket messages of \<open>src/os/freebsd/freebsd_sigar.c\<close>: routes, the ARP table and the network
  interfaces. A message buffer is the list of its bytes and a pointer into it the rest from there on;
  reading behind the buffer is undefined. The first four bytes of every message are its length, version
  and type; where the rest of a header lies is the system's business and a parameter (\<open>rt_layout\<close>,
  \<open>if_layout\<close>). A message of length zero keeps the loops from moving, so they are partial functions whose
  outer \<open>None\<close> is a call that does not return.
\<close>

section \<open>Messages and socket addresses\<close>

definition u16_at :: "nat list \<Rightarrow> nat \<Rightarrow> nat ub" where
  "u16_at bs i = do { lo \<leftarrow> cell bs i; hi \<leftarrow> cell bs (i + 1); Some (lo + 256 * hi) }"

definition u32_at :: "nat list \<Rightarrow> nat \<Rightarrow> uint32 ub" where
  "u32_at bs i = do { a \<leftarrow> u16_at bs i; b \<leftarrow> u16_at bs (i + 2); Some (of_nat (a + 65536 * b)) }"

definition msg_len :: "nat list \<Rightarrow> nat ub" where
  "msg_len bs = u16_at bs 0"

definition msg_type :: "nat list \<Rightarrow> nat ub" where
  "msg_type bs = cell bs 3"

abbreviation (input) RTM_GET :: nat where "RTM_GET \<equiv> 4"
abbreviation (input) RTM_NEWADDR :: nat where "RTM_NEWADDR \<equiv> 0xc"
abbreviation (input) AF_INET :: nat where "AF_INET \<equiv> 2"
abbreviation (input) AF_LINK :: nat where "AF_LINK \<equiv> 18"

definition sa_family :: "nat list \<Rightarrow> nat ub" where
  "sa_family sa = cell sa 1"

definition rt_s_addr :: "nat list \<Rightarrow> uint32 ub" where
  "rt_s_addr sa = u32_at sa 4"

text \<open>The length rounded up to whole longs; an address of length zero still takes one.\<close>

definition SA_SIZE :: "nat list \<Rightarrow> nat ub" where
  "SA_SIZE sa = map_option (\<lambda>sa_len. if sa_len = 0 then 8 else 1 + ((sa_len - 1) OR 7)) (cell sa 0)"

section \<open>Routes\<close>

record rt_msghdr =
  rtm_index :: nat
  rtm_flags :: uint32
  rtm_addrs :: nat

record rt_layout =
  rl_size :: nat
  rl_dec :: "nat list \<Rightarrow> rt_msghdr"

definition null_route :: sigar_net_route where
  "null_route = \<lparr>rt_destination = null_address, rt_gateway = null_address, rt_mask = null_address, rt_flags = 0, rt_refcnt = 0, rt_use = 0,
     rt_metric = 0, rt_mtu = 0, rt_window = 0, rt_irtt = 0, rt_ifname = []\<rparr>"

text \<open>The addresses that follow a header, one for each set bit of \<open>rtm_addrs\<close>: the destination, the gateway
  and the mask are kept. \<open>n\<close> bits are left; \<open>sa\<close> ends with the buffer, not with the message.\<close>

definition rta_set :: "nat \<Rightarrow> nat list \<Rightarrow> sigar_net_route \<Rightarrow> sigar_net_route ub" where
  "rta_set b sa route =
     (if b = 0 then map_option (\<lambda>v. route\<lparr>rt_destination := sigar_net_address_set (rt_destination route) v\<rparr>) (rt_s_addr sa)
      else if b = 1 then
        do { family \<leftarrow> sa_family sa;
             if family = AF_INET
             then map_option (\<lambda>v. route\<lparr>rt_gateway := sigar_net_address_set (rt_gateway route) v\<rparr>) (rt_s_addr sa)
             else Some route }
      else if b = 2 then map_option (\<lambda>v. route\<lparr>rt_mask := sigar_net_address_set (rt_mask route) v\<rparr>) (rt_s_addr sa)
      else Some route)"

fun rta_loop :: "nat \<Rightarrow> nat \<Rightarrow> nat list \<Rightarrow> sigar_net_route \<Rightarrow> sigar_net_route ub" where
  "rta_loop 0 addrs sa route = Some route"
| "rta_loop (Suc n) addrs sa route =
     (if sa = [] then Some route
      else if \<not> bit addrs (31 - n) then rta_loop n addrs sa route
      else do { route1 \<leftarrow> rta_set (31 - n) sa route;
                size \<leftarrow> SA_SIZE sa;
                rta_loop n addrs (drop size sa) route1 })"

definition route_of_msg :: "rt_layout \<Rightarrow> (nat \<Rightarrow> string option) \<Rightarrow> nat list \<Rightarrow> sigar_net_route option ub" where
  "route_of_msg layout if_indextoname next = do {
     ty \<leftarrow> msg_type next;
     if ty \<noteq> RTM_GET then Some None
     else do {
       family \<leftarrow> sa_family (drop (rl_size layout) next);
       if family \<noteq> AF_INET then Some None
       else
         (let rtm = rl_dec layout (take (rl_size layout) next);
              route = null_route\<lparr>rt_flags := scast (rtm_flags rtm),
                rt_ifname := (case if_indextoname (rtm_index rtm) of Some name \<Rightarrow> name | None \<Rightarrow> [])\<rparr>
          in map_option Some (rta_loop 32 (rtm_addrs rtm) (drop (rl_size layout) next) route))
     }
   }"

partial_function (option) route_msg_loop ::
  "(nat list \<Rightarrow> 'a option ub) \<Rightarrow> ('a clist \<Rightarrow> 'a clist) \<Rightarrow> nat list \<Rightarrow> 'a clist \<Rightarrow> 'a clist ub option" where
  "route_msg_loop msg grow next l =
     (if next = [] then Some (Some l)
      else (case (case msg next of
                    None \<Rightarrow> None
                  | Some None \<Rightarrow> Some l
                  | Some (Some v) \<Rightarrow> clist_put grow l v) of
              None \<Rightarrow> Some None
            | Some l1 \<Rightarrow>
                (case msg_len next of None \<Rightarrow> Some None | Some len \<Rightarrow> route_msg_loop msg grow (drop len next) l1)))"

definition freebsd_net_route_list_get ::
  "rt_layout \<Rightarrow> (nat \<Rightarrow> string option) \<Rightarrow> (status + nat list) \<Rightarrow> (status \<times> sigar_net_route clist) ub option" where
  "freebsd_net_route_list_get layout if_indextoname dump =
     (case dump of
        Inl errno \<Rightarrow> Some (Some (errno, clist_alloc 0))
      | Inr buf \<Rightarrow>
          map_option (map_option (Pair SIGAR_OK))
            (route_msg_loop (route_of_msg layout if_indextoname) sigar_net_route_list_grow buf sigar_net_route_list_create))"

section \<open>The ARP table\<close>

definition freebsd_hw_types :: "(nat \<times> string) list" where
  "freebsd_hw_types = [(0x6, ''ether''), (0x9, ''tr''), (0xf, ''fddi''), (0x25, ''atm''), (0x87, ''vlan''), (0x90, ''firewire''), (0xd1, ''bridge'')]"

definition freebsd_get_hw_type :: "nat \<Rightarrow> string" where
  "freebsd_get_hw_type type = (case map_of freebsd_hw_types type of Some s \<Rightarrow> s | None \<Rightarrow> ''unknown'')"

text \<open>The bytes of a link address lie behind the interface name. The union of an address has 16 bytes.\<close>

definition LLADDR :: "nat list \<Rightarrow> nat list ub" where
  "LLADDR sdl = do { nlen \<leftarrow> cell sdl 5; alen \<leftarrow> cell sdl 6;
     if length sdl < 8 + nlen + alen \<or> 16 < alen then None else Some (take alen (drop (8 + nlen) sdl)) }"

definition arp_of_msg :: "rt_layout \<Rightarrow> (nat \<Rightarrow> string option) \<Rightarrow> sigar_arp \<Rightarrow> nat list \<Rightarrow> sigar_arp option ub" where
  "arp_of_msg layout if_indextoname uninit next = do {
     let sin = drop (rl_size layout) next;
     size \<leftarrow> SA_SIZE sin;
     let sdl = drop size sin;
     address \<leftarrow> rt_s_addr sin;
     mac \<leftarrow> LLADDR sdl;
     index \<leftarrow> u16_at sdl 2;
     ty \<leftarrow> cell sdl 4;
     Some (Some \<lparr>arp_ifname = (case if_indextoname index of Some name \<Rightarrow> name | None \<Rightarrow> arp_ifname uninit),
       arp_type = sstrcpy 64 (freebsd_get_hw_type ty),
       arp_hwaddr = sigar_net_address_mac_set (arp_hwaddr uninit) mac (length mac),
       arp_address = sigar_net_address_set (arp_address uninit) address,
       arp_flags = scast (rtm_flags (rl_dec layout (take (rl_size layout) next)))\<rparr>)
   }"

text \<open>With an empty table the list is not created: \<open>None\<close> as list.\<close>

definition freebsd_arp_list_get ::
  "rt_layout \<Rightarrow> (nat \<Rightarrow> string option) \<Rightarrow> sigar_arp \<Rightarrow> (status + nat list) \<Rightarrow> (status \<times> sigar_arp clist option) ub option" where
  "freebsd_arp_list_get layout if_indextoname uninit dump =
     (case dump of
        Inl errno \<Rightarrow> Some (Some (errno, None))
      | Inr buf \<Rightarrow>
          if buf = [] then Some (Some (SIGAR_OK, None))
          else map_option (map_option (\<lambda>l. (SIGAR_OK, Some l)))
                 (route_msg_loop (arp_of_msg layout if_indextoname uninit) sigar_arp_list_grow buf sigar_arp_list_create))"

section \<open>Interfaces\<close>

record if_msghdr =
  ifm_flags :: uint32
  ifi_mtu :: uint64
  ifi_metric :: uint64
  ifi_baudrate :: uint64
  ifi_ipackets :: uint64
  ifi_ierrors :: uint64
  ifi_opackets :: uint64
  ifi_oerrors :: uint64
  ifi_collisions :: uint64
  ifi_ibytes :: uint64
  ifi_obytes :: uint64
  ifi_iqdrops :: uint64

text \<open>The size of the header, the value of \<open>RTM_IFINFO\<close> and the decoding of the members.\<close>

record if_layout =
  il_size :: nat
  il_ifinfo :: nat
  il_dec :: "nat list \<Rightarrow> if_msghdr"

text \<open>The kept buffer: it grows when the kernel asks for more, and is never cut. \<open>fresh\<close> are the bytes
  \<open>realloc\<close> adds; \<open>needed\<close> is what the first call asks for and \<open>fill\<close> what the second delivers.\<close>

definition sigar_ifmsg_init ::
  "(nat \<Rightarrow> nat list) \<Rightarrow> (status + nat) \<Rightarrow> (nat \<Rightarrow> status + nat list) \<Rightarrow> nat list \<Rightarrow> status \<times> nat list" where
  "sigar_ifmsg_init fresh needed fill ifconf_buf =
     (case needed of
        Inl errno \<Rightarrow> (errno, ifconf_buf)
      | Inr len \<Rightarrow>
          (let buf = (if length ifconf_buf < len then ifconf_buf @ fresh (len - length ifconf_buf) else ifconf_buf) in
           case fill len of
             Inl errno \<Rightarrow> (errno, buf)
           | Inr bytes \<Rightarrow> (SIGAR_OK, bytes @ drop (length bytes) buf)))"

definition has_ifaddr :: "status option \<Rightarrow> (string \<Rightarrow> status + uint32) \<Rightarrow> string \<Rightarrow> status" where
  "has_ifaddr socket_error siocgifaddr name =
     (case socket_error of
        Some errno \<Rightarrow> errno
      | None \<Rightarrow> (case siocgifaddr (take 15 name) of Inr _ \<Rightarrow> SIGAR_OK | Inl errno \<Rightarrow> errno))"

text \<open>The address messages behind an interface message are passed over.\<close>

partial_function (option) skip_addr_msgs :: "nat list \<Rightarrow> nat list ub option" where
  "skip_addr_msgs ptr =
     (if ptr = [] then Some (Some [])
      else (case msg_type ptr of
              None \<Rightarrow> Some None
            | Some ty \<Rightarrow>
                if ty \<noteq> RTM_NEWADDR then Some (Some ptr)
                else (case msg_len ptr of None \<Rightarrow> Some None | Some len \<Rightarrow> skip_addr_msgs (drop len ptr))))"

definition sdl_name :: "nat list \<Rightarrow> string ub" where
  "sdl_name sdl = do { nlen \<leftarrow> cell sdl 5; if length sdl < 8 + nlen then None else Some (map char_of (take nlen (drop 8 sdl))) }"

datatype ifmsg_iter = IFMSG_ITER_LIST | IFMSG_ITER_GET string

text \<open>What the loop does with one interface: keep its name, or stop at it.\<close>

definition list_interface :: "(string \<Rightarrow> status) \<Rightarrow> nat list \<Rightarrow> string option ub" where
  "list_interface ifaddr sdl = do {
     ty \<leftarrow> cell sdl 4;
     if ty = 1 then map_option (\<lambda>name. if ifaddr name \<noteq> SIGAR_OK then None else Some name) (sdl_name sdl)
     else if ty = 6 \<or> ty = 24 then map_option Some (sdl_name sdl)
     else Some None
   }"

datatype ifmsg_result = Listed "string clist" | Got "nat list"

partial_function (option) ifmsg_loop ::
  "if_layout \<Rightarrow> (string \<Rightarrow> status) \<Rightarrow> ifmsg_iter \<Rightarrow> nat list \<Rightarrow> string clist \<Rightarrow> (status \<times> ifmsg_result) ub option" where
  "ifmsg_loop layout ifaddr iter ptr iflist =
     (let finish = Some (Some (case iter of IFMSG_ITER_LIST \<Rightarrow> (SIGAR_OK, Listed iflist) | IFMSG_ITER_GET _ \<Rightarrow> (ENXIO, Got []))) in
      if ptr = [] then finish
      else (case (msg_type ptr, msg_len ptr) of
              (Some ty, Some len) \<Rightarrow>
                if ty \<noteq> il_ifinfo layout then finish
                else
                  (case skip_addr_msgs (drop len ptr) of
                     None \<Rightarrow> None
                   | Some None \<Rightarrow> Some None
                   | Some (Some next) \<Rightarrow>
                       (let sdl = drop (il_size layout) ptr in
                        case sa_family sdl of
                          None \<Rightarrow> Some None
                        | Some family \<Rightarrow>
                            if family \<noteq> AF_LINK then ifmsg_loop layout ifaddr iter next iflist
                            else
                              (case iter of
                                 IFMSG_ITER_LIST \<Rightarrow>
                                   (case list_interface ifaddr sdl of
                                      None \<Rightarrow> Some None
                                    | Some None \<Rightarrow> ifmsg_loop layout ifaddr iter next iflist
                                    | Some (Some name) \<Rightarrow>
                                        (case clist_put sigar_net_interface_list_grow iflist name of
                                           None \<Rightarrow> Some None
                                         | Some l \<Rightarrow> ifmsg_loop layout ifaddr iter next l))
                               | IFMSG_ITER_GET wanted \<Rightarrow>
                                   (case sdl_name sdl of
                                      None \<Rightarrow> Some None
                                    | Some name \<Rightarrow>
                                        if name = wanted then Some (Some (SIGAR_OK, Got ptr))
                                        else ifmsg_loop layout ifaddr iter next iflist))))
            | _ \<Rightarrow> Some None))"

definition sigar_ifmsg_iter ::
  "if_layout \<Rightarrow> (string \<Rightarrow> status) \<Rightarrow> nat list \<Rightarrow> ifmsg_iter \<Rightarrow> (status \<times> ifmsg_result) ub option" where
  "sigar_ifmsg_iter layout ifaddr ifconf_buf iter = ifmsg_loop layout ifaddr iter ifconf_buf sigar_net_interface_list_create"

definition freebsd_net_interface_list_get ::
  "(nat \<Rightarrow> nat list) \<Rightarrow> (status + nat) \<Rightarrow> (nat \<Rightarrow> status + nat list) \<Rightarrow> if_layout \<Rightarrow> (string \<Rightarrow> status) \<Rightarrow> nat list \<Rightarrow>
   (status \<times> string clist option \<times> nat list) ub option" where
  "freebsd_net_interface_list_get fresh needed fill layout ifaddr ifconf_buf =
     (case sigar_ifmsg_init fresh needed fill ifconf_buf of
        (status, buf) \<Rightarrow>
          if status \<noteq> SIGAR_OK then Some (Some (status, None, buf))
          else map_option (map_option (\<lambda>(st, res). (st, case res of Listed l \<Rightarrow> Some l | Got _ \<Rightarrow> None, buf)))
                 (sigar_ifmsg_iter layout ifaddr buf IFMSG_ITER_LIST))"

section \<open>IPv6 addresses\<close>

text \<open>The mask byte by byte, then bit by bit down to bit 1.\<close>

fun prefix_bits :: "nat \<Rightarrow> nat \<Rightarrow> nat" where
  "prefix_bits 0 b = 0"
| "prefix_bits (Suc k) b = (if bit b (Suc k) then prefix_bits k b else Suc k)"

definition sigar_in6_prefixlen :: "nat list \<Rightarrow> nat" where
  "sigar_in6_prefixlen name =
     (let full = length (takeWhile (\<lambda>b. b = 0xff) name) in
      if full = length name then 8 * full
      else
        (let b = name ! full; left = prefix_bits 7 b; plen = 8 * full + (7 - left) in
         if list_ex (\<lambda>k. bit b k) [1..<Suc left] then 0
         else if list_ex (\<lambda>c. c \<noteq> 0) (drop (Suc full) name) then 0
         else plen))"

record ifaddr6 =
  ifa_name :: string
  ifa_addr6 :: "nat list option"
  ifa_netmask :: "nat list"

text \<open>\<open>IN6_IS_ADDR_LINKLOCAL\<close>, \<open>SITELOCAL\<close>, \<open>V4COMPAT\<close> and \<open>LOOPBACK\<close> on the sixteen bytes.\<close>

definition scope6_of :: "nat list \<Rightarrow> uint32" where
  "scope6_of addr =
     (if addr ! 0 = 0xfe \<and> addr ! 1 AND 0xc0 = 0x80 then 0x20
      else if addr ! 0 = 0xfe \<and> addr ! 1 AND 0xc0 = 0xc0 then 0x40
      else if list_all (\<lambda>b. b = 0) (take 12 addr) \<and> drop 12 addr \<noteq> [0, 0, 0, 0] \<and> drop 12 addr \<noteq> [0, 0, 0, 1] then 0x80
      else if addr = replicate 15 0 @ [1] then 0x10
      else 0)"

text \<open>\<open>ifa_addr6\<close> is None where the address is missing or of another family.\<close>

definition freebsd_ipv6_config_get ::
  "(status + ifaddr6 list) \<Rightarrow> string \<Rightarrow> sigar_net_interface_config \<Rightarrow> status \<times> sigar_net_interface_config" where
  "freebsd_ipv6_config_get getifaddrs name ifconfig =
     (case getifaddrs of
        Inl errno \<Rightarrow> (errno, ifconfig)
      | Inr addrs \<Rightarrow>
          (case List.find (\<lambda>ifa. ifa_addr6 ifa \<noteq> None \<and> strEQ (ifa_name ifa) name) addrs of
             None \<Rightarrow> (ENOENT, ifconfig)
           | Some ifa \<Rightarrow>
               (let addr = (case ifa_addr6 ifa of Some a \<Rightarrow> a | None \<Rightarrow> []) in
                (SIGAR_OK, ifconfig\<lparr>ic_address6 := (ic_address6 ifconfig)\<lparr>na_addr := addr, na_family := SIGAR_AF_INET6\<rparr>,
                  ic_scope6 := scope6_of addr, ic_prefix6_length := of_nat (sigar_in6_prefixlen (ifa_netmask ifa))\<rparr>))))"

section \<open>Configuration and counters of an interface\<close>

definition config_of_ifm ::
  "if_layout \<Rightarrow> if_ioctls \<Rightarrow> (status + ifaddr6 list) \<Rightarrow> string \<Rightarrow> nat list \<Rightarrow> sigar_net_interface_config ub" where
  "config_of_ifm layout os getifaddrs name ptr = do {
     let ifm = il_dec layout (take (il_size layout) ptr);
     mac \<leftarrow> LLADDR (drop (il_size layout) ptr);
     let ifr_name = sstrcpy 16 name;
     let c0 = zero_config\<lparr>ic_name := sstrcpy 256 name, ic_hwaddr := sigar_net_address_mac_set null_address mac (length mac),
                ic_flags := scast (ifm_flags ifm), ic_mtu := ifi_mtu ifm, ic_metric := ifi_metric ifm\<rparr>;
     let c1 = c0\<lparr>ic_address := set_if (ic_address c0) (io_addr os ifr_name), ic_netmask := set_if (ic_netmask c0) (io_netmask os ifr_name)\<rparr>;
     let c2 = (if ic_flags c1 AND 0x8 \<noteq> 0 then
                 c1\<lparr>ic_destination := sigar_net_address_set (ic_destination c1) (addr_in (ic_address c1)),
                    ic_broadcast := sigar_net_address_set (ic_broadcast c1) 0, ic_type := ''Local Loopback''\<rparr>
               else
                 c1\<lparr>ic_destination := set_if (ic_destination c1) (io_dstaddr os ifr_name),
                    ic_broadcast := set_if (ic_broadcast c1) (io_brdaddr os ifr_name), ic_type := ''Ethernet''\<rparr>);
     let c3 = c2\<lparr>ic_description := sstrcpy 256 (ic_name c2), ic_address6 := (ic_address6 c2)\<lparr>na_family := SIGAR_AF_INET6\<rparr>,
                ic_prefix6_length := 0, ic_scope6 := 0\<rparr>;
     Some (snd (freebsd_ipv6_config_get getifaddrs name c3))
   }"

text \<open>The messages are fetched only if there are none yet.\<close>

definition freebsd_net_interface_config_get ::
  "(nat \<Rightarrow> nat list) \<Rightarrow> (status + nat) \<Rightarrow> (nat \<Rightarrow> status + nat list) \<Rightarrow> if_layout \<Rightarrow> (string \<Rightarrow> status) \<Rightarrow> if_ioctls \<Rightarrow> (status + ifaddr6 list) \<Rightarrow>
   status option \<Rightarrow> nat list \<Rightarrow> string \<Rightarrow> ((status + sigar_net_interface_config) \<times> nat list) ub option" where
  "freebsd_net_interface_config_get fresh needed fill layout ifaddr os getifaddrs socket_error ifconf_buf name =
     (case (if ifconf_buf = [] then sigar_ifmsg_init fresh needed fill ifconf_buf else (SIGAR_OK, ifconf_buf)) of
        (status, buf) \<Rightarrow>
          if status \<noteq> SIGAR_OK then Some (Some (Inl status, buf))
          else
            (case sigar_ifmsg_iter layout ifaddr buf (IFMSG_ITER_GET name) of
               None \<Rightarrow> None
             | Some None \<Rightarrow> Some None
             | Some (Some (st, res)) \<Rightarrow>
                 if st \<noteq> SIGAR_OK then Some (Some (Inl st, buf))
                 else (case (socket_error, res) of
                         (Some errno, _) \<Rightarrow> Some (Some (Inl errno, buf))
                       | (None, Got ptr) \<Rightarrow> Some (map_option (\<lambda>c. (Inr c, buf)) (config_of_ifm layout os getifaddrs name ptr))
                       | (None, Listed _) \<Rightarrow> Some None)))"

definition ifstat_of_ifm :: "if_msghdr \<Rightarrow> sigar_net_interface_stat" where
  "ifstat_of_ifm ifm =
     \<lparr>is_rx_packets = ifi_ipackets ifm, is_rx_bytes = ifi_ibytes ifm, is_rx_errors = ifi_ierrors ifm, is_rx_dropped = ifi_iqdrops ifm,
      is_rx_overruns = SIGAR_FIELD_NOTIMPL, is_rx_frame = SIGAR_FIELD_NOTIMPL, is_tx_packets = ifi_opackets ifm, is_tx_bytes = ifi_obytes ifm,
      is_tx_errors = ifi_oerrors ifm, is_tx_dropped = SIGAR_FIELD_NOTIMPL, is_tx_overruns = SIGAR_FIELD_NOTIMPL,
      is_tx_collisions = ifi_collisions ifm, is_tx_carrier = SIGAR_FIELD_NOTIMPL, is_speed = ifi_baudrate ifm\<rparr>"

definition freebsd_net_interface_stat_get ::
  "(nat \<Rightarrow> nat list) \<Rightarrow> (status + nat) \<Rightarrow> (nat \<Rightarrow> status + nat list) \<Rightarrow> if_layout \<Rightarrow> (string \<Rightarrow> status) \<Rightarrow> nat list \<Rightarrow> string \<Rightarrow>
   ((status + sigar_net_interface_stat) \<times> nat list) ub option" where
  "freebsd_net_interface_stat_get fresh needed fill layout ifaddr ifconf_buf name =
     (case sigar_ifmsg_init fresh needed fill ifconf_buf of
        (status, buf) \<Rightarrow>
          if status \<noteq> SIGAR_OK then Some (Some (Inl status, buf))
          else map_option (map_option (\<lambda>(st, res).
                 (case res of
                    Got ptr \<Rightarrow> if st \<noteq> SIGAR_OK then (Inl st, buf) else (Inr (ifstat_of_ifm (il_dec layout (take (il_size layout) ptr))), buf)
                  | Listed _ \<Rightarrow> (Inl st, buf))))
                 (sigar_ifmsg_iter layout ifaddr buf (IFMSG_ITER_GET name)))"

section \<open>Prefix lengths\<close>

definition part_byte :: "nat \<Rightarrow> nat" where
  "part_byte k = 256 - 2 ^ (8 - k)"

lemma part_byte_table:
  "list_all (\<lambda>k. part_byte k \<noteq> 255 \<and> prefix_bits 7 (part_byte k) = 7 - k \<and> \<not> list_ex (\<lambda>j. bit (part_byte k) j) [1..<Suc (7 - k)]) [0..<8]"
  by code_simp

text \<open>The mask of a prefix, with its last partial byte, gives back the length of the prefix.\<close>

lemma prefixlen_of_mask:
  assumes "k < 8"
  shows "sigar_in6_prefixlen (replicate full 0xff @ part_byte k # replicate rest 0) = 8 * full + k"
proof -
  have p: "part_byte k \<noteq> 255" "prefix_bits 7 (part_byte k) = 7 - k" "\<not> list_ex (\<lambda>j. bit (part_byte k) j) [1..<Suc (7 - k)]"
    using part_byte_table assms by (simp_all only: list_all_iff set_upt atLeastLessThan_iff le0 simp_thms)
  let ?m = "replicate full 0xff @ part_byte k # replicate rest 0"
  have t: "takeWhile (\<lambda>b. b = 0xff) ?m = replicate full 0xff" using p(1) by (simp add: takeWhile_append)
  have d: "\<not> list_ex (\<lambda>c. c \<noteq> 0) (drop (Suc full) ?m)" by (simp add: list_ex_iff)
  have n: "?m ! full = part_byte k" by (simp add: nth_append)
  show ?thesis unfolding sigar_in6_prefixlen_def Let_def t length_replicate n p(2) using p(3) d assms by (simp del: upt_Suc)
qed

section \<open>Routes of a dump\<close>

lemma cell_append: "i < length xs \<Longrightarrow> cell (xs @ ys) i = cell xs i"
  by (simp add: cell_def nth_append)

lemma u16_at_append: "i + 1 < length xs \<Longrightarrow> u16_at (xs @ ys) i = u16_at xs i"
  by (simp add: u16_at_def cell_append)

lemma u32_at_append: "i + 3 < length xs \<Longrightarrow> u32_at (xs @ ys) i = u32_at xs i"
  by (simp add: u32_at_def u16_at_append)

text \<open>A message: its header and the addresses the header announces.\<close>

record rt_msg =
  m_hdr :: "nat list"
  m_sas :: "nat list list"

definition msg_bytes :: "rt_msg \<Rightarrow> nat list" where
  "msg_bytes m = m_hdr m @ concat (m_sas m)"

definition set_bits :: "nat \<Rightarrow> nat list" where
  "set_bits a = filter (bit a) [0..<32]"

definition sa_ok :: "nat list \<Rightarrow> bool" where
  "sa_ok sa \<longleftrightarrow> 8 \<le> length sa \<and> SA_SIZE sa = Some (length sa)"

definition rt_msg_ok :: "rt_layout \<Rightarrow> rt_msg \<Rightarrow> bool" where
  "rt_msg_ok layout m \<longleftrightarrow> length (m_hdr m) = rl_size layout \<and> 4 \<le> rl_size layout \<and> m_sas m \<noteq> [] \<and> list_all sa_ok (m_sas m)
     \<and> length (m_sas m) = length (set_bits (rtm_addrs (rl_dec layout (m_hdr m)))) \<and> msg_len (m_hdr m) = Some (length (msg_bytes m))"

definition sa_value :: "nat list \<Rightarrow> uint32" where
  "sa_value sa = (case rt_s_addr sa of Some v \<Rightarrow> v | None \<Rightarrow> 0)"

definition sa_inet :: "nat list \<Rightarrow> bool" where
  "sa_inet sa \<longleftrightarrow> sa_family sa = Some AF_INET"

definition rta_apply :: "nat \<times> nat list \<Rightarrow> sigar_net_route \<Rightarrow> sigar_net_route" where
  "rta_apply bs route = (case bs of (b, sa) \<Rightarrow>
     if b = 0 then route\<lparr>rt_destination := sigar_net_address_set (rt_destination route) (sa_value sa)\<rparr>
     else if b = 1 \<and> sa_inet sa then route\<lparr>rt_gateway := sigar_net_address_set (rt_gateway route) (sa_value sa)\<rparr>
     else if b = 2 then route\<lparr>rt_mask := sigar_net_address_set (rt_mask route) (sa_value sa)\<rparr>
     else route)"

lemma sa_reads:
  assumes "sa_ok sa"
  shows "rt_s_addr (sa @ rest) = Some (sa_value sa)" and "SA_SIZE (sa @ rest) = Some (length sa)"
    and "sa_family (sa @ rest) = sa_family sa" and "\<exists>f. sa_family sa = Some f"
proof -
  have l: "8 \<le> length sa" using assms by (simp add: sa_ok_def)
  then obtain v where "u32_at sa 4 = Some v" by (auto simp: u32_at_def u16_at_def cell_def)
  with l show "rt_s_addr (sa @ rest) = Some (sa_value sa)" by (simp add: rt_s_addr_def sa_value_def u32_at_append)
  have c: "cell (sa @ rest) 0 = cell sa 0" "cell (sa @ rest) 1 = cell sa 1" using l by (auto intro!: cell_append)
  show "SA_SIZE (sa @ rest) = Some (length sa)" using assms c(1) by (simp add: SA_SIZE_def sa_ok_def)
  show "sa_family (sa @ rest) = sa_family sa" using c(2) by (simp add: sa_family_def)
  show "\<exists>f. sa_family sa = Some f" using l by (simp add: sa_family_def cell_def)
qed

lemma rta_set_apply: "sa_ok sa \<Longrightarrow> rta_set b (sa @ rest) route = Some (rta_apply (b, sa) route)"
  using sa_reads(1-3) [of sa rest] sa_reads(4) [of sa] by (auto simp: rta_set_def rta_apply_def sa_inet_def)

lemma upt_32_tail: "n < 32 \<Longrightarrow> [31 - n..<32] = (31 - n) # [32 - n..<32]"
  by (subst upt_conv_Cons) (simp_all add: Suc_diff_le [symmetric])

lemma rta_loop_folds:
  assumes "n \<le> 32" and "list_all sa_ok sas" and "length sas = length (filter (bit addrs) [32 - n..<32])"
  shows "rta_loop n addrs (concat sas @ rest) route = Some (fold rta_apply (zip (filter (bit addrs) [32 - n..<32]) sas) route)"
  using assms
proof (induction n arbitrary: sas route)
  case 0
  then show ?case by simp
next
  case (Suc n)
  have up: "[32 - Suc n..<32] = (31 - n) # [32 - n..<32]" using upt_32_tail [of n] Suc.prems(1) by simp
  show ?case
  proof (cases "bit addrs (31 - n)")
    case True
    then obtain s sas' where s: "sas = s # sas'" using Suc.prems(3) unfolding up by (cases sas) auto
    have ok: "sa_ok s" using Suc.prems(2) s by simp
    then have ne: "s \<noteq> []" by (auto simp: sa_ok_def)
    have "rta_loop n addrs (concat sas' @ rest) (rta_apply (31 - n, s) route)
        = Some (fold rta_apply (zip (filter (bit addrs) [32 - n..<32]) sas') (rta_apply (31 - n, s) route))"
      using Suc.IH [of sas'] Suc.prems True s unfolding up by simp
    then show ?thesis using True ne s sa_reads(2) [OF ok] rta_set_apply [OF ok] unfolding up by simp
  next
    case False
    show ?thesis
    proof (cases "concat sas @ rest = []")
      case True
      have "sas = []" using True Suc.prems(2) by (cases sas) (auto simp: sa_ok_def)
      with True show ?thesis by simp
    next
      case nonempty: False
      then show ?thesis using False Suc.IH [of sas] Suc.prems unfolding up by auto
    qed
  qed
qed

text \<open>The route a message stands for, by looking up the announced addresses.\<close>

definition msg_sa :: "rt_layout \<Rightarrow> rt_msg \<Rightarrow> nat \<Rightarrow> nat list option" where
  "msg_sa layout m = map_of (zip (set_bits (rtm_addrs (rl_dec layout (m_hdr m)))) (m_sas m))"

definition sa_address :: "nat list option \<Rightarrow> sigar_net_address" where
  "sa_address sa = (case sa of None \<Rightarrow> null_address | Some s \<Rightarrow> sigar_net_address_set null_address (sa_value s))"

definition msg_route :: "rt_layout \<Rightarrow> (nat \<Rightarrow> string option) \<Rightarrow> rt_msg \<Rightarrow> sigar_net_route" where
  "msg_route layout if_indextoname m =
     (let rtm = rl_dec layout (m_hdr m); gw = msg_sa layout m 1 in
      null_route\<lparr>rt_destination := sa_address (msg_sa layout m 0),
        rt_gateway := sa_address (if \<exists>s. gw = Some s \<and> sa_inet s then gw else None),
        rt_mask := sa_address (msg_sa layout m 2), rt_flags := scast (rtm_flags rtm),
        rt_ifname := (case if_indextoname (rtm_index rtm) of Some name \<Rightarrow> name | None \<Rightarrow> [])\<rparr>)"

lemma rta_fold_fields:
  assumes "distinct (map fst xs)"
  shows "fold rta_apply xs route = route\<lparr>
      rt_destination := (case map_of xs 0 of None \<Rightarrow> rt_destination route | Some s \<Rightarrow> sigar_net_address_set (rt_destination route) (sa_value s)),
      rt_gateway := (case map_of xs 1 of None \<Rightarrow> rt_gateway route
        | Some s \<Rightarrow> if sa_inet s then sigar_net_address_set (rt_gateway route) (sa_value s) else rt_gateway route),
      rt_mask := (case map_of xs 2 of None \<Rightarrow> rt_mask route | Some s \<Rightarrow> sigar_net_address_set (rt_mask route) (sa_value s))\<rparr>"
  using assms
proof (induction xs arbitrary: route)
  case (Cons x xs)
  obtain b s where x: "x = (b, s)" by (cases x)
  then have n: "map_of xs b = None" using Cons.prems by (simp add: map_of_eq_None_iff)
  have d: "distinct (map fst xs)" using Cons.prems by simp
  have a: "rta_apply (b, s) route =
    (if b = 0 then route\<lparr>rt_destination := sigar_net_address_set (rt_destination route) (sa_value s)\<rparr>
     else if b = 1 \<and> sa_inet s then route\<lparr>rt_gateway := sigar_net_address_set (rt_gateway route) (sa_value s)\<rparr>
     else if b = 2 then route\<lparr>rt_mask := sigar_net_address_set (rt_mask route) (sa_value s)\<rparr> else route)"
    by (simp add: rta_apply_def)
  have e: "fold rta_apply (x # xs) route = fold rta_apply xs (rta_apply (b, s) route)" using x by simp
  consider "b = 0" | "b = 1" | "b = 2" | "2 < b" by linarith
  then show ?case unfolding e Cons.IH [OF d] a using n x by cases (simp_all split: option.split)
qed simp

definition ipv4_route :: "rt_msg \<Rightarrow> bool" where
  "ipv4_route m \<longleftrightarrow> msg_type (m_hdr m) = Some RTM_GET \<and> sa_inet (hd (m_sas m))"

lemma route_of_msg_bytes:
  assumes "rt_msg_ok layout m"
  shows "route_of_msg layout idx (msg_bytes m @ rest) = Some (if ipv4_route m then Some (msg_route layout idx m) else None)"
proof -
  let ?a = "rtm_addrs (rl_dec layout (m_hdr m))"
  have ok: "length (m_hdr m) = rl_size layout" "4 \<le> rl_size layout" "list_all sa_ok (m_sas m)" "length (m_sas m) = length (set_bits ?a)"
    using assms by (auto simp: rt_msg_ok_def)
  obtain s sas where s: "m_sas m = s # sas" using assms by (cases "m_sas m") (auto simp: rt_msg_ok_def)
  have t: "msg_type (msg_bytes m @ rest) = msg_type (m_hdr m)" using ok(1,2) by (simp add: msg_type_def msg_bytes_def cell_append)
  have d: "drop (rl_size layout) (msg_bytes m @ rest) = concat (m_sas m) @ rest" "take (rl_size layout) (msg_bytes m @ rest) = m_hdr m"
    using ok(1) by (simp_all add: msg_bytes_def)
  have f: "sa_family (concat (m_sas m) @ rest) = sa_family s" using sa_reads(3) [of s "concat sas @ rest"] ok(3) s by simp
  have r: "rta_loop 32 ?a (concat (m_sas m) @ rest) route = Some (fold rta_apply (zip (set_bits ?a) (m_sas m)) route)" for route
    using rta_loop_folds [of 32 "m_sas m" ?a rest route] ok(3,4) by (simp add: set_bits_def)
  have dist: "distinct (map fst (zip (set_bits ?a) (m_sas m)))" using ok(4) by (simp add: set_bits_def)
  let ?rtm = "rl_dec layout (m_hdr m)"
  have e: "fold rta_apply (zip (set_bits ?a) (m_sas m)) (null_route\<lparr>rt_flags := scast (rtm_flags ?rtm),
      rt_ifname := (case idx (rtm_index ?rtm) of Some name \<Rightarrow> name | None \<Rightarrow> [])\<rparr>) = msg_route layout idx m"
    unfolding rta_fold_fields [OF dist]
    by (simp add: msg_route_def msg_sa_def sa_address_def null_route_def Let_def split: option.split)
  obtain ty fm where h: "msg_type (m_hdr m) = Some ty" "sa_family s = Some fm"
    using ok(1,2) sa_reads(4) [of s] ok(3) s by (auto simp: msg_type_def cell_def)
  have hd: "hd (m_sas m) = s" using s by simp
  show ?thesis unfolding route_of_msg_def t d f r e h ipv4_route_def hd sa_inet_def Let_def by simp
qed

text \<open>A loop over messages that can be read one by one, whatever follows them.\<close>

lemma route_msg_loop_messages:
  assumes "\<And>m rest. m \<in> set ms \<Longrightarrow> msg (bytes m @ rest) = Some (f m)"
    and "\<And>m rest. m \<in> set ms \<Longrightarrow> bytes m \<noteq> [] \<and> msg_len (bytes m @ rest) = Some (length (bytes m))"
  shows "route_msg_loop msg grow (concat (map bytes ms)) l = Some (clist_fill grow l (List.map_filter f ms))"
  using assms
proof (induction ms arbitrary: l)
  case Nil
  then show ?case by (simp add: route_msg_loop.simps List.map_filter_simps)
next
  case (Cons m ms)
  have "msg (bytes m @ concat (map bytes ms)) = Some (f m)" "bytes m \<noteq> []"
    "msg_len (bytes m @ concat (map bytes ms)) = Some (length (bytes m))" using Cons.prems by simp_all
  moreover have "route_msg_loop msg grow (concat (map bytes ms)) l1 = Some (clist_fill grow l1 (List.map_filter f ms))" for l1
    using Cons.IH Cons.prems by simp
  ultimately show ?case by (subst route_msg_loop.simps) (simp add: List.map_filter_simps split: option.split)
qed

lemma map_filter_if: "List.map_filter (\<lambda>x. if P x then Some (g x) else None) xs = map g (filter P xs)"
  by (induction xs) (simp_all add: List.map_filter_simps)

lemma rt_msg_reads:
  assumes "rt_msg_ok layout m"
  shows "msg_bytes m \<noteq> [] \<and> msg_len (msg_bytes m @ rest) = Some (length (msg_bytes m))"
  using assms u16_at_append [of 0 "m_hdr m" "concat (m_sas m) @ rest"] by (auto simp: rt_msg_ok_def msg_bytes_def msg_len_def)

text \<open>C32: the FreeBSD route list. For a dump that is a sequence of routing messages, each as long as its
  header says and with one address for every bit of its address mask, the call returns, and the
  list is the IPv4 entries of the dump in order, each with the destination, gateway (if it is an
  IPv4 address) and mask found under their bits, and the flags and the name of its interface.\<close>

theorem freebsd_routes_of_dump:
  assumes "list_all (rt_msg_ok layout) ms"
  shows "\<exists>l. freebsd_net_route_list_get layout if_indextoname (Inr (concat (map msg_bytes ms))) = Some (Some (SIGAR_OK, l))
    \<and> clist_wf l \<and> clist_elems l = map (msg_route layout if_indextoname) (filter ipv4_route ms)"
proof -
  have "route_msg_loop (route_of_msg layout if_indextoname) sigar_net_route_list_grow (concat (map msg_bytes ms)) sigar_net_route_list_create
    = Some (clist_fill sigar_net_route_list_grow sigar_net_route_list_create
        (List.map_filter (\<lambda>m. if ipv4_route m then Some (msg_route layout if_indextoname m) else None) ms))"
    using assms by (intro route_msg_loop_messages) (auto simp: list_all_iff route_of_msg_bytes rt_msg_reads)
  with route_list.fill_create [of "map (msg_route layout if_indextoname) (filter ipv4_route ms)"] show ?thesis
    by (auto simp: freebsd_net_route_list_get_def map_filter_if)
qed

definition example_layout :: rt_layout where
  "example_layout = \<lparr>rl_size = 8, rl_dec = (\<lambda>b. \<lparr>rtm_index = b ! 4, rtm_flags = of_nat (b ! 5), rtm_addrs = b ! 6\<rparr>)\<rparr>"

definition example_sa :: "nat \<Rightarrow> nat \<Rightarrow> nat \<Rightarrow> nat list" where
  "example_sa family a d = [16, family, 0, 0, a, 0, 0, d, 0, 0, 0, 0, 0, 0, 0, 0]"

definition example_msg :: "nat \<Rightarrow> rt_msg" where
  "example_msg family = \<lparr>m_hdr = [40, 0, 5, 4, 1, 3, 3, 0], m_sas = [example_sa family 0 0, example_sa 2 10 1]\<rparr>"

lemma example_msg_ok: "rt_msg_ok example_layout (example_msg f)"
proof -
  have b: "set_bits 3 = [0, 1]" by code_simp
  have "15 OR 7 = (15 :: nat)" by code_simp
  then have s: "sa_ok (example_sa f a d)" for f a d by (simp add: sa_ok_def SA_SIZE_def example_sa_def)
  have l: "length (example_sa f a d) = 16" for f a d by (simp add: example_sa_def)
  show ?thesis by (simp add: rt_msg_ok_def example_layout_def example_msg_def s l b msg_len_def u16_at_def msg_bytes_def)
qed

theorem freebsd_routes_of_dump_witness:
  "\<exists>l. freebsd_net_route_list_get example_layout (\<lambda>i. Some ''em0'') (Inr (concat (map msg_bytes [example_msg 2, example_msg 28])))
      = Some (Some (SIGAR_OK, l)) \<and> length (clist_elems l) = 1 \<and> rt_ifname (hd (clist_elems l)) = ''em0''"
proof -
  have "filter ipv4_route [example_msg 2, example_msg 28] = [example_msg 2]"
    by (simp add: ipv4_route_def example_msg_def sa_inet_def sa_family_def msg_type_def example_sa_def)
  then show ?thesis
    using freebsd_routes_of_dump [of example_layout "[example_msg 2, example_msg 28]" "\<lambda>i. Some ''em0''"] example_msg_ok
    by (auto simp: msg_route_def Let_def)
qed

section \<open>Interfaces of a dump\<close>

text \<open>The message of an interface: a header, its link address, and messages with its addresses.\<close>

record if_msg =
  im_hdr :: "nat list"
  im_sdl :: "nat list"
  im_addrs :: "nat list list"

definition if_bytes :: "if_msg \<Rightarrow> nat list" where
  "if_bytes m = im_hdr m @ im_sdl m @ concat (im_addrs m)"

definition addr_msg_ok :: "nat list \<Rightarrow> bool" where
  "addr_msg_ok a \<longleftrightarrow> 4 \<le> length a \<and> msg_type a = Some RTM_NEWADDR \<and> msg_len a = Some (length a)"

definition if_msg_ok :: "if_layout \<Rightarrow> if_msg \<Rightarrow> bool" where
  "if_msg_ok layout m \<longleftrightarrow> length (im_hdr m) = il_size layout \<and> 4 \<le> il_size layout \<and> msg_type (im_hdr m) = Some (il_ifinfo layout) \<and> il_ifinfo layout \<noteq> RTM_NEWADDR
     \<and> msg_len (im_hdr m) = Some (length (im_hdr m @ im_sdl m)) \<and> 8 \<le> length (im_sdl m) \<and> 8 + im_sdl m ! 5 \<le> length (im_sdl m)
     \<and> sa_family (im_sdl m) = Some AF_LINK \<and> list_all addr_msg_ok (im_addrs m)"

definition if_name :: "if_msg \<Rightarrow> string" where
  "if_name m = map char_of (take (im_sdl m ! 5) (drop 8 (im_sdl m)))"

text \<open>Ethernet and loopback interfaces are listed, and others of the unspecified type if they have an address.\<close>

definition if_listed :: "(string \<Rightarrow> status) \<Rightarrow> if_msg \<Rightarrow> bool" where
  "if_listed ifaddr m \<longleftrightarrow> im_sdl m ! 4 \<in> {6, 24} \<or> im_sdl m ! 4 = 1 \<and> ifaddr (if_name m) = SIGAR_OK"

definition starts_interface :: "nat list \<Rightarrow> bool" where
  "starts_interface bs \<longleftrightarrow> bs = [] \<or> (\<exists>t. msg_type bs = Some t \<and> t \<noteq> RTM_NEWADDR)"

lemma skip_addr_msgs_all:
  assumes "list_all addr_msg_ok as" and "starts_interface rest"
  shows "skip_addr_msgs (concat as @ rest) = Some (Some rest)"
  using assms(1)
proof (induction as)
  case Nil
  then show ?case using assms(2) by (subst skip_addr_msgs.simps) (auto simp: starts_interface_def)
next
  case (Cons a as)
  have a: "4 \<le> length a" "msg_type a = Some RTM_NEWADDR" "msg_len a = Some (length a)" using Cons.prems by (auto simp: addr_msg_ok_def)
  have "msg_type (a @ concat as @ rest) = Some RTM_NEWADDR" "msg_len (a @ concat as @ rest) = Some (length a)"
    using a cell_append [of 3 a] u16_at_append [of 0 a] by (auto simp: msg_type_def msg_len_def)
  moreover have "a \<noteq> []" using a(1) by auto
  ultimately show ?case using Cons by (subst skip_addr_msgs.simps) simp
qed

lemma if_msg_reads:
  assumes "if_msg_ok layout m"
  shows "if_bytes m \<noteq> []" and "msg_type (if_bytes m @ rest) = Some (il_ifinfo layout)"
    and "msg_len (if_bytes m @ rest) = Some (length (im_hdr m @ im_sdl m))"
    and "drop (length (im_hdr m @ im_sdl m)) (if_bytes m @ rest) = concat (im_addrs m) @ rest"
    and "drop (il_size layout) (if_bytes m @ rest) = im_sdl m @ concat (im_addrs m) @ rest"
    and "sa_family (im_sdl m @ rest) = Some AF_LINK" and "sdl_name (im_sdl m @ rest) = Some (if_name m)"
    and "cell (im_sdl m @ rest) 4 = Some (im_sdl m ! 4)"
proof -
  have ok: "length (im_hdr m) = il_size layout" "4 \<le> il_size layout" "msg_type (im_hdr m) = Some (il_ifinfo layout)"
    "msg_len (im_hdr m) = Some (length (im_hdr m @ im_sdl m))" "8 \<le> length (im_sdl m)" "8 + im_sdl m ! 5 \<le> length (im_sdl m)"
    "sa_family (im_sdl m) = Some AF_LINK" using assms by (auto simp: if_msg_ok_def)
  show "if_bytes m \<noteq> []" using ok(1,2) by (auto simp: if_bytes_def)
  show "msg_type (if_bytes m @ rest) = Some (il_ifinfo layout)" "msg_len (if_bytes m @ rest) = Some (length (im_hdr m @ im_sdl m))"
    using ok cell_append [of 3 "im_hdr m"] u16_at_append [of 0 "im_hdr m"] by (auto simp: msg_type_def msg_len_def if_bytes_def)
  show "drop (length (im_hdr m @ im_sdl m)) (if_bytes m @ rest) = concat (im_addrs m) @ rest"
    "drop (il_size layout) (if_bytes m @ rest) = im_sdl m @ concat (im_addrs m) @ rest"
    using ok(1) by (simp_all add: if_bytes_def)
  show "sa_family (im_sdl m @ rest) = Some AF_LINK" using ok(5,7) cell_append [of 1 "im_sdl m"] by (auto simp: sa_family_def)
  have "cell (im_sdl m) 5 = Some (im_sdl m ! 5)" using ok(5) by (simp add: cell_def)
  then show "sdl_name (im_sdl m @ rest) = Some (if_name m)"
    using ok(5,6) cell_append [of 5 "im_sdl m"] by (auto simp: sdl_name_def if_name_def)
  show "cell (im_sdl m @ rest) 4 = Some (im_sdl m ! 4)" using ok(5) by (simp add: cell_def nth_append)
qed

lemma dump_starts_interface: "list_all (if_msg_ok layout) ms \<Longrightarrow> starts_interface (concat (map if_bytes ms))"
  by (cases ms) (auto simp: starts_interface_def if_msg_reads, simp_all add: if_msg_ok_def)

lemma ifmsg_loop_lists:
  assumes "list_all (if_msg_ok layout) ms" and "clist_wf l"
  shows "\<exists>l'. ifmsg_loop layout ifaddr IFMSG_ITER_LIST (concat (map if_bytes ms)) l = Some (Some (SIGAR_OK, Listed l'))
    \<and> clist_wf l' \<and> clist_elems l' = clist_elems l @ map if_name (filter (if_listed ifaddr) ms)"
  using assms
proof (induction ms arbitrary: l)
  case Nil
  then show ?case by (subst ifmsg_loop.simps) simp
next
  case (Cons m ms)
  let ?rest = "concat (map if_bytes ms)"
  have ok: "if_msg_ok layout m" "list_all (if_msg_ok layout) ms" using Cons.prems(1) by simp_all
  have skip: "skip_addr_msgs (concat (im_addrs m) @ ?rest) = Some (Some ?rest)"
    using skip_addr_msgs_all dump_starts_interface [OF ok(2)] ok(1) by (simp add: if_msg_ok_def)
  have li: "list_interface ifaddr (im_sdl m @ concat (im_addrs m) @ ?rest) = Some (if if_listed ifaddr m then Some (if_name m) else None)"
    using if_msg_reads(7,8) [OF ok(1)] by (auto simp: list_interface_def if_listed_def)
  have step: "ifmsg_loop layout ifaddr IFMSG_ITER_LIST (concat (map if_bytes (m # ms))) l =
    (if if_listed ifaddr m
     then (case clist_put sigar_net_interface_list_grow l (if_name m) of None \<Rightarrow> Some None
           | Some l1 \<Rightarrow> ifmsg_loop layout ifaddr IFMSG_ITER_LIST ?rest l1)
     else ifmsg_loop layout ifaddr IFMSG_ITER_LIST ?rest l)"
    using if_msg_reads(1) [OF ok(1)]
    by (subst ifmsg_loop.simps)
      (simp add: if_msg_reads(2-6) [OF ok(1), unfolded length_append] skip li Let_def del: drop_append)
  from iflist.put_ok [OF Cons.prems(2), of "if_name m"] obtain l1 where
    l1: "clist_put sigar_net_interface_list_grow l (if_name m) = Some l1" "clist_wf l1" "clist_elems l1 = clist_elems l @ [if_name m]" by blast
  show ?case using Cons.IH [OF ok(2) l1(2)] Cons.IH [OF ok(2) Cons.prems(2)] l1 unfolding step by auto
qed


definition example_if_layout :: if_layout where
  "example_if_layout = \<lparr>il_size = 4, il_ifinfo = 0xe, il_dec = (\<lambda>b. \<lparr>ifm_flags = 0, ifi_mtu = 1500, ifi_metric = 0, ifi_baudrate = 0, ifi_ipackets = 0,
     ifi_ierrors = 0, ifi_opackets = 0, ifi_oerrors = 0, ifi_collisions = 0, ifi_ibytes = 0, ifi_obytes = 0, ifi_iqdrops = 0\<rparr>)\<rparr>"

definition example_if :: "nat \<Rightarrow> if_msg" where
  "example_if unit = \<lparr>im_hdr = [15, 0, 5, 14], im_sdl = [11, 18, unit, 0, 6, 3, 0, 0, 101, 109, 48 + unit], im_addrs = []\<rparr>"


text \<open>Mask lengths of addresses that are reported.\<close>

lemma freebsd_ipv6_prefix:
  assumes "k < 8" and "ifa_netmask ifa = replicate full 0xff @ part_byte k # replicate (15 - full) 0" and "ifa_addr6 ifa = Some a" and "ifa_name ifa = name"
  shows "\<exists>c. freebsd_ipv6_config_get (Inr (ifa # rest)) name ifconfig = (SIGAR_OK, c) \<and> ic_prefix6_length c = of_nat (8 * full + k)
    \<and> na_addr (ic_address6 c) = a"
  using assms prefixlen_of_mask [OF assms(1), of full "15 - full"] by (simp add: freebsd_ipv6_config_get_def strEQ_def)

end
