(* ===== verification/Freebsd_Proc.thy ===== *)
theory Freebsd_Proc
  imports Freebsd_System Linux_Proc
begin

text \<open>
  Processes in \<open>src/os/freebsd/freebsd_sigar.c\<close>: the process list, the description of one process with its
  two-second cache, memory, credentials, times, state, arguments, environment, descriptors and
  executable, and the modules of the library's own process (\<open>sigar_dlinfo_modules\<close> of \<open>src/sigar_util.c\<close>).
  \<open>sysctl\<close> is the function from a process to its description or an error number.
\<close>

section \<open>The process list\<close>

abbreviation (input) P_SYSTEM :: uint64 where "P_SYSTEM \<equiv> 0x00200"

fun kinfo_list_loop :: "kinfo_proc list \<Rightarrow> pid clist \<Rightarrow> pid clist ub" where
  "kinfo_list_loop [] proclist = Some proclist"
| "kinfo_list_loop (proc # procs) proclist =
     (if ki_flag proc AND P_SYSTEM \<noteq> 0 then kinfo_list_loop procs proclist
      else if ki_pid proc = 0 then kinfo_list_loop procs proclist
      else (case clist_put sigar_proc_list_grow proclist (ki_pid proc) of
              None \<Rightarrow> None
            | Some proclist1 \<Rightarrow> kinfo_list_loop procs proclist1))"

definition freebsd_os_proc_list_get :: "(status + kinfo_proc list) \<Rightarrow> pid clist \<Rightarrow> (status \<times> pid clist) ub" where
  "freebsd_os_proc_list_get procs proclist =
     (case procs of
        Inl errno \<Rightarrow> Some (errno, proclist)
      | Inr ps \<Rightarrow> map_option (\<lambda>l. (SIGAR_OK, l)) (kinfo_list_loop ps proclist))"

section \<open>One process\<close>

type_synonym proc_sysctl = "pid \<Rightarrow> status + kinfo_proc"

text \<open>The process and the time are noted before the call, so they are noted when it fails, too.\<close>

definition sigar_get_pinfo :: "proc_sysctl \<Rightarrow> uint64 \<Rightarrow> pid \<Rightarrow> freebsd_sigar \<Rightarrow> status \<times> freebsd_sigar" where
  "sigar_get_pinfo sysctl timenow pid sigar =
     (let s0 = (if fb_pinfo sigar = None then sigar\<lparr>fb_pinfo := Some None\<rparr> else sigar) in
      if fb_last_pid s0 = pid \<and> sint (timenow - fb_last_getprocs s0) < 2 then (SIGAR_OK, s0)
      else
        (let s1 = s0\<lparr>fb_last_pid := pid, fb_last_getprocs := timenow\<rparr> in
         case sysctl pid of
           Inl errno \<Rightarrow> (errno, s1)
         | Inr info \<Rightarrow> (SIGAR_OK, s1\<lparr>fb_pinfo := Some (Some info)\<rparr>)))"

text \<open>What the getters read: undefined while the buffer was never filled.\<close>

definition pinfo_of :: "freebsd_sigar \<Rightarrow> kinfo_proc ub" where
  "pinfo_of sigar = Option.bind (fb_pinfo sigar) (\<lambda>info. info)"

definition with_pinfo ::
  "proc_sysctl \<Rightarrow> uint64 \<Rightarrow> pid \<Rightarrow> (kinfo_proc \<Rightarrow> 'a) \<Rightarrow> freebsd_sigar \<Rightarrow> ((status + 'a) \<times> freebsd_sigar) ub" where
  "with_pinfo sysctl now pid f sigar =
     (case sigar_get_pinfo sysctl now pid sigar of
        (status, s) \<Rightarrow>
          if status \<noteq> SIGAR_OK then Some (Inl status, s)
          else map_option (\<lambda>pinfo. (Inr (f pinfo), s)) (pinfo_of s))"

definition freebsd_proc_mem_get ::
  "proc_sysctl \<Rightarrow> uint64 \<Rightarrow> pid \<Rightarrow> freebsd_sigar \<Rightarrow> ((status + sigar_proc_mem) \<times> freebsd_sigar) ub" where
  "freebsd_proc_mem_get sysctl now pid sigar =
     with_pinfo sysctl now pid (\<lambda>pinfo.
       \<lparr>pm_size = (ki_tsize pinfo + ki_dsize pinfo + ki_ssize pinfo) * scast (fb_pagesize sigar),
        pm_resident = ki_rssize pinfo * scast (fb_pagesize sigar), pm_share = SIGAR_FIELD_NOTIMPL,
        pm_minor_faults = SIGAR_FIELD_NOTIMPL, pm_major_faults = SIGAR_FIELD_NOTIMPL, pm_page_faults = SIGAR_FIELD_NOTIMPL\<rparr>) sigar"

definition freebsd_proc_cumulative_disk_io_get :: status where
  "freebsd_proc_cumulative_disk_io_get = SIGAR_ENOTIMPL"

definition freebsd_proc_cred_get ::
  "proc_sysctl \<Rightarrow> uint64 \<Rightarrow> pid \<Rightarrow> freebsd_sigar \<Rightarrow> ((status + sigar_proc_cred) \<times> freebsd_sigar) ub" where
  "freebsd_proc_cred_get sysctl now pid =
     with_pinfo sysctl now pid (\<lambda>pinfo. \<lparr>cr_uid = ki_ruid pinfo, cr_gid = ki_rgid pinfo, cr_euid = ki_svuid pinfo, cr_egid = ki_svgid pinfo\<rparr>)"

definition tv2msec :: "timeval \<Rightarrow> uint64" where
  "tv2msec tv = tv_sec tv * 1000 + tv_usec tv div 1000"

definition freebsd_proc_time_get ::
  "proc_sysctl \<Rightarrow> uint64 \<Rightarrow> pid \<Rightarrow> freebsd_sigar \<Rightarrow> ((status + sigar_proc_time) \<times> freebsd_sigar) ub" where
  "freebsd_proc_time_get sysctl now pid =
     with_pinfo sysctl now pid (\<lambda>pinfo.
       (let user = tv2msec (ki_ru_utime pinfo); sys = tv2msec (ki_ru_stime pinfo) in
        \<lparr>pt_start_time = tv2msec (ki_start pinfo), pt_user = user, pt_sys = sys, pt_total = user + sys\<rparr>))"

text \<open>\<open>filedesc\<close> is the kernel's descriptor table at \<open>ki_fd\<close>, of which only the last open index is read.\<close>

definition freebsd_proc_fd_get ::
  "proc_sysctl \<Rightarrow> uint32 kvm \<Rightarrow> uint64 \<Rightarrow> pid \<Rightarrow> freebsd_sigar \<Rightarrow> ((status + sigar_proc_fd) \<times> freebsd_sigar) ub" where
  "freebsd_proc_fd_get sysctl fd_lastfile now pid sigar =
     (if \<not> fb_kmem sigar then Some (Inl SIGAR_EPERM_KMEM, sigar)
      else
        (case sigar_get_pinfo sysctl now pid sigar of
           (status, s) \<Rightarrow>
             if status \<noteq> SIGAR_OK then Some (Inl status, s)
             else map_option (\<lambda>pinfo.
                    (case freebsd_kread s fd_lastfile (ki_fd pinfo) of
                       Inl st \<Rightarrow> (Inl st, s)
                     | Inr lastfile \<Rightarrow> (Inr \<lparr>pf_total = scast lastfile\<rparr>, s)))
                    (pinfo_of s)))"

definition proc_fd_get_count ::
  "proc_sysctl \<Rightarrow> uint32 kvm \<Rightarrow> uint64 \<Rightarrow> pid \<Rightarrow> freebsd_sigar \<Rightarrow> ((status + uint32) \<times> freebsd_sigar) ub" where
  "proc_fd_get_count sysctl fd_lastfile now pid sigar =
     map_option (\<lambda>(r, s). (case r of Inl _ \<Rightarrow> Inl SIGAR_ENOTIMPL | Inr procfd \<Rightarrow> Inr (ucast (pf_total procfd)), s))
       (freebsd_proc_fd_get sysctl fd_lastfile now pid sigar)"

definition state_char :: "nat \<Rightarrow> char" where
  "state_char state =
     (if state = 1 then CHR ''D'' else if state = 2 then CHR ''R'' else if state = 3 then CHR ''S''
      else if state = 4 then CHR ''T'' else if state = 5 then CHR ''Z'' else CHR ''?'')"

text \<open>\<open>now2\<close> is the clock at the second look at the process, for its descriptors.\<close>

definition freebsd_proc_state_get ::
  "proc_sysctl \<Rightarrow> uint32 kvm \<Rightarrow> uint64 \<Rightarrow> uint64 \<Rightarrow> pid \<Rightarrow> freebsd_sigar \<Rightarrow> ((status + sigar_proc_state) \<times> freebsd_sigar) ub" where
  "freebsd_proc_state_get sysctl fd_lastfile now now2 pid sigar = do {
     (r, s) \<leftarrow> with_pinfo sysctl now pid (\<lambda>pinfo. pinfo) sigar;
     (case r of
        Inl status \<Rightarrow> Some (Inl status, s)
      | Inr pinfo \<Rightarrow> do {
          (n, s1) \<leftarrow> proc_fd_get_count sysctl fd_lastfile now2 pid s;
          Some (Inr \<lparr>ps_name = sstrcpy 128 (ki_comm pinfo), ps_state = state_char (ki_stat pinfo), ps_ppid = ki_ppid pinfo,
                     ps_tty = - 1, ps_priority = ucast (ki_pri_user pinfo), ps_nice = scast (ki_nice pinfo), ps_processor = - 1,
                     ps_threads = SIGAR_FIELD_NOTIMPL,
                     ps_open_files = (case n of Inl _ \<Rightarrow> SIGAR_FIELD_NOTIMPL | Inr num \<Rightarrow> scast num)\<rparr>, s1) })
   }"

section \<open>Arguments, environment, files\<close>

text \<open>The bytes of the arguments in a buffer of 65537. \<open>len\<close> counts down in a \<open>size_t\<close>: when the last argument is
  not terminated it wraps and the loop reads on behind the terminator that was added.\<close>

function freebsd_args_loop :: "string \<Rightarrow> string clist \<Rightarrow> string clist ub" where
  "freebsd_args_loop bytes procargs =
     (if bytes = [] then Some procargs
      else
        (let arg = cstring bytes; alen = length arg + 1 in
         case clist_put sigar_proc_args_grow procargs arg of
           None \<Rightarrow> None
         | Some procargs1 \<Rightarrow>
             if length bytes < alen then None else freebsd_args_loop (drop alen bytes) procargs1))"
  by pat_completeness auto
termination
  by (relation "measure (\<lambda>(bytes, procargs). length bytes)") auto

declare freebsd_args_loop.simps [simp del]

definition freebsd_os_proc_args_get :: "(status + string) \<Rightarrow> string clist \<Rightarrow> (status \<times> string clist) ub" where
  "freebsd_os_proc_args_get sysctl procargs =
     (case sysctl of
        Inl errno \<Rightarrow> Some (errno, procargs)
      | Inr bytes \<Rightarrow>
          if bytes = [] then Some (SIGAR_OK, procargs\<lparr>l_number := 0\<rparr>)
          else if 65537 \<le> length bytes then None
          else map_option (\<lambda>l. (SIGAR_OK, l)) (freebsd_args_loop bytes procargs))"

type_synonym 'd kvm_env_getter = "'d \<Rightarrow> string \<Rightarrow> nat \<Rightarrow> string option \<Rightarrow> nat \<Rightarrow> status \<times> 'd"

text \<open>An entry without equals sign is handed over with no value and ends the loop.\<close>

fun freebsd_env_loop :: "'d kvm_env_getter \<Rightarrow> string list \<Rightarrow> 'd \<Rightarrow> 'd ub" where
  "freebsd_env_loop env_getter [] d = Some d"
| "freebsd_env_loop env_getter (ptr # env) d =
     (case split_at (CHR ''='') ptr of
        (_, None) \<Rightarrow> Some (snd (env_getter d ptr (length ptr) None 0))
      | (key, Some val) \<Rightarrow>
          if 128 \<le> length key then None
          else (case env_getter d key (length key) (Some val) (length val) of
                  (status, d1) \<Rightarrow> if status \<noteq> SIGAR_OK then Some d1 else freebsd_env_loop env_getter env d1))"

definition freebsd_proc_env_get ::
  "(pid \<Rightarrow> status + kinfo_proc list) \<Rightarrow> (kinfo_proc \<Rightarrow> status + string list) \<Rightarrow> status \<Rightarrow> freebsd_sigar \<Rightarrow> pid \<Rightarrow> 'd kvm_env_getter \<Rightarrow> 'd \<Rightarrow>
   (status \<times> 'd) ub" where
  "freebsd_proc_env_get kvm_getprocs kvm_getenvv errno0 sigar pid env_getter d =
     (if \<not> fb_kmem sigar then Some (SIGAR_EPERM_KMEM, d)
      else
        (case kvm_getprocs pid of
           Inl errno \<Rightarrow> Some (errno, d)
         | Inr [] \<Rightarrow> Some (errno0, d)
         | Inr (pinfo # _) \<Rightarrow>
             (case kvm_getenvv pinfo of
                Inl errno \<Rightarrow> Some (errno, d)
              | Inr env \<Rightarrow> map_option (\<lambda>d1. (SIGAR_OK, d1)) (freebsd_env_loop env_getter env d))))"

definition freebsd_proc_exe_get ::
  "(string \<Rightarrow> string option) \<Rightarrow> (string \<Rightarrow> nat list option) \<Rightarrow> string \<Rightarrow> pid \<Rightarrow> (status \<times> sigar_proc_exe) ub" where
  "freebsd_proc_exe_get readlink files arch pid =
     (case sigar_proc_filename None 1024 pid ''/file'' of
        None \<Rightarrow> None
      | Some path \<Rightarrow>
          (let name = (case readlink path of Some target \<Rightarrow> take 4096 target | None \<Rightarrow> []) in
           Some (SIGAR_OK, \<lparr>px_name = name, px_cwd = [], px_root = [], px_arch = sigar_elf_file_guess_arch files arch (Some name)\<rparr>)))"

text \<open>The test after \<open>dlinfo\<close> looks at the address of the variable, so a map that was not delivered goes
  unnoticed.\<close>

definition sigar_dlinfo_get :: "string option \<Rightarrow> (string \<Rightarrow> 'm option option) \<Rightarrow> status + 'm option" where
  "sigar_dlinfo_get dladdr dlopen =
     (case dladdr of
        None \<Rightarrow> Inl ESRCH
      | Some dli_fname \<Rightarrow> (case dlopen dli_fname of None \<Rightarrow> Inl ESRCH | Some link_map \<Rightarrow> Inr link_map))"

text \<open>The link map of the library's own process, in front of and behind the library itself: the walk goes
  back to its start first.\<close>

fun dlinfo_loop :: "'d module_getter \<Rightarrow> string list \<Rightarrow> 'd \<Rightarrow> 'd" where
  "dlinfo_loop module_getter [] d = d"
| "dlinfo_loop module_getter (l_name # rest) d =
     (case module_getter d l_name (int (length l_name)) of
        (status, d1) \<Rightarrow> if status \<noteq> SIGAR_OK then d1 else dlinfo_loop module_getter rest d1)"

definition sigar_dlinfo_modules ::
  "string option \<Rightarrow> (string \<Rightarrow> (string list \<times> string list) option option) \<Rightarrow> 'd module_getter \<Rightarrow> 'd \<Rightarrow> (status \<times> 'd) ub" where
  "sigar_dlinfo_modules dladdr dlopen module_getter d =
     (case sigar_dlinfo_get dladdr dlopen of
        Inl status \<Rightarrow> Some (status, d)
      | Inr None \<Rightarrow> None
      | Inr (Some (before, rest)) \<Rightarrow> Some (SIGAR_OK, dlinfo_loop module_getter (before @ rest) d))"

definition freebsd_proc_modules_get ::
  "pid \<Rightarrow> string option \<Rightarrow> (string \<Rightarrow> (string list \<times> string list) option option) \<Rightarrow> pid \<Rightarrow> 'd module_getter \<Rightarrow> 'd \<Rightarrow> (status \<times> 'd) ub" where
  "freebsd_proc_modules_get getpid dladdr dlopen pid module_getter d =
     (if pid = getpid then sigar_dlinfo_modules dladdr dlopen module_getter d else Some (SIGAR_ENOTIMPL, d))"

definition TIME_NSEC :: "timeval \<Rightarrow> uint64" where
  "TIME_NSEC t = tv_sec t * 1000000000 + tv_usec t * 1000"

definition freebsd_thread_cpu_get :: "timeval \<Rightarrow> timeval \<Rightarrow> status \<times> sigar_thread_cpu" where
  "freebsd_thread_cpu_get ru_utime ru_stime =
     (SIGAR_OK, \<lparr>tc_user = TIME_NSEC ru_utime, tc_sys = TIME_NSEC ru_stime, tc_total = TIME_NSEC ru_utime + TIME_NSEC ru_stime\<rparr>)"

section \<open>What the getters report\<close>

lemma kinfo_list_loop_fill:
  "kinfo_list_loop ps l = clist_fill sigar_proc_list_grow l (map ki_pid (filter (\<lambda>p. ki_flag p AND P_SYSTEM = 0 \<and> ki_pid p \<noteq> 0) ps))"
  by (induction ps arbitrary: l) (auto split: option.split)

text \<open>The list is exactly the processes that are not the kernel's own, in the kernel's order.\<close>

lemma freebsd_proc_list_exact:
  assumes "clist_wf l"
  shows "\<exists>l'. freebsd_os_proc_list_get (Inr ps) l = Some (SIGAR_OK, l') \<and> clist_wf l'
    \<and> clist_elems l' = clist_elems l @ map ki_pid (filter (\<lambda>p. ki_flag p AND P_SYSTEM = 0 \<and> ki_pid p \<noteq> 0) ps)"
  using proc_list.fill_ok [OF assms, of "map ki_pid (filter (\<lambda>p. ki_flag p AND P_SYSTEM = 0 \<and> ki_pid p \<noteq> 0) ps)"]
  by (auto simp: freebsd_os_proc_list_get_def kinfo_list_loop_fill)

text \<open>C37: FreeBSD credentials of the wrong process. When a process was described and then the description
  of another one fails, every call for the failed process in the next two seconds succeeds and
  reports the credentials of the first.\<close>

theorem freebsd_cred_of_wrong_process:
  assumes "sysctl p = Inr info" and "sysctl q = Inl errno" and "errno \<noteq> SIGAR_OK" and "p \<noteq> q" and "fb_last_pid sigar \<notin> {p, q}"
    and "sint (t3 - t2) < 2"
  shows "\<exists>s1 s2 s3. freebsd_proc_cred_get sysctl t1 p sigar =
        Some (Inr \<lparr>cr_uid = ki_ruid info, cr_gid = ki_rgid info, cr_euid = ki_svuid info, cr_egid = ki_svgid info\<rparr>, s1)
    \<and> freebsd_proc_cred_get sysctl t2 q s1 = Some (Inl errno, s2)
    \<and> freebsd_proc_cred_get sysctl t3 q s2 =
        Some (Inr \<lparr>cr_uid = ki_ruid info, cr_gid = ki_rgid info, cr_euid = ki_svuid info, cr_egid = ki_svgid info\<rparr>, s3)"
  using assms by (simp add: freebsd_proc_cred_get_def with_pinfo_def sigar_get_pinfo_def pinfo_of_def Let_def)

definition example_kinfo :: "pid \<Rightarrow> uint32 \<Rightarrow> kinfo_proc" where
  "example_kinfo p uid = \<lparr>ki_pid = p, ki_ppid = 1, ki_pri_user = 0, ki_nice = 0, ki_comm = ''sh'', ki_stat = 3, ki_ruid = uid,
     ki_rgid = uid, ki_svuid = uid, ki_svgid = uid, ki_rssize = 1, ki_tsize = 1, ki_dsize = 1, ki_ssize = 1, ki_flag = 0, ki_fd = 0,
     ki_start = \<lparr>tv_sec = 5, tv_usec = 0\<rparr>, ki_ru_utime = \<lparr>tv_sec = 1, tv_usec = 500000\<rparr>, ki_ru_stime = \<lparr>tv_sec = 0, tv_usec = 999\<rparr>\<rparr>"

theorem freebsd_cred_of_wrong_process_witness:
  "\<exists>s1 s2 s3 c. freebsd_proc_cred_get (\<lambda>p. if p = 10 then Inr (example_kinfo 10 1001) else Inl 3) 100 10 example_freebsd = Some (Inr c, s1)
    \<and> freebsd_proc_cred_get (\<lambda>p. if p = 10 then Inr (example_kinfo 10 1001) else Inl 3) 100 11 s1 = Some (Inl 3, s2)
    \<and> freebsd_proc_cred_get (\<lambda>p. if p = 10 then Inr (example_kinfo 10 1001) else Inl 3) 101 11 s2 = Some (Inr c, s3) \<and> cr_uid c = 1001"
  using freebsd_cred_of_wrong_process [of "\<lambda>p. if p = 10 then Inr (example_kinfo 10 1001) else Inl 3" "10" "example_kinfo 10 1001" "11" "3"
      example_freebsd "101" "100" "100"]
  by (fastforce simp: example_freebsd_def example_kinfo_def)

text \<open>The arguments are defined exactly for a terminated text.\<close>

fun nul_split :: "string list \<Rightarrow> string" where
  "nul_split [] = []"
| "nul_split (a # as) = a @ CHR 0x00 # nul_split as"

lemma cstring_append_nul: "CHR 0x00 \<notin> set a \<Longrightarrow> cstring (a @ CHR 0x00 # b) = a"
  unfolding cstring_def by (subst takeWhile_append2) (blast, simp)

lemma cstring_no_nul: "CHR 0x00 \<notin> set a \<Longrightarrow> cstring a = a"
  unfolding cstring_def takeWhile_eq_all_conv by blast

lemma args_loop_split:
  assumes "\<forall>a \<in> set as. CHR 0x00 \<notin> set a" and "clist_wf l"
  shows "freebsd_args_loop (nul_split as) l = clist_fill sigar_proc_args_grow l as"
  using assms
proof (induction as arbitrary: l)
  case Nil
  then show ?case by (simp add: freebsd_args_loop.simps)
next
  case (Cons a as)
  from proc_args.put_ok [OF Cons.prems(2), of a] obtain l1 where
    l1: "clist_put sigar_proc_args_grow l a = Some l1" "clist_wf l1" by blast
  have c: "cstring (nul_split (a # as)) = a" using Cons.prems(1) cstring_append_nul by simp
  have "freebsd_args_loop (nul_split (a # as)) l = freebsd_args_loop (drop (length a + 1) (nul_split (a # as))) l1"
    using l1(1) c by (subst freebsd_args_loop.simps) (simp add: Let_def)
  also have "\<dots> = clist_fill sigar_proc_args_grow l1 as" using Cons.IH [OF _ l1(2)] Cons.prems(1) by simp
  finally show ?case using l1(1) by simp
qed

lemma args_loop_open:
  assumes "\<forall>a \<in> set as. CHR 0x00 \<notin> set a" and "CHR 0x00 \<notin> set rest" and "rest \<noteq> []" and "clist_wf l"
  shows "freebsd_args_loop (nul_split as @ rest) l = None"
  using assms(1,4)
proof (induction as arbitrary: l)
  case Nil
  from proc_args.put_ok [OF Nil.prems(2), of rest] obtain l1 where "clist_put sigar_proc_args_grow l rest = Some l1" by blast
  then show ?case using assms(2,3) by (subst freebsd_args_loop.simps) (simp add: Let_def cstring_no_nul)
next
  case (Cons a as)
  from proc_args.put_ok [OF Cons.prems(2), of a] obtain l1 where
    l1: "clist_put sigar_proc_args_grow l a = Some l1" "clist_wf l1" by blast
  have c: "cstring (nul_split (a # as) @ rest) = a" using Cons.prems(1) cstring_append_nul by simp
  have "freebsd_args_loop (nul_split (a # as) @ rest) l = freebsd_args_loop (drop (length a + 1) (nul_split (a # as) @ rest)) l1"
    using l1(1) c by (subst freebsd_args_loop.simps) (simp add: Let_def)
  also have "\<dots> = None" using Cons.IH [OF _ l1(2)] Cons.prems(1) by simp
  finally show ?case .
qed

text \<open>C35: the FreeBSD argument list. For the bytes of a sequence of arguments, each ended by a NUL, and a
  rest without NUL, at most 65536 in all and at least one, the call is defined exactly if the
  rest is empty, and then delivers the arguments in order.\<close>

theorem freebsd_args_defined_iff:
  assumes "\<forall>a \<in> set as. CHR 0x00 \<notin> set a" and "CHR 0x00 \<notin> set rest" and "clist_wf l"
    and "nul_split as @ rest \<noteq> []" and "length (nul_split as @ rest) \<le> 65536"
  shows "if rest = []
    then \<exists>l'. freebsd_os_proc_args_get (Inr (nul_split as @ rest)) l = Some (SIGAR_OK, l') \<and> clist_wf l' \<and> clist_elems l' = clist_elems l @ as
    else freebsd_os_proc_args_get (Inr (nul_split as @ rest)) l = None"
proof (cases "rest = []")
  case True
  from proc_args.fill_ok [OF assms(3), of as] obtain l' where
    "clist_fill sigar_proc_args_grow l as = Some l'" "clist_wf l'" "clist_elems l' = clist_elems l @ as" by blast
  with True assms args_loop_split [OF assms(1,3)] show ?thesis by (auto simp: freebsd_os_proc_args_get_def)
next
  case False
  with assms args_loop_open [OF assms(1,2) False assms(3)] show ?thesis by (simp add: freebsd_os_proc_args_get_def)
qed

theorem freebsd_args_defined_iff_witness:
  "(\<exists>l'. freebsd_os_proc_args_get (Inr (''ls'' @ [CHR 0x00] @ ''-l'' @ [CHR 0x00])) sigar_proc_args_create = Some (SIGAR_OK, l')
      \<and> clist_elems l' = [''ls'', ''-l''])
   \<and> freebsd_os_proc_args_get (Inr (''ls'' @ [CHR 0x00] @ ''-l'')) (sigar_proc_args_create :: string clist) = None"
  using freebsd_args_defined_iff [of "[''ls'', ''-l'']" "[]" sigar_proc_args_create]
    freebsd_args_defined_iff [of "[''ls'']" "''-l''" sigar_proc_args_create] proc_args.create_wf proc_args.create_elems
  by auto

end
