(* ===== verification/Freebsd_Net.thy ===== *)
theory Freebsd_Net
  imports Freebsd_Proc
begin

text \<open>
  Connections, TCP and NFS counters, the owner of a port, and file systems in
  \<open>src/os/freebsd/freebsd_sigar.c\<close>. The kernel's list of protocol control blocks arrives as a sequence of
  records; the owner of a port is found by following kernel pointers, each read through \<open>kvm_read\<close>.
\<close>

section \<open>Connections\<close>

abbreviation (input) IPPROTO_TCP :: nat where "IPPROTO_TCP \<equiv> 6"
abbreviation (input) IPPROTO_UDP :: nat where "IPPROTO_UDP \<equiv> 17"

definition net_connection_state_get :: "nat \<Rightarrow> int" where
  "net_connection_state_get state =
     (if state = 0 then 7 else if state = 1 then SIGAR_TCP_LISTEN else if state = 2 then 2 else if state = 3 then 3
      else if state = 4 then SIGAR_TCP_ESTABLISHED else if state = 5 then SIGAR_TCP_CLOSE_WAIT else if state = 6 then 4
      else if state = 7 then 11 else if state = 8 then 9 else if state = 9 then 5 else if state = 10 then 6 else SIGAR_TCP_UNKNOWN)"

text \<open>A record of the list: \<open>xtcpcb\<close> or \<open>xinpcb\<close> with the socket behind it. Ports are in network byte order.\<close>

record xpcb =
  xp_len :: nat
  xp_protocol :: nat
  xp_gencnt :: uint64
  xp_qlimit :: uint16
  xp_vflag :: "8 word"
  xp_laddr :: uint32
  xp_faddr :: uint32
  xp_laddr6 :: "nat list"
  xp_faddr6 :: "nat list"
  xp_lport :: uint16
  xp_fport :: uint16
  xp_rcv_cc :: uint32
  xp_snd_cc :: uint32
  xp_pgid :: uint32
  xp_t_state :: nat

definition ntohs :: "uint16 \<Rightarrow> uint16" where
  "ntohs x = push_bit 8 x OR drop_bit 8 x"

definition sigar_net_address6_set :: "sigar_net_address \<Rightarrow> nat list \<Rightarrow> sigar_net_address" where
  "sigar_net_address6_set a val = a\<lparr>na_addr := val, na_family := SIGAR_AF_INET6\<rparr>"

definition pcb_wanted :: "nat \<Rightarrow> xpcb \<Rightarrow> bool" where
  "pcb_wanted flags so \<longleftrightarrow>
     flags AND SIGAR_NETCONN_SERVER \<noteq> 0 \<and> xp_qlimit so \<noteq> 0 \<or> flags AND SIGAR_NETCONN_CLIENT \<noteq> 0 \<and> xp_qlimit so = 0"

definition pcb_conn :: "nat \<Rightarrow> xpcb \<Rightarrow> sigar_net_connection" where
  "pcb_conn type inp =
     zero_conn\<lparr>
       nc_local_address := (if xp_vflag inp AND 2 \<noteq> 0 then sigar_net_address6_set null_address (xp_laddr6 inp)
                            else sigar_net_address_set null_address (xp_laddr inp)),
       nc_remote_address := (if xp_vflag inp AND 2 \<noteq> 0 then sigar_net_address6_set null_address (xp_faddr6 inp)
                             else sigar_net_address_set null_address (xp_faddr inp)),
       nc_local_port := ucast (ntohs (xp_lport inp)), nc_remote_port := ucast (ntohs (xp_fport inp)),
       nc_receive_queue := ucast (xp_rcv_cc inp), nc_send_queue := ucast (xp_snd_cc inp), nc_uid := xp_pgid inp, nc_type := type,
       nc_state := (if type = SIGAR_NETCONN_TCP then net_connection_state_get (xp_t_state inp) else SIGAR_TCP_UNKNOWN)\<rparr>"

text \<open>\<open>sizeof_xinpgen\<close> is the size of the record that ends the list; without it the loop leaves the buffer.
  Blocks that changed since the list was started are passed over.\<close>

fun pcb_loop ::
  "nat \<Rightarrow> uint64 \<Rightarrow> 'd conn_walker \<Rightarrow> nat \<Rightarrow> nat \<Rightarrow> nat \<Rightarrow> xpcb list \<Rightarrow> 'd \<Rightarrow> 'd ub" where
  "pcb_loop sizeof_xinpgen gen add_connection flags proto type [] d = None"
| "pcb_loop sizeof_xinpgen gen add_connection flags proto type (xig # rest) d =
     (if xp_len xig \<le> sizeof_xinpgen then Some d
      else if xp_protocol xig \<noteq> proto \<or> gen < xp_gencnt xig \<or> \<not> pcb_wanted flags xig
      then pcb_loop sizeof_xinpgen gen add_connection flags proto type rest d
      else (case add_connection d (pcb_conn type xig) of
              None \<Rightarrow> None
            | Some (status, d1) \<Rightarrow>
                if status \<noteq> SIGAR_OK then Some d1
                else pcb_loop sizeof_xinpgen gen add_connection flags proto type rest d1))"

record freebsd_net_env =
  pe_sizeof_xinpgen :: nat
  pe_pcblist :: "string \<Rightarrow> status + (uint64 \<times> xpcb list)"

definition freebsd_net_connection_get ::
  "freebsd_net_env \<Rightarrow> 'd conn_walker \<Rightarrow> nat \<Rightarrow> nat \<Rightarrow> 'd \<Rightarrow> (status \<times> 'd) ub" where
  "freebsd_net_connection_get env add_connection flags proto d =
     (let (mibvar, type) =
        (if proto = IPPROTO_TCP then (''net.inet.tcp.pcblist'', SIGAR_NETCONN_TCP)
         else if proto = IPPROTO_UDP then (''net.inet.udp.pcblist'', SIGAR_NETCONN_UDP)
         else (''net.inet.raw.pcblist'', SIGAR_NETCONN_RAW))
      in case pe_pcblist env mibvar of
           Inl errno \<Rightarrow> Some (errno, d)
         | Inr (gen, pcbs) \<Rightarrow> map_option (Pair SIGAR_OK) (pcb_loop (pe_sizeof_xinpgen env) gen add_connection flags proto type pcbs d))"

definition freebsd_net_connection_walk :: "freebsd_net_env \<Rightarrow> 'd conn_walker \<Rightarrow> nat \<Rightarrow> 'd \<Rightarrow> (status \<times> 'd) ub" where
  "freebsd_net_connection_walk env add_connection flags d = do {
     (status, d1) \<leftarrow> (if flags AND SIGAR_NETCONN_TCP \<noteq> 0 then freebsd_net_connection_get env add_connection flags IPPROTO_TCP d
                      else Some (SIGAR_OK, d));
     if status \<noteq> SIGAR_OK then Some (status, d1)
     else if flags AND SIGAR_NETCONN_UDP \<noteq> 0 then freebsd_net_connection_get env add_connection flags IPPROTO_UDP d1
     else Some (SIGAR_OK, d1)
   }"

definition freebsd_net_listeners_get ::
  "freebsd_net_env \<Rightarrow> (uint64 \<Rightarrow> (status \<times> pid) ub) \<Rightarrow> sigar_net_connection clist conn_walker \<Rightarrow> nat \<Rightarrow> sigar_net_connection clist \<Rightarrow>
   (status \<times> sigar_net_connection clist) ub" where
  "freebsd_net_listeners_get env proc_port_get add_connection flags connlist = do {
     (status, l) \<leftarrow> freebsd_net_connection_walk env add_connection flags connlist;
     if status \<noteq> SIGAR_OK then Some (status, l)
     else do {
       conns \<leftarrow> those (map (\<lambda>c. do { conn \<leftarrow> c; (st, pid) \<leftarrow> proc_port_get (nc_local_port conn);
                                     Some (if st = SIGAR_OK then conn\<lparr>nc_pid := pid\<rparr> else conn) })
                        (take (l_number l) (l_data l)));
       Some (SIGAR_OK, l\<lparr>l_data := map Some conns @ drop (l_number l) (l_data l)\<rparr>)
     }
   }"

section \<open>TCP and NFS counters\<close>

record tcpstat =
  tcps_connattempt :: uint64
  tcps_accepts :: uint64
  tcps_conndrops :: uint64
  tcps_drops :: uint64
  tcps_rcvtotal :: uint64
  tcps_sndtotal :: uint64
  tcps_sndrexmitpack :: uint64
  tcps_rcvbadsum :: uint64
  tcps_rcvbadoff :: uint64
  tcps_rcvmemdrop :: uint64
  tcps_rcvshort :: uint64

definition freebsd_tcp_get ::
  "(status + tcpstat) \<Rightarrow> (nat \<Rightarrow> status \<times> sigar_net_connection list) \<Rightarrow> sigar_tcp \<Rightarrow> status \<times> sigar_tcp" where
  "freebsd_tcp_get sysctl walk tcp =
     (case sysctl of
        Inl errno \<Rightarrow> (errno, tcp)
      | Inr mib \<Rightarrow>
          (SIGAR_OK, \<lparr>tcp_active_opens = tcps_connattempt mib, tcp_passive_opens = tcps_accepts mib, tcp_attempt_fails = tcps_conndrops mib,
             tcp_estab_resets = tcps_drops mib,
             tcp_curr_estab = (case sigar_tcp_curr_estab walk of (st, n) \<Rightarrow> if st \<noteq> SIGAR_OK then - 1 else n),
             tcp_in_segs = tcps_rcvtotal mib, tcp_out_segs = tcps_sndtotal mib - tcps_sndrexmitpack mib,
             tcp_retrans_segs = tcps_sndrexmitpack mib,
             tcp_in_errs = tcps_rcvbadsum mib + tcps_rcvbadoff mib + tcps_rcvmemdrop mib + tcps_rcvshort mib, tcp_out_rsts = - 1\<rparr>))"

text \<open>The counters are \<open>int\<close>s, indexed by procedure number.\<close>

definition map_nfs_stats :: "uint32 list \<Rightarrow> sigar_nfs_v3 ub" where
  "map_nfs_stats rpc =
     (if length rpc < 22 then None
      else (let c = (\<lambda>i. scast (rpc ! i)) in
        Some \<lparr>nfs3_null = c 0, nfs3_getattr = c 1, nfs3_setattr = c 2, nfs3_lookup = c 3, nfs3_access = c 4, nfs3_readlink = c 5,
          nfs3_read = c 6, nfs3_write = c 7, nfs3_create = c 8, nfs3_mkdir = c 9, nfs3_symlink = c 10, nfs3_mknod = c 11, nfs3_remove = c 12,
          nfs3_rmdir = c 13, nfs3_rename = c 14, nfs3_link = c 15, nfs3_readdir = c 16, nfs3_readdirplus = c 17, nfs3_fsstat = c 18,
          nfs3_fsinfo = c 19, nfs3_pathconf = c 20, nfs3_commit = c 21\<rparr>))"

definition freebsd_nfs_client_v2_get :: status where
  "freebsd_nfs_client_v2_get = SIGAR_ENOTIMPL"

definition freebsd_nfs_server_v2_get :: status where
  "freebsd_nfs_server_v2_get = SIGAR_ENOTIMPL"

definition nfs_stats_get :: "(string \<Rightarrow> status + uint32 list) \<Rightarrow> string \<Rightarrow> (status + sigar_nfs_v3) ub" where
  "nfs_stats_get sysctlbyname name =
     (case sysctlbyname name of Inl errno \<Rightarrow> Some (Inl errno) | Inr rpccnt \<Rightarrow> map_option Inr (map_nfs_stats rpccnt))"

definition freebsd_nfs_client_v3_get :: "(string \<Rightarrow> status + uint32 list) \<Rightarrow> (status + sigar_nfs_v3) ub" where
  "freebsd_nfs_client_v3_get sysctlbyname = nfs_stats_get sysctlbyname ''vfs.nfs.nfsstats''"

definition freebsd_nfs_server_v3_get :: "(string \<Rightarrow> status + uint32 list) \<Rightarrow> (status + sigar_nfs_v3) ub" where
  "freebsd_nfs_server_v3_get sysctlbyname = nfs_stats_get sysctlbyname ''vfs.nfsrv.nfsrvstats''"

section \<open>The owner of a port\<close>

text \<open>What is read of a control block, of a descriptor table and of an open file.\<close>

record inpcb =
  inp_next :: uint64
  inp_vflag :: "8 word"
  inp_fport :: uint16
  inp_lport :: uint16
  inp_socket :: uint64

record filedesc =
  fd_nfiles :: nat
  fd_ofiles :: uint64

record kfile =
  f_count :: uint32
  f_type :: nat
  f_data :: uint64

record port_env =
  po_nlist :: "status + uint64"
  po_tcb :: "uint64 kvm"
  po_inpcb :: "inpcb kvm"
  po_procs :: "status + kinfo_proc list"
  po_filedesc :: "filedesc kvm"
  po_ofiles :: "nat \<Rightarrow> uint64 list kvm"
  po_file :: "kfile kvm"

text \<open>The list of control blocks: the first IPv4 listener of the port, or the error of a read. A circular
  list is followed for ever.\<close>

partial_function (option) tcb_loop :: "(uint64 \<Rightarrow> status + inpcb) \<Rightarrow> uint64 \<Rightarrow> uint64 \<Rightarrow> (status + uint64) option" where
  "tcb_loop read port head =
     (if head = 0 then Some (Inr 0)
      else (case read head of
              Inl status \<Rightarrow> Some (Inl status)
            | Inr pcb \<Rightarrow>
                if inp_vflag pcb AND 1 \<noteq> 0 \<and> inp_fport pcb = 0 \<and> ucast (ntohs (inp_lport pcb)) = port
                then Some (Inr (inp_socket pcb)) else tcb_loop read port (inp_next pcb)))"

text \<open>The open files of a process: an error, whether the socket is among them.\<close>

fun ofiles_loop :: "(uint64 \<Rightarrow> status + kfile) \<Rightarrow> uint64 \<Rightarrow> uint64 list \<Rightarrow> status + bool" where
  "ofiles_loop read sockp [] = Inr False"
| "ofiles_loop read sockp (f # fs) =
     (if f = 0 then ofiles_loop read sockp fs
      else (case read f of
              Inl status \<Rightarrow> Inl status
            | Inr ofile \<Rightarrow>
                if f_count ofile \<noteq> 0 \<and> f_type ofile = 2 \<and> f_data ofile = sockp then Inr True else ofiles_loop read sockp fs))"

definition holds_socket :: "freebsd_sigar \<Rightarrow> port_env \<Rightarrow> uint64 \<Rightarrow> kinfo_proc \<Rightarrow> status + bool" where
  "holds_socket sigar env sockp p =
     (if ki_flag p AND P_SYSTEM \<noteq> 0 \<or> ki_fd p = 0 then Inr False
      else
        (case freebsd_kread sigar (po_filedesc env) (ki_fd p) of
           Inl status \<Rightarrow> Inl status
         | Inr pfd \<Rightarrow>
             (case freebsd_kread sigar (po_ofiles env (fd_nfiles pfd)) (fd_ofiles pfd) of
                Inl status \<Rightarrow> Inl status
              | Inr ofiles \<Rightarrow> ofiles_loop (freebsd_kread sigar (po_file env)) sockp ofiles)))"

fun port_procs_loop :: "(kinfo_proc \<Rightarrow> status + bool) \<Rightarrow> kinfo_proc list \<Rightarrow> status + pid" where
  "port_procs_loop holds [] = Inl ENOENT"
| "port_procs_loop holds (p # ps) =
     (case holds p of
        Inl status \<Rightarrow> Inl status
      | Inr found \<Rightarrow> if found then Inr (ki_pid p) else port_procs_loop holds ps)"

definition freebsd_proc_port_get :: "freebsd_sigar \<Rightarrow> port_env \<Rightarrow> nat \<Rightarrow> uint64 \<Rightarrow> (status + pid) option" where
  "freebsd_proc_port_get sigar env protocol port =
     (if protocol \<noteq> SIGAR_NETCONN_TCP then Some (Inl SIGAR_ENOTIMPL)
      else if \<not> fb_kmem sigar then Some (Inl SIGAR_EPERM_KMEM)
      else
        (case po_nlist env of
           Inl errno \<Rightarrow> Some (Inl errno)
         | Inr n_value \<Rightarrow>
             (case freebsd_kread sigar (po_tcb env) n_value of
                Inl status \<Rightarrow> Some (Inl status)
              | Inr lh_first \<Rightarrow>
                  map_option (\<lambda>r.
                    (case r of
                       Inl status \<Rightarrow> Inl status
                     | Inr sockp \<Rightarrow>
                         if sockp = 0 then Inl ENOENT
                         else (case po_procs env of
                                 Inl errno \<Rightarrow> Inl errno
                               | Inr pinfo \<Rightarrow> port_procs_loop (holds_socket sigar env sockp) pinfo)))
                    (tcb_loop (freebsd_kread sigar (po_inpcb env)) port lh_first))))"

section \<open>File systems\<close>

definition freebsd_os_fs_type_get :: "sigar_file_system \<Rightarrow> sigar_file_system" where
  "freebsd_os_fs_type_get fsp =
     (let type = fsy_sys_type_name fsp in
      if strEQ type ''ffs'' \<or> strEQ type ''hfs'' \<or> strEQ type ''ufs'' then fsp\<lparr>fsy_type := SIGAR_FSTYPE_LOCAL_DISK\<rparr> else fsp)"

text \<open>\<open>sigar_fs_type_get\<close> of \<open>src/sigar.c\<close> over the function of a platform.\<close>

definition fs_type_with :: "(sigar_file_system \<Rightarrow> sigar_file_system) \<Rightarrow> sigar_file_system \<Rightarrow> sigar_file_system ub" where
  "fs_type_with os_fs_type_get fsp =
     (let fsp1 =
        (if fsy_type fsp \<noteq> 0 then fsp
         else let o1 = os_fs_type_get fsp in
              if fsy_type o1 \<noteq> 0 then o1
              else let c1 = sigar_common_fs_type_get o1 in
                   if fsy_type c1 \<noteq> 0 then c1 else c1\<lparr>fsy_type := SIGAR_FSTYPE_NONE\<rparr>);
          fsp2 = (if SIGAR_FSTYPE_MAX \<le> fsy_type fsp1 then fsp1\<lparr>fsy_type := SIGAR_FSTYPE_NONE\<rparr> else fsp1)
      in map_option (\<lambda>name. fsp2\<lparr>fsy_type_name := name\<rparr>) (cell fstype_names (fsy_type fsp2)))"

lemma fs_type_with_linux: "sigar_fs_type_get = fs_type_with sigar_os_fs_type_get"
  by (simp add: fun_eq_iff sigar_fs_type_get_def fs_type_with_def)

text \<open>The options in the order of the code, with the names of the flags that ask for them; \<open>mnt\<close> gives the
  value of a flag and is zero for one the system does not have.\<close>

definition mount_options :: "(string \<times> string) list" where
  "mount_options = [(''MNT_SYNCHRONOUS'', '',sync''), (''MNT_NOEXEC'', '',noexec''), (''MNT_NOSUID'', '',nosuid''), (''MNT_NODEV'', '',nodev''),
     (''MNT_UNION'', '',union''), (''MNT_ASYNC'', '',async''), (''MNT_NOATIME'', '',noatime''), (''MNT_NOCLUSTERR'', '',noclusterr''),
     (''MNT_NOCLUSTERW'', '',noclusterw''), (''MNT_NOSYMFOLLOW'', '',nosymfollow''), (''MNT_SUIDDIR'', '',suiddir''),
     (''MNT_SOFTDEP'', '',soft-updates''), (''MNT_LOCAL'', '',local''), (''MNT_QUOTA'', '',quota''), (''MNT_ROOTFS'', '',rootfs''),
     (''MNT_USER'', '',user''), (''MNT_IGNORE'', '',ignore''), (''MNT_EXPORTED'', '',nfs'')]"

definition strncat :: "nat \<Rightarrow> string \<Rightarrow> string \<Rightarrow> string" where
  "strncat n opts s = opts @ take n s"

definition get_fs_options :: "(string \<Rightarrow> uint64) \<Rightarrow> nat \<Rightarrow> uint64 \<Rightarrow> string" where
  "get_fs_options mnt osize flags =
     foldl (\<lambda>opts (name, s). if flags AND mnt name \<noteq> 0 then strncat osize opts s else opts)
       (strncat osize [] (if flags AND mnt ''MNT_RDONLY'' \<noteq> 0 then ''ro'' else ''rw'')) mount_options"

record statfs =
  sf_mntonname :: string
  sf_mntfromname :: string
  sf_fstypename :: string
  sf_flags :: uint64
  sf_syncreads :: uint64
  sf_asyncreads :: uint64
  sf_syncwrites :: uint64
  sf_asyncwrites :: uint64

definition statfs_entry :: "(string \<Rightarrow> uint64) \<Rightarrow> statfs \<Rightarrow> sigar_file_system ub" where
  "statfs_entry mnt fs =
     fs_type_with freebsd_os_fs_type_get
       \<lparr>fsy_dir_name = sstrcpy 4096 (sf_mntonname fs), fsy_dev_name = sstrcpy 4096 (sf_mntfromname fs), fsy_type_name = [],
        fsy_sys_type_name = sstrcpy 256 (sf_fstypename fs), fsy_options = get_fs_options mnt 255 (sf_flags fs),
        fsy_type = SIGAR_FSTYPE_UNKNOWN\<rparr>"

fun statfs_loop :: "(string \<Rightarrow> uint64) \<Rightarrow> statfs list \<Rightarrow> sigar_file_system clist \<Rightarrow> sigar_file_system clist ub" where
  "statfs_loop mnt [] fslist = Some fslist"
| "statfs_loop mnt (fs # rest) fslist =
     (if sf_flags fs AND mnt ''MNT_AUTOMOUNTED'' \<noteq> 0 then statfs_loop mnt rest fslist
      else if sf_flags fs AND mnt ''MNT_RDONLY'' \<noteq> 0 then statfs_loop mnt rest fslist
      else do { fsp \<leftarrow> statfs_entry mnt fs;
                fslist1 \<leftarrow> clist_put sigar_file_system_list_grow fslist fsp;
                statfs_loop mnt rest fslist1 })"

definition freebsd_file_system_list_get ::
  "(string \<Rightarrow> uint64) \<Rightarrow> (status + statfs list) \<Rightarrow> (status \<times> sigar_file_system clist option) ub" where
  "freebsd_file_system_list_get mnt getfsstat =
     (case getfsstat of
        Inl errno \<Rightarrow> Some (errno, None)
      | Inr fs \<Rightarrow> map_option (\<lambda>l. (SIGAR_OK, Some l)) (statfs_loop mnt fs sigar_file_system_list_create))"

text \<open>\<open>init\<close> is what \<open>SIGAR_DISK_STATS_INIT\<close> leaves.\<close>

definition freebsd_disk_usage_get :: "sigar_disk_usage \<Rightarrow> (string \<Rightarrow> status + statfs) \<Rightarrow> string \<Rightarrow> sigar_disk_usage \<Rightarrow> status \<times> sigar_disk_usage" where
  "freebsd_disk_usage_get init statfs name disk =
     (case statfs name of
        Inl errno \<Rightarrow> (errno, disk)
      | Inr buf \<Rightarrow> (SIGAR_OK, init\<lparr>du_reads := sf_syncreads buf + sf_asyncreads buf, du_writes := sf_syncwrites buf + sf_asyncwrites buf\<rparr>))"

definition freebsd_file_system_usage_get ::
  "rounding \<Rightarrow> sigar_disk_usage \<Rightarrow> (string \<Rightarrow> status + statvfs) \<Rightarrow> (string \<Rightarrow> status + statfs) \<Rightarrow> string \<Rightarrow> sigar_file_system_usage \<Rightarrow>
   status \<times> sigar_file_system_usage" where
  "freebsd_file_system_usage_get rnd init statvfs statfs dirname fsusage =
     (case sigar_statvfs statvfs dirname fsusage of
        (status, fsusage1) \<Rightarrow>
          if status \<noteq> SIGAR_OK then (status, fsusage1)
          else
            (let fsusage2 = fsusage1\<lparr>fs_use_percent := sigar_file_system_usage_calc_used rnd fsusage1\<rparr>
             in (SIGAR_OK, fsusage2\<lparr>fs_disk := snd (freebsd_disk_usage_get init statfs dirname (fs_disk fsusage2))\<rparr>)))"

section \<open>Properties\<close>

subsection \<open>Connections\<close>

text \<open>What the loop delivers: the blocks before the record that ends the list which are of the protocol, have
  not changed since and are wanted.\<close>

definition pcb_conns :: "nat \<Rightarrow> uint64 \<Rightarrow> nat \<Rightarrow> nat \<Rightarrow> nat \<Rightarrow> xpcb list \<Rightarrow> sigar_net_connection list" where
  "pcb_conns sizeof_xinpgen gen flags proto type pcbs =
     map (pcb_conn type) (filter (\<lambda>p. xp_protocol p = proto \<and> xp_gencnt p \<le> gen \<and> pcb_wanted flags p)
       (takeWhile (\<lambda>p. sizeof_xinpgen < xp_len p) pcbs))"

definition pcb_ended :: "nat \<Rightarrow> xpcb list \<Rightarrow> bool" where
  "pcb_ended sizeof_xinpgen pcbs \<longleftrightarrow> (\<exists>p\<in>set pcbs. xp_len p \<le> sizeof_xinpgen)"

lemma pcb_loop_walk:
  "pcb_ended sz pcbs \<Longrightarrow> pcb_loop sz gen add flags proto type pcbs d = walk_until add (pcb_conns sz gen flags proto type pcbs) d"
proof (induction pcbs arbitrary: d)
  case (Cons p pcbs)
  then show ?case
    by (auto simp: pcb_ended_def pcb_conns_def not_le split: option.split)
qed (simp add: pcb_ended_def)

lemma pcb_loop_unended: "\<not> pcb_ended sz pcbs \<Longrightarrow> pcb_loop sz gen (\<lambda>d c. Some (SIGAR_OK, f d c)) flags proto type pcbs d = None"
  by (induction pcbs arbitrary: d) (auto simp: pcb_ended_def)

lemma connection_get_walk:
  assumes "proto = IPPROTO_TCP \<and> name = ''net.inet.tcp.pcblist'' \<and> type = SIGAR_NETCONN_TCP \<or>
      proto = IPPROTO_UDP \<and> name = ''net.inet.udp.pcblist'' \<and> type = SIGAR_NETCONN_UDP"
    and "pe_pcblist env name = Inr (gen, pcbs)" and "pcb_ended (pe_sizeof_xinpgen env) pcbs"
  shows "freebsd_net_connection_get env add flags proto d
    = map_option (Pair SIGAR_OK) (walk_until add (pcb_conns (pe_sizeof_xinpgen env) gen flags proto type pcbs) d)"
  using assms by (auto simp: freebsd_net_connection_get_def pcb_loop_walk)


definition example_pcb :: xpcb where
  "example_pcb = \<lparr>xp_len = 300, xp_protocol = 6, xp_gencnt = 3, xp_qlimit = 0, xp_vflag = 1, xp_laddr = 0x0100007F, xp_faddr = 0,
     xp_laddr6 = [], xp_faddr6 = [], xp_lport = 0x5000, xp_fport = 0x1600, xp_rcv_cc = 1, xp_snd_cc = 2, xp_pgid = 7, xp_t_state = 4\<rparr>"

definition example_pcbs :: freebsd_net_env where
  "example_pcbs = \<lparr>pe_sizeof_xinpgen = 32, pe_pcblist = (\<lambda>name. Inr (5,
     if name = ''net.inet.tcp.pcblist'' then [example_pcb, example_pcb\<lparr>xp_gencnt := 9\<rparr>, example_pcb\<lparr>xp_qlimit := 4\<rparr>, example_pcb\<lparr>xp_len := 32\<rparr>]
     else [example_pcb\<lparr>xp_len := 32\<rparr>]))\<rparr>"


subsection \<open>The owner of a port\<close>

text \<open>The kernel's list as a path of readable blocks that ends in a null pointer.\<close>

fun tcb_path :: "(uint64 \<Rightarrow> status + inpcb) \<Rightarrow> uint64 \<Rightarrow> inpcb list \<Rightarrow> bool" where
  "tcb_path read h [] \<longleftrightarrow> h = 0"
| "tcb_path read h (p # ps) \<longleftrightarrow> h \<noteq> 0 \<and> read h = Inr p \<and> tcb_path read (inp_next p) ps"

definition ipv4_listener :: "uint64 \<Rightarrow> inpcb \<Rightarrow> bool" where
  "ipv4_listener port pcb \<longleftrightarrow> inp_vflag pcb AND 1 \<noteq> 0 \<and> inp_fport pcb = 0 \<and> ucast (ntohs (inp_lport pcb)) = port"

lemma tcb_loop_path:
  "tcb_path read h ps \<Longrightarrow> tcb_loop read port h = Some (Inr (case List.find (ipv4_listener port) ps of None \<Rightarrow> 0 | Some p \<Rightarrow> inp_socket p))"
proof (induction ps arbitrary: h)
  case Nil
  then show ?case by (subst tcb_loop.simps) simp
next
  case (Cons p ps)
  then show ?case by (subst tcb_loop.simps) (simp add: ipv4_listener_def [symmetric])
qed

text \<open>The open files of a process, as the pointers from its entry give them.\<close>

definition socket_file :: "uint64 \<Rightarrow> kfile \<Rightarrow> bool" where
  "socket_file sockp f \<longleftrightarrow> f_count f \<noteq> 0 \<and> f_type f = 2 \<and> f_data f = sockp"

lemma ofiles_loop_files:
  "list_all2 (\<lambda>a f. read a = Inr f) (filter (\<lambda>a. a \<noteq> 0) addrs) files \<Longrightarrow> ofiles_loop read sockp addrs = Inr (\<exists>f\<in>set files. socket_file sockp f)"
proof (induction addrs arbitrary: files)
  case (Cons a addrs)
  then show ?case by (cases files) (auto simp: socket_file_def split: if_splits)
qed simp

definition open_files :: "freebsd_sigar \<Rightarrow> port_env \<Rightarrow> kinfo_proc \<Rightarrow> kfile list \<Rightarrow> bool" where
  "open_files sigar env p files \<longleftrightarrow>
     (if ki_flag p AND P_SYSTEM \<noteq> 0 \<or> ki_fd p = 0 then files = []
      else (\<exists>pfd addrs. po_filedesc env (ki_fd p) = Inr pfd \<and> po_ofiles env (fd_nfiles pfd) (fd_ofiles pfd) = Inr addrs \<and>
             list_all2 (\<lambda>a f. po_file env a = Inr f) (filter (\<lambda>a. a \<noteq> 0) addrs) files))"

lemma kread_kmem [simp]: "fb_kmem sigar \<Longrightarrow> freebsd_kread sigar kvm = kvm"
  by (simp add: fun_eq_iff freebsd_kread_def)

lemma holds_socket_files:
  "fb_kmem sigar \<Longrightarrow> open_files sigar env p files \<Longrightarrow> holds_socket sigar env sockp p = Inr (\<exists>f\<in>set files. socket_file sockp f)"
  by (auto simp: open_files_def holds_socket_def ofiles_loop_files split: if_splits)

lemma port_procs_loop_find:
  "\<forall>p\<in>set ps. holds p = Inr (h p) \<Longrightarrow> port_procs_loop holds ps = (case List.find h ps of None \<Rightarrow> Inl ENOENT | Some p \<Rightarrow> Inr (ki_pid p))"
  by (induction ps) simp_all

text \<open>C34: with readable kernel memory and a list of control blocks that ends, \<open>sigar_proc_port_get\<close> returns: the first
  IPv4 listener of the port gives the socket, and the answer is the first process of the table with an open
  file on that socket, or ENOENT when nobody listens or no process holds it.\<close>

theorem freebsd_port_owner:
  assumes "fb_kmem sigar" and "po_nlist env = Inr a" and "po_tcb env a = Inr h" and "tcb_path (po_inpcb env) h pcbs"
    and "po_procs env = Inr ps" and "\<forall>p\<in>set ps. open_files sigar env p (files p)"
    and "\<forall>pcb\<in>set pcbs. inp_socket pcb \<noteq> 0"
  shows "freebsd_proc_port_get sigar env SIGAR_NETCONN_TCP port = Some
    (case List.find (ipv4_listener port) pcbs of
       None \<Rightarrow> Inl ENOENT
     | Some pcb \<Rightarrow>
         (case List.find (\<lambda>p. \<exists>f\<in>set (files p). socket_file (inp_socket pcb) f) ps of
            None \<Rightarrow> Inl ENOENT | Some p \<Rightarrow> Inr (ki_pid p)))"
proof (cases "List.find (ipv4_listener port) pcbs")
  case None
  then show ?thesis using assms(1-5) by (simp add: freebsd_proc_port_get_def tcb_loop_path)
next
  case (Some pcb)
  then have "pcb \<in> set pcbs" by (auto simp: find_Some_iff)
  moreover have "\<forall>p\<in>set ps. holds_socket sigar env (inp_socket pcb) p = Inr (\<exists>f\<in>set (files p). socket_file (inp_socket pcb) f)"
    using assms(1,6) by (simp add: holds_socket_files)
  ultimately show ?thesis using Some assms(1-5,7)
    by (simp add: freebsd_proc_port_get_def tcb_loop_path port_procs_loop_find)
qed

definition example_ports :: port_env where
  "example_ports = \<lparr>po_nlist = Inr 8, po_tcb = (\<lambda>a. if a = 8 then Inr 16 else Inl 14),
     po_inpcb = (\<lambda>a. if a = 16 then Inr \<lparr>inp_next = 24, inp_vflag = 1, inp_fport = 0x1600, inp_lport = 0x5000, inp_socket = 3\<rparr>
       else if a = 24 then Inr \<lparr>inp_next = 0, inp_vflag = 1, inp_fport = 0, inp_lport = 0x5000, inp_socket = 5\<rparr> else Inl 14),
     po_procs = Inr [(example_kinfo 10 0)\<lparr>ki_flag := 0, ki_fd := 32\<rparr>, (example_kinfo 11 0)\<lparr>ki_flag := 0, ki_fd := 40\<rparr>],
     po_filedesc = (\<lambda>a. Inr \<lparr>fd_nfiles = 2, fd_ofiles = a\<rparr>), po_ofiles = (\<lambda>n a. Inr (if a = 32 then [48, 0] else [0, 56])),
     po_file = (\<lambda>a. Inr \<lparr>f_count = 1, f_type = 2, f_data = (if a = 56 then 5 else 3)\<rparr>)\<rparr>"

theorem freebsd_port_owner_witness:
  "freebsd_proc_port_get (example_freebsd\<lparr>fb_kmem := True\<rparr>) example_ports SIGAR_NETCONN_TCP 80 = Some (Inr 11)"
  by (subst freebsd_port_owner [where a = 8 and h = 16
      and pcbs = "[\<lparr>inp_next = 24, inp_vflag = 1, inp_fport = 0x1600, inp_lport = 0x5000, inp_socket = 3\<rparr>,
        \<lparr>inp_next = 0, inp_vflag = 1, inp_fport = 0, inp_lport = 0x5000, inp_socket = 5\<rparr>]"
      and ps = "[(example_kinfo 10 0)\<lparr>ki_flag := 0, ki_fd := 32\<rparr>, (example_kinfo 11 0)\<lparr>ki_flag := 0, ki_fd := 40\<rparr>]"
      and files = "\<lambda>p. [\<lparr>f_count = 1, f_type = 2, f_data = (if ki_pid p = 11 then 5 else 3)\<rparr>]"])
    (simp_all add: example_ports_def example_kinfo_def open_files_def ipv4_listener_def ntohs_def socket_file_def)

text \<open>A list that runs in a circle without a listener of the port is followed for ever.\<close>

lemma tcb_loop_circle:
  assumes "h \<noteq> 0" and "read h = Inr pcb" and "\<not> ipv4_listener port pcb" and "inp_next pcb = h"
  shows "tcb_loop read port h = None"
proof -
  have "\<not> (rd = read \<and> po = port \<and> k = h)" if "tcb_loop rd po k = Some r" for rd po k r
  proof (rule tcb_loop.raw_induct [where P = "\<lambda>rd po k r. \<not> (rd = read \<and> po = port \<and> k = h)", OF _ that])
    fix loop rd po k r
    assume ih: "\<And>rd po k r. loop rd po k = Some r \<Longrightarrow> \<not> (rd = read \<and> po = port \<and> k = h)"
      and "(if k = 0 then Some (Inr 0)
        else (case rd k of
                Inl status \<Rightarrow> Some (Inl status)
              | Inr pcb \<Rightarrow>
                  if inp_vflag pcb AND 1 \<noteq> 0 \<and> inp_fport pcb = 0 \<and> ucast (ntohs (inp_lport pcb)) = po
                  then Some (Inr (inp_socket pcb)) else loop rd po (inp_next pcb))) = Some r"
    then show "\<not> (rd = read \<and> po = port \<and> k = h)"
      using assms ih [of read port h r] by (auto simp: ipv4_listener_def [symmetric])
  qed
  then show ?thesis by (cases "tcb_loop read port h") blast+
qed

subsection \<open>File systems\<close>

text \<open>The bound handed to \<open>strncat\<close> is that of the whole array at every call, yet all options together fit.\<close>

lemma options_fit: "length (get_fs_options mnt 255 flags) \<le> 137"
proof -
  define add where "add = (\<lambda>opts (name, s). if flags AND mnt name \<noteq> 0 then strncat 255 opts s else opts)"
  have "length (foldl add opts os) \<le> length opts + sum_list (map (\<lambda>p. length (snd p)) os)" for opts os
  proof (induction os arbitrary: opts)
    case (Cons x os)
    obtain n s where x: "x = (n, s)" by (cases x)
    have "length (add opts x) \<le> length opts + length s" by (simp add: add_def strncat_def x)
    with Cons [of "add opts x"] show ?case by (simp add: x)
  qed simp
  note len = this
  have "sum_list (map (\<lambda>p. length (snd p)) mount_options) = 135" by (simp add: mount_options_def)
  moreover have "length (strncat 255 [] (if flags AND mnt ''MNT_RDONLY'' \<noteq> 0 then ''ro'' else ''rw'')) = 2" by (simp add: strncat_def)
  moreover have "get_fs_options mnt 255 flags = foldl add (strncat 255 [] (if flags AND mnt ''MNT_RDONLY'' \<noteq> 0 then ''ro'' else ''rw'')) mount_options"
    unfolding get_fs_options_def add_def ..
  ultimately show ?thesis
    using len [of "strncat 255 [] (if flags AND mnt ''MNT_RDONLY'' \<noteq> 0 then ''ro'' else ''rw'')" mount_options] by simp
qed

lemma options_rw: "take 2 (get_fs_options mnt 255 flags) = (if flags AND mnt ''MNT_RDONLY'' \<noteq> 0 then ''ro'' else ''rw'')"
proof -
  define add where "add = (\<lambda>opts (name, s). if flags AND mnt name \<noteq> 0 then strncat 255 opts s else opts)"
  have "take 2 (foldl add opts os) = take 2 opts" if "2 \<le> length opts" for opts os
    using that
  proof (induction os arbitrary: opts)
    case (Cons x os)
    have "take 2 (add opts x) = take 2 opts \<and> 2 \<le> length (add opts x)"
      using Cons.prems by (cases x) (simp add: add_def strncat_def)
    with Cons.IH [of "add opts x"] show ?case by simp
  qed simp
  then show ?thesis unfolding get_fs_options_def add_def by (simp add: strncat_def)
qed

lemma freebsd_type_sets: "fsy_type fsp \<le> 6 \<Longrightarrow> sets_type fsp (freebsd_os_fs_type_get fsp)"
  unfolding freebsd_os_fs_type_get_def Let_def by (intro sets_type_intros)

lemma fs_type_with_ok:
  assumes "fsy_type fsp = 0" and "\<And>f. fsy_type f \<le> 6 \<Longrightarrow> sets_type f (os f)"
  shows "\<exists>t. fs_type_with os fsp = Some (fsp\<lparr>fsy_type := t, fsy_type_name := fstype_names ! t\<rparr>) \<and> 0 < t \<and> t < 7"
proof -
  obtain t where t: "t \<le> 6" "os fsp = fsp\<lparr>fsy_type := t\<rparr>" using assms(2) [of fsp] assms(1) by (auto simp: sets_type_def)
  obtain u where u: "u \<le> 6" "sigar_common_fs_type_get (fsp\<lparr>fsy_type := t\<rparr>) = fsp\<lparr>fsy_type := t, fsy_type := u\<rparr>"
    using common_type_sets [of "fsp\<lparr>fsy_type := t\<rparr>"] t(1) by (auto simp: sets_type_def)
  have name: "cell fstype_names v = Some (fstype_names ! v)" if "v \<le> 6" for v
    using that by (simp add: cell_def fstype_names_def)
  show ?thesis
    using assms(1) t u name [of t] name [of u] name [of 1]
    by (cases "t = 0"; cases "u = 0") (auto simp: fs_type_with_def)
qed

definition listed_fs :: "(string \<Rightarrow> uint64) \<Rightarrow> statfs \<Rightarrow> bool" where
  "listed_fs mnt f \<longleftrightarrow> sf_flags f AND mnt ''MNT_AUTOMOUNTED'' = 0 \<and> sf_flags f AND mnt ''MNT_RDONLY'' = 0"

lemma statfs_loop_fills:
  assumes "list_all2 (\<lambda>f e. statfs_entry mnt f = Some e) (filter (listed_fs mnt) fs) es"
  shows "statfs_loop mnt fs l = clist_fill sigar_file_system_list_grow l es"
  using assms
proof (induction fs arbitrary: es l)
  case (Cons f fs)
  then show ?case by (cases es) (auto simp: listed_fs_def split: option.splits if_splits)
qed simp

text \<open>the file systems of FreeBSD. The list holds, in the order of the mount table, every file system that is neither
  automounted nor read-only, and no other, each with its names, a type with the name of that type, and
  an option text that begins with \<open>rw\<close> and fits its array.\<close>

theorem freebsd_writable_file_systems:
  "\<exists>l. freebsd_file_system_list_get mnt (Inr fs) = Some (SIGAR_OK, Some l) \<and> clist_wf l \<and>
    list_all2 (\<lambda>f e. fsy_dir_name e = sstrcpy 4096 (sf_mntonname f) \<and> fsy_dev_name e = sstrcpy 4096 (sf_mntfromname f) \<and>
        fsy_options e = get_fs_options mnt 255 (sf_flags f) \<and> take 2 (fsy_options e) = ''rw'' \<and> length (fsy_options e) < 256 \<and>
        0 < fsy_type e \<and> fsy_type e < SIGAR_FSTYPE_MAX \<and> fsy_type_name e = fstype_names ! fsy_type e)
      (filter (listed_fs mnt) fs) (clist_elems l)"
proof -
  define ok where "ok f e \<longleftrightarrow> fsy_dir_name e = sstrcpy 4096 (sf_mntonname f) \<and> fsy_dev_name e = sstrcpy 4096 (sf_mntfromname f) \<and>
        fsy_options e = get_fs_options mnt 255 (sf_flags f) \<and> 0 < fsy_type e \<and> fsy_type e < SIGAR_FSTYPE_MAX \<and>
        fsy_type_name e = fstype_names ! fsy_type e" for f :: statfs and e :: sigar_file_system
  have "\<exists>e. statfs_entry mnt f = Some e \<and> ok f e" for f
    unfolding statfs_entry_def ok_def
    using fs_type_with_ok [OF _ freebsd_type_sets, of "\<lparr>fsy_dir_name = sstrcpy 4096 (sf_mntonname f), fsy_dev_name = sstrcpy 4096 (sf_mntfromname f),
      fsy_type_name = [], fsy_sys_type_name = sstrcpy 256 (sf_fstypename f), fsy_options = get_fs_options mnt 255 (sf_flags f), fsy_type = 0\<rparr>"]
    by auto
  then obtain g where g: "statfs_entry mnt f = Some (g f)" "ok f (g f)" for f by metis
  have "list_all2 (\<lambda>f e. statfs_entry mnt f = Some e) (filter (listed_fs mnt) fs) (map g (filter (listed_fs mnt) fs))"
    using g by (simp add: list.rel_map list.rel_refl)
  note f = statfs_loop_fills [OF this, of sigar_file_system_list_create]
  from fs_list.fill_create [of "map g (filter (listed_fs mnt) fs)"] f obtain l where
    l: "statfs_loop mnt fs sigar_file_system_list_create = Some l" "clist_wf l" "clist_elems l = map g (filter (listed_fs mnt) fs)" by auto
  have "length (fsy_options (g f)) < 256" for f
    using options_fit [of mnt "sf_flags f"] g(2) [of f] by (simp add: ok_def)
  with l g options_rw show ?thesis
    by (auto simp: freebsd_file_system_list_get_def list.rel_map ok_def listed_fs_def intro!: list.rel_refl_strong)
qed

end
