(* ===== verification/Uvm_System.thy ===== *)
theory Uvm_System
  imports Freebsd_Route Freebsd_Net
begin

text \<open>
  System-wide readings and processes in \<open>src/os/openbsd/openbsd_sigar.c\<close> (OpenBSD 5) and
  \<open>src/os/netbsd/netbsd_sigar.c\<close> (the branches of NetBSD 4). Both systems describe memory by \<open>struct uvmexp\<close> and a
  process by \<open>struct kinfo_proc2\<close>, whose members are \<open>int\<close>s: sums and products of them that leave the range
  of an \<open>int\<close> are undefined. A function whose text is that of another platform is defined as the function of
  that platform; the system calls and the layout of system structures are parameters as there.
\<close>

section \<open>The handle\<close>

text \<open>\<open>struct kinfo_proc2\<close> (OpenBSD: \<open>kinfo_proc\<close>).\<close>

record kinfo_proc2 =
  p_ppid :: pid
  p_priority :: "8 word"
  p_nice :: "8 word"
  p_comm :: string
  p_stat :: nat
  p_ruid :: uint32
  p_rgid :: uint32
  p_uid :: uint32
  p_gid :: uint32
  p_vm_rssize :: uint32
  p_vm_tsize :: uint32
  p_vm_dsize :: uint32
  p_vm_ssize :: uint32
  p_uru_minflt :: uint64
  p_uru_majflt :: uint64
  p_uutime_sec :: uint32
  p_ustime_sec :: uint32
  p_ustart_sec :: uint64
  p_tdev :: uint32
  p_cpuid :: uint64

record bsd_sigar =
  bs_core :: sigar_core
  bs_ncpu :: int
  bs_boot_time :: uint64
  bs_ticks :: nat
  bs_pagesize :: uint32
  bs_last_getprocs :: uint64
  bs_last_pid :: pid
  bs_pinfo :: "kinfo_proc2 option option"
  bs_argmax :: nat
  bs_kmem :: bool
  bs_koffsets :: "uint64 list"
  bs_proc_mounted :: bool

definition openbsd_kread :: "bsd_sigar \<Rightarrow> 'a kvm \<Rightarrow> uint64 \<Rightarrow> status + 'a" where
  "openbsd_kread sigar kvm_read offset = (if \<not> bs_kmem sigar then Inl SIGAR_EPERM_KMEM else kvm_read offset)"

definition netbsd_kread :: "bsd_sigar \<Rightarrow> 'a kvm \<Rightarrow> uint64 \<Rightarrow> status + 'a" where
  "netbsd_kread = openbsd_kread"

text \<open>The values \<open>kvm_nlist\<close> finds for \<open>_cp_time\<close>, \<open>_cnt\<close>, \<open>_tcpstat\<close> and \<open>_tcbtable\<close>.\<close>

definition openbsd_get_koffsets :: "uint64 \<times> uint64 \<times> uint64 \<times> uint64 \<Rightarrow> bsd_sigar \<Rightarrow> status \<times> bsd_sigar" where
  "openbsd_get_koffsets klist sigar =
     (if \<not> bs_kmem sigar then (SIGAR_EPERM_KMEM, sigar)
      else (case klist of (cp_time, cnt, tcpstat, tcbtable) \<Rightarrow> (SIGAR_OK, sigar\<lparr>bs_koffsets := [cp_time, cnt, tcpstat, tcbtable]\<rparr>)))"

definition netbsd_get_koffsets :: "uint64 \<times> uint64 \<times> uint64 \<times> uint64 \<Rightarrow> bsd_sigar \<Rightarrow> status \<times> bsd_sigar" where
  "netbsd_get_koffsets = openbsd_get_koffsets"

record bsd_boot =
  bb_ncpu :: "status + int"
  bb_boottime :: "status + timeval"
  bb_kvm_open :: bool
  bb_curproc :: bool
  bb_nlist :: "uint64 \<times> uint64 \<times> uint64 \<times> uint64"
  bb_getpagesize :: uint32
  bb_clk_tck :: nat

text \<open>The platforms differ in the call that opens kernel memory.\<close>

definition openbsd_os_open :: "bsd_boot \<Rightarrow> bsd_sigar \<Rightarrow> status + bsd_sigar" where
  "openbsd_os_open env fresh =
     (case bb_ncpu env of
        Inl errno \<Rightarrow> Inl errno
      | Inr ncpu \<Rightarrow>
          (case bb_boottime env of
             Inl errno \<Rightarrow> Inl errno
           | Inr boottime \<Rightarrow>
               (let s1 = snd (openbsd_get_koffsets (bb_nlist env) (fresh\<lparr>bs_kmem := bb_kvm_open env, bs_proc_mounted := bb_curproc env\<rparr>))
                in Inr (s1\<lparr>bs_ncpu := ncpu, bs_core := (bs_core s1)\<lparr>s_lcpu := - 1\<rparr>, bs_argmax := 0, bs_boot_time := tv_sec boottime,
                           bs_pagesize := bb_getpagesize env, bs_ticks := bb_clk_tck env, bs_last_pid := - 1, bs_pinfo := None\<rparr>))))"

definition netbsd_os_open :: "bsd_boot \<Rightarrow> bsd_sigar \<Rightarrow> status + bsd_sigar" where
  "netbsd_os_open = openbsd_os_open"

definition openbsd_os_close :: "bsd_sigar \<Rightarrow> status \<times> freebsd_released list" where
  "openbsd_os_close sigar =
     (SIGAR_OK, (if bs_pinfo sigar \<noteq> None then [Pinfo] else []) @ (if bs_kmem sigar then [Kmem] else []) @ [FreebsdHandle])"

definition netbsd_os_close :: "bsd_sigar \<Rightarrow> status \<times> freebsd_released list" where
  "netbsd_os_close = openbsd_os_close"

definition openbsd_os_error_string :: "status \<Rightarrow> string option" where
  "openbsd_os_error_string = freebsd_os_error_string"

definition netbsd_os_error_string :: "status \<Rightarrow> string option" where
  "netbsd_os_error_string = freebsd_os_error_string"

definition openbsd_sys_info_get_uuid :: status where
  "openbsd_sys_info_get_uuid = SIGAR_ENOTIMPL"

definition netbsd_sys_info_get_uuid :: status where
  "netbsd_sys_info_get_uuid = SIGAR_ENOTIMPL"

section \<open>Arithmetic on \<open>int\<close>\<close>

text \<open>The result of a sum or a product of \<open>int\<close>s, undefined out of range.\<close>

definition c_int :: "int \<Rightarrow> uint32 ub" where
  "c_int v = (if - (2 ^ 31) \<le> v \<and> v < 2 ^ 31 then Some (word_of_int v) else None)"

definition c_int_add :: "uint32 \<Rightarrow> uint32 \<Rightarrow> uint32 ub" where
  "c_int_add a b = c_int (sint a + sint b)"

definition c_int_mul :: "uint32 \<Rightarrow> uint32 \<Rightarrow> uint32 ub" where
  "c_int_mul a b = c_int (sint a * sint b)"

section \<open>Memory and swap\<close>

text \<open>The members of \<open>struct uvmexp\<close> that are used; \<open>uv_file\<close> and \<open>uv_text\<close> are \<open>vnodepages\<close> and \<open>vtextpages\<close> on OpenBSD,
  \<open>filepages\<close> and \<open>execpages\<close> on NetBSD. All are \<open>int\<close>s.\<close>

record uvmexp =
  uv_free :: uint32
  uv_inactive :: uint32
  uv_file :: uint32
  uv_text :: uint32
  uv_swpages :: uint32
  uv_swpginuse :: uint32
  uv_pageins :: uint32
  uv_pdpageouts :: uint32

definition openbsd_vmstat :: "(status + uvmexp) \<Rightarrow> status + uvmexp" where
  "openbsd_vmstat sysctl = sysctl"

definition netbsd_vmstat :: "(status + uvmexp) \<Rightarrow> status + uvmexp" where
  "netbsd_vmstat sysctl = sysctl"

record bsd_vm =
  bv_pagesize :: "status + uint32"
  bv_physmem :: "status + uint64"
  bv_uvmexp :: "status + uvmexp"

text \<open>The free pages are not multiplied by their size.\<close>

definition openbsd_mem_get :: "rounding \<Rightarrow> bsd_vm \<Rightarrow> bsd_sigar \<Rightarrow> sigar_mem \<Rightarrow> (status \<times> sigar_mem \<times> bsd_sigar) ub" where
  "openbsd_mem_get rnd vm sigar0 mem =
     (case bv_pagesize vm of
        Inl errno \<Rightarrow> Some (errno, mem, sigar0)
      | Inr pagesize \<Rightarrow>
          (let sigar = sigar0\<lparr>bs_pagesize := pagesize\<rparr> in
           case bv_physmem vm of
             Inl errno \<Rightarrow> Some (errno, mem, sigar)
           | Inr physmem \<Rightarrow>
               (case openbsd_vmstat (bv_uvmexp vm) of
                  Inl status \<Rightarrow> Some (status, mem\<lparr>mem_total := physmem\<rparr>, sigar)
                | Inr vmstat \<Rightarrow>
                    map_option (\<lambda>cached.
                      (let free = scast (uv_free vmstat);
                           kern = (scast (uv_inactive vmstat) + scast cached) * scast pagesize :: uint64;
                           used = physmem - free
                       in (SIGAR_OK, snd (sigar_mem_calc_ram rnd (mem\<lparr>mem_total := physmem, mem_free := free, mem_used := used,
                             mem_actual_free := free + kern, mem_actual_used := used - kern\<rparr>)), sigar)))
                      (c_int_add (uv_file vmstat) (uv_text vmstat)))))"

definition netbsd_mem_get :: "rounding \<Rightarrow> bsd_vm \<Rightarrow> bsd_sigar \<Rightarrow> sigar_mem \<Rightarrow> (status \<times> sigar_mem \<times> bsd_sigar) ub" where
  "netbsd_mem_get = openbsd_mem_get"

text \<open>Page counts and the page size are \<open>int\<close>s, and so are the products.\<close>

definition openbsd_swap_get :: "bsd_vm \<Rightarrow> bsd_sigar \<Rightarrow> sigar_swap \<Rightarrow> (status \<times> sigar_swap) ub" where
  "openbsd_swap_get vm sigar swap =
     (case openbsd_vmstat (bv_uvmexp vm) of
        Inl status \<Rightarrow> Some (status, swap)
      | Inr vmstat \<Rightarrow> do {
          total \<leftarrow> c_int_mul (uv_swpages vmstat) (bs_pagesize sigar);
          used \<leftarrow> c_int_mul (uv_swpginuse vmstat) (bs_pagesize sigar);
          Some (SIGAR_OK, \<lparr>swap_total = scast total, swap_used = scast used, swap_free = scast total - scast used,
                           swap_page_in = scast (uv_pageins vmstat), swap_page_out = scast (uv_pdpageouts vmstat)\<rparr>) })"

definition netbsd_swap_get :: "bsd_vm \<Rightarrow> bsd_sigar \<Rightarrow> sigar_swap \<Rightarrow> (status \<times> sigar_swap) ub" where
  "netbsd_swap_get = openbsd_swap_get"

section \<open>CPU times and descriptions\<close>

definition openbsd_cpu_get :: "rounding \<Rightarrow> (status + uint64 list) \<Rightarrow> bsd_sigar \<Rightarrow> (status + sigar_cpu) ub" where
  "openbsd_cpu_get rnd kern_cptime sigar =
     (case kern_cptime of
        Inl errno \<Rightarrow> Some (Inl errno)
      | Inr cp_time \<Rightarrow> map_option Inr (cp_time_cpu rnd (bs_ticks sigar) cp_time))"

definition netbsd_cpu_get :: "rounding \<Rightarrow> (status + uint64 list) \<Rightarrow> bsd_sigar \<Rightarrow> (status + sigar_cpu) ub" where
  "netbsd_cpu_get = openbsd_cpu_get"

text \<open>All of the time is the first CPU's; the first cell is counted before it is written.\<close>

definition openbsd_cpu_list_get :: "rounding \<Rightarrow> (status + uint64 list) \<Rightarrow> bsd_sigar \<Rightarrow> (status \<times> sigar_cpu clist) ub" where
  "openbsd_cpu_list_get rnd kern_cptime sigar =
     (let cpulist = sigar_cpu_list_create in
      case openbsd_cpu_get rnd kern_cptime sigar of
        None \<Rightarrow> None
      | Some (Inl status) \<Rightarrow> Some (status, cpulist\<lparr>l_number := Suc (l_number cpulist)\<rparr>)
      | Some (Inr cpu) \<Rightarrow>
          if length (l_data cpulist) \<le> l_number cpulist then None
          else map_option (Pair SIGAR_OK)
            (clist_fill sigar_cpu_list_grow
               (cpulist\<lparr>l_data := (l_data cpulist)[l_number cpulist := Some cpu], l_number := Suc (l_number cpulist)\<rparr>)
               (replicate (nat (bs_ncpu sigar - 1)) zero_cpu)))"

definition netbsd_cpu_list_get :: "rounding \<Rightarrow> (status + uint64 list) \<Rightarrow> bsd_sigar \<Rightarrow> (status \<times> sigar_cpu clist) ub" where
  "netbsd_cpu_list_get = openbsd_cpu_list_get"

definition openbsd_uptime_get :: "rounding \<Rightarrow> uint64 \<Rightarrow> bsd_sigar \<Rightarrow> status \<times> dbl" where
  "openbsd_uptime_get rnd now sigar = (SIGAR_OK, Fin (dbl_of_u64 rnd (now - bs_boot_time sigar)))"

definition netbsd_uptime_get :: "rounding \<Rightarrow> uint64 \<Rightarrow> bsd_sigar \<Rightarrow> status \<times> dbl" where
  "netbsd_uptime_get = openbsd_uptime_get"

definition openbsd_loadavg_get :: "dbl list \<Rightarrow> sigar_loadavg \<Rightarrow> status \<times> sigar_loadavg" where
  "openbsd_loadavg_get = freebsd_loadavg_get"

definition netbsd_loadavg_get :: "dbl list \<Rightarrow> sigar_loadavg \<Rightarrow> status \<times> sigar_loadavg" where
  "netbsd_loadavg_get = freebsd_loadavg_get"

definition openbsd_system_stats_get :: status where
  "openbsd_system_stats_get = SIGAR_ENOTIMPL"

definition netbsd_system_stats_get :: status where
  "netbsd_system_stats_get = SIGAR_ENOTIMPL"

text \<open>The list of CPU descriptions for a clock rate and a model text.\<close>

definition bsd_cpu_infos ::
  "(uint32 \<Rightarrow> cpuid_regs) \<Rightarrow> string \<Rightarrow> uint32 \<Rightarrow> string \<Rightarrow> bsd_sigar \<Rightarrow> (status \<times> sigar_cpu_info clist \<times> bsd_sigar) ub" where
  "bsd_cpu_infos cpuid uninit mhz text0 sigar =
     (let core = snd (sigar_cpu_core_count cpuid (bs_core sigar));
          sigar1 = sigar\<lparr>bs_core := core\<rparr>;
          (vendor, model) = split_model uninit text0
      in if bs_ncpu sigar \<le> 0 then Some (SIGAR_OK, sigar_cpu_info_list_create, sigar1)
         else do {
           adjusted \<leftarrow> sigar_cpu_model_adjust (sstrcpy 128 vendor) (sstrcpy 128 model);
           sockets \<leftarrow> sigar_cpu_socket_count (bs_ncpu sigar) (s_lcpu core);
           l \<leftarrow> freebsd_cpu_info_loop (nat (bs_ncpu sigar))
                  \<lparr>ci_vendor = sstrcpy 128 vendor, ci_model = adjusted, ci_mhz = mhz, ci_mhz_max = 0, ci_mhz_min = 0,
                   ci_cache_size = SIGAR_FIELD_NOTIMPL, ci_total_sockets = sockets, ci_total_cores = bs_ncpu sigar,
                   ci_cores_per_socket = s_lcpu core\<rparr>
                  sigar_cpu_info_list_create;
           Some (SIGAR_OK, l, sigar1) })"

definition openbsd_cpu_info_list_get ::
  "(uint32 \<Rightarrow> cpuid_regs) \<Rightarrow> string \<Rightarrow> string option \<Rightarrow> bsd_sigar \<Rightarrow> (status \<times> sigar_cpu_info clist \<times> bsd_sigar) ub" where
  "openbsd_cpu_info_list_get cpuid uninit hw_model sigar =
     bsd_cpu_infos cpuid uninit (- 1) (case hw_model of Some m \<Rightarrow> m | None \<Rightarrow> ''Unknown'') sigar"

text \<open>NetBSD asks for the model by name first, and takes the clock rate from it.\<close>

definition netbsd_cpu_info_list_get ::
  "(uint32 \<Rightarrow> cpuid_regs) \<Rightarrow> string \<Rightarrow> freebsd_cpu_ids \<Rightarrow> bsd_sigar \<Rightarrow> (status \<times> sigar_cpu_info clist \<times> bsd_sigar) ub" where
  "netbsd_cpu_info_list_get cpuid uninit ids sigar =
     bsd_cpu_infos cpuid uninit (sigar_cpu_mhz_from_model (cpu_model_text ids)) (cpu_model_text ids) sigar"

text \<open>The release is split at its first hyphen.\<close>

definition bsd_sys_info :: "string \<Rightarrow> sigar_sys_info \<Rightarrow> status \<times> sigar_sys_info" where
  "bsd_sys_info name sysinfo =
     (let s1 = sysinfo\<lparr>si_name := name, si_vendor_name := name, si_vendor := name,
                      si_vendor_version := sstrcpy SIGAR_SYS_INFO_LEN (si_version sysinfo)\<rparr>;
          s2 = (case split_at (CHR ''-'') (si_vendor_version s1) of
                  (_, None) \<Rightarrow> s1
                | (version, Some rest) \<Rightarrow> s1\<lparr>si_vendor_version := version, si_vendor_code_name := sstrcpy SIGAR_SYS_INFO_LEN rest\<rparr>)
      in (SIGAR_OK, s2\<lparr>si_description := take 255 (si_name s2 @ '' '' @ si_version s2)\<rparr>))"

definition openbsd_os_sys_info_get :: "sigar_sys_info \<Rightarrow> status \<times> sigar_sys_info" where
  "openbsd_os_sys_info_get = bsd_sys_info ''OpenBSD''"

definition netbsd_os_sys_info_get :: "sigar_sys_info \<Rightarrow> status \<times> sigar_sys_info" where
  "netbsd_os_sys_info_get = bsd_sys_info ''NetBSD''"

definition openbsd_os_is_in_container :: int where
  "openbsd_os_is_in_container = 0"

definition netbsd_os_is_in_container :: int where
  "netbsd_os_is_in_container = 0"

section \<open>Processes\<close>

text \<open>An entry of the process list: its flags and its number.\<close>

fun bsd_list_loop :: "(uint64 \<times> pid) list \<Rightarrow> pid clist \<Rightarrow> pid clist ub" where
  "bsd_list_loop [] proclist = Some proclist"
| "bsd_list_loop ((flag, pid) # procs) proclist =
     (if flag AND P_SYSTEM \<noteq> 0 then bsd_list_loop procs proclist
      else if pid = 0 then bsd_list_loop procs proclist
      else (case clist_put sigar_proc_list_grow proclist pid of
              None \<Rightarrow> None
            | Some proclist1 \<Rightarrow> bsd_list_loop procs proclist1))"

text \<open>A failed \<open>kvm_getprocs\<close> (\<open>None\<close>) is not noticed and leaves the count unset.\<close>

definition openbsd_os_proc_list_get :: "(uint64 \<times> pid) list option \<Rightarrow> bsd_sigar \<Rightarrow> pid clist \<Rightarrow> (status \<times> pid clist) ub" where
  "openbsd_os_proc_list_get kvm_getprocs sigar proclist =
     (if \<not> bs_kmem sigar then Some (SIGAR_EPERM_KMEM, proclist)
      else Option.bind kvm_getprocs (\<lambda>procs. map_option (Pair SIGAR_OK) (bsd_list_loop procs proclist)))"

definition netbsd_os_proc_list_get :: "(status + (uint64 \<times> pid) list) \<Rightarrow> pid clist \<Rightarrow> (status \<times> pid clist) ub" where
  "netbsd_os_proc_list_get sysctl proclist =
     (case sysctl of
        Inl errno \<Rightarrow> Some (errno, proclist)
      | Inr procs \<Rightarrow> map_option (Pair SIGAR_OK) (bsd_list_loop procs proclist))"

type_synonym proc2_sysctl = "pid \<Rightarrow> status + kinfo_proc2"

definition openbsd_get_pinfo :: "proc2_sysctl \<Rightarrow> uint64 \<Rightarrow> pid \<Rightarrow> bsd_sigar \<Rightarrow> status \<times> bsd_sigar" where
  "openbsd_get_pinfo sysctl timenow pid sigar =
     (let s0 = (if bs_pinfo sigar = None then sigar\<lparr>bs_pinfo := Some None\<rparr> else sigar) in
      if bs_last_pid s0 = pid \<and> sint (timenow - bs_last_getprocs s0) < 2 then (SIGAR_OK, s0)
      else
        (let s1 = s0\<lparr>bs_last_pid := pid, bs_last_getprocs := timenow\<rparr> in
         case sysctl pid of
           Inl errno \<Rightarrow> (errno, s1)
         | Inr info \<Rightarrow> (SIGAR_OK, s1\<lparr>bs_pinfo := Some (Some info)\<rparr>)))"

definition netbsd_get_pinfo :: "proc2_sysctl \<Rightarrow> uint64 \<Rightarrow> pid \<Rightarrow> bsd_sigar \<Rightarrow> status \<times> bsd_sigar" where
  "netbsd_get_pinfo = openbsd_get_pinfo"

definition with_pinfo2 ::
  "proc2_sysctl \<Rightarrow> uint64 \<Rightarrow> pid \<Rightarrow> (kinfo_proc2 \<Rightarrow> 'a ub) \<Rightarrow> bsd_sigar \<Rightarrow> ((status + 'a) \<times> bsd_sigar) ub" where
  "with_pinfo2 sysctl now pid f sigar =
     (case openbsd_get_pinfo sysctl now pid sigar of
        (status, s) \<Rightarrow>
          if status \<noteq> SIGAR_OK then Some (Inl status, s)
          else do { info \<leftarrow> bs_pinfo s; pinfo \<leftarrow> info; v \<leftarrow> f pinfo; Some (Inr v, s) })"

definition openbsd_proc_mem_get ::
  "proc2_sysctl \<Rightarrow> uint64 \<Rightarrow> pid \<Rightarrow> bsd_sigar \<Rightarrow> ((status + sigar_proc_mem) \<times> bsd_sigar) ub" where
  "openbsd_proc_mem_get sysctl now pid sigar =
     with_pinfo2 sysctl now pid (\<lambda>pinfo. do {
       td \<leftarrow> c_int_add (p_vm_tsize pinfo) (p_vm_dsize pinfo);
       pages \<leftarrow> c_int_add td (p_vm_ssize pinfo);
       size \<leftarrow> c_int_mul pages (bs_pagesize sigar);
       resident \<leftarrow> c_int_mul (p_vm_rssize pinfo) (bs_pagesize sigar);
       Some \<lparr>pm_size = scast size, pm_resident = scast resident, pm_share = SIGAR_FIELD_NOTIMPL, pm_minor_faults = p_uru_minflt pinfo,
             pm_major_faults = p_uru_majflt pinfo, pm_page_faults = p_uru_minflt pinfo + p_uru_majflt pinfo\<rparr> }) sigar"

definition netbsd_proc_mem_get ::
  "proc2_sysctl \<Rightarrow> uint64 \<Rightarrow> pid \<Rightarrow> bsd_sigar \<Rightarrow> ((status + sigar_proc_mem) \<times> bsd_sigar) ub" where
  "netbsd_proc_mem_get = openbsd_proc_mem_get"

definition openbsd_proc_cumulative_disk_io_get :: status where
  "openbsd_proc_cumulative_disk_io_get = SIGAR_ENOTIMPL"

definition netbsd_proc_cumulative_disk_io_get :: status where
  "netbsd_proc_cumulative_disk_io_get = SIGAR_ENOTIMPL"

definition openbsd_proc_cred_get ::
  "proc2_sysctl \<Rightarrow> uint64 \<Rightarrow> pid \<Rightarrow> bsd_sigar \<Rightarrow> ((status + sigar_proc_cred) \<times> bsd_sigar) ub" where
  "openbsd_proc_cred_get sysctl now pid =
     with_pinfo2 sysctl now pid (\<lambda>pinfo. Some \<lparr>cr_uid = p_ruid pinfo, cr_gid = p_rgid pinfo, cr_euid = p_uid pinfo, cr_egid = p_gid pinfo\<rparr>)"

definition netbsd_proc_cred_get ::
  "proc2_sysctl \<Rightarrow> uint64 \<Rightarrow> pid \<Rightarrow> bsd_sigar \<Rightarrow> ((status + sigar_proc_cred) \<times> bsd_sigar) ub" where
  "netbsd_proc_cred_get = openbsd_proc_cred_get"

text \<open>The seconds are widened by the \<open>long\<close> factor.\<close>

definition openbsd_proc_time_get ::
  "proc2_sysctl \<Rightarrow> uint64 \<Rightarrow> pid \<Rightarrow> bsd_sigar \<Rightarrow> ((status + sigar_proc_time) \<times> bsd_sigar) ub" where
  "openbsd_proc_time_get sysctl now pid =
     with_pinfo2 sysctl now pid (\<lambda>pinfo.
       (let user = ucast (p_uutime_sec pinfo) * 1000; sys = ucast (p_ustime_sec pinfo) * 1000 in
        Some \<lparr>pt_start_time = p_ustart_sec pinfo * 1000, pt_user = user, pt_sys = sys, pt_total = user + sys\<rparr>))"

definition netbsd_proc_time_get ::
  "proc2_sysctl \<Rightarrow> uint64 \<Rightarrow> pid \<Rightarrow> bsd_sigar \<Rightarrow> ((status + sigar_proc_time) \<times> bsd_sigar) ub" where
  "netbsd_proc_time_get = openbsd_proc_time_get"

text \<open>\<open>SONPROC\<close> is 7 on both systems.\<close>

definition bsd_state_char :: "nat \<Rightarrow> char" where
  "bsd_state_char state = (if state = 7 then CHR ''R'' else state_char state)"

definition openbsd_proc_state_get ::
  "proc2_sysctl \<Rightarrow> uint64 \<Rightarrow> pid \<Rightarrow> bsd_sigar \<Rightarrow> sigar_proc_state \<Rightarrow> ((status + sigar_proc_state) \<times> bsd_sigar) ub" where
  "openbsd_proc_state_get sysctl now pid sigar procstate =
     with_pinfo2 sysctl now pid (\<lambda>pinfo.
       Some (procstate\<lparr>ps_name := sstrcpy 128 (p_comm pinfo), ps_state := bsd_state_char (p_stat pinfo), ps_ppid := p_ppid pinfo,
         ps_tty := p_tdev pinfo, ps_priority := ucast (p_priority pinfo), ps_nice := ucast (p_nice pinfo),
         ps_processor := ucast (p_cpuid pinfo), ps_threads := SIGAR_FIELD_NOTIMPL\<rparr>)) sigar"

definition netbsd_proc_state_get ::
  "proc2_sysctl \<Rightarrow> uint64 \<Rightarrow> pid \<Rightarrow> bsd_sigar \<Rightarrow> sigar_proc_state \<Rightarrow> ((status + sigar_proc_state) \<times> bsd_sigar) ub" where
  "netbsd_proc_state_get = openbsd_proc_state_get"

text \<open>OpenBSD delivers the pointers to the arguments, ended by a null pointer.\<close>

fun argv_loop :: "string option list \<Rightarrow> string clist \<Rightarrow> string clist ub" where
  "argv_loop [] procargs = None"
| "argv_loop (None # _) procargs = Some procargs"
| "argv_loop (Some arg # ptr) procargs =
     (case clist_put sigar_proc_args_grow procargs arg of None \<Rightarrow> None | Some procargs1 \<Rightarrow> argv_loop ptr procargs1)"

definition openbsd_os_proc_args_get :: "(status + string option list) \<Rightarrow> string clist \<Rightarrow> (status \<times> string clist) ub" where
  "openbsd_os_proc_args_get sysctl procargs =
     (case sysctl of
        Inl errno \<Rightarrow> Some (errno, procargs)
      | Inr ptr \<Rightarrow>
          if ptr = [] then Some (SIGAR_OK, procargs\<lparr>l_number := 0\<rparr>)
          else map_option (Pair SIGAR_OK) (argv_loop ptr procargs))"

text \<open>NetBSD delivers their bytes.\<close>

definition netbsd_os_proc_args_get :: "(status + string) \<Rightarrow> string clist \<Rightarrow> (status \<times> string clist) ub" where
  "netbsd_os_proc_args_get = freebsd_os_proc_args_get"

definition openbsd_proc_env_get ::
  "(pid \<Rightarrow> status + 'p list) \<Rightarrow> ('p \<Rightarrow> status + string list) \<Rightarrow> status \<Rightarrow> bsd_sigar \<Rightarrow> pid \<Rightarrow> 'd kvm_env_getter \<Rightarrow> 'd \<Rightarrow> (status \<times> 'd) ub" where
  "openbsd_proc_env_get kvm_getprocs kvm_getenvv errno0 sigar pid env_getter d =
     (if \<not> bs_kmem sigar then Some (SIGAR_EPERM_KMEM, d)
      else
        (case kvm_getprocs pid of
           Inl errno \<Rightarrow> Some (errno, d)
         | Inr [] \<Rightarrow> Some (errno0, d)
         | Inr (pinfo # _) \<Rightarrow>
             (case kvm_getenvv pinfo of
                Inl errno \<Rightarrow> Some (errno, d)
              | Inr env \<Rightarrow> map_option (Pair SIGAR_OK) (freebsd_env_loop env_getter env d))))"

definition netbsd_proc_env_get ::
  "(pid \<Rightarrow> status + 'p list) \<Rightarrow> ('p \<Rightarrow> status + string list) \<Rightarrow> status \<Rightarrow> bsd_sigar \<Rightarrow> pid \<Rightarrow> 'd kvm_env_getter \<Rightarrow> 'd \<Rightarrow> (status \<times> 'd) ub" where
  "netbsd_proc_env_get = openbsd_proc_env_get"

definition openbsd_proc_fd_get :: status where
  "openbsd_proc_fd_get = SIGAR_ENOTIMPL"

definition netbsd_proc_fd_get :: status where
  "netbsd_proc_fd_get = SIGAR_ENOTIMPL"

definition openbsd_proc_exe_get ::
  "(string \<Rightarrow> string option) \<Rightarrow> (string \<Rightarrow> nat list option) \<Rightarrow> string \<Rightarrow> pid \<Rightarrow> (status \<times> sigar_proc_exe) ub" where
  "openbsd_proc_exe_get = freebsd_proc_exe_get"

definition netbsd_proc_exe_get ::
  "(string \<Rightarrow> string option) \<Rightarrow> (string \<Rightarrow> nat list option) \<Rightarrow> string \<Rightarrow> pid \<Rightarrow> (status \<times> sigar_proc_exe) ub" where
  "netbsd_proc_exe_get = freebsd_proc_exe_get"

definition openbsd_proc_modules_get :: status where
  "openbsd_proc_modules_get = SIGAR_ENOTIMPL"

definition netbsd_proc_modules_get :: status where
  "netbsd_proc_modules_get = SIGAR_ENOTIMPL"

definition openbsd_thread_cpu_get :: "timeval \<Rightarrow> timeval \<Rightarrow> status \<times> sigar_thread_cpu" where
  "openbsd_thread_cpu_get = freebsd_thread_cpu_get"

definition netbsd_thread_cpu_get :: status where
  "netbsd_thread_cpu_get = SIGAR_ENOTIMPL"

section \<open>Properties\<close>

lemma c_int_nat: "c_int (int n) = (if n < 2 ^ 31 then Some (of_nat n) else None)"
  by (simp add: c_int_def)

lemma c_int_mul_nat:
  assumes "unat a < 2 ^ 31" and "unat b < 2 ^ 31"
  shows "c_int_mul a b = (if unat a * unat b < 2 ^ 31 then Some (of_nat (unat a * unat b)) else None)"
proof -
  have "sint a * sint b = int (unat a * unat b)"
    using assms sint_unat_small [of a] sint_unat_small [of b] by simp
  then show ?thesis unfolding c_int_mul_def by (simp only: c_int_nat)
qed

lemma scast_small:
  assumes "n < 2 ^ 31"
  shows "(scast (of_nat n :: uint32) :: uint64) = of_nat n"
proof -
  have u: "unat (of_nat n :: uint32) = n" using assms by (simp add: unat_of_nat take_bit_nat_eq_self_iff)
  have "sint (of_nat n :: uint32) = int n" using sint_unat_small [of "of_nat n :: uint32"] u assms by simp
  then show ?thesis by (metis of_int_of_nat_eq scast_eq)
qed

text \<open>C40: swap on OpenBSD and NetBSD. For page counts and a page size that are not negative, with no more pages in use than
  there are, \<open>sigar_swap_get\<close> is defined exactly if there are less than 2 GiB of swap; then the bytes of all and of
  the used pages are reported exactly.\<close>

theorem uvm_swap_defined_iff:
  assumes "bv_uvmexp vm = Inr v" and "unat (uv_swpages v) < 2 ^ 31" and "unat (bs_pagesize sigar) < 2 ^ 31"
    and "unat (uv_swpginuse v) \<le> unat (uv_swpages v)"
  shows "if unat (uv_swpages v) * unat (bs_pagesize sigar) < 2 ^ 31
    then \<exists>s. openbsd_swap_get vm sigar swap = Some (SIGAR_OK, s) \<and> netbsd_swap_get vm sigar swap = Some (SIGAR_OK, s) \<and>
      unat (swap_total s) = unat (uv_swpages v) * unat (bs_pagesize sigar) \<and>
      unat (swap_used s) = unat (uv_swpginuse v) * unat (bs_pagesize sigar) \<and>
      unat (swap_free s) = unat (swap_total s) - unat (swap_used s)
    else openbsd_swap_get vm sigar swap = None \<and> netbsd_swap_get vm sigar swap = None"
proof -
  let ?t = "unat (uv_swpages v) * unat (bs_pagesize sigar)" and ?u = "unat (uv_swpginuse v) * unat (bs_pagesize sigar)"
  have le: "?u \<le> ?t" using assms(4) by simp
  have m: "c_int_mul (uv_swpages v) (bs_pagesize sigar) = (if ?t < 2 ^ 31 then Some (of_nat ?t) else None)"
    "c_int_mul (uv_swpginuse v) (bs_pagesize sigar) = (if ?u < 2 ^ 31 then Some (of_nat ?u) else None)"
    using assms(2-4) by (simp_all only: c_int_mul_nat order.strict_trans1)
  show ?thesis
  proof (cases "?t < 2 ^ 31")
    case True
    with le have u: "?u < 2 ^ 31" by linarith
    have un: "unat (of_nat ?t :: uint64) = ?t" "unat (of_nat ?u :: uint64) = ?u"
      using True u by (simp_all add: unat_of_nat take_bit_nat_eq_self_iff del: of_nat_mult)
    have "unat (of_nat ?t - of_nat ?u :: uint64) = ?t - ?u"
      using un le by (simp add: unat_sub_if' del: of_nat_mult)
    with True u un show ?thesis
      by (simp add: netbsd_swap_get_def openbsd_swap_get_def openbsd_vmstat_def assms(1) m scast_small del: of_nat_mult)
  next
    case False
    then show ?thesis by (simp add: netbsd_swap_get_def openbsd_swap_get_def openbsd_vmstat_def assms(1) m)
  qed
qed

definition example_uvm :: bsd_vm where
  "example_uvm = \<lparr>bv_pagesize = Inr 4096, bv_physmem = Inr 1073741824,
     bv_uvmexp = Inr \<lparr>uv_free = 1000, uv_inactive = 200, uv_file = 30, uv_text = 20, uv_swpages = 524287, uv_swpginuse = 10, uv_pageins = 7,
       uv_pdpageouts = 8\<rparr>\<rparr>"

definition example_bsd :: bsd_sigar where
  "example_bsd = \<lparr>bs_core = \<lparr>s_lcpu = - 1, s_cpu_list_cores = False, s_log_level = 0, s_log_impl = False\<rparr>, bs_ncpu = 1, bs_boot_time = 0,
     bs_ticks = 100, bs_pagesize = 4096, bs_last_getprocs = 0, bs_last_pid = - 1, bs_pinfo = None, bs_argmax = 0, bs_kmem = True,
     bs_koffsets = [0, 8, 16, 24], bs_proc_mounted = False\<rparr>"

theorem uvm_swap_defined_iff_witness:
  "\<exists>s. openbsd_swap_get example_uvm example_bsd \<lparr>swap_total = 0, swap_used = 0, swap_free = 0, swap_page_in = 0, swap_page_out = 0\<rparr> = Some (SIGAR_OK, s)
    \<and> unat (swap_total s) = 2147479552"
  using uvm_swap_defined_iff [where vm = example_uvm and sigar = example_bsd
      and swap = "\<lparr>swap_total = 0, swap_used = 0, swap_free = 0, swap_page_in = 0, swap_page_out = 0\<rparr>"]
  by (auto simp: example_uvm_def example_bsd_def)

text \<open>Free memory is reported as the number of free pages, not of bytes, and what is used with it.\<close>

lemma uvm_mem_free_in_pages:
  assumes "bv_pagesize vm = Inr pagesize" and "bv_physmem vm = Inr physmem" and "bv_uvmexp vm = Inr v" and "openbsd_mem_get rnd vm sigar mem = Some r"
  shows "fst r = SIGAR_OK \<and> mem_free (fst (snd r)) = scast (uv_free v) \<and> mem_used (fst (snd r)) = physmem - scast (uv_free v)"
  using assms by (auto simp: openbsd_mem_get_def openbsd_vmstat_def Let_def sigar_mem_calc_ram_def)

end
