(* ===== verification/Uvm_Net.thy ===== *)
theory Uvm_Net
  imports Uvm_System
begin

text \<open>
  Networking and file systems in \<open>src/os/openbsd/openbsd_sigar.c\<close> and \<open>src/os/netbsd/netbsd_sigar.c\<close>. The routing
  messages are read as on FreeBSD. The connections of NetBSD are found along the circular queue of control
  blocks in kernel memory; on OpenBSD that code stands behind a return.
\<close>

section \<open>Connections\<close>

definition openbsd_net_connection_state_get :: "nat \<Rightarrow> int" where
  "openbsd_net_connection_state_get = net_connection_state_get"

definition netbsd_net_connection_state_get :: "nat \<Rightarrow> int" where
  "netbsd_net_connection_state_get = net_connection_state_get"

definition openbsd_net_connection_get :: "'d \<Rightarrow> status \<times> 'd" where
  "openbsd_net_connection_get d = (SIGAR_ENOTIMPL, d)"

text \<open>What is read of a control block, a socket and a TCP control block. \<open>q_next\<close> is \<open>CIRCLEQ_NEXT\<close>.\<close>

record queue_pcb =
  q_next :: uint64
  q_socket :: uint64
  q_ppcb :: uint64
  q_af :: nat
  q_laddr :: uint32
  q_faddr :: uint32
  q_lport :: uint16
  q_fport :: uint16

record ksocket =
  so_qlimit :: uint16
  so_rcv_cc :: uint32
  so_snd_cc :: uint32
  so_pgid :: uint32

text \<open>\<open>qe_queue\<close> is the offset of \<open>inpt_queue\<close> in the table, \<open>qe_table\<close> reads the first pointer of the queue.\<close>

record queue_env =
  qe_queue :: uint64
  qe_table :: "uint64 kvm"
  qe_pcb :: "queue_pcb kvm"
  qe_socket :: "ksocket kvm"
  qe_state :: "nat kvm"

definition queue_wanted :: "nat \<Rightarrow> ksocket \<Rightarrow> bool" where
  "queue_wanted flags so \<longleftrightarrow>
     flags AND SIGAR_NETCONN_SERVER \<noteq> 0 \<and> so_qlimit so \<noteq> 0 \<or> flags AND SIGAR_NETCONN_CLIENT \<noteq> 0 \<and> so_qlimit so = 0"

definition queue_conn :: "queue_pcb \<Rightarrow> ksocket \<Rightarrow> nat \<Rightarrow> sigar_net_connection" where
  "queue_conn inpcb so state =
     zero_conn\<lparr>nc_local_address := sigar_net_address_set null_address (q_laddr inpcb),
       nc_remote_address := sigar_net_address_set null_address (q_faddr inpcb),
       nc_local_port := ucast (ntohs (q_lport inpcb)), nc_remote_port := ucast (ntohs (q_fport inpcb)),
       nc_receive_queue := ucast (so_rcv_cc so), nc_send_queue := ucast (so_snd_cc so), nc_uid := so_pgid so,
       nc_type := SIGAR_NETCONN_TCP, nc_state := netbsd_net_connection_state_get state\<rparr>"

text \<open>One block: the connection to hand over, if any. The results of the reads are not looked at, so a value
  that could not be read and is used is undefined.\<close>

definition queue_step :: "bsd_sigar \<Rightarrow> queue_env \<Rightarrow> nat \<Rightarrow> queue_pcb \<Rightarrow> sigar_net_connection option ub" where
  "queue_step sigar env flags inpcb =
     (if flags AND (SIGAR_NETCONN_SERVER OR SIGAR_NETCONN_CLIENT) = 0 then Some None
      else (case netbsd_kread sigar (qe_socket env) (q_socket inpcb) of
              Inl _ \<Rightarrow> None
            | Inr so \<Rightarrow>
                if \<not> queue_wanted flags so then Some None
                else if q_af inpcb = 24 then Some None
                else (case netbsd_kread sigar (qe_state env) (q_ppcb inpcb) of
                        Inl _ \<Rightarrow> None
                      | Inr state \<Rightarrow> Some (Some (queue_conn inpcb so state)))))"

partial_function (option) queue_loop ::
  "bsd_sigar \<Rightarrow> queue_env \<Rightarrow> 'd conn_walker \<Rightarrow> nat \<Rightarrow> uint64 \<Rightarrow> uint64 \<Rightarrow> 'd \<Rightarrow> 'd ub option" where
  "queue_loop sigar env add_connection flags head next d =
     (if next = head then Some (Some d)
      else (case netbsd_kread sigar (qe_pcb env) next of
              Inl _ \<Rightarrow> Some None
            | Inr inpcb \<Rightarrow>
                (case queue_step sigar env flags inpcb of
                   None \<Rightarrow> Some None
                 | Some None \<Rightarrow> queue_loop sigar env add_connection flags head (q_next inpcb) d
                 | Some (Some conn) \<Rightarrow>
                     (case add_connection d conn of
                        None \<Rightarrow> Some None
                      | Some (status, d1) \<Rightarrow>
                          if status \<noteq> SIGAR_OK then Some (Some d1)
                          else queue_loop sigar env add_connection flags head (q_next inpcb) d1))))"

text \<open>The head of the queue lies in the table at the offset noted when the library was opened.\<close>

definition netbsd_net_connection_get ::
  "bsd_sigar \<Rightarrow> queue_env \<Rightarrow> 'd conn_walker \<Rightarrow> nat \<Rightarrow> nat \<Rightarrow> 'd \<Rightarrow> (status \<times> 'd) ub option" where
  "netbsd_net_connection_get sigar env add_connection flags proto d =
     (if proto \<noteq> IPPROTO_TCP then Some (Some (SIGAR_ENOTIMPL, d))
      else
        (case (if bs_kmem sigar then cell (bs_koffsets sigar) 3 else Some 0) of
           None \<Rightarrow> Some None
         | Some offset \<Rightarrow>
             (case netbsd_kread sigar (qe_table env) offset of
                Inl status \<Rightarrow> Some (Some (status, d))
              | Inr first \<Rightarrow>
                  map_option (map_option (Pair SIGAR_OK))
                    (queue_loop sigar env add_connection flags (offset + qe_queue env) first d))))"

text \<open>\<open>sigar_net_connection_walk\<close> over the \<open>net_connection_get\<close> of a platform.\<close>

definition walk_protocols :: "(nat \<Rightarrow> 'd \<Rightarrow> (status \<times> 'd) ub option) \<Rightarrow> nat \<Rightarrow> 'd \<Rightarrow> (status \<times> 'd) ub option" where
  "walk_protocols get flags d =
     (case (if flags AND SIGAR_NETCONN_TCP \<noteq> 0 then get IPPROTO_TCP d else Some (Some (SIGAR_OK, d))) of
        None \<Rightarrow> None
      | Some None \<Rightarrow> Some None
      | Some (Some (status, d1)) \<Rightarrow>
          if status \<noteq> SIGAR_OK then Some (Some (status, d1))
          else if flags AND SIGAR_NETCONN_UDP \<noteq> 0 then get IPPROTO_UDP d1
          else Some (Some (SIGAR_OK, d1)))"

lemma walk_protocols_freebsd:
  "walk_protocols (\<lambda>proto d. Some (freebsd_net_connection_get env add flags proto d)) flags d = Some (freebsd_net_connection_walk env add flags d)"
  by (auto simp: walk_protocols_def freebsd_net_connection_walk_def split: option.split prod.split)

definition openbsd_net_connection_walk :: "nat \<Rightarrow> 'd \<Rightarrow> (status \<times> 'd) ub option" where
  "openbsd_net_connection_walk = walk_protocols (\<lambda>proto d. Some (Some (openbsd_net_connection_get d)))"

definition netbsd_net_connection_walk ::
  "bsd_sigar \<Rightarrow> queue_env \<Rightarrow> 'd conn_walker \<Rightarrow> nat \<Rightarrow> 'd \<Rightarrow> (status \<times> 'd) ub option" where
  "netbsd_net_connection_walk sigar env add_connection flags = walk_protocols (netbsd_net_connection_get sigar env add_connection flags) flags"

text \<open>\<open>sigar_proc_port_get\<close> is not implemented on either system.\<close>

definition openbsd_proc_port_get :: status where
  "openbsd_proc_port_get = SIGAR_ENOTIMPL"

definition netbsd_proc_port_get :: status where
  "netbsd_proc_port_get = SIGAR_ENOTIMPL"

text \<open>The processes behind the local ports of a list; an entry that was not written is undefined.\<close>

definition note_owners ::
  "(uint64 \<Rightarrow> status + pid) \<Rightarrow> sigar_net_connection clist \<Rightarrow> sigar_net_connection clist ub" where
  "note_owners proc_port_get l =
     map_option (\<lambda>conns. l\<lparr>l_data := map (\<lambda>conn. Some (case proc_port_get (nc_local_port conn) of Inl _ \<Rightarrow> conn | Inr pid \<Rightarrow> conn\<lparr>nc_pid := pid\<rparr>)) conns
         @ drop (l_number l) (l_data l)\<rparr>)
       (those (take (l_number l) (l_data l)))"

definition listeners_of ::
  "(uint64 \<Rightarrow> status + pid) \<Rightarrow> (status \<times> sigar_net_connection clist) ub option \<Rightarrow> (status \<times> sigar_net_connection clist) ub option" where
  "listeners_of proc_port_get =
     map_option (\<lambda>r. Option.bind r (\<lambda>(status, l).
       if status \<noteq> SIGAR_OK then Some (status, l) else map_option (Pair SIGAR_OK) (note_owners proc_port_get l)))"

definition openbsd_net_listeners_get :: "nat \<Rightarrow> sigar_net_connection clist \<Rightarrow> (status \<times> sigar_net_connection clist) ub option" where
  "openbsd_net_listeners_get flags connlist = listeners_of (\<lambda>port. Inl openbsd_proc_port_get) (openbsd_net_connection_walk flags connlist)"

definition netbsd_net_listeners_get ::
  "bsd_sigar \<Rightarrow> queue_env \<Rightarrow> sigar_net_connection clist conn_walker \<Rightarrow> nat \<Rightarrow> sigar_net_connection clist \<Rightarrow>
   (status \<times> sigar_net_connection clist) ub option" where
  "netbsd_net_listeners_get sigar env add_connection flags connlist =
     listeners_of (\<lambda>port. Inl netbsd_proc_port_get) (netbsd_net_connection_walk sigar env add_connection flags connlist)"

section \<open>TCP and NFS counters\<close>

text \<open>The counters of OpenBSD have 32 bits; differences and sums wrap there before they are widened.\<close>

record tcpstat32 =
  tcps32_connattempt :: uint32
  tcps32_accepts :: uint32
  tcps32_conndrops :: uint32
  tcps32_drops :: uint32
  tcps32_rcvtotal :: uint32
  tcps32_sndtotal :: uint32
  tcps32_sndrexmitpack :: uint32
  tcps32_rcvbadsum :: uint32
  tcps32_rcvbadoff :: uint32
  tcps32_rcvmemdrop :: uint32
  tcps32_rcvshort :: uint32

definition kernel_tcpstat :: "bsd_sigar \<Rightarrow> 'a kvm \<Rightarrow> (status + 'a) ub" where
  "kernel_tcpstat sigar kvm_read =
     map_option (openbsd_kread sigar kvm_read) (if bs_kmem sigar then cell (bs_koffsets sigar) 2 else Some 0)"

definition openbsd_tcp_get ::
  "tcpstat32 kvm \<Rightarrow> (nat \<Rightarrow> status \<times> sigar_net_connection list) \<Rightarrow> bsd_sigar \<Rightarrow> sigar_tcp \<Rightarrow> (status \<times> sigar_tcp) ub" where
  "openbsd_tcp_get kvm_read walk sigar tcp =
     map_option (\<lambda>r.
       (case r of
          Inl status \<Rightarrow> (status, tcp)
        | Inr mib \<Rightarrow>
            (SIGAR_OK, \<lparr>tcp_active_opens = ucast (tcps32_connattempt mib), tcp_passive_opens = ucast (tcps32_accepts mib),
               tcp_attempt_fails = ucast (tcps32_conndrops mib), tcp_estab_resets = ucast (tcps32_drops mib),
               tcp_curr_estab = (case sigar_tcp_curr_estab walk of (st, n) \<Rightarrow> if st \<noteq> SIGAR_OK then - 1 else n),
               tcp_in_segs = ucast (tcps32_rcvtotal mib), tcp_out_segs = ucast (tcps32_sndtotal mib - tcps32_sndrexmitpack mib),
               tcp_retrans_segs = ucast (tcps32_sndrexmitpack mib),
               tcp_in_errs = ucast (tcps32_rcvbadsum mib + tcps32_rcvbadoff mib + tcps32_rcvmemdrop mib + tcps32_rcvshort mib),
               tcp_out_rsts = - 1\<rparr>)))
       (kernel_tcpstat sigar kvm_read)"

text \<open>NetBSD's have 64 bits; what follows the read is the text of FreeBSD.\<close>

definition netbsd_tcp_get ::
  "tcpstat kvm \<Rightarrow> (nat \<Rightarrow> status \<times> sigar_net_connection list) \<Rightarrow> bsd_sigar \<Rightarrow> sigar_tcp \<Rightarrow> (status \<times> sigar_tcp) ub" where
  "netbsd_tcp_get kvm_read walk sigar tcp = map_option (\<lambda>r. freebsd_tcp_get r walk tcp) (kernel_tcpstat sigar kvm_read)"

text \<open>The counters of clients and of the server come in one structure: \<open>int\<close>s on NetBSD, 64 bits on OpenBSD.\<close>

definition openbsd_get_nfsstats :: "(status + 'a list \<times> 'a list) \<Rightarrow> status + 'a list \<times> 'a list" where
  "openbsd_get_nfsstats sysctl = sysctl"

definition netbsd_get_nfsstats :: "(status + 'a list \<times> 'a list) \<Rightarrow> status + 'a list \<times> 'a list" where
  "netbsd_get_nfsstats sysctl = sysctl"

definition openbsd_map_nfs_stats :: "uint64 list \<Rightarrow> sigar_nfs_v3 ub" where
  "openbsd_map_nfs_stats rpc =
     (if length rpc < 22 then None
      else Some \<lparr>nfs3_null = rpc ! 0, nfs3_getattr = rpc ! 1, nfs3_setattr = rpc ! 2, nfs3_lookup = rpc ! 3, nfs3_access = rpc ! 4,
        nfs3_readlink = rpc ! 5, nfs3_read = rpc ! 6, nfs3_write = rpc ! 7, nfs3_create = rpc ! 8, nfs3_mkdir = rpc ! 9, nfs3_symlink = rpc ! 10,
        nfs3_mknod = rpc ! 11, nfs3_remove = rpc ! 12, nfs3_rmdir = rpc ! 13, nfs3_rename = rpc ! 14, nfs3_link = rpc ! 15,
        nfs3_readdir = rpc ! 16, nfs3_readdirplus = rpc ! 17, nfs3_fsstat = rpc ! 18, nfs3_fsinfo = rpc ! 19, nfs3_pathconf = rpc ! 20,
        nfs3_commit = rpc ! 21\<rparr>)"

definition netbsd_map_nfs_stats :: "uint32 list \<Rightarrow> sigar_nfs_v3 ub" where
  "netbsd_map_nfs_stats = map_nfs_stats"

definition openbsd_nfs_client_v3_get :: "(status + uint64 list \<times> uint64 list) \<Rightarrow> (status + sigar_nfs_v3) ub" where
  "openbsd_nfs_client_v3_get sysctl =
     (case openbsd_get_nfsstats sysctl of
        Inl status \<Rightarrow> Some (Inl status) | Inr (rpccnt, srvrpccnt) \<Rightarrow> map_option Inr (openbsd_map_nfs_stats rpccnt))"

definition openbsd_nfs_server_v3_get :: "(status + uint64 list \<times> uint64 list) \<Rightarrow> (status + sigar_nfs_v3) ub" where
  "openbsd_nfs_server_v3_get sysctl =
     (case openbsd_get_nfsstats sysctl of
        Inl status \<Rightarrow> Some (Inl status) | Inr (rpccnt, srvrpccnt) \<Rightarrow> map_option Inr (openbsd_map_nfs_stats srvrpccnt))"

definition netbsd_nfs_client_v3_get :: "(status + uint32 list \<times> uint32 list) \<Rightarrow> (status + sigar_nfs_v3) ub" where
  "netbsd_nfs_client_v3_get sysctl =
     (case netbsd_get_nfsstats sysctl of
        Inl status \<Rightarrow> Some (Inl status) | Inr (rpccnt, srvrpccnt) \<Rightarrow> map_option Inr (netbsd_map_nfs_stats rpccnt))"

definition netbsd_nfs_server_v3_get :: "(status + uint32 list \<times> uint32 list) \<Rightarrow> (status + sigar_nfs_v3) ub" where
  "netbsd_nfs_server_v3_get sysctl =
     (case netbsd_get_nfsstats sysctl of
        Inl status \<Rightarrow> Some (Inl status) | Inr (rpccnt, srvrpccnt) \<Rightarrow> map_option Inr (netbsd_map_nfs_stats srvrpccnt))"

definition openbsd_nfs_client_v2_get :: status where
  "openbsd_nfs_client_v2_get = SIGAR_ENOTIMPL"

definition netbsd_nfs_client_v2_get :: status where
  "netbsd_nfs_client_v2_get = SIGAR_ENOTIMPL"

definition openbsd_nfs_server_v2_get :: status where
  "openbsd_nfs_server_v2_get = SIGAR_ENOTIMPL"

definition netbsd_nfs_server_v2_get :: status where
  "netbsd_nfs_server_v2_get = SIGAR_ENOTIMPL"

section \<open>Routing messages\<close>

text \<open>The sizes of the headers and the number of the interface message are those of the platform's layout.\<close>

definition openbsd_net_route_list_get :: "rt_layout \<Rightarrow> (nat \<Rightarrow> string option) \<Rightarrow> (status + nat list) \<Rightarrow> (status \<times> sigar_net_route clist) ub option" where
  "openbsd_net_route_list_get = freebsd_net_route_list_get"

definition netbsd_net_route_list_get :: "rt_layout \<Rightarrow> (nat \<Rightarrow> string option) \<Rightarrow> (status + nat list) \<Rightarrow> (status \<times> sigar_net_route clist) ub option" where
  "netbsd_net_route_list_get = freebsd_net_route_list_get"

definition openbsd_get_hw_type :: "nat \<Rightarrow> string" where
  "openbsd_get_hw_type = freebsd_get_hw_type"

definition netbsd_get_hw_type :: "nat \<Rightarrow> string" where
  "netbsd_get_hw_type = freebsd_get_hw_type"

definition openbsd_arp_list_get :: "rt_layout \<Rightarrow> (nat \<Rightarrow> string option) \<Rightarrow> sigar_arp \<Rightarrow> (status + nat list) \<Rightarrow> (status \<times> sigar_arp clist option) ub option" where
  "openbsd_arp_list_get = freebsd_arp_list_get"

definition netbsd_arp_list_get :: "rt_layout \<Rightarrow> (nat \<Rightarrow> string option) \<Rightarrow> sigar_arp \<Rightarrow> (status + nat list) \<Rightarrow> (status \<times> sigar_arp clist option) ub option" where
  "netbsd_arp_list_get = freebsd_arp_list_get"

definition openbsd_ifmsg_init :: "(nat \<Rightarrow> nat list) \<Rightarrow> (status + nat) \<Rightarrow> (nat \<Rightarrow> status + nat list) \<Rightarrow> nat list \<Rightarrow> status \<times> nat list" where
  "openbsd_ifmsg_init = sigar_ifmsg_init"

definition netbsd_ifmsg_init :: "(nat \<Rightarrow> nat list) \<Rightarrow> (status + nat) \<Rightarrow> (nat \<Rightarrow> status + nat list) \<Rightarrow> nat list \<Rightarrow> status \<times> nat list" where
  "netbsd_ifmsg_init = sigar_ifmsg_init"

definition openbsd_has_ifaddr :: "status option \<Rightarrow> (string \<Rightarrow> status + uint32) \<Rightarrow> string \<Rightarrow> status" where
  "openbsd_has_ifaddr = has_ifaddr"

definition netbsd_has_ifaddr :: "status option \<Rightarrow> (string \<Rightarrow> status + uint32) \<Rightarrow> string \<Rightarrow> status" where
  "netbsd_has_ifaddr = has_ifaddr"

definition openbsd_ifmsg_iter :: "if_layout \<Rightarrow> (string \<Rightarrow> status) \<Rightarrow> nat list \<Rightarrow> ifmsg_iter \<Rightarrow> (status \<times> ifmsg_result) ub option" where
  "openbsd_ifmsg_iter = sigar_ifmsg_iter"

definition netbsd_ifmsg_iter :: "if_layout \<Rightarrow> (string \<Rightarrow> status) \<Rightarrow> nat list \<Rightarrow> ifmsg_iter \<Rightarrow> (status \<times> ifmsg_result) ub option" where
  "netbsd_ifmsg_iter = sigar_ifmsg_iter"

definition openbsd_net_interface_list_get ::
  "(nat \<Rightarrow> nat list) \<Rightarrow> (status + nat) \<Rightarrow> (nat \<Rightarrow> status + nat list) \<Rightarrow> if_layout \<Rightarrow> (string \<Rightarrow> status) \<Rightarrow> nat list \<Rightarrow>
   (status \<times> string clist option \<times> nat list) ub option" where
  "openbsd_net_interface_list_get = freebsd_net_interface_list_get"

definition netbsd_net_interface_list_get ::
  "(nat \<Rightarrow> nat list) \<Rightarrow> (status + nat) \<Rightarrow> (nat \<Rightarrow> status + nat list) \<Rightarrow> if_layout \<Rightarrow> (string \<Rightarrow> status) \<Rightarrow> nat list \<Rightarrow>
   (status \<times> string clist option \<times> nat list) ub option" where
  "netbsd_net_interface_list_get = freebsd_net_interface_list_get"

definition openbsd_in6_prefixlen :: "nat list \<Rightarrow> nat" where
  "openbsd_in6_prefixlen = sigar_in6_prefixlen"

definition netbsd_in6_prefixlen :: "nat list \<Rightarrow> nat" where
  "netbsd_in6_prefixlen = sigar_in6_prefixlen"

definition openbsd_ipv6_config_get :: "(status + ifaddr6 list) \<Rightarrow> string \<Rightarrow> sigar_net_interface_config \<Rightarrow> status \<times> sigar_net_interface_config" where
  "openbsd_ipv6_config_get = freebsd_ipv6_config_get"

definition netbsd_ipv6_config_get :: "(status + ifaddr6 list) \<Rightarrow> string \<Rightarrow> sigar_net_interface_config \<Rightarrow> status \<times> sigar_net_interface_config" where
  "netbsd_ipv6_config_get = freebsd_ipv6_config_get"

definition openbsd_net_interface_config_get ::
  "(nat \<Rightarrow> nat list) \<Rightarrow> (status + nat) \<Rightarrow> (nat \<Rightarrow> status + nat list) \<Rightarrow> if_layout \<Rightarrow> (string \<Rightarrow> status) \<Rightarrow> if_ioctls \<Rightarrow> (status + ifaddr6 list) \<Rightarrow>
   status option \<Rightarrow> nat list \<Rightarrow> string \<Rightarrow> ((status + sigar_net_interface_config) \<times> nat list) ub option" where
  "openbsd_net_interface_config_get = freebsd_net_interface_config_get"

definition netbsd_net_interface_config_get ::
  "(nat \<Rightarrow> nat list) \<Rightarrow> (status + nat) \<Rightarrow> (nat \<Rightarrow> status + nat list) \<Rightarrow> if_layout \<Rightarrow> (string \<Rightarrow> status) \<Rightarrow> if_ioctls \<Rightarrow> (status + ifaddr6 list) \<Rightarrow>
   status option \<Rightarrow> nat list \<Rightarrow> string \<Rightarrow> ((status + sigar_net_interface_config) \<times> nat list) ub option" where
  "netbsd_net_interface_config_get = freebsd_net_interface_config_get"

definition openbsd_net_interface_stat_get ::
  "(nat \<Rightarrow> nat list) \<Rightarrow> (status + nat) \<Rightarrow> (nat \<Rightarrow> status + nat list) \<Rightarrow> if_layout \<Rightarrow> (string \<Rightarrow> status) \<Rightarrow> nat list \<Rightarrow> string \<Rightarrow>
   ((status + sigar_net_interface_stat) \<times> nat list) ub option" where
  "openbsd_net_interface_stat_get = freebsd_net_interface_stat_get"

definition netbsd_net_interface_stat_get ::
  "(nat \<Rightarrow> nat list) \<Rightarrow> (status + nat) \<Rightarrow> (nat \<Rightarrow> status + nat list) \<Rightarrow> if_layout \<Rightarrow> (string \<Rightarrow> status) \<Rightarrow> nat list \<Rightarrow> string \<Rightarrow>
   ((status + sigar_net_interface_stat) \<times> nat list) ub option" where
  "netbsd_net_interface_stat_get = freebsd_net_interface_stat_get"

section \<open>File systems\<close>

definition openbsd_os_fs_type_get :: "sigar_file_system \<Rightarrow> sigar_file_system" where
  "openbsd_os_fs_type_get = freebsd_os_fs_type_get"

definition netbsd_os_fs_type_get :: "sigar_file_system \<Rightarrow> sigar_file_system" where
  "netbsd_os_fs_type_get = freebsd_os_fs_type_get"

definition openbsd_get_fs_options :: "(string \<Rightarrow> uint64) \<Rightarrow> nat \<Rightarrow> uint64 \<Rightarrow> string" where
  "openbsd_get_fs_options = get_fs_options"

definition netbsd_get_fs_options :: "(string \<Rightarrow> uint64) \<Rightarrow> nat \<Rightarrow> uint64 \<Rightarrow> string" where
  "netbsd_get_fs_options = get_fs_options"

definition openbsd_file_system_list_get :: "(string \<Rightarrow> uint64) \<Rightarrow> (status + statfs list) \<Rightarrow> (status \<times> sigar_file_system clist option) ub" where
  "openbsd_file_system_list_get = freebsd_file_system_list_get"

definition netbsd_file_system_list_get :: "(string \<Rightarrow> uint64) \<Rightarrow> (status + statfs list) \<Rightarrow> (status \<times> sigar_file_system clist option) ub" where
  "netbsd_file_system_list_get = freebsd_file_system_list_get"

text \<open>\<open>init\<close> is what \<open>SIGAR_DISK_STATS_INIT\<close> leaves.\<close>

definition openbsd_disk_usage_get :: "sigar_disk_usage \<Rightarrow> status \<times> sigar_disk_usage" where
  "openbsd_disk_usage_get init = (SIGAR_ENOTIMPL, init)"

definition netbsd_disk_usage_get :: "sigar_disk_usage \<Rightarrow> status \<times> sigar_disk_usage" where
  "netbsd_disk_usage_get = openbsd_disk_usage_get"

definition openbsd_file_system_usage_get ::
  "rounding \<Rightarrow> sigar_disk_usage \<Rightarrow> (string \<Rightarrow> status + statvfs) \<Rightarrow> string \<Rightarrow> sigar_file_system_usage \<Rightarrow> status \<times> sigar_file_system_usage" where
  "openbsd_file_system_usage_get rnd init statvfs dirname fsusage =
     (case sigar_statvfs statvfs dirname fsusage of
        (status, fsusage1) \<Rightarrow>
          if status \<noteq> SIGAR_OK then (status, fsusage1)
          else (SIGAR_OK, fsusage1\<lparr>fs_use_percent := sigar_file_system_usage_calc_used rnd fsusage1, fs_disk := snd (openbsd_disk_usage_get init)\<rparr>))"

definition netbsd_file_system_usage_get ::
  "rounding \<Rightarrow> sigar_disk_usage \<Rightarrow> (string \<Rightarrow> status + statvfs) \<Rightarrow> string \<Rightarrow> sigar_file_system_usage \<Rightarrow> status \<times> sigar_file_system_usage" where
  "netbsd_file_system_usage_get = openbsd_file_system_usage_get"

section \<open>Properties\<close>

text \<open>The queue as a path of readable blocks from its first one back to its head.\<close>

fun queue_path :: "(uint64 \<Rightarrow> status + queue_pcb) \<Rightarrow> uint64 \<Rightarrow> uint64 \<Rightarrow> queue_pcb list \<Rightarrow> bool" where
  "queue_path read head first [] \<longleftrightarrow> first = head"
| "queue_path read head first (p # ps) \<longleftrightarrow> first \<noteq> head \<and> read first = Inr p \<and> queue_path read head (q_next p) ps"

text \<open>A block with the socket and the state its pointers lead to.\<close>

definition block_ok :: "queue_env \<Rightarrow> queue_pcb \<times> ksocket \<times> nat \<Rightarrow> bool" where
  "block_ok env b \<longleftrightarrow> (case b of (p, so, st) \<Rightarrow> qe_socket env (q_socket p) = Inr so \<and> qe_state env (q_ppcb p) = Inr st)"

definition queue_conns :: "nat \<Rightarrow> (queue_pcb \<times> ksocket \<times> nat) list \<Rightarrow> sigar_net_connection list" where
  "queue_conns flags bs = map (\<lambda>(p, so, st). queue_conn p so st) (filter (\<lambda>(p, so, st). queue_wanted flags so \<and> q_af p \<noteq> 24) bs)"

lemma netbsd_kread_kmem [simp]: "bs_kmem sigar \<Longrightarrow> netbsd_kread sigar kvm = kvm"
  by (simp add: fun_eq_iff netbsd_kread_def openbsd_kread_def)

lemma no_direction: "flags AND (SIGAR_NETCONN_SERVER OR SIGAR_NETCONN_CLIENT) = 0 \<Longrightarrow> \<not> queue_wanted flags so"
proof -
  assume z: "flags AND (SIGAR_NETCONN_SERVER OR SIGAR_NETCONN_CLIENT) = 0"
  have "flags AND 2 = (flags AND 3) AND 2" "flags AND 1 = (flags AND 3) AND 1" unfolding and.assoc by simp_all
  moreover have "flags AND 3 = 0" using z by simp
  ultimately have "flags AND 2 = 0" "flags AND 1 = 0" by simp_all
  then show "\<not> queue_wanted flags so" unfolding queue_wanted_def by blast
qed

lemma queue_step_block:
  assumes "bs_kmem sigar" and "block_ok env (p, so, st)"
  shows "queue_step sigar env flags p = Some (if queue_wanted flags so \<and> q_af p \<noteq> 24 then Some (queue_conn p so st) else None)"
  using assms no_direction [of flags so] by (auto simp: queue_step_def block_ok_def)

lemma queue_loop_path:
  assumes "bs_kmem sigar" and "queue_path (qe_pcb env) head first (map fst bs)" and "list_all (block_ok env) bs"
  shows "queue_loop sigar env add flags head first d = Some (walk_until add (queue_conns flags bs) d)"
  using assms(2,3)
proof (induction bs arbitrary: first d)
  case Nil
  then show ?case by (subst queue_loop.simps) (simp add: queue_conns_def)
next
  case (Cons b bs)
  obtain p so st where b: "b = (p, so, st)" by (cases b)
  from Cons.prems have n: "first \<noteq> head" "qe_pcb env first = Inr p" "queue_path (qe_pcb env) head (q_next p) (map fst bs)"
    and ok: "block_ok env (p, so, st)" "list_all (block_ok env) bs" by (simp_all add: b)
  note IH = Cons.IH [OF n(3) ok(2)]
  show ?case
    by (subst queue_loop.simps)
      (auto simp: assms(1) n IH queue_step_block [OF assms(1) ok(1)] queue_conns_def b split: option.split)
qed

text \<open>C39: connections on NetBSD. When the queue of TCP control blocks leads back to its head and every block's socket and
  state can be read, \<open>sigar_net_connection_walk\<close> for TCP returns OK and hands the callback exactly the wanted IPv4
  connections in queue order; when UDP is asked for as well, the callback gets the same and the walk fails with
  \<open>SIGAR_ENOTIMPL\<close>.\<close>

theorem netbsd_walk_delivers_queue:
  assumes "bs_kmem sigar" and "bs_koffsets sigar = [cp_time, cnt, tcps, offset]" and "qe_table env offset = Inr first"
    and "queue_path (qe_pcb env) (offset + qe_queue env) first (map fst bs)" and "list_all (block_ok env) bs"
    and "flags AND SIGAR_NETCONN_TCP \<noteq> 0"
  shows "netbsd_net_connection_walk sigar env add flags d =
    Some (map_option (Pair (if flags AND SIGAR_NETCONN_UDP = 0 then SIGAR_OK else SIGAR_ENOTIMPL)) (walk_until add (queue_conns flags bs) d))"
proof -
  have t: "netbsd_net_connection_get sigar env add flags IPPROTO_TCP d =
      Some (map_option (Pair SIGAR_OK) (walk_until add (queue_conns flags bs) d))"
    using assms(1-3) by (simp add: netbsd_net_connection_get_def cell_def queue_loop_path [OF assms(1,4,5)])
  have u: "netbsd_net_connection_get sigar env add flags IPPROTO_UDP d1 = Some (Some (SIGAR_ENOTIMPL, d1))" for d1
    by (simp add: netbsd_net_connection_get_def)
  show ?thesis using assms(6)
    by (cases "walk_until add (queue_conns flags bs) d") (simp_all add: netbsd_net_connection_walk_def walk_protocols_def t u)
qed

definition example_queue :: queue_env where
  "example_queue = \<lparr>qe_queue = 4, qe_table = (\<lambda>a. Inr 100),
     qe_pcb = (\<lambda>a. if a = 100 then Inr \<lparr>q_next = 200, q_socket = 1, q_ppcb = 1, q_af = 2, q_laddr = 0, q_faddr = 0, q_lport = 0x5000, q_fport = 0x1600\<rparr>
       else if a = 200 then Inr \<lparr>q_next = 28, q_socket = 2, q_ppcb = 2, q_af = 2, q_laddr = 0, q_faddr = 0, q_lport = 0x1600, q_fport = 0\<rparr> else Inl 14),
     qe_socket = (\<lambda>a. Inr \<lparr>so_qlimit = (if a = 2 then 5 else 0), so_rcv_cc = 0, so_snd_cc = 0, so_pgid = 0\<rparr>), qe_state = (\<lambda>a. Inr (if a = 2 then 1 else 4))\<rparr>"

theorem netbsd_walk_delivers_queue_witness:
  "netbsd_net_connection_walk example_bsd example_queue (\<lambda>d c. Some (SIGAR_OK, d @ [(nc_local_port c, nc_remote_port c)])) 0x32 []
    = Some (Some (SIGAR_ENOTIMPL, [(22, 0)]))"
  by (subst netbsd_walk_delivers_queue [where offset = 24 and first = 100 and cp_time = 0 and cnt = 8 and tcps = 16
      and bs = "[(\<lparr>q_next = 200, q_socket = 1, q_ppcb = 1, q_af = 2, q_laddr = 0, q_faddr = 0, q_lport = 0x5000, q_fport = 0x1600\<rparr>,
          \<lparr>so_qlimit = 0, so_rcv_cc = 0, so_snd_cc = 0, so_pgid = 0\<rparr>, 4),
        (\<lparr>q_next = 28, q_socket = 2, q_ppcb = 2, q_af = 2, q_laddr = 0, q_faddr = 0, q_lport = 0x1600, q_fport = 0\<rparr>,
          \<lparr>so_qlimit = 5, so_rcv_cc = 0, so_snd_cc = 0, so_pgid = 0\<rparr>, 1)]"])
    (simp_all add: example_bsd_def example_queue_def block_ok_def queue_conns_def queue_wanted_def queue_conn_def ntohs_def)

end
