(* ===== verification/Spec2Isabelle.thy ===== *)
theory Spec2Isabelle
  imports Sigar_Lists Sigar_Cache Ptql_Spec Sigar_Rma Sigar_Format Sigar_Calc Sigar_Proc Sigar_Netstat Sigar_Netif Sigar_Fs Sigar_Elf Sigar_Signal Linux_Proc Linux_Vendor Uvm_Net
begin

text \<open>
  A model of the system information gatherer sigar and the proofs that its parts are correct. File
  names are relative to the directory \<open>src\<close> of the repository.

  \<^bold>\<open>The program.\<close> A client opens a handle (\<open>sigar_open\<close>, \<open>src/sigar.c\<close>) and asks it about memory, CPUs,
  processes, disks, file systems and the network. \<open>src/sigar.c\<close> holds the portable entry points and
  the growable result lists; it keeps samples of earlier calls in the hash tables of
  \<open>src/sigar_cache.c\<close> and asks the platform code under \<open>src/os\<close>. \<open>src/sigar_ptql.c\<close> is a query language
  over processes, \<open>src/sigar_format.c\<close> turns numbers and addresses into text, \<open>src/sigar_util.c\<close> holds
  string, file and calculation helpers, \<open>src/sigar_fileinfo.c\<close> file attributes, \<open>src/sigar_rma.c\<close> rolling
  averages, \<open>src/sigar_elf.c\<close> and \<open>src/sigar_signal.c\<close> two small tables.

  \<^bold>\<open>The theories.\<close>
  \<^item> \<open>Sigar_Prelude\<close>, \<open>Sigar_Double\<close>, \<open>Sigar_Types\<close>: integer widths, status codes, C strings and number
    scanning, doubles with an explicit rounding, the process structures.
  \<^item> \<open>Sigar_Lists\<close>: the ten list families; the locale \<open>growable\<close> is their contract (create, grow,
    destroy, and a fill loop that never writes outside the cells), interpreted on each family and on
    the branch list of queries.
  \<^item> \<open>Sigar_Cache\<close>: the chained hash table with rehashing and the expiry sweep. \<open>cache_inv\<close> is its
    invariant, \<open>cache_stored\<close> its abstraction to a finite map; get and find refine lookup, insertion and
    expiry of that map, every run of operations keeps the invariant, destroying frees each entry once.
    The locale \<open>id_cache\<close> states this for clients; \<open>Sigar_Table\<close> specialises it to tables that never
    expire (locale \<open>perm_table\<close>), used by service names, listening ports and devices.
  \<^item> \<open>Ptql_Ops\<close>, \<open>Ptql_Parse\<close>, \<open>Ptql_Match\<close>, \<open>Ptql_Spec\<close>: operators and attribute tables, parsing and
    typing of branches, matching and search, and the declarative meaning of a query. Creation never
    reaches an undefined table entry and yields typed queries; matching and both searches implement
    the meaning; parsing inverts printing.
  \<^item> \<open>Sigar_Util\<close>, \<open>Sigar_Procfs\<close>, \<open>Sigar_Calc\<close>, \<open>Sigar_Format\<close>, \<open>Sigar_Rma\<close>, \<open>Sigar_Elf\<close>, \<open>Sigar_Signal\<close>: the helper
    files, with the round trip of command lines, the exact process list, the bounds of percentages,
    the service table and the averages as the mean of the newest samples.
  \<^item> \<open>Sigar_Proc\<close>, \<open>Sigar_Netstat\<close>, \<open>Sigar_Netif\<close>, \<open>Sigar_Fileinfo\<close>, \<open>Sigar_Fs\<close>: the stateful entry points of
    \<open>src/sigar.c\<close>: percentages between two calls, counts over processes and connections, the
    interface list, host name, directory totals over a finite tree, devices behind mounts.
  \<^item> \<open>Linux_Scan\<close>, \<open>Linux_System\<close>, \<open>Linux_Proc\<close>, \<open>Linux_Netconn\<close>, \<open>Linux_Nettable\<close>, \<open>Linux_Netinfo\<close>, \<open>Linux_Disk\<close>,
    \<open>Linux_Vendor\<close>: all of \<open>src/os/linux/linux_sigar.c\<close>, and opening and closing the handle. The texts the
    kernel prints are given by printing functions, and the parsers recover what was printed: stat
    lines, socket tables, routes, disk rows, CPU and memory lines.
  \<^item> \<open>Freebsd_System\<close>, \<open>Freebsd_Proc\<close>, \<open>Freebsd_Route\<close>, \<open>Freebsd_Net\<close>: \<open>src/os/freebsd/freebsd_sigar.c\<close> as built on
    FreeBSD 7 (amd64). Routing dumps are byte sequences and the route list recovers their IPv4 routes;
    the owner of a port is found along kernel pointers; the theorems also state where swap sizes wrap,
    where cached process data is stale and when the argument loop stays inside its buffer.
  \<^item> \<open>Uvm_System\<close>, \<open>Uvm_Net\<close>: \<open>src/os/openbsd/openbsd_sigar.c\<close> as built on OpenBSD 5 and the NetBSD 4 branches of
    \<open>src/os/netbsd/netbsd_sigar.c\<close>. Functions that have the text of another platform's are defined as that
    platform's; the connections of NetBSD are those of the circular queue in kernel memory, and swap
    sizes are defined below 2 GiB only.


  \<^bold>\<open>How code becomes definitions.\<close> A struct is a record, a C string the list of its characters before
  the NUL, an integer a word of its width (LP64, little endian). A function that changes its
  argument returns it; a result list is an \<open>'a clist\<close> whose unwritten cells are \<open>None\<close>. Undefined
  behaviour is \<open>None\<close> of the type \<open>'a ub\<close>, so a theorem whose conclusion is \<open>Some\<close> also says that no
  array is left and no uninitialised value is used. Parsers that move a pointer use the state monad.
  The operating system and libc are parameters: contents of files, directory entries, \<open>stat\<close>,
  \<open>readlink\<close>, \<open>ioctl\<close>, the clock, \<open>cpuid\<close>, name lookups, \<open>sysctl\<close>; uninitialised locals are parameters
  too. Floating-point results go through a rounding function of which only monotonicity and
  exactness on small integers are assumed.

  \<^bold>\<open>Loops and bounds.\<close> Loops that step through data are structural or have a measure; the
  directory walk is measured by the room left in its path buffer. Loops of the code that may not end
  are partial functions whose \<open>None\<close> means exactly that: \<open>ifconf_loop\<close>, \<open>generic_loop\<close>, \<open>kv_loop\<close>,
  \<open>swap_info_loop\<close>, \<open>route_msg_loop\<close>, \<open>skip_addr_msgs\<close>, \<open>ifmsg_loop\<close>, \<open>tcb_loop\<close> and \<open>queue_loop\<close>; the theorems say when they
  return. The fuel of \<open>rma_walk\<close> is the number of samples in the ring and suffices.

  \<^bold>\<open>Not modelled.\<close> The platform files for Windows, Solaris, Darwin, AIX and HP-UX, which
  consist of calls to those systems' interfaces, and the programs under \<open>examples\<close> and \<open>tests\<close>. Log messages, \<open>sigar_cache_dump\<close>, the password
  prompt, the RPC ping itself and PCRE matching (a parameter) are left out, as are the Windows and
  NetWare branches of the portable files. Allocation is taken to succeed.
\<close>

end
